(* ===== verification/Prelude.thy ===== *)
theory Prelude
  imports Main "HOL-Library.Multiset" "HOL-Library.List_Lexorder" "HOL-Library.Char_ord"
begin

text \<open>
  Shared vocabulary of the development: results that are an error or a value, the part of
  JavaScript's numbers and strings the packages use, and the generic lemmas on lists that
  the component theories share.

  Conventions. A thrown error is \<open>Inl\<close> of its code (the human-readable message is not
  modelled), a returned value is \<open>Inr\<close>. A nullable or optional field is an \<open>option\<close>.
  A string is a HOL \<open>string\<close>: a list of UTF-16 code units of JavaScript, restricted to
  the code units 0 to 255. On that range trimming, lower-casing and NFC normalisation never
  leave it, so the string functions below are total on it and exact.
\<close>

named_theorems result_defs \<open>unfolding of the result combinators\<close>
named_theorems js_simps \<open>evaluation of JavaScript number and string primitives\<close>

section \<open>Results\<close>

type_synonym ('e, 'a) result = "'e + 'a"

definition bindR :: "('e, 'a) result \<Rightarrow> ('a \<Rightarrow> ('e, 'b) result) \<Rightarrow> ('e, 'b) result" where
  "bindR r k = (case r of Inl e \<Rightarrow> Inl e | Inr a \<Rightarrow> k a)"

definition mapErr :: "('e \<Rightarrow> 'f) \<Rightarrow> ('e, 'a) result \<Rightarrow> ('f, 'a) result" where
  "mapErr f r = (case r of Inl e \<Rightarrow> Inl (f e) | Inr a \<Rightarrow> Inr a)"

fun traverse :: "('a \<Rightarrow> ('e, 'b) result) \<Rightarrow> 'a list \<Rightarrow> ('e, 'b list) result" where
  "traverse f [] = Inr []"
| "traverse f (x # xs) = bindR (f x) (\<lambda>y. bindR (traverse f xs) (\<lambda>ys. Inr (y # ys)))"

lemma bindR_simps [simp, result_defs]:
  "bindR (Inl e) k = Inl e"
  "bindR (Inr a) k = k a"
  by (simp_all add: bindR_def)

lemma bindR_Inr_iff: "bindR r k = Inr b \<longleftrightarrow> (\<exists>a. r = Inr a \<and> k a = Inr b)"
  by (cases r) auto

lemma bindR_Inl_iff: "bindR r k = Inl e \<longleftrightarrow> r = Inl e \<or> (\<exists>a. r = Inr a \<and> k a = Inl e)"
  by (cases r) auto

lemma mapErr_simps [simp, result_defs]:
  "mapErr f (Inl e) = Inl (f e)"
  "mapErr f (Inr a) = Inr a"
  by (simp_all add: mapErr_def)

lemma mapErr_Inr_iff [simp]: "mapErr f r = Inr a \<longleftrightarrow> r = Inr a"
  by (cases r) auto

lemma mapErr_Inl_iff: "mapErr f r = Inl e \<longleftrightarrow> (\<exists>x. r = Inl x \<and> e = f x)"
  by (cases r) auto

definition is_ok :: "('e, 'a) result \<Rightarrow> bool" where
  "is_ok r = (case r of Inl _ \<Rightarrow> False | Inr _ \<Rightarrow> True)"

lemma is_ok_iff: "is_ok r \<longleftrightarrow> (\<exists>a. r = Inr a)"
  by (cases r) (auto simp: is_ok_def)

lemma traverse_Inr_iff: "traverse f xs = Inr ys \<longleftrightarrow> list_all2 (\<lambda>x y. f x = Inr y) xs ys"
  by (induction xs arbitrary: ys) (auto simp: bindR_Inr_iff list_all2_Cons1)

lemma traverse_length: "traverse f xs = Inr ys \<Longrightarrow> length ys = length xs"
  by (auto simp: traverse_Inr_iff dest: list_all2_lengthD)

section \<open>Numbers\<close>

text \<open>
  A value of TypeScript's type \<open>number\<close>. \<open>NFrac f\<close> stands for a number that is not an
  integer and whose floor is \<open>f\<close>: the code only ever compares such a number with integers,
  and the outcome of that comparison depends on the floor alone.
\<close>

datatype jsnum = NInt int | NFrac int | NNaN | NInf | NNegInf

definition max_safe_integer :: int where
  "max_safe_integer = 2 ^ 53 - 1"

fun is_integer_num :: "jsnum \<Rightarrow> bool" where
  "is_integer_num (NInt _) = True"
| "is_integer_num _ = False"

fun is_safe_integer :: "jsnum \<Rightarrow> bool" where
  "is_safe_integer (NInt n) = (\<bar>n\<bar> \<le> max_safe_integer)"
| "is_safe_integer _ = False"

text \<open>The comparison \<open>x < k\<close> with an integer \<open>k\<close>; every comparison with NaN is false.\<close>

fun num_less :: "jsnum \<Rightarrow> int \<Rightarrow> bool" where
  "num_less (NInt n) k = (n < k)"
| "num_less (NFrac f) k = (f < k)"
| "num_less NNaN k = False"
| "num_less NInf k = False"
| "num_less NNegInf k = True"

text \<open>The comparison \<open>x > k\<close> with an integer \<open>k\<close>.\<close>

fun num_greater :: "jsnum \<Rightarrow> int \<Rightarrow> bool" where
  "num_greater (NInt n) k = (n > k)"
| "num_greater (NFrac f) k = (f \<ge> k)"
| "num_greater NNaN k = False"
| "num_greater NInf k = True"
| "num_greater NNegInf k = False"

fun num_int :: "jsnum \<Rightarrow> int" where
  "num_int (NInt n) = n"
| "num_int _ = 0"

text \<open>
  Addition of integer-valued doubles: the exact sum rounded to 53 significant bits, ties to
  the even significand. \<open>js_add\<close> is exact while the sum stays within \<open>2^53\<close>.
\<close>

fun excess_bits :: "nat \<Rightarrow> nat" where
  "excess_bits n = (if n < 2 ^ 53 then 0 else Suc (excess_bits (n div 2)))"

declare excess_bits.simps [simp del]

definition round53 :: "nat \<Rightarrow> nat" where
  "round53 n =
     (let e = excess_bits n; q = n div 2 ^ e; r = n mod 2 ^ e; h = 2 ^ e
      in if 2 * r < h \<or> (2 * r = h \<and> even q) then q * h else (q + 1) * h)"

definition js_add :: "int \<Rightarrow> int \<Rightarrow> int" where
  "js_add a b = (let s = a + b in sgn s * int (round53 (nat \<bar>s\<bar>)))"

lemma round53_exact: "n < 2 ^ 53 \<Longrightarrow> round53 n = n"
  by (simp add: round53_def excess_bits.simps Let_def)

lemma js_add_exact: "\<bar>a + b\<bar> < 2 ^ 53 \<Longrightarrow> js_add a b = a + b"
proof -
  assume "\<bar>a + b\<bar> < 2 ^ 53"
  then have "nat \<bar>a + b\<bar> < 2 ^ 53" by (simp add: nat_less_iff)
  then show ?thesis by (simp add: js_add_def Let_def round53_exact sgn_mult_abs)
qed

lemma safe_integer_iff: "is_safe_integer x \<longleftrightarrow> (\<exists>n. x = NInt n \<and> \<bar>n\<bar> \<le> max_safe_integer)"
  by (cases x) auto

section \<open>Strings\<close>

definition code :: "char \<Rightarrow> nat" where
  "code c = of_char c"

text \<open>White space as \<open>String.prototype.trim\<close> and the regular-expression class \<open>\s\<close> see it.\<close>

definition js_ws :: "char \<Rightarrow> bool" where
  "js_ws c \<longleftrightarrow> (let n = code c in (9 \<le> n \<and> n \<le> 13) \<or> n = 32 \<or> n = 160)"

definition js_trim :: "string \<Rightarrow> string" where
  "js_trim s = rev (dropWhile js_ws (rev (dropWhile js_ws s)))"

definition lower_char :: "char \<Rightarrow> char" where
  "lower_char c = (let n = code c in
     if (65 \<le> n \<and> n \<le> 90) \<or> (192 \<le> n \<and> n \<le> 222 \<and> n \<noteq> 215) then char_of (n + 32) else c)"

definition js_lower :: "string \<Rightarrow> string" where
  "js_lower s = map lower_char s"

definition is_digit :: "char \<Rightarrow> bool" where
  "is_digit c \<longleftrightarrow> 48 \<le> code c \<and> code c \<le> 57"

definition is_lower_hex :: "char \<Rightarrow> bool" where
  "is_lower_hex c \<longleftrightarrow> is_digit c \<or> (97 \<le> code c \<and> code c \<le> 102)"

definition is_hex :: "char \<Rightarrow> bool" where
  "is_hex c \<longleftrightarrow> is_lower_hex c \<or> (65 \<le> code c \<and> code c \<le> 70)"

definition is_alpha :: "char \<Rightarrow> bool" where
  "is_alpha c \<longleftrightarrow> (65 \<le> code c \<and> code c \<le> 90) \<or> (97 \<le> code c \<and> code c \<le> 122)"

definition is_alnum :: "char \<Rightarrow> bool" where
  "is_alnum c \<longleftrightarrow> is_alpha c \<or> is_digit c"

text \<open>The pattern \<open>/^[0-9a-f]{64}$/\<close>, which several packages use for a SHA-256 digest.\<close>

definition is_sha256_hex :: "string \<Rightarrow> bool" where
  "is_sha256_hex s \<longleftrightarrow> length s = 64 \<and> list_all is_lower_hex s"

text \<open>The pattern \<open>/^[0-9a-f-]{36}$/i\<close>, which stands for a UUID.\<close>

definition is_uuid_text :: "string \<Rightarrow> bool" where
  "is_uuid_text s \<longleftrightarrow> length s = 36 \<and> list_all (\<lambda>c. is_hex c \<or> c = CHR ''-'') s"

definition digit_val :: "char \<Rightarrow> nat" where
  "digit_val c = code c - 48"

definition digit_char :: "nat \<Rightarrow> char" where
  "digit_char d = char_of (48 + d)"

definition starts_with :: "string \<Rightarrow> string \<Rightarrow> bool" where
  "starts_with p s \<longleftrightarrow> take (length p) s = p"

definition ends_with :: "string \<Rightarrow> string \<Rightarrow> bool" where
  "ends_with p s \<longleftrightarrow> starts_with (rev p) (rev s)"

fun contains_str :: "string \<Rightarrow> string \<Rightarrow> bool" where
  "contains_str p [] = (p = [])"
| "contains_str p (c # s) = (starts_with p (c # s) \<or> contains_str p s)"

text \<open>A value that JavaScript treats as false: \<open>undefined\<close>, \<open>null\<close> or the empty string.\<close>

definition falsy :: "string option \<Rightarrow> bool" where
  "falsy x \<longleftrightarrow> x = None \<or> x = Some []"

lemma falsy_simps [simp]: "falsy None" "falsy (Some s) \<longleftrightarrow> s = []"
  by (simp_all add: falsy_def)

lemma not_falsy_iff: "\<not> falsy x \<longleftrightarrow> (\<exists>s. x = Some s \<and> s \<noteq> [])"
  by (cases x) auto

lemma code_less: "code c < 256"
  by (simp add: code_def)

lemma code_char_of: "n < 256 \<Longrightarrow> code (char_of n) = n"
  by (simp add: code_def)

lemma digit_char_val: "d < 10 \<Longrightarrow> is_digit (digit_char d) \<and> digit_val (digit_char d) = d"
  by (simp add: is_digit_def digit_char_def digit_val_def code_char_of)

lemma digit_val_less: "is_digit c \<Longrightarrow> digit_val c < 10"
  by (auto simp: is_digit_def digit_val_def)

lemma digit_char_digit_val: "is_digit c \<Longrightarrow> digit_char (digit_val c) = c"
  by (auto simp: is_digit_def digit_val_def digit_char_def code_def)

lemma js_trim_empty [simp]: "js_trim [] = []"
  by (simp add: js_trim_def)

lemma js_lower_Nil [simp]: "js_lower [] = []"
  by (simp add: js_lower_def)

lemma length_js_lower [simp]: "length (js_lower s) = length s"
  by (simp add: js_lower_def)

lemma lower_char_idem [simp]: "lower_char (lower_char c) = lower_char c"
proof -
  have "code c < 256" by (rule code_less)
  then show ?thesis by (auto simp: lower_char_def Let_def code_char_of)
qed

lemma js_lower_idem [simp]: "js_lower (js_lower s) = js_lower s"
  by (simp add: js_lower_def comp_def)

lemma dropWhile_rev_fix: "xs = [] \<or> \<not> P (last xs) \<Longrightarrow> dropWhile P (rev xs) = rev xs"
  by (cases xs rule: rev_cases) auto

lemma js_trim_idem [simp]: "js_trim (js_trim s) = js_trim s"
proof -
  let ?a = "dropWhile js_ws s"
  let ?t = "dropWhile js_ws (rev ?a)"
  have t: "?t = [] \<or> \<not> js_ws (hd ?t)"
    using hd_dropWhile [of js_ws "rev ?a"] by blast
  have "dropWhile js_ws (rev ?t) = rev ?t"
  proof (cases "?t = []")
    case False
    obtain u where u: "rev ?a = u @ ?t" by (metis takeWhile_dropWhile_id)
    then have a: "?a = rev ?t @ rev u" by (metis rev_append rev_rev_ident)
    with False have "?a \<noteq> []" by (metis append_is_Nil_conv rev_is_Nil_conv)
    then have "\<not> js_ws (hd ?a)" by (rule hd_dropWhile)
    moreover have "hd ?a = hd (rev ?t)" by (subst a) (use False in simp)
    ultimately show ?thesis using False by (cases "rev ?t") auto
  next
    case True
    then show ?thesis by (simp only: True rev.simps dropWhile.simps)
  qed
  moreover have "dropWhile js_ws ?t = ?t"
    using t by (cases ?t) auto
  ultimately show ?thesis by (simp add: js_trim_def)
qed

lemma js_trim_Nil_iff: "js_trim s = [] \<longleftrightarrow> list_all js_ws s"
proof
  assume "js_trim s = []"
  then have "\<forall>c\<in>set (dropWhile js_ws s). js_ws c" by (simp add: js_trim_def)
  moreover have "\<forall>c\<in>set (takeWhile js_ws s). js_ws c" by (auto dest: set_takeWhileD)
  ultimately have "\<forall>c\<in>set (takeWhile js_ws s @ dropWhile js_ws s). js_ws c" unfolding set_append by blast
  then show "list_all js_ws s" by (simp add: list_all_iff)
next
  assume "list_all js_ws s"
  then have "\<forall>c\<in>set (dropWhile js_ws s). js_ws c" by (auto simp: list_all_iff dest: set_dropWhileD)
  then show "js_trim s = []" by (simp add: js_trim_def)
qed

section \<open>Lists\<close>

text \<open>\<open>new Set(xs).size !== xs.length\<close> is how the code asks whether a list has a duplicate.\<close>

definition has_duplicates :: "'a list \<Rightarrow> bool" where
  "has_duplicates xs \<longleftrightarrow> card (set xs) \<noteq> length xs"

lemma has_duplicates_iff [simp]: "has_duplicates xs \<longleftrightarrow> \<not> distinct xs"
  by (auto simp: has_duplicates_def card_distinct distinct_card)

lemma has_duplicates_code [code]: "has_duplicates xs = (\<not> distinct xs)"
  by simp

text \<open>First-occurrence duplicate removal, the order in which \<open>[...new Set(xs)]\<close> lists a set.\<close>

fun set_order :: "'a list \<Rightarrow> 'a list" where
  "set_order [] = []"
| "set_order (x # xs) = x # filter (\<lambda>y. y \<noteq> x) (set_order xs)"

lemma set_set_order [simp]: "set (set_order xs) = set xs"
  by (induction xs) auto

lemma distinct_set_order [simp]: "distinct (set_order xs)"
  by (induction xs) auto

lemma list_all2_in_left: "list_all2 P xs ys \<Longrightarrow> x \<in> set xs \<Longrightarrow> \<exists>y\<in>set ys. P x y"
  by (induction rule: list_all2_induct) auto

lemma list_all2_in_right: "list_all2 P xs ys \<Longrightarrow> y \<in> set ys \<Longrightarrow> \<exists>x\<in>set xs. P x y"
  by (induction rule: list_all2_induct) auto

lemma find_snoc: "find P xs = None \<Longrightarrow> P y \<Longrightarrow> find P (xs @ [y]) = Some y"
  by (induction xs) (auto split: if_splits)

lemma filter_eq_all: "filter P xs = [] \<longleftrightarrow> (\<forall>x\<in>set xs. \<not> P x)"
  by (simp add: filter_empty_conv)

lemma sort_key_mset_cong:
  assumes "mset xs = mset ys" and "inj_on f (set xs)"
  shows "sort_key f xs = sort_key f ys"
proof (rule properties_for_sort_key [symmetric])
  show "mset (sort_key f xs) = mset ys" using assms by simp
  show "sorted (map f (sort_key f xs))" by simp
  have st: "set xs = set ys" using assms(1) by (rule mset_eq_setD)
  fix k assume "k \<in> set (sort_key f xs)"
  then have "k \<in> set ys" using st by simp
  have "filter (\<lambda>y. f k = f y) (sort_key f xs) = filter (\<lambda>y. f k = f y) xs"
    by (simp add: sort_key_stable [of f "f k" xs] eq_commute [of "f k"])
  moreover have "filter (\<lambda>y. f k = f y) zs = replicate (count (mset zs) k) k"
    if "set zs = set ys" for zs
  proof -
    have "filter (\<lambda>y. f k = f y) zs = filter (\<lambda>y. k = y) zs"
      using that \<open>k \<in> set ys\<close> st assms(2) by (intro filter_cong) (auto dest: inj_onD)
    then show ?thesis by (simp add: filter_eq_replicate_mset replicate_count_mset_eq_filter_eq)
  qed
  ultimately show "filter (\<lambda>y. f k = f y) (sort_key f xs) = filter (\<lambda>y. f k = f y) ys"
    using assms(1) st by simp
qed

section \<open>Decimal numbers\<close>

fun pad_num :: "nat \<Rightarrow> nat \<Rightarrow> string" where
  "pad_num 0 n = []"
| "pad_num (Suc w) n = pad_num w (n div 10) @ [digit_char (n mod 10)]"

definition num_of :: "string \<Rightarrow> nat" where
  "num_of s = foldl (\<lambda>a c. 10 * a + digit_val c) 0 s"

definition take_digits :: "nat \<Rightarrow> string \<Rightarrow> (nat \<times> string) option" where
  "take_digits w s =
     (if length s \<ge> w \<and> list_all is_digit (take w s) then Some (num_of (take w s), drop w s) else None)"

lemma length_pad_num [simp]: "length (pad_num w n) = w"
  by (induction w arbitrary: n) auto

lemma pad_num_digits: "list_all is_digit (pad_num w n)"
  by (induction w arbitrary: n) (auto simp: digit_char_val)

lemma num_of_snoc [simp]: "num_of (s @ [c]) = 10 * num_of s + digit_val c"
  by (simp add: num_of_def)

lemma num_of_pad_num: "num_of (pad_num w n) = n mod 10 ^ w"
proof (induction w arbitrary: n)
  case 0
  show ?case by (simp add: num_of_def)
next
  case (Suc w)
  have "num_of (pad_num (Suc w) n) = 10 * ((n div 10) mod 10 ^ w) + n mod 10"
    by (simp add: Suc.IH digit_char_val)
  also have "\<dots> = n mod (10 * 10 ^ w)"
    by (simp add: mod_mult2_eq)
  finally show ?case by simp
qed

lemma take_digits_pad: "n < 10 ^ w \<Longrightarrow> take_digits w (pad_num w n @ r) = Some (n, r)"
  by (simp add: take_digits_def pad_num_digits num_of_pad_num)

lemma div_div: "n div 10 div 10 = n div (100::nat)" "n div 100 div 10 = n div (1000::nat)" "n div 10 div 100 = n div (1000::nat)"
  by (simp_all add: div_mult2_eq [symmetric])

lemma pad_num_eval:
  "pad_num 2 n = [digit_char (n div 10 mod 10), digit_char (n mod 10)]"
  "pad_num 3 n = [digit_char (n div 100 mod 10), digit_char (n div 10 mod 10), digit_char (n mod 10)]"
  "pad_num 4 n = [digit_char (n div 1000 mod 10), digit_char (n div 100 mod 10), digit_char (n div 10 mod 10), digit_char (n mod 10)]"
proof -
  have 1: "pad_num (Suc (Suc 0)) k = [digit_char (k div 10 mod 10), digit_char (k mod 10)]" for k
    by simp
  have 2: "pad_num (Suc (Suc (Suc 0))) k = [digit_char (k div 100 mod 10), digit_char (k div 10 mod 10), digit_char (k mod 10)]" for k
    by (subst pad_num.simps(2), subst 1) (simp add: div_div)
  have 3: "pad_num (Suc (Suc (Suc (Suc 0)))) k = [digit_char (k div 1000 mod 10), digit_char (k div 100 mod 10), digit_char (k div 10 mod 10), digit_char (k mod 10)]" for k
    by (subst pad_num.simps(2), subst 2) (simp add: div_div)
  have w: "2 = Suc (Suc 0)" "3 = Suc (Suc (Suc 0))" "4 = Suc (Suc (Suc (Suc 0)))" by simp_all
  show "pad_num 2 n = [digit_char (n div 10 mod 10), digit_char (n mod 10)]" unfolding w by (rule 1)
  show "pad_num 3 n = [digit_char (n div 100 mod 10), digit_char (n div 10 mod 10), digit_char (n mod 10)]"
    unfolding w by (rule 2)
  show "pad_num 4 n = [digit_char (n div 1000 mod 10), digit_char (n div 100 mod 10), digit_char (n div 10 mod 10), digit_char (n mod 10)]"
    unfolding w by (rule 3)
qed

text \<open>\<open>String(n)\<close> of an integer.\<close>

fun nat_str :: "nat \<Rightarrow> string" where
  "nat_str n = (if n < 10 then [digit_char n] else nat_str (n div 10) @ [digit_char (n mod 10)])"

declare nat_str.simps [simp del]

definition int_str :: "int \<Rightarrow> string" where
  "int_str i = (if i < 0 then CHR ''-'' # nat_str (nat (- i)) else nat_str (nat i))"

lemma num_of_nat_str [simp]: "num_of (nat_str n) = n"
proof (induction n rule: nat_str.induct)
  case (1 n)
  show ?case
  proof (cases "n < 10")
    case True
    then show ?thesis by (simp add: nat_str.simps [of n] num_of_def digit_char_val)
  next
    case False
    with 1 show ?thesis by (simp add: nat_str.simps [of n] digit_char_val)
  qed
qed

lemma nat_str_digits: "list_all is_digit (nat_str n)"
proof (induction n rule: nat_str.induct)
  case (1 n)
  then show ?case by (cases "n < 10") (simp_all add: nat_str.simps [of n] digit_char_val)
qed

lemma nat_str_nonempty [simp]: "nat_str n \<noteq> []"
  by (simp add: nat_str.simps [of n])

lemma nat_str_inj [simp]: "nat_str m = nat_str n \<longleftrightarrow> m = n"
  by (metis num_of_nat_str)

lemma hd_nat_str_digit: "is_digit (hd (nat_str n))"
  using nat_str_digits [of n] by (cases "nat_str n") auto

lemma minus_not_digit: "\<not> is_digit (CHR ''-'')"
  by (simp add: is_digit_def code_def)

lemma int_str_inj [simp]: "int_str i = int_str j \<longleftrightarrow> i = j"
proof
  assume e: "int_str i = int_str j"
  have h: "CHR ''-'' # u \<noteq> nat_str n" for u n
    using hd_nat_str_digit [of n] minus_not_digit by (metis list.sel(1))
  show "i = j" using e h h [symmetric] by (auto simp: int_str_def split: if_splits)
qed simp

end
