(* ===== verification/Js_Date.thy ===== *)
theory Js_Date
  imports Prelude
begin

text \<open>
  The part of ECMAScript's \<open>Date\<close> the packages use: \<open>Date.UTC\<close>, the calendar fields of a
  time value, \<open>Date.prototype.toISOString\<close> and \<open>Date.parse\<close> of the date-time string format of
  the standard. A time value is an \<open>int\<close>, milliseconds since 1970 in UTC. The day and year
  arithmetic is the standard's own (\<open>DayFromYear\<close>, \<open>YearFromTime\<close>, \<open>MakeDay\<close>, \<open>TimeClip\<close>).
  A string outside that format is not a date here (\<open>None\<close>, JavaScript's \<open>NaN\<close>); a date-time
  without an offset is read in UTC, the zone the services run in.
  The main fact is \<open>date_parse_iso\<close>: parsing what \<open>toISOString\<close> wrote gives the time back.
\<close>

section \<open>Days, years, months\<close>

definition day_from_year :: "int \<Rightarrow> int" where
  "day_from_year y = 365 * (y - 1970) + (y - 1969) div 4 - (y - 1901) div 100 + (y - 1601) div 400"

definition leap_year :: "int \<Rightarrow> bool" where
  "leap_year y \<longleftrightarrow> y mod 4 = 0 \<and> (y mod 100 \<noteq> 0 \<or> y mod 400 = 0)"

definition year_length :: "int \<Rightarrow> int" where
  "year_length y = (if leap_year y then 366 else 365)"

definition year_of_day :: "int \<Rightarrow> int" where
  "year_of_day d =
     (let g = 1970 + (400 * d) div 146097
      in if d < day_from_year g then g - 1 else if day_from_year (g + 1) \<le> d then g + 1 else g)"

text \<open>First day of a month (1 to 12) within its year.\<close>

definition month_start :: "bool \<Rightarrow> int \<Rightarrow> int" where
  "month_start l m =
     (if m = 1 then 0 else if m = 2 then 31 else
      (if l then 1 else 0) +
      (if m = 3 then 59 else if m = 4 then 90 else if m = 5 then 120 else if m = 6 then 151
       else if m = 7 then 181 else if m = 8 then 212 else if m = 9 then 243 else if m = 10 then 273
       else if m = 11 then 304 else 334))"

definition month_of :: "bool \<Rightarrow> int \<Rightarrow> int" where
  "month_of l k =
     (if k < month_start l 2 then 1 else if k < month_start l 3 then 2
      else if k < month_start l 4 then 3 else if k < month_start l 5 then 4
      else if k < month_start l 6 then 5 else if k < month_start l 7 then 6
      else if k < month_start l 8 then 7 else if k < month_start l 9 then 8
      else if k < month_start l 10 then 9 else if k < month_start l 11 then 10
      else if k < month_start l 12 then 11 else 12)"

text \<open>\<open>MakeDay\<close>: the month index counts from 0 and may lie outside 0 to 11.\<close>

definition make_day :: "int \<Rightarrow> int \<Rightarrow> int \<Rightarrow> int" where
  "make_day y mi d =
     (let y' = y + mi div 12; m = mi mod 12 + 1
      in day_from_year y' + month_start (leap_year y') m + d - 1)"

definition date_of_day :: "int \<Rightarrow> int \<times> int \<times> int" where
  "date_of_day d =
     (let y = year_of_day d; k = d - day_from_year y; m = month_of (leap_year y) k
      in (y, m, k - month_start (leap_year y) m + 1))"

lemma div_succ: "0 < (n::int) \<Longrightarrow> (z + 1) div n = z div n + (if (z + 1) mod n = 0 then 1 else 0)"
proof -
  assume n: "0 < n"
  define q where "q = z div n"
  define r where "r = z mod n"
  have z: "z = n * q + r" and r: "0 \<le> r" "r < n"
    using n by (simp_all add: q_def r_def)
  show ?thesis
  proof (cases "r + 1 = n")
    case True
    then have "z + 1 = n * (q + 1)" by (simp add: z algebra_simps)
    then have "(z + 1) div n = q + 1" "(z + 1) mod n = 0" using n by simp_all
    then show ?thesis by (simp add: q_def)
  next
    case False
    have e: "z + 1 = (r + 1) + n * q" by (simp add: z)
    have "(z + 1) div n = q" "(z + 1) mod n = r + 1"
      using False r n by (simp_all add: e)
    then show ?thesis using r by (simp add: q_def)
  qed
qed

lemma mod_shift: "(y - c) mod n = 0 \<longleftrightarrow> y mod n = c mod (n::int)"
  by (metis mod_eq_dvd_iff mod_0_imp_dvd dvd_imp_mod_0)

lemma leap_divisors: "(y::int) mod 100 = 0 \<Longrightarrow> y mod 4 = 0" "y mod 400 = 0 \<Longrightarrow> y mod 100 = 0"
proof -
  have "(4::int) dvd 100" "(100::int) dvd 400" by simp_all
  then have "y mod 100 mod 4 = y mod 4" and "y mod 400 mod 100 = y mod 100"
    by (blast intro: mod_mod_cancel)+
  then show "y mod 100 = 0 \<Longrightarrow> y mod 4 = 0" "y mod 400 = 0 \<Longrightarrow> y mod 100 = 0" by (metis mod_0)+
qed

lemma div_shift:
  fixes n :: int
  assumes "0 < n" and "c mod n = 0"
  shows "(y - c) div n = (y - 1 - c) div n + (if y mod n = 0 then 1 else 0)"
proof -
  have e: "y - 1 - c + 1 = y - c" by simp
  show ?thesis
    using div_succ [OF assms(1), of "y - 1 - c"] unfolding e mod_shift assms(2) .
qed

lemma day_from_year_succ: "day_from_year (y + 1) = day_from_year y + year_length y"
proof -
  have n: "y + 1 - 1969 = y - 1968" "y + 1 - 1901 = y - 1900" "y + 1 - 1601 = y - 1600"
    "y - 1969 = y - 1 - 1968" "y - 1901 = y - 1 - 1900" "y - 1601 = y - 1 - 1600" by simp_all
  have a: "(y - 1968) div 4 = (y - 1 - 1968) div 4 + (if y mod 4 = 0 then 1 else 0)"
    by (rule div_shift; simp)
  have b: "(y - 1900) div 100 = (y - 1 - 1900) div 100 + (if y mod 100 = 0 then 1 else 0)"
    by (rule div_shift; simp)
  have c: "(y - 1600) div 400 = (y - 1 - 1600) div 400 + (if y mod 400 = 0 then 1 else 0)"
    by (rule div_shift; simp)
  define A B C where "A = (y - 1 - 1968) div 4" and "B = (y - 1 - 1900) div 100" and "C = (y - 1 - 1600) div 400"
  have s: "day_from_year y = 365 * (y - 1970) + A - B + C"
    unfolding day_from_year_def n A_def B_def C_def ..
  have "day_from_year (y + 1) = 365 * (y - 1970) + 365
      + (A + (if y mod 4 = 0 then 1 else 0)) - (B + (if y mod 100 = 0 then 1 else 0))
      + (C + (if y mod 400 = 0 then 1 else 0))"
    unfolding day_from_year_def n(1-3) a b c A_def B_def C_def by (simp only: algebra_simps)
  moreover define p4 p100 p400 where "p4 \<longleftrightarrow> y mod 4 = 0" and "p100 \<longleftrightarrow> y mod 100 = 0" and "p400 \<longleftrightarrow> y mod 400 = 0"
  moreover have "p100 \<Longrightarrow> p4" "p400 \<Longrightarrow> p100"
    unfolding p4_def p100_def p400_def by (fact leap_divisors)+
  ultimately show ?thesis
    unfolding s year_length_def leap_year_def by (cases p4; cases p100; cases p400) simp_all
qed

lemma year_length_bounds: "365 \<le> year_length y" "year_length y \<le> 366"
  by (simp_all add: year_length_def)

lemma day_from_year_mono: "x \<le> y \<Longrightarrow> day_from_year x + 365 * y - 365 * x \<le> day_from_year y"
proof (induction "nat (y - x)" arbitrary: y)
  case 0
  then show ?case by simp
next
  case (Suc n)
  then have "n = nat (y - 1 - x)" and "x \<le> y - 1" by linarith+
  then have "day_from_year x + 365 * (y - 1) - 365 * x \<le> day_from_year (y - 1)" by (rule Suc.hyps(1))
  moreover have "day_from_year y = day_from_year (y - 1) + year_length (y - 1)"
    using day_from_year_succ [of "y - 1"] by simp
  ultimately show ?case using year_length_bounds [of "y - 1"] by (simp add: algebra_simps)
qed

lemma div_bounds: "0 < (n::int) \<Longrightarrow> n * (z div n) \<le> z" "0 < (n::int) \<Longrightarrow> z < n * (z div n) + n"
  using pos_mod_sign [of n z] pos_mod_bound [of n z] mult_div_mod_eq [of n z] by linarith+

lemma day_from_year_estimate:
  "400 * day_from_year y \<le> 146097 * y - 287810090" (is ?A)
  "146097 * y - 287812090 \<le> 400 * day_from_year y" (is ?B)
proof -
  define a b c where "a = (y - 1969) div 4" and "b = (y - 1901) div 100" and "c = (y - 1601) div 400"
  have "4 * a \<le> y - 1969" "y - 1969 < 4 * a + 4" "100 * b \<le> y - 1901" "y - 1901 < 100 * b + 100"
    "400 * c \<le> y - 1601" "y - 1601 < 400 * c + 400"
    unfolding a_def b_def c_def by (rule div_bounds; simp)+
  moreover have "400 * day_from_year y = 146000 * y - 287620000 + 400 * a - 400 * b + 400 * c"
    by (simp add: day_from_year_def a_def b_def c_def algebra_simps)
  ultimately show ?A ?B by (simp_all add: algebra_simps)
qed

lemma year_of_day_spec:
  "day_from_year (year_of_day d) \<le> d \<and> d < day_from_year (year_of_day d + 1)"
proof -
  define g where "g = 1970 + (400 * d) div 146097"
  have g: "146097 * g \<le> 400 * d + 287811090" "400 * d + 287811090 < 146097 * g + 146097"
    using div_bounds [of 146097 "400 * d"] by (simp_all add: g_def)
  have "day_from_year (g - 1) \<le> d" using day_from_year_estimate(1) [of "g - 1"] g by simp
  moreover have "d < day_from_year (g + 2)" using day_from_year_estimate(2) [of "g + 2"] g by simp
  ultimately show ?thesis
    unfolding year_of_day_def g_def [symmetric] Let_def by (simp add: add.commute [of g])
qed

lemma year_of_day_unique:
  assumes "day_from_year y \<le> d" "d < day_from_year (y + 1)"
  shows "year_of_day d = y"
proof (rule ccontr)
  have s: "day_from_year (year_of_day d) \<le> d" "d < day_from_year (year_of_day d + 1)"
    using year_of_day_spec [of d] by blast+
  assume "year_of_day d \<noteq> y"
  then consider "year_of_day d + 1 \<le> y" | "y + 1 \<le> year_of_day d" by linarith
  then show False
  proof cases
    case 1
    from day_from_year_mono [OF this] 1 s assms show False by simp
  next
    case 2
    from day_from_year_mono [OF this] 2 s assms show False by simp
  qed
qed

lemma month_of_bounds: "1 \<le> month_of l k \<and> month_of l k \<le> 12"
  by (simp add: month_of_def)

lemma month_of_start:
  "0 \<le> k \<Longrightarrow> k < (if l then 366 else 365) \<Longrightarrow> month_start l (month_of l k) \<le> k \<and> k - month_start l (month_of l k) < 31"
  by (cases l) (auto simp: month_of_def month_start_def)

lemma make_day_date_of_day:
  assumes "date_of_day d = (y, m, dd)"
  shows "make_day y (m - 1) dd = d" "1 \<le> m" "m \<le> 12" "1 \<le> dd" "dd \<le> 31" "y = year_of_day d"
proof -
  define k where "k = d - day_from_year (year_of_day d)"
  have y: "y = year_of_day d" and m: "m = month_of (leap_year y) k"
    and dd: "dd = k - month_start (leap_year y) m + 1"
    using assms by (auto simp: date_of_day_def Let_def k_def)
  have k: "0 \<le> k" "k < (if leap_year y then 366 else 365)"
    using year_of_day_spec [of d] day_from_year_succ [of y]
    by (simp_all add: k_def y year_length_def)
  show mb: "1 \<le> m" "m \<le> 12" using month_of_bounds m by blast+
  show "1 \<le> dd" "dd \<le> 31" using month_of_start [OF k] by (simp_all add: dd m)
  from mb have "(m - 1) div 12 = 0" "(m - 1) mod 12 = m - 1" by simp_all
  then show "make_day y (m - 1) dd = d" by (simp add: make_day_def dd k_def y)
  show "y = year_of_day d" by (rule y)
qed

section \<open>Date strings\<close>

definition max_time :: int where
  "max_time = 8640000000000000"

definition ms_per_day :: int where
  "ms_per_day = 86400000"

definition valid_time :: "int \<Rightarrow> bool" where
  "valid_time t \<longleftrightarrow> \<bar>t\<bar> \<le> max_time"

definition iso_year :: "int \<Rightarrow> string" where
  "iso_year y =
     (if 0 \<le> y \<and> y \<le> 9999 then pad_num 4 (nat y)
      else if y < 0 then CHR ''-'' # pad_num 6 (nat (- y))
      else CHR ''+'' # pad_num 6 (nat y))"

text \<open>\<open>toISOString\<close>: it throws (\<open>None\<close>) for a time value that is out of range.\<close>

definition to_iso :: "int \<Rightarrow> string option" where
  "to_iso t =
     (if \<not> valid_time t then None
      else let (y, m, d) = date_of_day (t div ms_per_day); r = nat (t mod ms_per_day)
           in Some (iso_year y @ ''-'' @ pad_num 2 (nat m) @ ''-'' @ pad_num 2 (nat d) @ ''T'' @
                    pad_num 2 (r div 3600000) @ '':'' @ pad_num 2 (r div 60000 mod 60) @ '':'' @
                    pad_num 2 (r div 1000 mod 60) @ ''.'' @ pad_num 3 (r mod 1000) @ ''Z''))"

definition parse_year :: "string \<Rightarrow> (int \<times> string) option" where
  "parse_year s =
     (case s of
        [] \<Rightarrow> None
      | c # r \<Rightarrow>
          if c = CHR ''+'' then map_option (\<lambda>(n, u). (int n, u)) (take_digits 6 r)
          else if c = CHR ''-'' then
            (case take_digits 6 r of None \<Rightarrow> None
             | Some (n, u) \<Rightarrow> if n = 0 then None else Some (- int n, u))
          else map_option (\<lambda>(n, u). (int n, u)) (take_digits 4 s))"

text \<open>A two-digit field that follows a separator; absent when the separator is.\<close>

definition parse_sep2 :: "char \<Rightarrow> nat \<Rightarrow> string \<Rightarrow> (nat \<times> string) option" where
  "parse_sep2 sep dflt s =
     (case s of
        [] \<Rightarrow> Some (dflt, s)
      | c # r \<Rightarrow> if c = sep then take_digits 2 r else Some (dflt, s))"

definition parse_fraction :: "string \<Rightarrow> (nat \<times> string) option" where
  "parse_fraction s =
     (case s of
        [] \<Rightarrow> Some (0, s)
      | c # r \<Rightarrow>
          if c = CHR ''.'' then
            (let ds = takeWhile is_digit r
             in if ds = [] then None else Some (num_of (take 3 (ds @ ''00'')), dropWhile is_digit r))
          else Some (0, s))"

text \<open>The offset in minutes: \<open>Z\<close>, \<open>+hh:mm\<close>, \<open>-hh:mm\<close> or nothing; it ends the string.\<close>

definition parse_offset :: "string \<Rightarrow> int option" where
  "parse_offset s =
     (if s = [] \<or> s = ''Z'' then Some 0
      else case s of
        [] \<Rightarrow> None
      | c # r \<Rightarrow>
          if c = CHR ''+'' \<or> c = CHR ''-'' then
            (case take_digits 2 r of None \<Rightarrow> None
             | Some (h, u) \<Rightarrow>
               (case u of
                  [] \<Rightarrow> None
                | k # v \<Rightarrow>
                    if k \<noteq> CHR '':'' then None
                    else (case take_digits 2 v of None \<Rightarrow> None
                          | Some (m, w) \<Rightarrow>
                              if w \<noteq> [] \<or> h > 23 \<or> m > 59 then None
                              else Some ((if c = CHR ''-'' then -1 else 1) * int (60 * h + m)))))
          else None)"

definition parse_time :: "string \<Rightarrow> int option" where
  "parse_time s =
     (if s = [] then Some 0
      else if hd s \<noteq> CHR ''T'' then None
      else case take_digits 2 (tl s) of None \<Rightarrow> None
      | Some (h, s1) \<Rightarrow>
          (if s1 = [] \<or> hd s1 \<noteq> CHR '':'' then None
           else case take_digits 2 (tl s1) of None \<Rightarrow> None
           | Some (mi, s2) \<Rightarrow>
               (case parse_sep2 (CHR '':'') 0 s2 of None \<Rightarrow> None
                | Some (sec, s3) \<Rightarrow>
                    (case parse_fraction s3 of None \<Rightarrow> None
                     | Some (ms, s4) \<Rightarrow>
                         (case parse_offset s4 of None \<Rightarrow> None
                          | Some off \<Rightarrow>
                              if h > 24 \<or> mi > 59 \<or> sec > 59 \<or> (h = 24 \<and> (mi > 0 \<or> sec > 0 \<or> ms > 0))
                              then None
                              else Some (int (3600000 * h + 60000 * mi + 1000 * sec + ms) - 60000 * off))))))"

definition date_parse :: "string \<Rightarrow> int option" where
  "date_parse s =
     (case parse_year s of None \<Rightarrow> None
      | Some (y, s1) \<Rightarrow>
          (case parse_sep2 (CHR ''-'') 1 s1 of None \<Rightarrow> None
           | Some (m, s2) \<Rightarrow>
               (case parse_sep2 (CHR ''-'') 1 s2 of None \<Rightarrow> None
                | Some (d, s3) \<Rightarrow>
                    (if m < 1 \<or> m > 12 \<or> d < 1 \<or> d > 31 then None
                     else case parse_time s3 of None \<Rightarrow> None
                     | Some ms \<Rightarrow>
                         (let t = make_day y (int m - 1) (int d) * ms_per_day + ms
                          in if valid_time t then Some t else None)))))"

lemma parse_iso_year:
  assumes "\<bar>y\<bar> < 1000000" and "r \<noteq> []"
  shows "parse_year (iso_year y @ r) = Some (y, r)"
proof (cases "0 \<le> y \<and> y \<le> 9999")
  case True
  then have n: "nat y < 10 ^ 4" by (simp add: nat_less_iff)
  obtain c u where p: "pad_num 4 (nat y) = c # u"
    by (cases "pad_num 4 (nat y)") (auto dest: arg_cong [of _ _ length])
  have "is_digit c" using pad_num_digits [of 4 "nat y"] by (simp add: p)
  then have "c \<noteq> CHR ''+''" "c \<noteq> CHR ''-''" by (auto simp: is_digit_def code_def)
  then show ?thesis
    using True take_digits_pad [OF n, of r] by (simp add: parse_year_def iso_year_def p)
next
  case False
  then have "nat (- y) < 10 ^ 6" "nat y < 10 ^ 6" using assms by simp_all
  then show ?thesis
    using False assms by (auto simp: parse_year_def iso_year_def take_digits_pad)
qed

lemma parse_fraction_pad:
  assumes "n < 1000" and "u = [] \<or> \<not> is_digit (hd u)"
  shows "parse_fraction (''.'' @ pad_num 3 n @ u) = Some (n, u)"
proof -
  have d: "\<And>c. c \<in> set (pad_num 3 n) \<Longrightarrow> is_digit c" using pad_num_digits [of 3 n] by (simp add: list_all_iff)
  have "takeWhile is_digit u = []" "dropWhile is_digit u = u" using assms(2) by (cases u; simp)+
  then have "takeWhile is_digit (pad_num 3 n @ u) = pad_num 3 n" "dropWhile is_digit (pad_num 3 n @ u) = u"
    using d by (simp_all add: takeWhile_append2 dropWhile_append2)
  moreover have "pad_num 3 n \<noteq> []" by (metis length_pad_num list.size(3) numeral_neq_zero)
  ultimately show ?thesis
    using assms(1) by (simp add: parse_fraction_def Let_def num_of_pad_num del: pad_num.simps)
qed

lemma clock_fields:
  fixes r :: nat
  shows "3600000 * (r div 3600000) + 60000 * (r div 60000 mod 60) + 1000 * (r div 1000 mod 60) + r mod 1000 = r"
proof -
  define a where "a = r div 1000"
  define b where "b = a div 60"
  have e: "r div 60000 = b" "r div 3600000 = b div 60"
    by (simp_all add: a_def b_def flip: div_mult2_eq)
  have "r = 1000 * a + r mod 1000" by (simp add: a_def)
  moreover have "a = 60 * b + a mod 60" by (simp add: b_def)
  moreover have "b = 60 * (b div 60) + b mod 60" by simp
  ultimately show ?thesis unfolding e a_def [symmetric] by linarith
qed

lemma parse_time_iso:
  assumes "r < 86400000"
  shows "parse_time (''T'' @ pad_num 2 (r div 3600000) @ '':'' @ pad_num 2 (r div 60000 mod 60) @ '':'' @
           pad_num 2 (r div 1000 mod 60) @ ''.'' @ pad_num 3 (r mod 1000) @ ''Z'') = Some (int r)"
proof -
  define h mi sec ms where "h = r div 3600000" and "mi = r div 60000 mod 60"
    and "sec = r div 1000 mod 60" and "ms = r mod 1000"
  have "h < 24" using assms unfolding h_def by (simp add: less_mult_imp_div_less)
  then have b: "h < 10 ^ 2" "mi < 10 ^ 2" "sec < 10 ^ 2" "ms < 1000" "\<not> 24 < h" "h \<noteq> 24" "\<not> 59 < mi" "\<not> 59 < sec"
    using mod_less_divisor [of 60 "r div 60000"] mod_less_divisor [of 60 "r div 1000"]
    unfolding mi_def sec_def ms_def by auto
  have sum: "3600000 * h + 60000 * mi + 1000 * sec + ms = r"
    unfolding h_def mi_def sec_def ms_def by (rule clock_fields)
  have z: "\<not> is_digit (CHR ''Z'')" by (simp add: is_digit_def code_def)
  show ?thesis
    unfolding h_def [symmetric] mi_def [symmetric] sec_def [symmetric] ms_def [symmetric]
    using b parse_fraction_pad [OF b(4), of "''Z''"] z sum
    by (simp add: parse_time_def take_digits_pad parse_sep2_def parse_offset_def del: pad_num.simps)
qed

lemma year_of_valid_time:
  assumes "valid_time t"
  shows "\<bar>year_of_day (t div ms_per_day)\<bar> < 1000000"
proof -
  let ?y = "year_of_day (t div ms_per_day)"
  let ?d = "t div ms_per_day"
  have "?d \<le> 100000000" "-100000001 \<le> ?d"
    using assms div_bounds [of ms_per_day t] by (auto simp: valid_time_def max_time_def ms_per_day_def)
  moreover have "day_from_year ?y \<le> ?d" "?d < day_from_year (?y + 1)"
    using year_of_day_spec [of ?d] by blast+
  ultimately have "?y < 1000000" "-1000000 < ?y"
    using day_from_year_estimate [of ?y] day_from_year_estimate [of "?y + 1"] by (simp_all add: algebra_simps)
  then show ?thesis by linarith
qed

lemma date_parse_iso:
  assumes "to_iso t = Some s"
  shows "date_parse s = Some t"
proof -
  obtain y m d where e: "date_of_day (t div ms_per_day) = (y, m, d)" by (metis prod_cases3)
  define r where "r = nat (t mod ms_per_day)"
  have v: "valid_time t" using assms by (auto simp: to_iso_def split: if_splits)
  have s: "s = iso_year y @ ''-'' @ pad_num 2 (nat m) @ ''-'' @ pad_num 2 (nat d) @ ''T'' @
                    pad_num 2 (r div 3600000) @ '':'' @ pad_num 2 (r div 60000 mod 60) @ '':'' @
                    pad_num 2 (r div 1000 mod 60) @ ''.'' @ pad_num 3 (r mod 1000) @ ''Z''"
    using assms v by (simp add: to_iso_def e r_def Let_def)
  have r: "r < 86400000" "int r = t mod ms_per_day" by (simp_all add: r_def ms_per_day_def nat_less_iff)
  note D = make_day_date_of_day [OF e]
  have y: "\<bar>y\<bar> < 1000000" using year_of_valid_time [OF v] by (simp add: D(6))
  have md: "nat m < 10 ^ 2" "nat d < 10 ^ 2" using D by simp_all
  have lim: "\<not> 12 < nat m" "\<not> 31 < nat d" "\<not> nat m < 1" "\<not> nat d < 1" using D by linarith+
  have t: "make_day y (int (nat m) - 1) (int (nat d)) * ms_per_day + int r = t"
    using D r by simp
  show ?thesis
    using lim md t v parse_time_iso [OF r(1)]
    by (simp add: date_parse_def s parse_iso_year [OF y] parse_sep2_def take_digits_pad Let_def)
qed

lemma to_iso_valid: "valid_time t \<Longrightarrow> \<exists>s. to_iso t = Some s"
  by (auto simp: to_iso_def Let_def split: prod.splits)

lemma to_iso_inj: "to_iso a = Some s \<Longrightarrow> to_iso b = Some s \<Longrightarrow> a = b"
  by (metis date_parse_iso option.inject)

text \<open>Evaluation of a time in ISO format.\<close>

lemmas date_eval =
  to_iso_def valid_time_def max_time_def ms_per_day_def date_of_day_def year_of_day_def day_from_year_def
    leap_year_def month_of_def month_start_def iso_year_def Let_def digit_char_def char_of_eq_iff pad_num_eval

lemma iso_samples:
  "to_iso 1735689600000 = Some ''2025-01-01T00:00:00.000Z''"
  "to_iso 1738281600000 = Some ''2025-01-31T00:00:00.000Z''"
  "to_iso 1767225600000 = Some ''2026-01-01T00:00:00.000Z''"
  by (simp_all add: date_eval)

lemmas parse_samples = iso_samples [THEN date_parse_iso]

end
