(* ===== verification/Canonical_Json.thy ===== *)
theory Canonical_Json
  imports Prelude
begin

text \<open>
  Canonical JSON (\<open>packages/crypto/src/canonical-json.ts\<close>): the serialisation every hash of a
  manifest is taken over. \<open>encode\<close> is the code's function; \<open>norm_json\<close> sorts the members of
  every object by key; \<open>enc\<close> is the serialisation of a normalised value. The lemmas show that
  \<open>encode\<close> depends on the value up to member order only, and that it is injective up to
  member order: equal bytes mean equal content.
\<close>

section \<open>Values\<close>

text \<open>
  A JavaScript number inside a JSON value: an integer below \<open>10^21\<close> in magnitude, any other
  finite number by the text \<open>Number.prototype.toString\<close> gives it (which determines it), or a
  number that is not finite.
\<close>

datatype json_number = JInt int | JDec string | JNonFinite

text \<open>A member whose value is \<open>None\<close> is a key that is present with the value \<open>undefined\<close>.\<close>

datatype json =
    JNull
  | JBool bool
  | JNum json_number
  | JStr string
  | JArr "json list"
  | JObj "(string \<times> json option) list"

datatype json_error = NonFiniteNumber | UndefinedAtKey string

section \<open>String literals\<close>

definition hex_digit :: "nat \<Rightarrow> char" where
  "hex_digit n = (if n < 10 then char_of (48 + n) else char_of (87 + n))"

text \<open>\<open>JSON.stringify\<close> of a string, one code unit at a time.\<close>

definition esc_char :: "char \<Rightarrow> string" where
  "esc_char c =
     (if c = CHR 0x22 then [CHR 0x5C, CHR 0x22]
      else if c = CHR 0x5C then [CHR 0x5C, CHR 0x5C]
      else if c = CHR 0x08 then [CHR 0x5C, CHR ''b'']
      else if c = CHR 0x0C then [CHR 0x5C, CHR ''f'']
      else if c = CHR 0x0A then [CHR 0x5C, CHR ''n'']
      else if c = CHR 0x0D then [CHR 0x5C, CHR ''r'']
      else if c = CHR 0x09 then [CHR 0x5C, CHR ''t'']
      else if code c < 32 then CHR 0x5C # ''u00'' @ [hex_digit (code c div 16), hex_digit (code c mod 16)]
      else [c])"

definition json_string :: "string \<Rightarrow> string" where
  "json_string s = CHR 0x22 # concat (map esc_char s) @ [CHR 0x22]"

section \<open>The encoder\<close>

definition number_text :: "json_number \<Rightarrow> (json_error, string) result" where
  "number_text n = (case n of JInt i \<Rightarrow> Inr (int_str i) | JDec s \<Rightarrow> Inr s | JNonFinite \<Rightarrow> Inl NonFiniteNumber)"

fun join_comma :: "string list \<Rightarrow> string" where
  "join_comma [] = []"
| "join_comma [s] = s"
| "join_comma (s # t # ts) = s @ CHR '','' # join_comma (t # ts)"

lemma traverse_cong [fundef_cong]:
  "xs = ys \<Longrightarrow> (\<And>x. x \<in> set ys \<Longrightarrow> f x = g x) \<Longrightarrow> traverse f xs = traverse g ys"
  by (induction xs arbitrary: ys) auto

lemma json_member_size:
  assumes "(k, Some v) \<in> set kvs"
  shows "size v < Suc (size_list (size_prod (\<lambda>_. 0) (size_option size)) kvs)"
  using assms by (induction kvs) auto

function encode :: "json \<Rightarrow> (json_error, string) result" where
  "encode JNull = Inr ''null''"
| "encode (JBool b) = Inr (if b then ''true'' else ''false'')"
| "encode (JNum n) = number_text n"
| "encode (JStr s) = Inr (json_string s)"
| "encode (JArr xs) = bindR (traverse encode xs) (\<lambda>ts. Inr (CHR ''['' # join_comma ts @ '']''))"
| "encode (JObj kvs) =
     bindR (traverse (\<lambda>kv. case snd kv of
                None \<Rightarrow> Inl (UndefinedAtKey (fst kv))
              | Some v \<Rightarrow> bindR (encode v) (\<lambda>t. Inr (json_string (fst kv) @ CHR '':'' # t)))
            (sort_key fst kvs))
       (\<lambda>ts. Inr (CHR ''{'' # join_comma ts @ ''}''))"
  by pat_completeness auto
termination
proof (relation "measure size")
  show "wf (measure size)" by simp
next
  fix xs :: "json list" and x
  assume "x \<in> set xs"
  then have "size x < Suc (size_list size xs)" by (induction xs) auto
  then show "(x, JArr xs) \<in> measure size" by simp
next
  fix kvs :: "(string \<times> json option) list" and x v
  assume "x \<in> set (sort_key fst kvs)" and "snd x = Some v"
  then have "(fst x, Some v) \<in> set kvs" by (metis prod.collapse set_sort)
  from json_member_size [OF this] show "(v, JObj kvs) \<in> measure size" by simp
qed

definition canonicalJson :: "json \<Rightarrow> (json_error, string) result" where
  "canonicalJson v = encode v"

section \<open>Normal form and well-formed values\<close>

function norm_json :: "json \<Rightarrow> json" where
  "norm_json JNull = JNull"
| "norm_json (JBool b) = JBool b"
| "norm_json (JNum n) = JNum n"
| "norm_json (JStr s) = JStr s"
| "norm_json (JArr xs) = JArr (map norm_json xs)"
| "norm_json (JObj kvs) = JObj (map (\<lambda>kv. (fst kv, case snd kv of None \<Rightarrow> None | Some v \<Rightarrow> Some (norm_json v))) (sort_key fst kvs))"
  by pat_completeness auto
termination
proof (relation "measure size")
  fix xs :: "json list" and x
  assume "x \<in> set xs"
  then have "size x < Suc (size_list size xs)" by (induction xs) auto
  then show "(x, JArr xs) \<in> measure size" by simp
next
  fix kvs :: "(string \<times> json option) list" and x v
  assume "x \<in> set (sort_key fst kvs)" and "snd x = Some v"
  then have "(fst x, Some v) \<in> set kvs" by (metis prod.collapse set_sort)
  from json_member_size [OF this] show "(v, JObj kvs) \<in> measure size" by simp
qed simp

text \<open>The text of a number that is not an integer below \<open>10^21\<close> has a point or an exponent.\<close>

definition num_char :: "char \<Rightarrow> bool" where
  "num_char c \<longleftrightarrow> is_digit c \<or> c \<in> set ''+-.e''"

definition dec_text :: "string \<Rightarrow> bool" where
  "dec_text s \<longleftrightarrow> s \<noteq> [] \<and> list_all num_char s \<and> (is_digit (hd s) \<or> hd s = CHR ''-'')
     \<and> (CHR ''.'' \<in> set s \<or> CHR ''e'' \<in> set s)"

fun wf_json :: "json \<Rightarrow> bool" where
  "wf_json (JNum (JDec s)) = dec_text s"
| "wf_json (JArr xs) = list_all wf_json xs"
| "wf_json (JObj kvs) = (distinct (map fst kvs) \<and> list_all (\<lambda>kv. case snd kv of None \<Rightarrow> True | Some v \<Rightarrow> wf_json v) kvs)"
| "wf_json _ = True"

section \<open>The serialisation can be read back in one way only\<close>

definition delim :: "string \<Rightarrow> bool" where
  "delim r \<longleftrightarrow> r = [] \<or> hd r \<in> set '',]}''"

text \<open>Reading one escaped code unit back.\<close>

definition hex_val :: "char \<Rightarrow> nat" where
  "hex_val c = (if code c < 58 then code c - 48 else code c - 87)"

fun read_char :: "string \<Rightarrow> (char \<times> string) option" where
  "read_char [] = None"
| "read_char (x # r) =
     (if x \<noteq> CHR 0x5C then Some (x, r)
      else case r of
        [] \<Rightarrow> None
      | y # r' \<Rightarrow>
          if y = CHR ''b'' then Some (CHR 0x08, r')
          else if y = CHR ''f'' then Some (CHR 0x0C, r')
          else if y = CHR ''n'' then Some (CHR 0x0A, r')
          else if y = CHR ''r'' then Some (CHR 0x0D, r')
          else if y = CHR ''t'' then Some (CHR 0x09, r')
          else if y = CHR ''u'' then
            (case drop 2 r' of
               a # b # r'' \<Rightarrow> Some (char_of (16 * hex_val a + hex_val b), r'')
             | _ \<Rightarrow> None)
          else Some (y, r'))"

lemma code_inj: "code c = code d \<Longrightarrow> c = d"
  by (simp add: code_def)

lemma read_esc_control: "(n::nat) < 32 \<Longrightarrow> read_char (esc_char (char_of n) @ u) = Some (char_of n, u)"
proof -
  assume "n < 32"
  then have "n \<in> set [0..<32]" by simp
  then show ?thesis
    by (simp only: upt_rec_numeral upt_conv_Cons) (auto simp: upt_rec esc_char_def code_char_of hex_digit_def hex_val_def)
qed

lemma read_esc_char: "read_char (esc_char c @ u) = Some (c, u)"
proof (cases "code c < 32")
  case True
  from read_esc_control [OF this, of u] show ?thesis by (simp add: code_def)
next
  case False
  then show ?thesis by (auto simp: esc_char_def code_def)
qed

lemma esc_char_prefix: "esc_char c @ u = esc_char d @ v \<Longrightarrow> c = d \<and> u = v"
  by (metis read_esc_char option.inject prod.inject)

lemma esc_char_head: "\<exists>x r. esc_char c = x # r \<and> x \<noteq> CHR 0x22"
  by (simp add: esc_char_def)

lemma json_string_prefix: "json_string s @ u = json_string t @ v \<Longrightarrow> s = t \<and> u = v"
proof -
  have "concat (map esc_char s) @ CHR 0x22 # u = concat (map esc_char t) @ CHR 0x22 # v \<Longrightarrow> s = t \<and> u = v"
  proof (induction s arbitrary: t)
    case Nil
    then show ?case using esc_char_head by (cases t) (auto, metis append_Cons list.inject)
  next
    case (Cons c s)
    show ?case
    proof (cases t)
      case Nil
      then show ?thesis using Cons.prems esc_char_head [of c] by auto
    next
      case (Cons d t')
      with Cons.prems have "esc_char c @ (concat (map esc_char s) @ CHR 0x22 # u)
          = esc_char d @ (concat (map esc_char t') @ CHR 0x22 # v)" by simp
      from esc_char_prefix [OF this] Cons.IH Cons show ?thesis by blast
    qed
  qed
  then show "json_string s @ u = json_string t @ v \<Longrightarrow> s = t \<and> u = v" by (simp add: json_string_def)
qed

lemma digit_num_char: "is_digit c \<Longrightarrow> num_char c"
  by (simp add: num_char_def)

lemma int_str_num: "list_all num_char (int_str i) \<and> int_str i \<noteq> []
    \<and> (is_digit (hd (int_str i)) \<or> hd (int_str i) = CHR ''-'')
    \<and> CHR ''.'' \<notin> set (int_str i) \<and> CHR ''e'' \<notin> set (int_str i)"
proof -
  have d: "list_all is_digit (nat_str n)" for n by (rule nat_str_digits)
  then have "list_all num_char (nat_str n)" for n using digit_num_char by (metis list_all_iff)
  moreover have "num_char (CHR ''-'')" by (simp add: num_char_def)
  moreover have "CHR ''.'' \<notin> set (nat_str n)" "CHR ''e'' \<notin> set (nat_str n)" for n
    using d [of n] by (auto simp: list_all_iff is_digit_def code_def)
  ultimately show ?thesis by (simp add: int_str_def hd_nat_str_digit)
qed

lemma number_text_shape:
  assumes "number_text n = Inr s" and "wf_json (JNum n)"
  shows "list_all num_char s \<and> s \<noteq> [] \<and> (is_digit (hd s) \<or> hd s = CHR ''-'')"
  using assms int_str_num by (cases n) (auto simp: number_text_def dec_text_def)

lemma number_text_inj:
  assumes "number_text m = Inr s" "number_text n = Inr s" "wf_json (JNum m)" "wf_json (JNum n)"
  shows "m = n"
  using assms int_str_num by (cases m; cases n) (auto simp: number_text_def dec_text_def)

lemma delim_not_num: "delim r \<Longrightarrow> takeWhile num_char r = []"
  by (cases r) (auto simp: delim_def num_char_def is_digit_def code_def)

lemma number_prefix:
  assumes "list_all num_char s" "list_all num_char t" "delim u" "delim v" "s @ u = t @ v"
  shows "s = t"
proof -
  have "takeWhile num_char (x @ y) = x" if "list_all num_char x" and "delim y" for x y
    using that delim_not_num by (simp add: list_all_iff takeWhile_append2)
  then show ?thesis using assms by metis
qed

text \<open>The first code unit of an encoding names the kind of the value.\<close>

lemma encode_head:
  assumes "encode v = Inr s" and "wf_json v"
  shows "s \<noteq> [] \<and> (case v of JNull \<Rightarrow> hd s = CHR ''n'' | JBool b \<Rightarrow> hd s = (if b then CHR ''t'' else CHR ''f'')
     | JNum n \<Rightarrow> is_digit (hd s) \<or> hd s = CHR ''-'' | JStr x \<Rightarrow> hd s = CHR 0x22
     | JArr xs \<Rightarrow> hd s = CHR ''['' | JObj kvs \<Rightarrow> hd s = CHR ''{'')"
  using assms number_text_shape by (cases v) (auto simp: bindR_Inr_iff json_string_def)

lemma encode_head_not_close: "encode v = Inr s \<Longrightarrow> wf_json v \<Longrightarrow> s \<noteq> [] \<and> hd s \<notin> set ''],}''"
  using encode_head [of v s] by (auto simp: is_digit_def code_def split: json.splits if_splits)

text \<open>
  A comma-separated, closed list of texts can be split in one way, when no text of the first
  list is a proper beginning of one of the second before a delimiter.
\<close>

lemma join_comma_Cons: "join_comma (s # ts) = s @ (if ts = [] then [] else CHR '','' # join_comma ts)"
  by (cases ts) auto

lemma join_comma_inj:
  assumes "\<And>s t u v. s \<in> set ss \<Longrightarrow> t \<in> set ts \<Longrightarrow> delim u \<Longrightarrow> delim v \<Longrightarrow> s @ u = t @ v \<Longrightarrow> s = t"
    and "\<forall>s\<in>set ss \<union> set ts. s \<noteq> [] \<and> hd s \<notin> set ''],}''"
    and "c \<in> set '']}''" and "join_comma ss @ c # r = join_comma ts @ c # r'"
  shows "ss = ts"
  using assms
proof (induction ss arbitrary: ts)
  case Nil
  then show ?case
    by (cases ts) (auto simp: join_comma_Cons neq_Nil_conv)
next
  case (Cons s ss)
  show ?case
  proof (cases ts)
    case Nil
    with Cons.prems show ?thesis by (auto simp: join_comma_Cons neq_Nil_conv)
  next
    case ts: (Cons t ts')
    define u where "u = (if ss = [] then [] else CHR '','' # join_comma ss) @ c # r"
    define v where "v = (if ts' = [] then [] else CHR '','' # join_comma ts') @ c # r'"
    have "delim u" "delim v" using Cons.prems(3) by (auto simp: u_def v_def delim_def)
    moreover have e: "s @ u = t @ v" using Cons.prems(4) by (simp add: ts u_def v_def join_comma_Cons)
    ultimately have st: "s = t" using Cons.prems(1) [of s t u v] by (simp add: ts)
    with e have uv: "u = v" by simp
    have "c \<noteq> CHR '',''" using Cons.prems(3) by auto
    then have "(ss = []) = (ts' = [])"
      using uv by (cases "ss = []"; cases "ts' = []") (simp_all add: u_def v_def)
    then have j: "join_comma ss @ c # r = join_comma ts' @ c # r'"
      using uv by (cases "ss = []") (simp_all add: u_def v_def)
    have "ss = ts'"
    proof (rule Cons.IH [OF _ _ Cons.prems(3) j])
      show "\<And>s t u v. s \<in> set ss \<Longrightarrow> t \<in> set ts' \<Longrightarrow> delim u \<Longrightarrow> delim v \<Longrightarrow> s @ u = t @ v \<Longrightarrow> s = t"
        using Cons.prems(1) ts by (meson list.set_intros(2))
      show "\<forall>s\<in>set ss \<union> set ts'. s \<noteq> [] \<and> hd s \<notin> set ''],}''"
        using Cons.prems(2) unfolding ts by (meson Un_iff list.set_intros(2))
    qed
    with st ts show ?thesis by simp
  qed
qed

lemma json_induct [case_names step]:
  assumes "\<And>a. (\<And>b. size b < size a \<Longrightarrow> P b) \<Longrightarrow> P a"
  shows "P (a :: json)"
  using assms by (induction a rule: measure_induct_rule [of size]) blast

definition member_text :: "string \<times> json option \<Rightarrow> (json_error, string) result" where
  "member_text kv = (case snd kv of None \<Rightarrow> Inl (UndefinedAtKey (fst kv))
     | Some v \<Rightarrow> bindR (encode v) (\<lambda>t. Inr (json_string (fst kv) @ CHR '':'' # t)))"

lemma encode_obj: "encode (JObj kvs) =
    bindR (traverse member_text (sort_key fst kvs)) (\<lambda>ts. Inr (CHR ''{'' # join_comma ts @ ''}''))"
  by (simp add: member_text_def [abs_def])

lemma member_text_Inr: "member_text kv = Inr s \<longleftrightarrow>
    (\<exists>v t. snd kv = Some v \<and> encode v = Inr t \<and> s = json_string (fst kv) @ CHR '':'' # t)"
  by (cases kv) (auto simp: member_text_def bindR_Inr_iff split: option.splits)

text \<open>What two values with encodings that agree up to a delimiter have in common.\<close>

definition reads_back :: "json \<Rightarrow> bool" where
  "reads_back a \<longleftrightarrow> (\<forall>b s t u v. wf_json a \<longrightarrow> wf_json b \<longrightarrow> encode a = Inr s \<longrightarrow> encode b = Inr t \<longrightarrow>
     delim u \<longrightarrow> delim v \<longrightarrow> s @ u = t @ v \<longrightarrow> s = t \<and> norm_json a = norm_json b)"

lemma reads_backD:
  "reads_back a \<Longrightarrow> wf_json a \<Longrightarrow> wf_json b \<Longrightarrow> encode a = Inr s \<Longrightarrow> encode b = Inr t \<Longrightarrow>
   delim u \<Longrightarrow> delim v \<Longrightarrow> s @ u = t @ v \<Longrightarrow> s = t \<and> norm_json a = norm_json b"
  unfolding reads_back_def by blast

lemma delim_Nil [simp]: "delim []"
  by (simp add: delim_def)

lemma same_kind:
  assumes "encode a = Inr s" "encode b = Inr t" "wf_json a" "wf_json b" "s @ u = t @ v"
  shows "case a of JNull \<Rightarrow> b = JNull | JBool x \<Rightarrow> b = JBool x | JNum m \<Rightarrow> \<exists>n. b = JNum n
    | JStr x \<Rightarrow> \<exists>y. b = JStr y | JArr xs \<Rightarrow> \<exists>ys. b = JArr ys | JObj ks \<Rightarrow> \<exists>ls. b = JObj ls"
proof -
  obtain c where c: "hd s = c" "hd t = c" using assms encode_head by (metis hd_append2)
  have d: "is_digit c \<Longrightarrow> c \<notin> set ''ntf[{-'' \<and> c \<noteq> CHR 0x22" by (auto simp: is_digit_def code_def)
  show ?thesis
    using encode_head [OF assms(1,3)] encode_head [OF assms(2,4)] d unfolding c
    by (cases a; cases b) (auto split: if_splits)
qed

lemma reads_back_array:
  assumes IH: "\<And>x. x \<in> set xs \<Longrightarrow> reads_back x"
    and wf: "list_all wf_json xs" "list_all wf_json ys"
    and tr: "traverse encode xs = Inr ss" "traverse encode ys = Inr ts"
    and eq: "join_comma ss @ CHR '']'' # u = join_comma ts @ CHR '']'' # v"
  shows "ss = ts \<and> map norm_json xs = map norm_json ys"
proof -
  have l: "list_all2 (\<lambda>x s. encode x = Inr s) xs ss" "list_all2 (\<lambda>x s. encode x = Inr s) ys ts"
    using tr by (simp_all add: traverse_Inr_iff)
  have px: "\<exists>x\<in>set xs. encode x = Inr s" if "s \<in> set ss" for s
    using list_all2_in_right [OF l(1) that] .
  have py: "\<exists>y\<in>set ys. encode y = Inr t" if "t \<in> set ts" for t
    using list_all2_in_right [OF l(2) that] .
  have w: "x \<in> set xs \<union> set ys \<Longrightarrow> wf_json x" for x using wf by (auto simp: list_all_iff)
  have st: "ss = ts"
  proof (rule join_comma_inj [OF _ _ _ eq])
    fix s t p q assume "s \<in> set ss" "t \<in> set ts" and d: "delim p" "delim q" "s @ p = t @ q"
    then obtain x y where x: "x \<in> set xs" "encode x = Inr s" and y: "y \<in> set ys" "encode y = Inr t"
      using px py by meson
    then have "wf_json x" "wf_json y" using w by blast+
    then show "s = t" using reads_backD [OF IH [OF x(1)] _ _ x(2) y(2) d] by blast
  next
    show "\<forall>s\<in>set ss \<union> set ts. s \<noteq> [] \<and> hd s \<notin> set ''],}''"
    proof
      fix s assume "s \<in> set ss \<union> set ts"
      then obtain x where "x \<in> set xs \<union> set ys" "encode x = Inr s" using px py by blast
      then show "s \<noteq> [] \<and> hd s \<notin> set ''],}''" using encode_head_not_close w by blast
    qed
  qed simp
  have n: "length xs = length ys" using l st by (simp add: list_all2_lengthD)
  have "norm_json (xs ! i) = norm_json (ys ! i)" if "i < length xs" for i
  proof -
    have e: "encode (xs ! i) = Inr (ss ! i)" "encode (ys ! i) = Inr (ss ! i)"
      using l st that n by (auto simp: list_all2_conv_all_nth)
    have m: "xs ! i \<in> set xs" "ys ! i \<in> set ys" using that n by simp_all
    from reads_backD [OF IH [OF m(1)] w w e delim_Nil delim_Nil refl] m show ?thesis by simp
  qed
  with n st show ?thesis by (simp add: list_eq_iff_nth_eq)
qed

definition norm_member :: "string \<times> json option \<Rightarrow> string \<times> json option" where
  "norm_member kv = (fst kv, case snd kv of None \<Rightarrow> None | Some v \<Rightarrow> Some (norm_json v))"

lemma norm_obj: "norm_json (JObj kvs) = JObj (map norm_member (sort_key fst kvs))"
  by (simp add: norm_member_def [abs_def])

lemma fst_norm_member [simp]: "fst (norm_member kv) = fst kv"
  by (simp add: norm_member_def)

lemma member_prefix:
  assumes IH: "\<And>v. snd kv = Some v \<Longrightarrow> reads_back v"
    and wf: "\<And>v. snd kv = Some v \<Longrightarrow> wf_json v" "\<And>v. snd lw = Some v \<Longrightarrow> wf_json v"
    and m: "member_text kv = Inr s" "member_text lw = Inr t"
    and eq: "delim u" "delim v" "s @ u = t @ v"
  shows "s = t \<and> norm_member kv = norm_member lw"
proof -
  obtain x p where x: "snd kv = Some x" "encode x = Inr p" "s = json_string (fst kv) @ CHR '':'' # p"
    using m(1) by (auto simp: member_text_Inr)
  obtain y q where y: "snd lw = Some y" "encode y = Inr q" "t = json_string (fst lw) @ CHR '':'' # q"
    using m(2) by (auto simp: member_text_Inr)
  have "json_string (fst kv) @ (CHR '':'' # p @ u) = json_string (fst lw) @ (CHR '':'' # q @ v)"
    using eq(3) x(3) y(3) by simp
  from json_string_prefix [OF this] have k: "fst kv = fst lw" "p @ u = q @ v" by simp_all
  with reads_backD [OF IH [OF x(1)] wf(1) [OF x(1)] wf(2) [OF y(1)] x(2) y(2) eq(1,2)] x y
  show ?thesis by (simp add: norm_member_def)
qed

lemma json_string_head: "json_string k @ r \<noteq> [] \<and> hd (json_string k @ r) \<notin> set ''],}''"
  by (simp add: json_string_def)

lemma reads_back_members:
  assumes IH: "\<And>kv v. kv \<in> set ks \<Longrightarrow> snd kv = Some v \<Longrightarrow> reads_back v"
    and wf: "\<And>kv v. kv \<in> set ks \<union> set ls \<Longrightarrow> snd kv = Some v \<Longrightarrow> wf_json v"
    and tr: "traverse member_text ks = Inr ss" "traverse member_text ls = Inr ts"
    and eq: "join_comma ss @ CHR ''}'' # u = join_comma ts @ CHR ''}'' # v"
  shows "ss = ts \<and> map norm_member ks = map norm_member ls"
proof -
  have l: "list_all2 (\<lambda>kv s. member_text kv = Inr s) ks ss" "list_all2 (\<lambda>kv s. member_text kv = Inr s) ls ts"
    using tr by (simp_all add: traverse_Inr_iff)
  note px = list_all2_in_right [OF l(1)] and py = list_all2_in_right [OF l(2)]
  have st: "ss = ts"
  proof (rule join_comma_inj [OF _ _ _ eq])
    fix s t p q assume s: "s \<in> set ss" "t \<in> set ts" and d: "delim p" "delim q" "s @ p = t @ q"
    obtain x where x: "x \<in> set ks" "member_text x = Inr s" using px [OF s(1)] by blast
    obtain y where y: "y \<in> set ls" "member_text y = Inr t" using py [OF s(2)] by blast
    have "s = t \<and> norm_member x = norm_member y"
      by (rule member_prefix [OF _ _ _ x(2) y(2) d]) (use IH wf x(1) y(1) in blast)+
    then show "s = t" ..
  next
    show "\<forall>s\<in>set ss \<union> set ts. s \<noteq> [] \<and> hd s \<notin> set ''],}''"
    proof
      fix s assume "s \<in> set ss \<union> set ts"
      then obtain x where "member_text x = Inr s" using px py by blast
      then show "s \<noteq> [] \<and> hd s \<notin> set ''],}''" using json_string_head by (auto simp only: member_text_Inr)
    qed
  qed simp
  have n: "length ks = length ls" using l st by (simp add: list_all2_lengthD)
  have "norm_member (ks ! i) = norm_member (ls ! i)" if "i < length ks" for i
  proof -
    have e: "member_text (ks ! i) = Inr (ss ! i)" "member_text (ls ! i) = Inr (ss ! i)"
      using l st that n by (auto simp: list_all2_conv_all_nth)
    have m: "ks ! i \<in> set ks" "ls ! i \<in> set ls" using that n by simp_all
    have "ss ! i = ss ! i \<and> norm_member (ks ! i) = norm_member (ls ! i)"
      by (rule member_prefix [OF _ _ _ e delim_Nil delim_Nil refl]) (use IH wf m in blast)+
    then show ?thesis ..
  qed
  with n st show ?thesis by (simp add: list_eq_iff_nth_eq)
qed

lemma json_child_size:
  "x \<in> set xs \<Longrightarrow> size x < size (JArr xs)"
  "kv \<in> set kvs \<Longrightarrow> snd kv = Some v \<Longrightarrow> size v < size (JObj kvs)"
proof -
  show "x \<in> set xs \<Longrightarrow> size x < size (JArr xs)" by (induction xs) auto
  show "kv \<in> set kvs \<Longrightarrow> snd kv = Some v \<Longrightarrow> size v < size (JObj kvs)"
    using json_member_size [of "fst kv" v kvs] by (simp add: prod.collapse [symmetric] del: prod.collapse) (metis prod.collapse)
qed

lemma reads_back_all: "reads_back a"
proof (induction a rule: json_induct)
  case (step a)
  show ?case
    unfolding reads_back_def
  proof (intro allI impI)
    fix b s t u v
    assume wf: "wf_json a" "wf_json b" and e: "encode a = Inr s" "encode b = Inr t"
      and d: "delim u" "delim v" and eq: "s @ u = t @ v"
    note k = same_kind [OF e wf eq]
    show "s = t \<and> norm_json a = norm_json b"
    proof (cases a)
      case (JNum m)
      then obtain n where b: "b = JNum n" using k by auto
      have "s = t"
        using number_text_shape [of m s] number_text_shape [of n t] e wf JNum b number_prefix [OF _ _ d eq] by auto
      then show ?thesis using number_text_inj [of m s n] e wf JNum b by simp
    next
      case (JStr x)
      then obtain y where b: "b = JStr y" using k by auto
      with JStr e eq json_string_prefix [of x u y v] show ?thesis by simp
    next
      case (JArr xs)
      then obtain ys where b: "b = JArr ys" using k by auto
      obtain ss where ss: "traverse encode xs = Inr ss" "s = CHR ''['' # join_comma ss @ '']''"
        using e JArr by (auto simp: bindR_Inr_iff)
      obtain ts where ts: "traverse encode ys = Inr ts" "t = CHR ''['' # join_comma ts @ '']''"
        using e b by (auto simp: bindR_Inr_iff)
      have "reads_back x" if "x \<in> set xs" for x using step json_child_size(1) [OF that] JArr by blast
      moreover have w: "list_all wf_json xs" "list_all wf_json ys" using wf JArr b by simp_all
      moreover have j: "join_comma ss @ CHR '']'' # u = join_comma ts @ CHR '']'' # v"
        using eq ss(2) ts(2) by simp
      ultimately have "ss = ts \<and> map norm_json xs = map norm_json ys"
        using reads_back_array [OF _ w ss(1) ts(1) j] by blast
      then show ?thesis using JArr b ss ts by simp
    next
      case (JObj kvs)
      then obtain lws where b: "b = JObj lws" using k by auto
      obtain ss where ss: "traverse member_text (sort_key fst kvs) = Inr ss" "s = CHR ''{'' # join_comma ss @ ''}''"
        using e(1) unfolding JObj encode_obj by (auto simp: bindR_Inr_iff)
      obtain ts where ts: "traverse member_text (sort_key fst lws) = Inr ts" "t = CHR ''{'' # join_comma ts @ ''}''"
        using e(2) unfolding b encode_obj by (auto simp: bindR_Inr_iff)
      have "join_comma ss @ CHR ''}'' # u = join_comma ts @ CHR ''}'' # v" using eq ss(2) ts(2) by simp
      from reads_back_members [OF _ _ ss(1) ts(1) this]
      have "ss = ts \<and> map norm_member (sort_key fst kvs) = map norm_member (sort_key fst lws)"
        using step json_child_size(2) wf unfolding JObj b
        by (fastforce simp: list_all_iff split: option.splits)
      then show ?thesis unfolding JObj b norm_obj using ss(2) ts(2) by simp
    qed (use k e in auto)
  qed
qed

section \<open>What the serialisation depends on\<close>

lemma traverse_map: "traverse f (map g xs) = traverse (\<lambda>x. f (g x)) xs"
  by (induction xs) auto

lemma sort_norm_members: "sort_key fst (map norm_member (sort_key fst kvs)) = map norm_member (sort_key fst kvs)"
  by (rule sort_key_id_if_sorted) (simp add: comp_def)

lemma encode_norm: "encode (norm_json a) = encode a"
proof (induction a rule: json_induct)
  case (step a)
  show ?case
  proof (cases a)
    case (JArr xs)
    have "traverse encode (map norm_json xs) = traverse encode xs"
      unfolding traverse_map by (rule traverse_cong) (use step json_child_size(1) JArr in auto)
    then show ?thesis using JArr by simp
  next
    case (JObj kvs)
    have "member_text (norm_member kv) = member_text kv" if "kv \<in> set kvs" for kv
      using step json_child_size(2) [OF that] JObj
      by (auto simp: member_text_def norm_member_def split: option.splits)
    then have "traverse member_text (map norm_member (sort_key fst kvs)) = traverse member_text (sort_key fst kvs)"
      unfolding traverse_map by (intro traverse_cong) auto
    then show ?thesis unfolding JObj norm_obj encode_obj sort_norm_members by simp
  qed simp_all
qed

lemma norm_obj_member:
  assumes "norm_json (JObj kvs) = norm_json (JObj lws)" and "(k, Some v) \<in> set kvs"
  shows "\<exists>w. (k, Some w) \<in> set lws \<and> norm_json w = norm_json v"
proof -
  have "set (map norm_member (sort_key fst kvs)) = set (map norm_member (sort_key fst lws))"
    using assms(1) unfolding norm_obj by simp
  then have e: "norm_member ` set kvs = norm_member ` set lws" by simp
  from assms(2) have "norm_member (k, Some v) \<in> norm_member ` set lws" unfolding e [symmetric] by (rule imageI)
  then obtain m where m: "m \<in> set lws" "norm_member (k, Some v) = norm_member m" by blast
  obtain k' w where "m = (k', w)" by (cases m)
  then show ?thesis using m by (auto simp: norm_member_def split: option.splits)
qed

fun serialisable :: "json \<Rightarrow> bool" where
  "serialisable (JNum n) = (n \<noteq> JNonFinite)"
| "serialisable (JArr xs) = list_all serialisable xs"
| "serialisable (JObj kvs) = list_all (\<lambda>kv. case snd kv of None \<Rightarrow> False | Some v \<Rightarrow> serialisable v) kvs"
| "serialisable _ = True"

text \<open>A value that may be null.\<close>

definition nullable :: "string option \<Rightarrow> json" where
  "nullable x = (case x of None \<Rightarrow> JNull | Some s \<Rightarrow> JStr s)"

lemma nullable_inj [simp]: "nullable a = nullable b \<longleftrightarrow> a = b"
  by (auto simp: nullable_def split: option.splits)

lemma norm_nullable [simp]: "norm_json (nullable a) = nullable a"
  by (simp add: nullable_def split: option.splits)

lemma traverse_total: "(\<exists>ys. traverse f xs = Inr ys) \<longleftrightarrow> (\<forall>x\<in>set xs. \<exists>y. f x = Inr y)"
  by (induction xs) (auto simp: bindR_Inr_iff)

lemma encode_total: "(\<exists>s. encode a = Inr s) \<longleftrightarrow> serialisable a"
proof (induction a rule: json_induct)
  case (step a)
  show ?case
  proof (cases a)
    case (JNum n)
    then show ?thesis by (cases n) (auto simp: number_text_def)
  next
    case (JArr xs)
    have "(\<exists>s. encode a = Inr s) \<longleftrightarrow> (\<exists>ts. traverse encode xs = Inr ts)"
      using JArr by (simp add: bindR_Inr_iff)
    also have "\<dots> \<longleftrightarrow> (\<forall>x\<in>set xs. serialisable x)"
      unfolding traverse_total using step json_child_size(1) JArr by blast
    finally show ?thesis using JArr by (simp add: list_all_iff)
  next
    case (JObj kvs)
    have m: "(\<exists>t. member_text kv = Inr t) \<longleftrightarrow> (\<exists>v. snd kv = Some v \<and> serialisable v)"
      if "kv \<in> set kvs" for kv
      unfolding member_text_Inr using step json_child_size(2) [OF that] JObj by blast
    have "(\<exists>s. encode a = Inr s) \<longleftrightarrow> (\<exists>ts. traverse member_text (sort_key fst kvs) = Inr ts)"
      unfolding JObj encode_obj by (simp add: bindR_Inr_iff)
    also have "\<dots> \<longleftrightarrow> (\<forall>kv\<in>set kvs. \<exists>v. snd kv = Some v \<and> serialisable v)"
      unfolding traverse_total using m by simp
    also have "\<dots> \<longleftrightarrow> serialisable a"
      unfolding JObj by (fastforce simp: list_all_iff split: option.splits)
    finally show ?thesis .
  qed simp_all
qed

lemma encode_same_iff:
  assumes "wf_json a" "wf_json b" "encode a = Inr s"
  shows "encode b = Inr s \<longleftrightarrow> norm_json a = norm_json b"
proof
  assume "encode b = Inr s"
  from reads_backD [OF reads_back_all assms(1,2,3) this delim_Nil delim_Nil refl]
  show "norm_json a = norm_json b" ..
next
  assume "norm_json a = norm_json b"
  then show "encode b = Inr s" using assms(3) encode_norm by metis
qed

text \<open>C4. Two values have the same canonical serialisation exactly when they are the same up to the
  order of object members: signing or hashing the bytes commits to the whole content.\<close>

theorem canonicalJson_commits:
  assumes "wf_json a" and "wf_json b" and "canonicalJson a = Inr s"
  shows "canonicalJson b = Inr s \<longleftrightarrow> norm_json a = norm_json b"
  using encode_same_iff [OF assms(1,2)] assms(3) unfolding canonicalJson_def by blast

theorem canonicalJson_commits_witness:
  "canonicalJson (JObj [(''b'', Some (JNum (JInt 7))), (''a'', Some JNull)]) = Inr (''{'' @ json_string ''a'' @ '':null,'' @ json_string ''b'' @ '':7}'')
   \<and> canonicalJson (JObj [(''a'', Some JNull), (''b'', Some (JNum (JInt 7)))])
     = canonicalJson (JObj [(''b'', Some (JNum (JInt 7))), (''a'', Some JNull)])"
proof -
  let ?a = "JObj [(''b'', Some (JNum (JInt 7))), (''a'', Some JNull)]"
  let ?b = "JObj [(''a'', Some JNull), (''b'', Some (JNum (JInt 7)))]"
  have e: "canonicalJson ?a = Inr (''{'' @ json_string ''a'' @ '':null,'' @ json_string ''b'' @ '':7}'')"
    by code_simp
  have w: "wf_json ?a" "wf_json ?b" by simp_all
  have n: "norm_json ?a = norm_json ?b" by code_simp
  show ?thesis using canonicalJson_commits [OF w e] e n by simp
qed

text \<open>The order in which the members of an object are listed does not reach the output.\<close>

theorem canonicalJson_member_order:
  assumes "mset kvs = mset lws" and "distinct (map fst kvs)"
  shows "canonicalJson (JObj kvs) = canonicalJson (JObj lws)"
proof -
  have "sort_key fst kvs = sort_key fst lws"
    using assms by (intro sort_key_mset_cong) (simp_all add: distinct_map)
  then show ?thesis by (simp add: canonicalJson_def)
qed

theorem canonicalJson_member_order_witness:
  "canonicalJson (JObj [(''x'', Some JNull), (''y'', None)]) = canonicalJson (JObj [(''y'', None), (''x'', Some JNull)])"
  by (rule canonicalJson_member_order) (simp_all add: add_mset_commute)

text \<open>Serialisation throws exactly when a number that is not finite or an undefined member
  occurs somewhere in the value, at any depth.\<close>

theorem canonicalJson_total_iff: "(\<exists>s. canonicalJson v = Inr s) \<longleftrightarrow> serialisable v"
  using encode_total by (simp add: canonicalJson_def)

end
