(* ===== verification/Crypto_Encoding.thy ===== *)
theory Crypto_Encoding
  imports Prelude "HOL-Library.Word"
begin

text \<open>
  Byte encodings and signature comparison of \<open>packages/crypto/src\<close>: lower-case hexadecimal
  (\<open>hash.ts\<close>, \<open>hmac.ts\<close>), Base64 (\<open>base64.ts\<close>), opaque tokens (\<open>tokens.ts\<close>) and the
  verification of HMAC signatures (\<open>hmac.ts\<close>). SHA-256, HMAC and the random generator belong
  to the platform's SubtleCrypto; they are arguments of the definitions.
\<close>

unbundle bit_operations_syntax

type_synonym byte = "8 word"

section \<open>Input bytes\<close>

text \<open>\<open>Uint8Array | string\<close>; a string is encoded as UTF-8.\<close>

datatype bytes_input = RawBytes "byte list" | TextInput string

definition utf8_char :: "char \<Rightarrow> byte list" where
  "utf8_char c = (let n = code c in
     if n < 128 then [of_nat n] else [of_nat (192 + n div 64), of_nat (128 + n mod 64)])"

definition text_encode :: "string \<Rightarrow> byte list" where
  "text_encode s = concat (map utf8_char s)"

definition input_bytes :: "bytes_input \<Rightarrow> byte list" where
  "input_bytes i = (case i of RawBytes bs \<Rightarrow> bs | TextInput s \<Rightarrow> text_encode s)"

section \<open>Hexadecimal\<close>

definition hex_char :: "nat \<Rightarrow> char" where
  "hex_char n = (if n < 10 then char_of (48 + n) else char_of (87 + n))"

definition byte_hex :: "byte \<Rightarrow> string" where
  "byte_hex b = [hex_char (unat b div 16), hex_char (unat b mod 16)]"

definition toHex :: "byte list \<Rightarrow> string" where
  "toHex bs = concat (map byte_hex bs)"

definition hex_value :: "char \<Rightarrow> nat" where
  "hex_value c = (let n = code c in if n < 58 then n - 48 else if n < 71 then n - 55 else n - 87)"

fun hex_pairs :: "string \<Rightarrow> byte list" where
  "hex_pairs (a # b # r) = of_nat (16 * hex_value a + hex_value b) # hex_pairs r"
| "hex_pairs _ = []"

datatype hex_error = InvalidHex

definition fromHex :: "string \<Rightarrow> (hex_error, byte list) result" where
  "fromHex s =
     (if s = [] \<or> \<not> list_all is_hex s \<or> length s mod 2 \<noteq> 0 then Inl InvalidHex else Inr (hex_pairs s))"

definition sha256Hex :: "(byte list \<Rightarrow> byte list) \<Rightarrow> bytes_input \<Rightarrow> string" where
  "sha256Hex sha256 i = toHex (sha256 (input_bytes i))"

lemma hex_char_ok:
  "n < 16 \<Longrightarrow> is_lower_hex (hex_char n) \<and> hex_value (hex_char n) = n"
  by (auto simp: hex_char_def is_lower_hex_def is_digit_def hex_value_def code_char_of)

lemma is_lower_hex_is_hex: "is_lower_hex c \<Longrightarrow> is_hex c"
  by (simp add: is_hex_def)

lemma unat_byte: "unat (b :: byte) < 256"
  using unsigned_less [of b] by simp

lemma byte_hex_digits: "list_all is_lower_hex (byte_hex b)"
proof -
  have "unat b div 16 < 16" using unat_byte [of b] by simp
  then show ?thesis by (simp add: byte_hex_def hex_char_ok)
qed

lemma hex_pairs_byte: "hex_pairs (byte_hex b @ r) = b # hex_pairs r"
proof -
  have "unat b div 16 < 16" using unat_byte [of b] by simp
  then have "hex_pairs (byte_hex b @ r) = of_nat (16 * (unat b div 16) + unat b mod 16) # hex_pairs r"
    by (simp add: byte_hex_def hex_char_ok del: of_nat_add of_nat_mult)
  then show ?thesis by (simp del: of_nat_add of_nat_mult)
qed

lemma hex_pairs_toHex: "hex_pairs (toHex bs) = bs"
  by (induction bs) (simp_all add: toHex_def hex_pairs_byte)

lemma toHex_digits: "list_all is_lower_hex (toHex bs)"
  by (induction bs) (use byte_hex_digits in \<open>auto simp: toHex_def\<close>)

lemma length_toHex [simp]: "length (toHex bs) = 2 * length bs"
  by (induction bs) (auto simp: toHex_def byte_hex_def)

lemma toHex_eq_Nil [simp]: "toHex bs = [] \<longleftrightarrow> bs = []"
  using length_toHex [of bs] by (metis length_0_conv mult_is_0 zero_neq_numeral)

lemma toHex_inj [simp]: "toHex a = toHex b \<longleftrightarrow> a = b"
  by (metis hex_pairs_toHex)

lemma fromHex_toHex: "bs \<noteq> [] \<Longrightarrow> fromHex (toHex bs) = Inr bs"
proof -
  have "list_all is_hex (toHex bs)"
    using toHex_digits [of bs] is_lower_hex_is_hex by (auto simp: list_all_iff)
  then show "bs \<noteq> [] \<Longrightarrow> fromHex (toHex bs) = Inr bs" by (simp add: fromHex_def hex_pairs_toHex)
qed

lemma fromHex_nonempty: "fromHex s = Inr bs \<Longrightarrow> bs \<noteq> []"
proof -
  assume a: "fromHex s = Inr bs"
  then have "s \<noteq> []" "length s mod 2 = 0" "bs = hex_pairs s" by (auto simp: fromHex_def split: if_splits)
  then show "bs \<noteq> []" by (cases s rule: hex_pairs.cases) auto
qed

section \<open>Constant-time comparison\<close>

text \<open>\<open>left[i % left.length] ?? 0\<close>: an index into an empty array is NaN and reads as 0.\<close>

definition byte_at :: "byte list \<Rightarrow> nat \<Rightarrow> byte" where
  "byte_at xs i = (if xs = [] then 0 else xs ! (i mod length xs))"

definition byte_diff :: "byte list \<Rightarrow> byte list \<Rightarrow> nat \<Rightarrow> 32 word" where
  "byte_diff l r i = ucast (byte_at l i XOR byte_at r i)"

definition constantTimeEqual :: "byte list \<Rightarrow> byte list \<Rightarrow> bool" where
  "constantTimeEqual l r =
     (fold (\<lambda>i d. d OR byte_diff l r i) [0..<max (length l) (length r)]
        (of_nat (length l) XOR of_nat (length r)) = 0)"

lemma or_zero_iff: "(a :: 'a::len word) OR b = 0 \<longleftrightarrow> a = 0 \<and> b = 0"
  by (auto simp: bit_eq_iff bit_simps)

lemma xor_zero_iff: "(a :: 'a::len word) XOR b = 0 \<longleftrightarrow> a = b"
  by (auto simp: bit_eq_iff bit_simps)

lemma fold_or_zero: "fold (\<lambda>i d. d OR f i) is (z :: 'a::len word) = 0 \<longleftrightarrow> z = 0 \<and> (\<forall>i\<in>set is. f i = 0)"
  by (induction "is" arbitrary: z) (auto simp: or_zero_iff)

lemma byte_diff_zero: "byte_diff l r i = 0 \<longleftrightarrow> byte_at l i = byte_at r i"
proof -
  have "w = 0" if "(ucast (w :: byte) :: 32 word) = 0" for w
  proof (rule bit_word_eqI)
    fix n assume "n < LENGTH(8)"
    moreover have "bit (ucast w :: 32 word) n = bit (0 :: 32 word) n" by (simp only: that)
    ultimately show "bit w n = bit 0 n" by (simp add: bit_simps)
  qed
  then have "(ucast (w :: byte) :: 32 word) = 0 \<longleftrightarrow> w = 0" for w by auto
  then show ?thesis by (simp add: byte_diff_def xor_zero_iff)
qed

lemma constantTimeEqual_iff:
  assumes "length l < 2 ^ 32" "length r < 2 ^ 32"
  shows "constantTimeEqual l r \<longleftrightarrow> l = r"
proof
  have len: "(of_nat (length l) :: 32 word) = of_nat (length r) \<longleftrightarrow> length l = length r"
    using assms by (auto simp: word_of_nat_eq_iff take_bit_nat_eq_self)
  assume "constantTimeEqual l r"
  then have n: "length l = length r" and d: "\<forall>i<length l. byte_at l i = byte_at r i"
    by (auto simp: constantTimeEqual_def fold_or_zero xor_zero_iff byte_diff_zero len)
  show "l = r"
  proof (rule nth_equalityI [OF n])
    fix i assume i: "i < length l"
    with d n show "l ! i = r ! i" by (auto simp: byte_at_def split: if_splits)
  qed
next
  assume "l = r"
  then show "constantTimeEqual l r"
    by (simp add: constantTimeEqual_def fold_or_zero byte_diff_zero)
qed

section \<open>HMAC signatures\<close>

definition normalizeSignature :: "string \<Rightarrow> string" where
  "normalizeSignature v =
     (let t = js_trim v in if starts_with ''sha256='' t then drop 7 t else t)"

definition hmacSha256Hex ::
  "(byte list \<Rightarrow> byte list \<Rightarrow> byte list) \<Rightarrow> bytes_input \<Rightarrow> bytes_input \<Rightarrow> string" where
  "hmacSha256Hex hmac secret payload = toHex (hmac (input_bytes secret) (input_bytes payload))"

definition verifyHmacSha256Hex ::
  "(byte list \<Rightarrow> byte list \<Rightarrow> byte list) \<Rightarrow> bytes_input \<Rightarrow> bytes_input \<Rightarrow> string \<Rightarrow> bool" where
  "verifyHmacSha256Hex hmac secret payload provided =
     (case bindR (fromHex (hmacSha256Hex hmac secret payload)) (\<lambda>expected.
        bindR (fromHex (normalizeSignature provided)) (\<lambda>given.
          Inr (constantTimeEqual expected given))) of
        Inl _ \<Rightarrow> False
      | Inr ok \<Rightarrow> ok)"

lemma length_hex_pairs: "length (hex_pairs s) \<le> length s"
  by (induction s rule: hex_pairs.induct) auto

lemma length_js_trim: "length (js_trim v) \<le> length v"
  using length_dropWhile_le [of js_ws "rev (dropWhile js_ws v)"] length_dropWhile_le [of js_ws v]
  by (simp add: js_trim_def)

lemma length_normalizeSignature: "length (normalizeSignature v) \<le> length v"
  using length_js_trim [of v] by (auto simp: normalizeSignature_def Let_def intro: order_trans [OF diff_le_self])

lemma verifyHmac_iff:
  assumes "\<And>k m. length (hmac k m) = 32" and "length provided < 2 ^ 32"
  shows "verifyHmacSha256Hex hmac secret payload provided \<longleftrightarrow>
    fromHex (normalizeSignature provided) = Inr (hmac (input_bytes secret) (input_bytes payload))"
proof -
  let ?h = "hmac (input_bytes secret) (input_bytes payload)"
  have h: "length ?h = 32" using assms(1) .
  then have e: "fromHex (hmacSha256Hex hmac secret payload) = Inr ?h"
    unfolding hmacSha256Hex_def by (intro fromHex_toHex) auto
  show ?thesis
  proof (cases "fromHex (normalizeSignature provided)")
    case (Inr g)
    have "g = hex_pairs (normalizeSignature provided)"
      using Inr by (auto simp: fromHex_def split: if_splits)
    then have "length g \<le> length provided"
      using length_hex_pairs [of "normalizeSignature provided"] length_normalizeSignature [of provided] by simp
    then have "constantTimeEqual ?h g \<longleftrightarrow> ?h = g"
      using h assms(2) by (intro constantTimeEqual_iff) auto
    then show ?thesis using e Inr by (auto simp: verifyHmacSha256Hex_def)
  qed (simp add: e verifyHmacSha256Hex_def)
qed

lemma js_trim_no_ws: "list_all (\<lambda>c. \<not> js_ws c) s \<Longrightarrow> js_trim s = s"
proof -
  assume a: "list_all (\<lambda>c. \<not> js_ws c) s"
  have "dropWhile js_ws s = s" "dropWhile js_ws (rev s) = rev s"
    using a by (cases "s = []"; simp add: dropWhile_eq_self_iff list_all_iff hd_rev)+
  then show ?thesis by (simp add: js_trim_def)
qed

section \<open>Base64\<close>

definition base64_alphabet :: string where
  "base64_alphabet = ''ABCDEFGHIJKLMNOPQRSTUVWXYZabcdefghijklmnopqrstuvwxyz0123456789+/''"

definition combined :: "byte \<Rightarrow> byte \<Rightarrow> byte \<Rightarrow> 32 word" where
  "combined a b c = push_bit 16 (ucast a) OR push_bit 8 (ucast b) OR ucast c"

definition b64_char :: "32 word \<Rightarrow> nat \<Rightarrow> char" where
  "b64_char w k = base64_alphabet ! unat (drop_bit k w AND 63)"

fun base64Encode :: "byte list \<Rightarrow> string" where
  "base64Encode (a # b # c # r) =
     (let w = combined a b c in b64_char w 18 # b64_char w 12 # b64_char w 6 # b64_char w 0 # base64Encode r)"
| "base64Encode [a, b] =
     (let w = combined a b 0 in [b64_char w 18, b64_char w 12, b64_char w 6, CHR ''=''])"
| "base64Encode [a] =
     (let w = combined a 0 0 in [b64_char w 18, b64_char w 12, CHR ''='', CHR ''=''])"
| "base64Encode [] = []"

definition url_char :: "char \<Rightarrow> char" where
  "url_char c = (if c = CHR ''+'' then CHR ''-'' else if c = CHR ''/'' then CHR ''_'' else c)"

definition base64UrlEncode :: "byte list \<Rightarrow> string" where
  "base64UrlEncode bs = rev (dropWhile (\<lambda>c. c = CHR ''='') (rev (map url_char (base64Encode bs))))"

lemma alphabet_nth: "\<forall>i<64. \<forall>j<64. base64_alphabet ! i = base64_alphabet ! j \<longrightarrow> i = j"
proof -
  have "distinct base64_alphabet" "length base64_alphabet = 64" by (simp_all add: base64_alphabet_def)
  then show ?thesis by (simp add: nth_eq_iff_index_eq)
qed

lemma and63: "unat (w AND 63 :: 32 word) < 64"
proof -
  have "unat (take_bit 6 w) = take_bit 6 (unat w)" by (rule unsigned_take_bit_eq)
  moreover have "w AND 63 = take_bit 6 w" by (simp add: take_bit_eq_mask mask_eq_exp_minus_1)
  ultimately show ?thesis using take_bit_nat_less_exp [of 6 "unat w"] by simp
qed

lemma b64_char_inj: "b64_char v k = b64_char w k \<longleftrightarrow> drop_bit k v AND 63 = drop_bit k w AND 63"
proof
  assume "b64_char v k = b64_char w k"
  then have "unat (drop_bit k v AND 63) = unat (drop_bit k w AND 63)"
    using alphabet_nth and63 unfolding b64_char_def by blast
  then show "drop_bit k v AND 63 = drop_bit k w AND 63" by (rule injD [OF inj_unsigned])
qed (simp add: b64_char_def)

lemma b64_char_range: "b64_char w k \<in> set base64_alphabet"
  using and63 [of "drop_bit k w"] unfolding b64_char_def
  by (intro nth_mem) (simp add: base64_alphabet_def)

lemma bit_sextet: "bit (drop_bit k w AND 63 :: 32 word) n \<longleftrightarrow> n < 6 \<and> bit w (k + n)"
proof -
  have "drop_bit k w AND 63 = take_bit 6 (drop_bit k w)"
    by (simp add: take_bit_eq_mask mask_eq_exp_minus_1)
  then show ?thesis by (simp add: bit_simps)
qed

lemma bit_byte: "bit (b :: byte) n \<Longrightarrow> n < 8"
  using bit_imp_le_length [of b n] by simp

lemma bit_combined:
  "bit (combined a b c) n \<longleftrightarrow>
     bit c n \<or> (8 \<le> n \<and> bit b (n - 8)) \<or> (16 \<le> n \<and> bit a (n - 16))"
  using bit_byte [of a "n - 16"] bit_byte [of b "n - 8"] bit_byte [of c n]
  by (auto simp: combined_def bit_simps)

lemma combined_bytes:
  assumes "combined a b c = combined a' b' c'"
  shows "a = a' \<and> b = b' \<and> c = c'"
proof -
  have e: "bit (combined a b c) n = bit (combined a' b' c') n" for n by (simp add: assms)
  have 1: "bit c n = bit c' n" if "n < 8" for n using e [of n] that by (simp add: bit_combined)
  have 2: "bit b n = bit b' n" if "n < 8" for n
    using e [of "n + 8"] that bit_byte [of c "n + 8"] bit_byte [of c' "n + 8"] by (auto simp: bit_combined)
  have 3: "bit a n = bit a' n" if "n < 8" for n
    using e [of "n + 16"] bit_byte [of c "n + 16"] bit_byte [of c' "n + 16"]
      bit_byte [of b "8 + n"] bit_byte [of b' "8 + n"] by (auto simp: bit_combined add.commute)
  show ?thesis using 1 2 3 by (simp add: bit_eq_iff)
qed

text \<open>Two groups whose sextets agree from bit \<open>m\<close> on, and that are zero below it, are the same.\<close>

lemma sextets_inj:
  assumes eq: "\<And>k. k \<in> {0, 6, 12, 18} \<Longrightarrow> m \<le> k + 5 \<Longrightarrow>
      b64_char (combined a b c) k = b64_char (combined a' b' c') k"
    and low: "\<And>n. n < m \<Longrightarrow> \<not> bit (combined a b c) n \<and> \<not> bit (combined a' b' c') n"
  shows "a = a' \<and> b = b' \<and> c = c'"
proof (rule combined_bytes, rule bit_word_eqI)
  fix n
  consider "n < m" | "m \<le> n" "n < 24" | "24 \<le> n" by linarith
  then show "bit (combined a b c) n = bit (combined a' b' c') n"
  proof cases
    case 1
    then show ?thesis using low by blast
  next
    case 2
    have "n div 6 < 4" using 2(2) by simp
    then have "n div 6 = 0 \<or> n div 6 = 1 \<or> n div 6 = 2 \<or> n div 6 = 3" by arith
    then have "6 * (n div 6) \<in> {0, 6, 12, 18}" by auto
    moreover have "m \<le> 6 * (n div 6) + 5" using 2(1) by simp
    ultimately have "drop_bit (6 * (n div 6)) (combined a b c) AND 63 = drop_bit (6 * (n div 6)) (combined a' b' c') AND 63"
      using eq by (simp only: b64_char_inj)
    then have "bit (drop_bit (6 * (n div 6)) (combined a b c) AND 63) (n mod 6)
        = bit (drop_bit (6 * (n div 6)) (combined a' b' c') AND 63) (n mod 6)" by (rule arg_cong)
    then show ?thesis by (simp add: bit_sextet)
  next
    case 3
    then have "\<not> bit (x :: byte) (n - 16)" "\<not> bit (x :: byte) (n - 8)" "\<not> bit (x :: byte) n" for x
      using bit_byte [of x "n - 16"] bit_byte [of x "n - 8"] bit_byte [of x n] by auto
    then show ?thesis by (simp add: bit_combined)
  qed
qed

lemma combined_low: "n < 8 \<Longrightarrow> \<not> bit (combined a b 0) n" "n < 16 \<Longrightarrow> \<not> bit (combined a 0 0) n"
  by (simp_all add: bit_combined)

lemma alphabet_no_pad: "b64_char w k \<noteq> CHR ''=''"
  using b64_char_range [of w k] by (auto simp: base64_alphabet_def)

lemma base64Encode_inj: "base64Encode xs = base64Encode ys \<Longrightarrow> xs = ys"
proof (induction xs arbitrary: ys rule: base64Encode.induct)
  case (1 a b c r)
  show ?case
  proof (cases ys rule: base64Encode.cases)
    case (1 a' b' c' r')
    have "a = a' \<and> b = b' \<and> c = c'"
      by (rule sextets_inj [of 0]) (use "1.prems" 1 in \<open>auto simp: Let_def\<close>)
    moreover have "r = r'" using "1.IH" [OF refl] "1.prems" 1 by (simp add: Let_def)
    ultimately show ?thesis using 1 by simp
  qed (use "1.prems" alphabet_no_pad in \<open>auto simp: Let_def\<close>)
next
  case (2 a b)
  show ?case
  proof (cases ys rule: base64Encode.cases)
    case (2 a' b')
    have "a = a' \<and> b = b' \<and> (0 :: byte) = 0"
      by (rule sextets_inj [of 8]) (use "2.prems" 2 combined_low(1) in \<open>auto simp: Let_def\<close>)
    then show ?thesis using 2 by simp
  qed (use "2.prems" alphabet_no_pad in \<open>auto simp: Let_def\<close>)
next
  case (3 a)
  show ?case
  proof (cases ys rule: base64Encode.cases)
    case (3 a')
    have "a = a' \<and> (0 :: byte) = 0 \<and> (0 :: byte) = 0"
      by (rule sextets_inj [of 16]) (use "3.prems" 3 combined_low(2) in \<open>auto simp: Let_def\<close>)
    then show ?thesis using 3 by simp
  qed (use "3.prems" alphabet_no_pad in \<open>auto simp: Let_def\<close>)
next
  case 4
  then show ?case by (cases ys rule: base64Encode.cases) (auto simp: Let_def)
qed

definition b64_url_char :: "char \<Rightarrow> bool" where
  "b64_url_char c \<longleftrightarrow> is_alnum c \<or> c = CHR ''-'' \<or> c = CHR ''_''"

lemma base64Encode_chars: "list_all (\<lambda>c. c \<in> set base64_alphabet \<or> c = CHR ''='') (base64Encode bs)"
  by (induction bs rule: base64Encode.induct) (simp_all add: Let_def b64_char_range)

lemma url_char_alphabet:
  "list_all (\<lambda>c. b64_url_char (url_char c) \<and> url_char c \<noteq> CHR ''='') base64_alphabet"
  by (simp add: base64_alphabet_def url_char_def b64_url_char_def is_alnum_def is_alpha_def is_digit_def code_def)

lemma url_char_b64: "b64_url_char (url_char (b64_char w k))" "url_char (b64_char w k) \<noteq> CHR ''=''"
  using url_char_alphabet b64_char_range [of w k] by (auto simp: list_all_iff)

lemma url_char_inj: "list_all (\<lambda>c. list_all (\<lambda>d. url_char c = url_char d \<longrightarrow> c = d) (CHR ''='' # base64_alphabet)) (CHR ''='' # base64_alphabet)"
  by (simp add: base64_alphabet_def url_char_def)

text \<open>The padded text of the URL form: the stripped characters, then at most two pad characters.\<close>

definition url_split :: "byte list \<Rightarrow> string \<Rightarrow> nat \<Rightarrow> bool" where
  "url_split bs body k \<longleftrightarrow> map url_char (base64Encode bs) = body @ replicate k CHR ''='' \<and> k \<le> 2
     \<and> list_all (\<lambda>c. b64_url_char c \<and> c \<noteq> CHR ''='') body \<and> (length body + k) mod 4 = 0"

lemma url_split_more:
  "url_split r body k \<Longrightarrow>
   url_split (a # b # c # r) (map (\<lambda>k. url_char (b64_char (combined a b c) k)) [18, 12, 6, 0] @ body) k"
  by (simp add: url_split_def Let_def url_char_b64)

lemma url_char_pad: "url_char CHR ''='' = CHR ''=''"
  by (simp add: url_char_def)

lemma url_split_two:
  "url_split [a, b] (map (\<lambda>k. url_char (b64_char (combined a b 0) k)) [18, 12, 6]) 1"
  by (simp add: url_split_def Let_def url_char_b64 url_char_pad)

lemma url_split_one:
  "url_split [a] (map (\<lambda>k. url_char (b64_char (combined a 0 0) k)) [18, 12]) (Suc 1)"
  by (simp add: url_split_def Let_def url_char_b64 url_char_pad)

lemma url_split_none: "url_split [] [] 0"
  by (simp add: url_split_def)

lemma base64Encode_split: "\<exists>body k. url_split bs body k"
proof (induction bs rule: base64Encode.induct)
  case (1 a b c r)
  obtain body k where "url_split r body k" using "1.IH" [OF refl] by (elim exE)
  from url_split_more [OF this] show ?case by (intro exI)
qed (rule url_split_two url_split_one url_split_none exI)+

lemma strip_pad:
  assumes "list_all (\<lambda>c. c \<noteq> p) body"
  shows "rev (dropWhile (\<lambda>c. c = p) (rev (body @ replicate k p))) = body"
proof -
  have "dropWhile (\<lambda>c. c = p) (replicate k p @ rev body) = dropWhile (\<lambda>c. c = p) (rev body)"
    by (induction k) auto
  also have "\<dots> = rev body"
    using assms by (cases "body = []"; simp add: dropWhile_eq_self_iff list_all_iff hd_rev)
  finally show ?thesis by simp
qed

lemma base64UrlEncode_split:
  obtains k where "map url_char (base64Encode bs) = base64UrlEncode bs @ replicate k CHR ''=''" "k \<le> 2"
    "list_all b64_url_char (base64UrlEncode bs)" "(length (base64UrlEncode bs) + k) mod 4 = 0"
proof -
  obtain body k where u: "url_split bs body k" using base64Encode_split by blast
  note s = u [unfolded url_split_def]
  have "base64UrlEncode bs = body"
    using strip_pad [of "CHR ''=''" body k] s by (simp add: base64UrlEncode_def list_all_iff)
  with s show thesis by (intro that [of k]) (auto simp: list_all_iff)
qed

lemma base64UrlEncode_inj: "base64UrlEncode xs = base64UrlEncode ys \<Longrightarrow> xs = ys"
proof -
  assume e: "base64UrlEncode xs = base64UrlEncode ys"
  obtain j where j: "map url_char (base64Encode xs) = base64UrlEncode xs @ replicate j CHR ''=''" "j \<le> 2"
    "(length (base64UrlEncode xs) + j) mod 4 = 0" by (rule base64UrlEncode_split [of xs])
  obtain k where k: "map url_char (base64Encode ys) = base64UrlEncode ys @ replicate k CHR ''=''" "k \<le> 2"
    "(length (base64UrlEncode ys) + k) mod 4 = 0" by (rule base64UrlEncode_split [of ys])
  have "j = k" using j(2,3) k(2,3) e by simp presburger
  then have "map url_char (base64Encode xs) = map url_char (base64Encode ys)" using j k e by simp
  moreover have "set (base64Encode zs) \<subseteq> set (CHR ''='' # base64_alphabet)" for zs
    using base64Encode_chars [of zs] by (auto simp: list_all_iff)
  moreover have "inj_on url_char (set (CHR ''='' # base64_alphabet))"
    using url_char_inj unfolding list_all_iff by (intro inj_onI) blast
  ultimately have "base64Encode xs = base64Encode ys"
    using map_inj_on [of url_char "base64Encode xs" "base64Encode ys"] inj_on_subset by (metis Un_least)
  then show "xs = ys" by (rule base64Encode_inj)
qed

section \<open>Opaque tokens\<close>

datatype token_error = TokenTooShort

text \<open>\<open>random\<close> stands for \<open>crypto.getRandomValues\<close> on an array of the given length.\<close>

definition randomToken :: "(nat \<Rightarrow> byte list) \<Rightarrow> jsnum \<Rightarrow> (token_error, string) result" where
  "randomToken random n =
     (if \<not> is_integer_num n \<or> num_less n 32 then Inl TokenTooShort else Inr (toHex (random (nat (num_int n)))))"

definition isSafeOpaqueToken :: "string \<Rightarrow> bool" where
  "isSafeOpaqueToken s \<longleftrightarrow> list_all is_hex s \<and> length s \<ge> 64"

section \<open>Properties\<close>

text \<open>A webhook or callback signature verifies exactly when, after trimming and dropping an optional
  prefix, it is the hexadecimal text of the HMAC of the payload: the constant-time loop neither
  accepts a different signature nor rejects the right one.\<close>

theorem verifyHmac_exact:
  assumes "\<And>k m. length (hmac k m) = 32" and "length provided < 2 ^ 32"
  shows "verifyHmacSha256Hex hmac secret payload provided \<longleftrightarrow>
    fromHex (normalizeSignature provided) = Inr (hmac (input_bytes secret) (input_bytes payload))"
  using verifyHmac_iff assms by blast

theorem verifyHmac_exact_witness:
  "verifyHmacSha256Hex (\<lambda>k m. take 32 (k @ m @ replicate 32 0)) (TextInput ''k'') (TextInput ''m'')
     ('' sha256=6b6D'' @ replicate 60 (CHR ''0''))
   \<and> \<not> verifyHmacSha256Hex (\<lambda>k m. take 32 (k @ m @ replicate 32 0)) (TextInput ''k'') (TextInput ''m'') ''6b6d''"
proof -
  let ?h = "\<lambda>k m :: byte list. take 32 (k @ m @ replicate 32 0)"
  have l: "\<And>k m. length (?h k m) = 32" by simp
  have "fromHex (normalizeSignature ('' sha256=6b6D'' @ replicate 60 (CHR ''0''))) = Inr (?h (input_bytes (TextInput ''k'')) (input_bytes (TextInput ''m'')))"
    by code_simp
  moreover have "fromHex (normalizeSignature ''6b6d'') \<noteq> Inr (?h (input_bytes (TextInput ''k'')) (input_bytes (TextInput ''m'')))"
    by code_simp
  ultimately show ?thesis
    using verifyHmac_exact [of ?h, OF l] by simp
qed

text \<open>Base64, with or without the URL alphabet, loses nothing: different bytes have different
  texts, and the URL form uses the letters, digits, minus and underscore only.\<close>

theorem base64_lossless:
  "(base64Encode xs = base64Encode ys \<longleftrightarrow> xs = ys)
   \<and> (base64UrlEncode xs = base64UrlEncode ys \<longleftrightarrow> xs = ys)
   \<and> list_all b64_url_char (base64UrlEncode xs)"
  using base64Encode_inj base64UrlEncode_inj by (metis base64UrlEncode_split)

text \<open>C36. A token of \<open>n\<close> random bytes is issued exactly for an integer \<open>n\<close> of at least 32, and what is
  issued passes the check for opaque tokens.\<close>

theorem randomToken_safe:
  assumes "\<And>k. length (random k) = k"
  shows "((\<exists>t. randomToken random n = Inr t) \<longleftrightarrow> (\<exists>i. n = NInt i \<and> i \<ge> 32))
    \<and> (\<forall>t. randomToken random n = Inr t \<longrightarrow> isSafeOpaqueToken t)"
proof (intro conjI allI impI)
  show "(\<exists>t. randomToken random n = Inr t) \<longleftrightarrow> (\<exists>i. n = NInt i \<and> i \<ge> 32)"
    by (cases n) (auto simp: randomToken_def)
  fix t assume "randomToken random n = Inr t"
  then have "t = toHex (random (nat (num_int n)))" "num_int n \<ge> 32"
    by (cases n; auto simp: randomToken_def split: if_splits)+
  then show "isSafeOpaqueToken t"
    using toHex_digits assms is_lower_hex_is_hex by (auto simp: isSafeOpaqueToken_def list_all_iff)
qed

theorem randomToken_safe_witness:
  "\<exists>t. randomToken (\<lambda>k. replicate k 7) (NInt 32) = Inr t \<and> isSafeOpaqueToken t"
  using randomToken_safe [of "\<lambda>k. replicate k 7" "NInt 32"] by auto

end
