(* ===== verification/Signing_Manifest.thy ===== *)
theory Signing_Manifest
  imports Canonical_Json Crypto_Encoding
begin

text \<open>
  The manifest that binds every document of one signing intent
  (\<open>packages/signing-engine/src/manifest.ts\<close>): validation, ordering by ordinal and the bytes
  that are hashed. An ordinal is an integer; a document whose ordinal is not one is refused by
  the code whatever else it carries.
\<close>

record manifest_document =
  md_ordinal :: int
  md_documentVersionId :: string
  md_documentSha256 :: string
  md_displayName :: string
  md_mimeType :: string
  md_profile :: string
  md_byteSize :: json_number

record manifest_input =
  mi_tenantId :: string
  mi_signatureCaseId :: string
  mi_signingIntentId :: string
  mi_signerId :: string
  mi_documents :: "manifest_document list"

record signing_intent_manifest =
  sm_schema :: string
  sm_tenantId :: string
  sm_signatureCaseId :: string
  sm_signingIntentId :: string
  sm_signerId :: string
  sm_documents :: "manifest_document list"

datatype manifest_error =
    MANIFEST_EMPTY
  | MANIFEST_ORDINALS_NOT_CONTIGUOUS
  | MANIFEST_DOCUMENT_HASH_INVALID
  | MANIFEST_DOCUMENT_SIZE_INVALID
  | MANIFEST_DOCUMENT_DUPLICATED

definition signing_intent_manifest_schema :: string where
  "signing_intent_manifest_schema = ''kommunsign.signing-intent-manifest.v1''"

fun valid_byte_size :: "json_number \<Rightarrow> bool" where
  "valid_byte_size (JInt n) \<longleftrightarrow> \<bar>n\<bar> \<le> max_safe_integer \<and> \<not> n \<le> 0"
| "valid_byte_size _ \<longleftrightarrow> False"

fun check_documents :: "nat \<Rightarrow> manifest_document list \<Rightarrow> (manifest_error, unit) result" where
  "check_documents i [] = Inr ()"
| "check_documents i (d # ds) =
     (if md_ordinal d \<noteq> int i + 1 then Inl MANIFEST_ORDINALS_NOT_CONTIGUOUS
      else if \<not> is_sha256_hex (md_documentSha256 d) then Inl MANIFEST_DOCUMENT_HASH_INVALID
      else if \<not> valid_byte_size (md_byteSize d) then Inl MANIFEST_DOCUMENT_SIZE_INVALID
      else check_documents (Suc i) ds)"

definition buildSigningIntentManifest ::
  "manifest_input \<Rightarrow> (manifest_error, signing_intent_manifest) result" where
  "buildSigningIntentManifest inp =
     (if mi_documents inp = [] then Inl MANIFEST_EMPTY
      else let documents = sort_key md_ordinal (mi_documents inp) in
        bindR (check_documents 0 documents) (\<lambda>_.
          if has_duplicates (map md_documentVersionId documents) then Inl MANIFEST_DOCUMENT_DUPLICATED
          else Inr \<lparr> sm_schema = signing_intent_manifest_schema, sm_tenantId = mi_tenantId inp,
                 sm_signatureCaseId = mi_signatureCaseId inp, sm_signingIntentId = mi_signingIntentId inp,
                 sm_signerId = mi_signerId inp, sm_documents = documents \<rparr>))"

definition document_json :: "manifest_document \<Rightarrow> json" where
  "document_json d = JObj
     [(''ordinal'', Some (JNum (JInt (md_ordinal d)))),
      (''documentVersionId'', Some (JStr (md_documentVersionId d))),
      (''documentSha256'', Some (JStr (md_documentSha256 d))),
      (''displayName'', Some (JStr (md_displayName d))),
      (''mimeType'', Some (JStr (md_mimeType d))),
      (''profile'', Some (JStr (md_profile d))),
      (''byteSize'', Some (JNum (md_byteSize d)))]"

definition manifest_json :: "signing_intent_manifest \<Rightarrow> json" where
  "manifest_json m = JObj
     [(''schema'', Some (JStr (sm_schema m))),
      (''tenantId'', Some (JStr (sm_tenantId m))),
      (''signatureCaseId'', Some (JStr (sm_signatureCaseId m))),
      (''signingIntentId'', Some (JStr (sm_signingIntentId m))),
      (''signerId'', Some (JStr (sm_signerId m))),
      (''documents'', Some (JArr (map document_json (sm_documents m))))]"

definition signingIntentManifestBytes :: "signing_intent_manifest \<Rightarrow> (json_error, byte list) result" where
  "signingIntentManifestBytes m = bindR (canonicalJson (manifest_json m)) (\<lambda>s. Inr (text_encode s))"

definition signingIntentManifestSha256 ::
  "(byte list \<Rightarrow> byte list) \<Rightarrow> signing_intent_manifest \<Rightarrow> (json_error, string) result" where
  "signingIntentManifestSha256 sha256 m =
     bindR (signingIntentManifestBytes m) (\<lambda>b. Inr (sha256Hex sha256 (RawBytes b)))"

section \<open>Validation\<close>

definition document_ok :: "manifest_document \<Rightarrow> bool" where
  "document_ok d \<longleftrightarrow> is_sha256_hex (md_documentSha256 d) \<and> valid_byte_size (md_byteSize d)"

lemma check_documents_iff:
  "check_documents i ds = Inr u \<longleftrightarrow>
     map md_ordinal ds = map (\<lambda>k. int k + 1) [i..<i + length ds] \<and> list_all document_ok ds"
proof (induction ds arbitrary: i)
  case (Cons d ds)
  have "map (\<lambda>k. int k + 1) [i..<i + length (d # ds)] = (int i + 1) # map (\<lambda>k. int k + 1) [Suc i..<Suc i + length ds]"
    by (simp add: upt_conv_Cons del: upt_Suc)
  then show ?case using Cons.IH [of "Suc i"] by (auto simp: document_ok_def simp del: upt_Suc)
qed simp

lemma build_manifest_iff:
  "buildSigningIntentManifest inp = Inr m \<longleftrightarrow>
     (let ds = mi_documents inp; sorted_ds = sort_key md_ordinal ds in
       ds \<noteq> [] \<and> map md_ordinal sorted_ds = map (\<lambda>k. int k + 1) [0..<length ds]
       \<and> list_all document_ok ds \<and> distinct (map md_documentVersionId ds)
       \<and> m = \<lparr> sm_schema = signing_intent_manifest_schema, sm_tenantId = mi_tenantId inp,
                 sm_signatureCaseId = mi_signatureCaseId inp, sm_signingIntentId = mi_signingIntentId inp,
                 sm_signerId = mi_signerId inp, sm_documents = sorted_ds \<rparr>)"
proof -
  let ?s = "sort_key md_ordinal (mi_documents inp)"
  have a: "list_all document_ok ?s = list_all document_ok (mi_documents inp)" by (simp add: list_all_iff)
  have "mset (map md_documentVersionId ?s) = mset (map md_documentVersionId (mi_documents inp))" by simp
  then have d: "distinct (map md_documentVersionId ?s) = distinct (map md_documentVersionId (mi_documents inp))"
    by (rule mset_eq_imp_distinct_iff)
  show ?thesis
    using check_documents_iff [of 0 ?s "()"]
    by (auto simp: buildSigningIntentManifest_def Let_def bindR_Inr_iff a d simp del: upt_Suc)
qed

lemma build_documents_distinct:
  assumes "buildSigningIntentManifest inp = Inr m"
  shows "distinct (map md_ordinal (mi_documents inp))"
proof -
  have "map md_ordinal (sort_key md_ordinal (mi_documents inp)) = map (\<lambda>k. int k + 1) [0..<length (mi_documents inp)]"
    using assms by (simp add: build_manifest_iff Let_def)
  moreover have "distinct (map (\<lambda>k. int k + 1) [0..<length (mi_documents inp)])"
    by (simp add: distinct_map inj_on_def)
  ultimately have "distinct (map md_ordinal (sort_key md_ordinal (mi_documents inp)))" by (simp only:)
  moreover have "mset (map md_ordinal (sort_key md_ordinal (mi_documents inp))) = mset (map md_ordinal (mi_documents inp))"
    by simp
  ultimately show ?thesis using mset_eq_imp_distinct_iff by blast
qed

lemma build_reorder:
  assumes "buildSigningIntentManifest inp = Inr m" "mset (mi_documents inp) = mset ds"
  shows "buildSigningIntentManifest (inp\<lparr> mi_documents := ds \<rparr>) = Inr m"
proof -
  have "inj_on md_ordinal (set (mi_documents inp))"
    using build_documents_distinct [OF assms(1)] by (simp add: distinct_map)
  then have s: "sort_key md_ordinal (mi_documents inp) = sort_key md_ordinal ds"
    by (rule sort_key_mset_cong [OF assms(2)])
  have st: "set ds = set (mi_documents inp)" using mset_eq_setD [OF assms(2)] by simp
  have l: "length ds = length (mi_documents inp)" using mset_eq_length [OF assms(2)] by simp
  have "mset (map md_documentVersionId ds) = mset (map md_documentVersionId (mi_documents inp))"
    using assms(2) by simp
  then have "distinct (map md_documentVersionId ds) = distinct (map md_documentVersionId (mi_documents inp))"
    by (rule mset_eq_imp_distinct_iff)
  moreover have "ds \<noteq> []" using assms l by (auto simp: build_manifest_iff Let_def)
  ultimately show ?thesis
    using assms(1) s st l by (simp add: build_manifest_iff Let_def list_all_iff)
qed

section \<open>Commitment\<close>

lemma text_encode_Cons: "text_encode (c # s) = utf8_char c @ text_encode s"
  by (simp add: text_encode_def)

lemma utf8_char_cases:
  "utf8_char c = [of_nat (code c)] \<and> code c < 128
   \<or> utf8_char c = [of_nat (192 + code c div 64), of_nat (128 + code c mod 64)] \<and> 128 \<le> code c"
  by (auto simp: utf8_char_def Let_def)

lemma byte_of_nat_eq: "m < 256 \<Longrightarrow> n < 256 \<Longrightarrow> (of_nat m :: byte) = of_nat n \<longleftrightarrow> m = n"
  by (simp add: word_of_nat_eq_iff take_bit_nat_eq_self)

lemma utf8_char_prefix: "utf8_char c @ u = utf8_char d @ v \<Longrightarrow> c = d \<and> u = v"
proof -
  assume e: "utf8_char c @ u = utf8_char d @ v"
  have b: "code c < 256" "code d < 256" by (rule code_less)+
  have "192 + x div 64 < 256" "128 + x mod 64 < 256" if "x < 256" for x :: nat using that by simp_all
  then have h: "code c = code d \<and> u = v"
    using e utf8_char_cases [of c] utf8_char_cases [of d] b
    by (auto simp: byte_of_nat_eq simp del: of_nat_add) (metis add_left_cancel div_mult_mod_eq)
  then show ?thesis using code_inj by blast
qed

lemma text_encode_inj: "text_encode s = text_encode t \<Longrightarrow> s = t"
proof (induction s arbitrary: t)
  case Nil
  then show ?case by (cases t) (auto simp: text_encode_def utf8_char_def Let_def split: if_splits)
next
  case (Cons c s)
  then show ?case
  proof (cases t)
    case Nil
    then show ?thesis using Cons.prems utf8_char_cases [of c] by (auto simp: text_encode_def)
  next
    case t: (Cons d t')
    with Cons.prems have "utf8_char c @ text_encode s = utf8_char d @ text_encode t'"
      by (simp add: text_encode_Cons)
    from utf8_char_prefix [OF this] Cons.IH t show ?thesis by blast
  qed
qed

lemma document_json_inj:
  assumes "norm_json (document_json d) = norm_json (document_json e)"
  shows "d = e"
proof -
  note m = norm_obj_member [OF assms [unfolded document_json_def]]
  show ?thesis
    using m [of "''ordinal''"] m [of "''documentVersionId''"] m [of "''documentSha256''"] m [of "''displayName''"]
      m [of "''mimeType''"] m [of "''profile''"] m [of "''byteSize''"]
    by (cases d; cases e) auto
qed

lemma manifest_json_inj:
  assumes "norm_json (manifest_json m) = norm_json (manifest_json n)"
  shows "m = n"
proof -
  note k = norm_obj_member [OF assms [unfolded manifest_json_def]]
  have "map norm_json (map document_json (sm_documents m)) = map norm_json (map document_json (sm_documents n))"
    using k [of "''documents''"] by auto
  then have "sm_documents m = sm_documents n"
    using document_json_inj by (auto simp: list_eq_iff_nth_eq)
  then show ?thesis
    using k [of "''schema''"] k [of "''tenantId''"] k [of "''signatureCaseId''"] k [of "''signingIntentId''"]
      k [of "''signerId''"]
    by (cases m; cases n) auto
qed

lemma wf_manifest:
  assumes "list_all document_ok (sm_documents m)"
  shows "wf_json (manifest_json m)"
proof -
  have "wf_json (document_json d)" if "document_ok d" for d
    using that by (cases "md_byteSize d") (simp_all add: document_json_def document_ok_def)
  then show ?thesis using assms by (auto simp: manifest_json_def list_all_iff)
qed

lemma built_documents_ok: "buildSigningIntentManifest inp = Inr m \<Longrightarrow> list_all document_ok (sm_documents m)"
  by (auto simp: build_manifest_iff Let_def list_all_iff)

lemma built_serialises:
  assumes "buildSigningIntentManifest inp = Inr m"
  obtains s where "canonicalJson (manifest_json m) = Inr s" "signingIntentManifestBytes m = Inr (text_encode s)"
proof -
  have "serialisable (document_json d)" if "document_ok d" for d
    using that by (cases "md_byteSize d") (simp_all add: document_json_def document_ok_def)
  then have "serialisable (manifest_json m)"
    using built_documents_ok [OF assms] by (auto simp: manifest_json_def list_all_iff)
  then obtain s where "encode (manifest_json m) = Inr s" using encode_total by blast
  then show thesis by (intro that [of s]) (simp_all add: canonicalJson_def signingIntentManifestBytes_def)
qed

section \<open>Properties\<close>

text \<open>Exactly the document sets with contiguous ordinals from one, valid hashes and sizes and no
  repeated version are accepted, and the manifest lists all of them in ordinal order.\<close>

theorem manifest_accepts_iff:
  "buildSigningIntentManifest inp = Inr m \<longleftrightarrow>
     (let ds = mi_documents inp; sorted_ds = sort_key md_ordinal ds in
       ds \<noteq> [] \<and> map md_ordinal sorted_ds = map (\<lambda>k. int k + 1) [0..<length ds]
       \<and> list_all document_ok ds \<and> distinct (map md_documentVersionId ds)
       \<and> m = \<lparr> sm_schema = signing_intent_manifest_schema, sm_tenantId = mi_tenantId inp,
                 sm_signatureCaseId = mi_signatureCaseId inp, sm_signingIntentId = mi_signingIntentId inp,
                 sm_signerId = mi_signerId inp, sm_documents = sorted_ds \<rparr>)"
  by (rule build_manifest_iff)

text \<open>The manifest, and so its hash, does not depend on the order in which the documents were
  retrieved.\<close>

theorem manifest_order_independent:
  assumes "buildSigningIntentManifest inp = Inr m" and "mset (mi_documents inp) = mset ds"
  shows "buildSigningIntentManifest (inp\<lparr> mi_documents := ds \<rparr>) = Inr m"
  using build_reorder assms by blast

definition sample_document :: "int \<Rightarrow> manifest_document" where
  "sample_document i = \<lparr> md_ordinal = i, md_documentVersionId = nat_str (nat i), md_documentSha256 = replicate 64 (CHR ''a''),
     md_displayName = ''Beslut'', md_mimeType = ''application/pdf'', md_profile = ''PDF_SIGN'', md_byteSize = JInt 10 \<rparr>"

definition sample_input :: "manifest_document list \<Rightarrow> manifest_input" where
  "sample_input ds = \<lparr> mi_tenantId = ''t'', mi_signatureCaseId = ''c'', mi_signingIntentId = ''i'', mi_signerId = ''s'', mi_documents = ds \<rparr>"

lemma sample_builds:
  "\<exists>m. buildSigningIntentManifest (sample_input [sample_document 2, sample_document 1]) = Inr m"
  unfolding is_ok_iff [symmetric] by code_simp

theorem manifest_order_independent_witness:
  "\<exists>m. buildSigningIntentManifest (sample_input [sample_document 2, sample_document 1]) = Inr m
     \<and> buildSigningIntentManifest (sample_input [sample_document 1, sample_document 2]) = Inr m"
proof -
  obtain m where m: "buildSigningIntentManifest (sample_input [sample_document 2, sample_document 1]) = Inr m"
    using sample_builds by blast
  from manifest_order_independent [OF this, of "[sample_document 1, sample_document 2]"] m
  show ?thesis by (auto simp: sample_input_def)
qed

text \<open>C9. The hashed bytes commit to the whole manifest: two manifests the builder accepted have the
  same bytes only when every tenant, case, signer and document field is the same.\<close>

theorem manifest_bytes_commit:
  assumes "buildSigningIntentManifest a = Inr m" and "buildSigningIntentManifest b = Inr n"
  shows "(\<exists>bytes. signingIntentManifestBytes m = Inr bytes)
    \<and> (signingIntentManifestBytes m = signingIntentManifestBytes n \<longleftrightarrow> m = n)"
proof -
  obtain s where s: "canonicalJson (manifest_json m) = Inr s" "signingIntentManifestBytes m = Inr (text_encode s)"
    by (rule built_serialises [OF assms(1)])
  obtain t where t: "canonicalJson (manifest_json n) = Inr t" "signingIntentManifestBytes n = Inr (text_encode t)"
    by (rule built_serialises [OF assms(2)])
  have w: "wf_json (manifest_json m)" "wf_json (manifest_json n)"
    using assms built_documents_ok wf_manifest by blast+
  have "m = n" if "signingIntentManifestBytes m = signingIntentManifestBytes n"
  proof -
    have "s = t" using that s t text_encode_inj by simp
    then have "norm_json (manifest_json m) = norm_json (manifest_json n)"
      using encode_same_iff [OF w] s t unfolding canonicalJson_def by blast
    then show ?thesis by (rule manifest_json_inj)
  qed
  then show ?thesis using s by blast
qed

theorem manifest_bytes_commit_witness:
  "\<exists>m n. signingIntentManifestBytes m \<noteq> signingIntentManifestBytes n
     \<and> buildSigningIntentManifest (sample_input [sample_document 2, sample_document 1]) = Inr m
     \<and> buildSigningIntentManifest (sample_input [sample_document 1]) = Inr n"
proof -
  obtain m where m: "buildSigningIntentManifest (sample_input [sample_document 2, sample_document 1]) = Inr m"
    using sample_builds by blast
  have "\<exists>n. buildSigningIntentManifest (sample_input [sample_document 1]) = Inr n"
    unfolding is_ok_iff [symmetric] by code_simp
  then obtain n where n: "buildSigningIntentManifest (sample_input [sample_document 1]) = Inr n" by blast
  have "length (sm_documents m) = 2" "length (sm_documents n) = 1"
    using m n by (simp_all add: build_manifest_iff Let_def sample_input_def)
  then have "m \<noteq> n" by auto
  with manifest_bytes_commit [OF m n] m n show ?thesis by blast
qed

end
