(* ===== verification/Personal_Number.thy ===== *)
theory Personal_Number
  imports Js_Date
begin

text \<open>
  Swedish personal identity numbers (\<open>packages/personal-number/src/index.ts\<close>): normalisation
  with calendar and Luhn checks, masking, and the decision which binding of a signer to an
  identifier a case gets. A time value is milliseconds since 1970.
\<close>

datatype identifier_binding_mode = STRICT_PREBOUND | BANKID_DISCOVERED

datatype exception_code =
    UNKNOWN_AT_INVITATION
  | DATA_MINIMIZATION
  | PROTECTED_PERSONAL_DATA_WORKFLOW
  | RECIPIENT_SELECTED_BY_SECURE_CHANNEL
  | OTHER
  | Unlisted_code string

record exception_input =
  ex_code :: exception_code
  ex_reason :: "string option"

record binding_decision =
  bd_mode :: identifier_binding_mode
  bd_normalizedPersonalNumber :: "string option"
  bd_exception :: "exception_input option"

record binding_input =
  bi_personalNumber :: "string option"
  bi_requirePersonalNumberMatch :: bool
  bi_exception :: "exception_input option"
  bi_tenantAllowsException :: bool
  bi_actorHasExceptionPermission :: bool
  bi_referenceDate :: int

datatype personal_number_error =
    PERSONAL_NUMBER_INVALID
  | PERSONAL_NUMBER_REQUIRED
  | PERSONAL_NUMBER_EXCEPTION_NOT_ALLOWED
  | PERSONAL_NUMBER_EXCEPTION_REASON_REQUIRED
  | PERSONAL_NUMBER_EXCEPTION_REASON_INVALID

section \<open>Normalisation\<close>

definition slice :: "nat \<Rightarrow> nat \<Rightarrow> string \<Rightarrow> string" where
  "slice a b s = take (b - a) (drop a s)"

text \<open>\<open>Date.UTC\<close> of a year, a month index and a day, as a day number: the years 0 to 99 mean 1900 to 1999.\<close>

definition utc_day :: "int \<Rightarrow> int \<Rightarrow> int \<Rightarrow> int" where
  "utc_day y mi d = make_day (if 0 \<le> y \<and> y \<le> 99 then 1900 + y else y) mi d"

text \<open>\<open>Number\<close> of a slice that holds digits and at most a sign; \<open>None\<close> is NaN.\<close>

definition number_of :: "string \<Rightarrow> int option" where
  "number_of s =
     (if s \<noteq> [] \<and> list_all is_digit s then Some (int (num_of s))
      else case s of
        c # r \<Rightarrow> if c = CHR ''-'' \<and> r \<noteq> [] \<and> list_all is_digit r then Some (- int (num_of r)) else None
      | [] \<Rightarrow> None)"

definition isCalendarDate :: "int \<Rightarrow> int \<Rightarrow> int \<Rightarrow> bool" where
  "isCalendarDate y m d = (date_of_day (utc_day y (m - 1) d) = (y, m, d))"

text \<open>The check with a field that may be NaN, for which every comparison fails.\<close>

definition date_fields_ok :: "int option \<Rightarrow> int option \<Rightarrow> int option \<Rightarrow> bool" where
  "date_fields_ok y m d = (case (y, m, d) of (Some y', Some m', Some d') \<Rightarrow> isCalendarDate y' m' d' | _ \<Rightarrow> False)"

definition luhn_weight :: "nat \<Rightarrow> nat \<Rightarrow> nat" where
  "luhn_weight i d = (let v = d * (if i mod 2 = 0 then 2 else 1) in if v > 9 then v - 9 else v)"

fun luhn_sum :: "nat \<Rightarrow> string \<Rightarrow> nat" where
  "luhn_sum i [] = 0"
| "luhn_sum i (c # s) = luhn_weight i (digit_val c) + luhn_sum (Suc i) s"

definition luhnValid :: "string \<Rightarrow> bool" where
  "luhnValid s \<longleftrightarrow> length s = 10 \<and> list_all is_digit s \<and> luhn_sum 0 s mod 10 = 0"

definition pad_left4 :: "string \<Rightarrow> string" where
  "pad_left4 s = replicate (4 - length s) (CHR ''0'') @ s"

definition inferCentury :: "string \<Rightarrow> int \<Rightarrow> string" where
  "inferCentury ten reference =
     (let yearTwo = int (num_of (slice 0 2 ten));
          month = int (num_of (slice 2 4 ten));
          day = int (num_of (slice 4 6 ten));
          currentYear = year_of_day (reference div ms_per_day);
          year = (currentYear div 100) * 100 + yearTwo;
          candidate = utc_day year (month - 1) day * ms_per_day;
          year' = (if valid_time candidate \<and> candidate > reference then year - 100 else year)
      in pad_left4 (int_str year') @ drop 2 ten)"

definition separator_char :: "char \<Rightarrow> bool" where
  "separator_char c \<longleftrightarrow> js_ws c \<or> c = CHR ''+'' \<or> c = CHR ''-''"

definition normalizeSwedishPersonalNumber :: "string \<Rightarrow> int \<Rightarrow> (personal_number_error, string) result" where
  "normalizeSwedishPersonalNumber s reference =
     (let digits = filter (\<lambda>c. \<not> separator_char c) s in
      if \<not> (list_all is_digit digits \<and> (length digits = 10 \<or> length digits = 12)) then Inl PERSONAL_NUMBER_INVALID
      else
        let twelve = (if length digits = 12 then digits else inferCentury digits reference);
            year = number_of (slice 0 4 twelve);
            month = number_of (slice 4 6 twelve);
            day = number_of (slice 6 8 twelve)
        in if \<not> date_fields_ok year month day \<or> \<not> luhnValid (drop 2 twelve) then Inl PERSONAL_NUMBER_INVALID
           else Inr twelve)"

section \<open>Masking\<close>

text \<open>The bullet character lies outside the code units of \<open>char\<close>; it has a constructor of its own.\<close>

datatype mask_char = Shown char | Bullet

definition maskSwedishPersonalNumber :: "string \<Rightarrow> (personal_number_error, mask_char list) result" where
  "maskSwedishPersonalNumber s =
     (if \<not> (length s = 12 \<and> list_all is_digit s) then Inl PERSONAL_NUMBER_INVALID
      else Inr (map Shown (take 4 s) @ replicate 4 Bullet @ [Shown (CHR ''-'')] @ map Shown (drop 8 s)))"

section \<open>The binding decision\<close>

fun listed_code :: "exception_code \<Rightarrow> bool" where
  "listed_code (Unlisted_code _) = False"
| "listed_code _ = True"

definition decideIdentifierBinding :: "binding_input \<Rightarrow> (personal_number_error, binding_decision) result" where
  "decideIdentifierBinding inp =
     (let raw = map_option js_trim (bi_personalNumber inp) in
      if \<not> falsy raw then
        (if \<not> bi_requirePersonalNumberMatch inp \<or> bi_exception inp \<noteq> None then Inl PERSONAL_NUMBER_INVALID
         else bindR (normalizeSwedishPersonalNumber (the raw) (bi_referenceDate inp)) (\<lambda>n.
           Inr \<lparr> bd_mode = STRICT_PREBOUND, bd_normalizedPersonalNumber = Some n, bd_exception = None \<rparr>))
      else if bi_requirePersonalNumberMatch inp then Inl PERSONAL_NUMBER_REQUIRED
      else case bi_exception inp of
        None \<Rightarrow> Inl PERSONAL_NUMBER_REQUIRED
      | Some ex \<Rightarrow>
          if \<not> bi_tenantAllowsException inp \<or> \<not> bi_actorHasExceptionPermission inp then Inl PERSONAL_NUMBER_EXCEPTION_NOT_ALLOWED
          else if \<not> listed_code (ex_code ex) then Inl PERSONAL_NUMBER_EXCEPTION_NOT_ALLOWED
          else
            let trimmed = map_option js_trim (ex_reason ex);
                reason = (if falsy trimmed then None else trimmed)
            in if ex_code ex = OTHER \<and> reason = None then Inl PERSONAL_NUMBER_EXCEPTION_REASON_REQUIRED
               else if reason \<noteq> None \<and> length (the reason) > 2000 then Inl PERSONAL_NUMBER_EXCEPTION_REASON_INVALID
               else Inr \<lparr> bd_mode = BANKID_DISCOVERED, bd_normalizedPersonalNumber = None,
                          bd_exception = Some \<lparr> ex_code = ex_code ex, ex_reason = reason \<rparr> \<rparr>)"

section \<open>Luhn\<close>

lemma luhn_weight_inj: "d < 10 \<Longrightarrow> e < 10 \<Longrightarrow> luhn_weight i d = luhn_weight i e \<Longrightarrow> d = e"
  by (auto simp: luhn_weight_def Let_def split: if_splits) presburger+

lemma luhn_weight_less: "d < 10 \<Longrightarrow> luhn_weight i d < 10"
  by (auto simp: luhn_weight_def Let_def)

lemma luhn_sum_update:
  "k < length s \<Longrightarrow> luhn_sum i (s[k := c]) + luhn_weight (i + k) (digit_val (s ! k))
     = luhn_sum i s + luhn_weight (i + k) (digit_val c)"
proof (induction s arbitrary: i k)
  case (Cons x s)
  then show ?case
  proof (cases k)
    case (Suc k')
    then show ?thesis using Cons.IH [of k' "Suc i"] Cons.prems by simp
  qed simp
qed simp

lemma last_digit_eq: "10 * x + a = 10 * y + b \<Longrightarrow> a < 10 \<Longrightarrow> b < 10 \<Longrightarrow> a = (b :: nat)"
  by presburger

lemma luhn_single_error:
  assumes "luhnValid s" "k < length s" "is_digit c" "c \<noteq> s ! k"
  shows "\<not> luhnValid (s[k := c])"
proof
  assume v: "luhnValid (s[k := c])"
  have d: "is_digit (s ! k)" using assms(1,2) by (simp add: luhnValid_def list_all_length)
  let ?a = "luhn_weight k (digit_val (s ! k))" and ?b = "luhn_weight k (digit_val c)"
  have "luhn_sum 0 (s[k := c]) + ?a = luhn_sum 0 s + ?b"
    using luhn_sum_update [OF assms(2), of 0 c] by simp
  moreover have "luhn_sum 0 (s[k := c]) mod 10 = 0" "luhn_sum 0 s mod 10 = 0"
    using v assms(1) by (simp_all add: luhnValid_def)
  ultimately obtain x y where "10 * x + ?a = 10 * y + ?b" by (auto simp: mod_eq_0_iff_dvd elim!: dvdE)
  moreover have "?a < 10" "?b < 10" using d assms(3) by (simp_all add: luhn_weight_less digit_val_less)
  ultimately have "?a = ?b" by (rule last_digit_eq)
  then have "digit_val (s ! k) = digit_val c"
    using luhn_weight_inj d assms(3) by (simp add: digit_val_less)
  then show False using digit_char_digit_val d assms(3,4) by metis
qed

section \<open>What normalisation returns\<close>

text \<open>A normalised number: twelve digits, a date of the calendar, a valid check digit.\<close>

definition normalised :: "string \<Rightarrow> bool" where
  "normalised s \<longleftrightarrow> length s = 12 \<and> list_all is_digit s
     \<and> date_fields_ok (number_of (slice 0 4 s)) (number_of (slice 4 6 s)) (number_of (slice 6 8 s))
     \<and> luhnValid (drop 2 s)"

lemma digit_not_separator: "is_digit c \<Longrightarrow> \<not> separator_char c"
  by (auto simp: is_digit_def separator_char_def js_ws_def Let_def code_def)

lemma filter_digits: "list_all is_digit s \<Longrightarrow> filter (\<lambda>c. \<not> separator_char c) s = s"
  using digit_not_separator by (auto simp: list_all_iff filter_id_conv)

lemma normalize_normalised: "normalised s \<Longrightarrow> normalizeSwedishPersonalNumber s r = Inr s"
  unfolding normalised_def normalizeSwedishPersonalNumber_def Let_def by (simp add: filter_digits)

lemma inferred_prefix_digits:
  assumes "200 \<le> year_of_day (r div ms_per_day)"
  shows "list_all is_digit (pad_left4 (int_str (let cy = year_of_day (r div ms_per_day); yr = (cy div 100) * 100 + int n
      in if P yr then yr - 100 else yr)))"
proof -
  define y where "y = (let cy = year_of_day (r div ms_per_day); yr = (cy div 100) * 100 + int n
      in if P yr then yr - 100 else yr)"
  have "0 \<le> y" using assms unfolding y_def Let_def by auto
  then have "int_str y = nat_str (nat y)" by (simp add: int_str_def)
  moreover have "is_digit (CHR ''0'')" by (simp add: is_digit_def code_def)
  ultimately show ?thesis
    using nat_str_digits unfolding y_def [symmetric] pad_left4_def by (auto simp: list_all_iff)
qed

lemma inferCentury_digits:
  assumes "200 \<le> year_of_day (r div ms_per_day)" and "list_all is_digit s"
  shows "list_all is_digit (inferCentury s r)"
proof -
  have "list_all is_digit (drop 2 s)" using assms(2) by (auto simp: list_all_iff dest: in_set_dropD)
  then show ?thesis
    using inferred_prefix_digits [OF assms(1), of "num_of (slice 0 2 s)"
        "\<lambda>yr. valid_time (utc_day yr (int (num_of (slice 2 4 s)) - 1) (int (num_of (slice 4 6 s))) * ms_per_day)
           \<and> utc_day yr (int (num_of (slice 2 4 s)) - 1) (int (num_of (slice 4 6 s))) * ms_per_day > r"]
    by (simp add: inferCentury_def Let_def)
qed

lemma normalize_shape:
  assumes "normalizeSwedishPersonalNumber s r = Inr t" and "200 \<le> year_of_day (r div ms_per_day)"
  shows "normalised t"
proof -
  define ds where "ds = filter (\<lambda>c. \<not> separator_char c) s"
  define tw where "tw = (if length ds = 12 then ds else inferCentury ds r)"
  have a: "list_all is_digit ds" "t = tw" "luhnValid (drop 2 tw)"
    "date_fields_ok (number_of (slice 0 4 tw)) (number_of (slice 4 6 tw)) (number_of (slice 6 8 tw))"
    using assms(1) unfolding normalizeSwedishPersonalNumber_def ds_def [symmetric] Let_def tw_def
    by (auto split: if_splits)
  have "length tw = 12" using a(3) by (auto simp: luhnValid_def)
  moreover have "list_all is_digit tw" using a(1) inferCentury_digits [OF assms(2)] by (simp add: tw_def)
  ultimately show ?thesis using a unfolding normalised_def by simp
qed

section \<open>Properties\<close>

text \<open>Normalisation returns twelve digits that form a calendar date with a valid check digit, and
  normalising the result again, at any later time, changes nothing.\<close>

theorem normalize_personal_number_stable:
  assumes "normalizeSwedishPersonalNumber s r = Inr t" and "200 \<le> year_of_day (r div ms_per_day)"
  shows "normalised t \<and> normalizeSwedishPersonalNumber t r' = Inr t"
  using normalize_shape [OF assms] normalize_normalised by blast

theorem normalize_personal_number_stable_witness:
  "normalizeSwedishPersonalNumber ''811218-9876'' 1700000000000 = Inr ''198112189876''
   \<and> normalised ''198112189876''"
proof -
  have a: "normalizeSwedishPersonalNumber ''811218-9876'' 1700000000000 = Inr ''198112189876''" by code_simp
  have b: "200 \<le> year_of_day (1700000000000 div ms_per_day)" by code_simp
  from normalize_personal_number_stable [OF a b] a show ?thesis by blast
qed

text \<open>A single wrong digit in the ten significant positions of a valid personal number is always
  detected.\<close>

theorem personal_number_single_error_rejected:
  assumes "normalised s" and "2 \<le> k" and "k < 12" and "is_digit c" and "c \<noteq> s ! k"
  shows "normalizeSwedishPersonalNumber (s[k := c]) r = Inl PERSONAL_NUMBER_INVALID"
proof -
  have s: "length s = 12" "list_all is_digit s" "luhnValid (drop 2 s)" using assms(1) by (simp_all add: normalised_def)
  have d: "drop 2 (s[k := c]) = (drop 2 s)[k - 2 := c]" using assms(2) by (simp add: drop_update_swap)
  have "\<not> luhnValid ((drop 2 s)[k - 2 := c])"
  proof (rule luhn_single_error [OF s(3) _ assms(4)])
    show "k - 2 < length (drop 2 s)" using assms(2,3) s(1) by simp
    have "Suc (Suc (k - 2)) = k" using assms(2) by simp
    then have "drop 2 s ! (k - 2) = s ! k" using s(1) by simp
    then show "c \<noteq> drop 2 s ! (k - 2)" using assms(5) by simp
  qed
  moreover have "list_all is_digit (s[k := c])"
    using s(2) assms(4) by (auto simp: list_all_iff dest!: set_update_subset_insert [THEN subsetD])
  ultimately show ?thesis
    using s(1) d by (simp add: normalizeSwedishPersonalNumber_def filter_digits Let_def)
qed

theorem personal_number_single_error_rejected_witness:
  "normalizeSwedishPersonalNumber ''198112189877'' 0 = Inl PERSONAL_NUMBER_INVALID"
proof -
  have "normalised ''198112189876''" by code_simp
  from personal_number_single_error_rejected [OF this, of 11 "CHR ''7''" 0]
  show ?thesis by (simp add: is_digit_def code_def)
qed

text \<open>A masked number shows the birth year and the last four digits and nothing else: the masks of
  two numbers are equal exactly when those agree.\<close>

theorem mask_reveals_only:
  assumes "length s = 12" "list_all is_digit s" "length t = 12" "list_all is_digit t"
  shows "maskSwedishPersonalNumber s = maskSwedishPersonalNumber t \<longleftrightarrow> take 4 s = take 4 t \<and> drop 8 s = drop 8 t"
proof -
  have "inj Shown" by (simp add: inj_on_def)
  then have "map Shown u = map Shown v \<longleftrightarrow> u = v" for u v by (rule inj_map_eq_map)
  then show ?thesis using assms by (auto simp: maskSwedishPersonalNumber_def)
qed

theorem mask_reveals_only_witness:
  "maskSwedishPersonalNumber ''198112189876'' = maskSwedishPersonalNumber ''198101019876''"
  by (subst mask_reveals_only) (simp_all add: is_digit_def code_def)

text \<open>A case is left unbound to a personal number only with a listed exception code, the tenant's
  consent and the actor's permission, and never when a number was given or a match is required; a
  strict binding always carries a normalised number.\<close>

theorem binding_decision_safe:
  "case decideIdentifierBinding inp of
     Inl _ \<Rightarrow> True
   | Inr d \<Rightarrow> (case bd_mode d of
       BANKID_DISCOVERED \<Rightarrow> falsy (map_option js_trim (bi_personalNumber inp)) \<and> \<not> bi_requirePersonalNumberMatch inp
         \<and> bi_tenantAllowsException inp \<and> bi_actorHasExceptionPermission inp
         \<and> (case bi_exception inp of None \<Rightarrow> False | Some ex \<Rightarrow> listed_code (ex_code ex))
         \<and> bd_normalizedPersonalNumber d = None
     | STRICT_PREBOUND \<Rightarrow> bi_requirePersonalNumberMatch inp \<and> bi_exception inp = None \<and> bd_exception d = None
         \<and> (case (bi_personalNumber inp, bd_normalizedPersonalNumber d) of
              (Some raw, Some n) \<Rightarrow> normalizeSwedishPersonalNumber (js_trim raw) (bi_referenceDate inp) = Inr n
            | _ \<Rightarrow> False))"
proof (cases "falsy (map_option js_trim (bi_personalNumber inp))")
  case True
  then show ?thesis
    by (auto simp: decideIdentifierBinding_def Let_def split: option.splits sum.splits)
next
  case False
  then obtain raw where "bi_personalNumber inp = Some raw" by (cases "bi_personalNumber inp") auto
  with False show ?thesis
    by (auto simp: decideIdentifierBinding_def Let_def bindR_def split: option.splits sum.splits)
qed

text \<open>C37. The separator does not reach the century: \<open>+\<close>, which marks a person of at least a
  hundred years, and \<open>-\<close> give the same normalised number.\<close>

theorem plus_separator_ignored:
  "normalizeSwedishPersonalNumber (u @ CHR ''+'' # v) r = normalizeSwedishPersonalNumber (u @ CHR ''-'' # v) r"
  by (simp add: normalizeSwedishPersonalNumber_def separator_char_def)

end
