(* ===== verification/Role_Mapping.thy ===== *)
theory Role_Mapping
  imports Prelude
begin

text \<open>
  The mapping of directory groups to roles, the loop that federation
  (\<open>packages/federation/src/index.ts\<close>) and provisioning (\<open>packages/scim/src/index.ts\<close>) share up to
  the error they throw: an unlisted group grants nothing, a role that may not be assigned is an
  error, and a role is collected once.
\<close>

text \<open>
  \<open>groupToRole[group]\<close>: a key of the object itself, a member every object inherits, or undefined.
  What is inherited is never a string, so it is none of the assignable roles.
\<close>

datatype role_lookup = Role string | Inherited_member | Unmapped

definition object_prototype_names :: "string list" where
  "object_prototype_names =
     [''constructor'', ''__defineGetter__'', ''__defineSetter__'', ''hasOwnProperty'', ''__lookupGetter__'',
      ''__lookupSetter__'', ''isPrototypeOf'', ''propertyIsEnumerable'', ''toString'', ''valueOf'', ''__proto__'', ''toLocaleString'']"

definition role_of_group :: "(string \<times> string) list \<Rightarrow> string \<Rightarrow> role_lookup" where
  "role_of_group m g =
     (case map_of m g of Some r \<Rightarrow> Role r
      | None \<Rightarrow> if g \<in> set object_prototype_names then Inherited_member else Unmapped)"

fun collect_roles ::
  "'e \<Rightarrow> (string \<Rightarrow> role_lookup) \<Rightarrow> string list \<Rightarrow> string list \<Rightarrow> string list \<Rightarrow> ('e, string list) result" where
  "collect_roles err look assignable [] roles = Inr roles"
| "collect_roles err look assignable (g # gs) roles =
     (case look g of
        Unmapped \<Rightarrow> collect_roles err look assignable gs roles
      | Inherited_member \<Rightarrow> Inl err
      | Role r \<Rightarrow>
          if r \<notin> set assignable then Inl err
          else collect_roles err look assignable gs (if r \<in> set roles then roles else roles @ [r]))"

definition granted :: "(string \<Rightarrow> role_lookup) \<Rightarrow> string list \<Rightarrow> string set" where
  "granted look gs = {r. \<exists>g\<in>set gs. look g = Role r}"

lemma granted_simps [simp]:
  "granted look [] = {}"
  "granted look (g # gs) = (case look g of Role r \<Rightarrow> insert r (granted look gs) | _ \<Rightarrow> granted look gs)"
  by (auto simp: granted_def split: role_lookup.splits)

lemma collect_roles_Inr:
  assumes "collect_roles err look assignable gs roles = Inr rs" and "distinct roles"
  shows "distinct rs \<and> set rs = set roles \<union> granted look gs \<and> granted look gs \<subseteq> set assignable
    \<and> (\<forall>g\<in>set gs. look g \<noteq> Inherited_member)"
  using assms
proof (induction gs arbitrary: roles)
  case (Cons g gs)
  show ?case
  proof (cases "look g")
    case (Role r)
    let ?roles = "if r \<in> set roles then roles else roles @ [r]"
    have a: "r \<in> set assignable" and c: "collect_roles err look assignable gs ?roles = Inr rs"
      using Cons.prems(1) Role by (auto split: if_splits)
    have "distinct ?roles" "set ?roles = insert r (set roles)" using Cons.prems(2) by auto
    with Cons.IH [OF c] a Role show ?thesis by auto
  next
    case Inherited_member
    then show ?thesis using Cons.prems(1) by simp
  next
    case Unmapped
    then show ?thesis using Cons.IH [of roles] Cons.prems by auto
  qed
qed simp

lemma collect_roles_Inl:
  "collect_roles err look assignable gs roles = Inl e \<longleftrightarrow>
     e = err \<and> (\<exists>g\<in>set gs. look g = Inherited_member \<or> (\<exists>r. look g = Role r \<and> r \<notin> set assignable))"
  by (induction gs arbitrary: roles) (auto split: role_lookup.splits)

end
