(* ===== verification/Federation.thy ===== *)
theory Federation
  imports Js_Date Role_Mapping
begin

text \<open>
  Workforce federation (\<open>packages/federation/src/index.ts\<close>): the admission of a verified SAML or
  OIDC assertion against the tenant's configuration and the login request it answers, the ledger
  of consumed assertions, the mapping of groups to roles and the targets of a logout request.
  The ledger is the interface \<open>assertion_ledger\<close>; the code's in-memory ledger is its
  interpretation. A time is milliseconds since 1970. The names of the subject and group attributes
  are a tenant's configuration and are not names \<open>Object.prototype\<close> has.
\<close>

section \<open>Data\<close>

datatype federation_protocol = SAML2 | OIDC

datatype federation_error =
    FEDERATION_SIGNATURE_NOT_VERIFIED
  | FEDERATION_ISSUER_MISMATCH
  | FEDERATION_AUDIENCE_MISMATCH
  | FEDERATION_DESTINATION_MISMATCH
  | FEDERATION_REQUEST_MISMATCH
  | FEDERATION_ASSERTION_REPLAYED
  | FEDERATION_ASSERTION_EXPIRED
  | FEDERATION_ASSERTION_NOT_YET_VALID
  | FEDERATION_SUBJECT_MISSING
  | FEDERATION_TENANT_MISMATCH
  | FEDERATION_PROVIDER_DISABLED
  | FEDERATION_AUTHN_CONTEXT_TOO_LOW
  | FEDERATION_SESSION_TOO_OLD
  | FEDERATION_NO_ROLE_MAPPED
  | FEDERATION_ROLE_NOT_ASSIGNABLE

record federation_config =
  fc_tenantId :: string
  fc_protocol :: federation_protocol
  fc_enabled :: bool
  fc_issuer :: string
  fc_audience :: string
  fc_destination :: string
  fc_signingCertificateSecretReference :: string
  fc_requiredAuthnContexts :: "string list"
  fc_maximumAuthenticationAgeSeconds :: int
  fc_subjectAttribute :: string
  fc_groupsAttribute :: string
  fc_groupToRole :: "(string \<times> string) list"
  fc_assignableRoles :: "string list"

record workforce_assertion =
  wa_protocol :: federation_protocol
  wa_signatureVerified :: bool
  wa_issuer :: string
  wa_audience :: string
  wa_destination :: string
  wa_assertionId :: string
  wa_inResponseTo :: "string option"
  wa_notBefore :: "string option"
  wa_notOnOrAfter :: string
  wa_authenticatedAt :: string
  wa_authnContext :: "string option"
  wa_subject :: string
  wa_attributes :: "(string \<times> string list) list"

record request_binding =
  rb_requestId :: string
  rb_tenantId :: string
  rb_redirectUri :: string

record mapped_identity =
  wi_tenantId :: string
  wi_subject :: string
  wi_roles :: "string list"
  wi_groups :: "string list"
  wi_authenticatedAt :: string
  wi_protocol :: federation_protocol

record logout_request =
  lo_issuer :: string
  lo_subject :: string
  lo_sessionIndex :: "string option"
  lo_signatureVerified :: bool

record federated_session =
  fs_sessionId :: string
  fs_tenantId :: string
  fs_subject :: string
  fs_sessionIndex :: "string option"

section \<open>The ledger of consumed assertions\<close>

text \<open>
  \<open>consume ledger id notOnOrAfter\<close> answers whether the identifier was fresh and gives the ledger
  afterwards; \<open>used\<close> is the set of identifiers a ledger refuses.
\<close>

locale assertion_ledger =
  fixes consume :: "'l \<Rightarrow> string \<Rightarrow> string \<Rightarrow> bool \<times> 'l"
    and used :: "'l \<Rightarrow> string set"
  assumes fresh_iff: "fst (consume l i t) \<longleftrightarrow> i \<notin> used l"
    and used_after: "used (snd (consume l i t)) = insert i (used l)"

type_synonym in_memory_ledger = "string list"

definition in_memory_consume :: "in_memory_ledger \<Rightarrow> string \<Rightarrow> string \<Rightarrow> bool \<times> in_memory_ledger" where
  "in_memory_consume seen assertionId notOnOrAfter =
     (if assertionId \<in> set seen then (False, seen) else (True, assertionId # seen))"

interpretation in_memory: assertion_ledger in_memory_consume set
  by unfold_locales (auto simp: in_memory_consume_def split: if_splits)

section \<open>Admission of an assertion\<close>

definition instant :: "string \<Rightarrow> federation_error \<Rightarrow> (federation_error, int) result" where
  "instant v c = (case date_parse v of None \<Rightarrow> Inl c | Some t \<Rightarrow> Inr t)"

text \<open>The checks before the ledger is asked.\<close>

definition admission_checks ::
  "workforce_assertion \<Rightarrow> federation_config \<Rightarrow> request_binding \<Rightarrow> int \<Rightarrow> (federation_error, unit) result" where
  "admission_checks a c b now =
     (if \<not> fc_enabled c then Inl FEDERATION_PROVIDER_DISABLED
      else if \<not> wa_signatureVerified a then Inl FEDERATION_SIGNATURE_NOT_VERIFIED
      else if fc_tenantId c \<noteq> rb_tenantId b then Inl FEDERATION_TENANT_MISMATCH
      else if wa_issuer a \<noteq> fc_issuer c then Inl FEDERATION_ISSUER_MISMATCH
      else if wa_audience a \<noteq> fc_audience c then Inl FEDERATION_AUDIENCE_MISMATCH
      else if wa_destination a \<noteq> fc_destination c \<or> wa_destination a \<noteq> rb_redirectUri b
        then Inl FEDERATION_DESTINATION_MISMATCH
      else if wa_inResponseTo a = None \<or> wa_inResponseTo a \<noteq> Some (rb_requestId b)
        then Inl FEDERATION_REQUEST_MISMATCH
      else
        bindR (case wa_notBefore a of
            None \<Rightarrow> Inr ()
          | Some nb \<Rightarrow> bindR (instant nb FEDERATION_ASSERTION_NOT_YET_VALID) (\<lambda>t.
              if now < t then Inl FEDERATION_ASSERTION_NOT_YET_VALID else Inr ())) (\<lambda>_.
        bindR (instant (wa_notOnOrAfter a) FEDERATION_ASSERTION_EXPIRED) (\<lambda>e.
          if now \<ge> e then Inl FEDERATION_ASSERTION_EXPIRED
          else bindR (instant (wa_authenticatedAt a) FEDERATION_SESSION_TOO_OLD) (\<lambda>t.
            if now - t > fc_maximumAuthenticationAgeSeconds c * 1000 then Inl FEDERATION_SESSION_TOO_OLD
            else Inr ()))))"

text \<open>The checks after the ledger has consumed the assertion.\<close>

definition final_checks :: "workforce_assertion \<Rightarrow> federation_config \<Rightarrow> (federation_error, unit) result" where
  "final_checks a c =
     (if fc_requiredAuthnContexts c \<noteq> [] \<and>
         (case wa_authnContext a of None \<Rightarrow> True | Some x \<Rightarrow> x \<notin> set (fc_requiredAuthnContexts c))
        then Inl FEDERATION_AUTHN_CONTEXT_TOO_LOW
      else if js_trim (wa_subject a) = [] then Inl FEDERATION_SUBJECT_MISSING
      else Inr ())"

definition verifyWorkforceAssertion ::
  "('l \<Rightarrow> string \<Rightarrow> string \<Rightarrow> bool \<times> 'l) \<Rightarrow> workforce_assertion \<Rightarrow> federation_config \<Rightarrow> request_binding
   \<Rightarrow> 'l \<Rightarrow> int \<Rightarrow> (federation_error, unit) result \<times> 'l" where
  "verifyWorkforceAssertion consume a c b ledger now =
     (case admission_checks a c b now of
        Inl e \<Rightarrow> (Inl e, ledger)
      | Inr _ \<Rightarrow>
          (case consume ledger (wa_assertionId a) (wa_notOnOrAfter a) of
             (fresh, ledger') \<Rightarrow>
               (if \<not> fresh then Inl FEDERATION_ASSERTION_REPLAYED else final_checks a c, ledger')))"

text \<open>A login attempt is an assertion presented under a configuration and a binding at a time.\<close>

type_synonym login_attempt = "workforce_assertion \<times> federation_config \<times> request_binding \<times> int"

fun run_attempts ::
  "('l \<Rightarrow> string \<Rightarrow> string \<Rightarrow> bool \<times> 'l) \<Rightarrow> 'l \<Rightarrow> login_attempt list \<Rightarrow> string list" where
  "run_attempts consume l [] = []"
| "run_attempts consume l ((a, c, b, now) # rest) =
     (case verifyWorkforceAssertion consume a c b l now of
        (Inl _, l') \<Rightarrow> run_attempts consume l' rest
      | (Inr _, l') \<Rightarrow> wa_assertionId a # run_attempts consume l' rest)"

section \<open>Identity mapping\<close>

definition mapped_subject :: "workforce_assertion \<Rightarrow> federation_config \<Rightarrow> string" where
  "mapped_subject a c =
     (case map_of (wa_attributes a) (fc_subjectAttribute c) of Some (v # _) \<Rightarrow> v | _ \<Rightarrow> wa_subject a)"

definition assertion_groups :: "workforce_assertion \<Rightarrow> federation_config \<Rightarrow> string list" where
  "assertion_groups a c = (case map_of (wa_attributes a) (fc_groupsAttribute c) of Some gs \<Rightarrow> gs | None \<Rightarrow> [])"

definition mapWorkforceIdentity ::
  "workforce_assertion \<Rightarrow> federation_config \<Rightarrow> request_binding \<Rightarrow> (federation_error, mapped_identity) result" where
  "mapWorkforceIdentity a c b =
     (let subject = mapped_subject a c; groups = assertion_groups a c in
      if js_trim subject = [] then Inl FEDERATION_SUBJECT_MISSING
      else bindR (collect_roles FEDERATION_ROLE_NOT_ASSIGNABLE (role_of_group (fc_groupToRole c)) (fc_assignableRoles c) groups []) (\<lambda>roles.
        if roles = [] then Inl FEDERATION_NO_ROLE_MAPPED
        else Inr \<lparr> wi_tenantId = rb_tenantId b, wi_subject = subject, wi_roles = sort roles,
               wi_groups = sort groups, wi_authenticatedAt = wa_authenticatedAt a, wi_protocol = wa_protocol a \<rparr>))"

section \<open>Logout\<close>

definition resolveLogoutTargets ::
  "logout_request \<Rightarrow> federation_config \<Rightarrow> federated_session list \<Rightarrow> (federation_error, string list) result" where
  "resolveLogoutTargets r c sessions =
     (if \<not> lo_signatureVerified r then Inl FEDERATION_SIGNATURE_NOT_VERIFIED
      else if lo_issuer r \<noteq> fc_issuer c then Inl FEDERATION_ISSUER_MISMATCH
      else Inr (sort (map fs_sessionId
        (filter (\<lambda>s. lo_sessionIndex r = None \<or> fs_sessionIndex s = lo_sessionIndex r)
          (filter (\<lambda>s. fs_tenantId s = fc_tenantId c \<and> fs_subject s = lo_subject r) sessions)))))"

section \<open>Admission\<close>

definition time_window_ok :: "workforce_assertion \<Rightarrow> federation_config \<Rightarrow> int \<Rightarrow> bool" where
  "time_window_ok a c now \<longleftrightarrow>
     (case wa_notBefore a of None \<Rightarrow> True | Some nb \<Rightarrow> (case date_parse nb of None \<Rightarrow> False | Some t \<Rightarrow> t \<le> now))
     \<and> (case date_parse (wa_notOnOrAfter a) of None \<Rightarrow> False | Some e \<Rightarrow> now < e)
     \<and> (case date_parse (wa_authenticatedAt a) of None \<Rightarrow> False
        | Some t \<Rightarrow> now - t \<le> fc_maximumAuthenticationAgeSeconds c * 1000)"

definition addressed_to :: "workforce_assertion \<Rightarrow> federation_config \<Rightarrow> request_binding \<Rightarrow> bool" where
  "addressed_to a c b \<longleftrightarrow>
     fc_tenantId c = rb_tenantId b \<and> wa_issuer a = fc_issuer c \<and> wa_audience a = fc_audience c
     \<and> wa_destination a = fc_destination c \<and> wa_destination a = rb_redirectUri b
     \<and> wa_inResponseTo a = Some (rb_requestId b)"

definition context_ok :: "workforce_assertion \<Rightarrow> federation_config \<Rightarrow> bool" where
  "context_ok a c \<longleftrightarrow> (fc_requiredAuthnContexts c = [] \<or>
     (case wa_authnContext a of None \<Rightarrow> False | Some x \<Rightarrow> x \<in> set (fc_requiredAuthnContexts c)))
     \<and> js_trim (wa_subject a) \<noteq> []"

lemma admission_checks_iff:
  "admission_checks a c b now = Inr u \<longleftrightarrow>
     fc_enabled c \<and> wa_signatureVerified a \<and> addressed_to a c b \<and> time_window_ok a c now"
  by (auto simp: admission_checks_def addressed_to_def time_window_ok_def instant_def bindR_def not_less
      split: option.splits if_splits)

lemma final_checks_iff: "final_checks a c = Inr u \<longleftrightarrow> context_ok a c"
  by (auto simp: final_checks_def context_ok_def split: option.splits)

lemma verify_Inr_iff:
  "fst (verifyWorkforceAssertion consume a c b l now) = Inr u \<longleftrightarrow>
     admission_checks a c b now = Inr () \<and> fst (consume l (wa_assertionId a) (wa_notOnOrAfter a)) \<and> final_checks a c = Inr ()"
  by (auto simp: verifyWorkforceAssertion_def split: sum.splits prod.splits)

context assertion_ledger
begin

lemma verify_ledger:
  "used (snd (verifyWorkforceAssertion consume a c b l now)) =
     (if admission_checks a c b now = Inr () then insert (wa_assertionId a) (used l) else used l)"
proof (cases "admission_checks a c b now")
  case (Inr u)
  obtain fresh l' where l': "consume l (wa_assertionId a) (wa_notOnOrAfter a) = (fresh, l')" by fastforce
  then have "used l' = insert (wa_assertionId a) (used l)"
    using used_after [of l "wa_assertionId a" "wa_notOnOrAfter a"] by simp
  then show ?thesis using Inr l' by (simp add: verifyWorkforceAssertion_def)
qed (simp add: verifyWorkforceAssertion_def)

lemma accepted_fresh:
  "fst (verifyWorkforceAssertion consume a c b l now) = Inr u \<Longrightarrow> wa_assertionId a \<notin> used l"
  by (simp add: verify_Inr_iff fresh_iff)

lemma accepted_used:
  "fst (verifyWorkforceAssertion consume a c b l now) = Inr u \<Longrightarrow>
   wa_assertionId a \<in> used (snd (verifyWorkforceAssertion consume a c b l now))"
  by (simp add: verify_ledger verify_Inr_iff)

lemma used_grows: "used l \<subseteq> used (snd (verifyWorkforceAssertion consume a c b l now))"
  by (auto simp: verify_ledger)

lemma attempts_once:
  "distinct (run_attempts consume l attempts) \<and> set (run_attempts consume l attempts) \<inter> used l = {}"
proof (induction attempts arbitrary: l)
  case (Cons x rest)
  obtain a c b now where x: "x = (a, c, b, now)" by (cases x) auto
  obtain r l' where v: "verifyWorkforceAssertion consume a c b l now = (r, l')" by (cases "verifyWorkforceAssertion consume a c b l now")
  have g: "used l \<subseteq> used l'" using used_grows [of l a c b now] v by simp
  show ?case
  proof (cases r)
    case (Inl e)
    then show ?thesis using Cons.IH [of l'] g x v by auto
  next
    case (Inr u)
    have "wa_assertionId a \<notin> used l" "wa_assertionId a \<in> used l'"
      using accepted_fresh [of a c b l now u] accepted_used [of a c b l now u] v Inr by simp_all
    then show ?thesis using Cons.IH [of l'] g x v Inr by auto
  qed
qed simp

end

section \<open>Properties\<close>

text \<open>An assertion logs someone in exactly when the provider is enabled, the signature was verified,
  the assertion answers our request at our endpoint for this tenant from the configured issuer, the
  time limits hold, it was not consumed before, and its context and subject are acceptable.\<close>

theorem workforce_assertion_accepted_iff:
  "fst (verifyWorkforceAssertion in_memory_consume a c b seen now) = Inr () \<longleftrightarrow>
     fc_enabled c \<and> wa_signatureVerified a \<and> addressed_to a c b \<and> time_window_ok a c now
     \<and> wa_assertionId a \<notin> set seen \<and> context_ok a c"
  by (simp add: verify_Inr_iff admission_checks_iff final_checks_iff in_memory.fresh_iff)


text \<open>A mapped identity belongs to the tenant of the request and carries, sorted and without
  repetition, exactly the roles the tenant's mapping gives the asserted groups; all of them are
  assignable and there is at least one.\<close>

theorem mapped_roles_exact:
  assumes "mapWorkforceIdentity a c b = Inr w"
  shows "wi_tenantId w = rb_tenantId b \<and> wi_roles w \<noteq> [] \<and> distinct (wi_roles w) \<and> sorted (wi_roles w)
    \<and> set (wi_roles w) = granted (role_of_group (fc_groupToRole c)) (assertion_groups a c)
    \<and> set (wi_roles w) \<subseteq> set (fc_assignableRoles c)
    \<and> wi_subject w = mapped_subject a c \<and> js_trim (wi_subject w) \<noteq> []"
proof -
  obtain rs where rs: "collect_roles FEDERATION_ROLE_NOT_ASSIGNABLE (role_of_group (fc_groupToRole c)) (fc_assignableRoles c) (assertion_groups a c) [] = Inr rs"
    "rs \<noteq> []" "js_trim (mapped_subject a c) \<noteq> []"
    "w = \<lparr> wi_tenantId = rb_tenantId b, wi_subject = mapped_subject a c, wi_roles = sort rs,
       wi_groups = sort (assertion_groups a c), wi_authenticatedAt = wa_authenticatedAt a, wi_protocol = wa_protocol a \<rparr>"
    using assms by (auto simp: mapWorkforceIdentity_def Let_def bindR_Inr_iff split: if_splits)
  have "sort rs \<noteq> []" using rs(2) by (metis set_empty set_sort)
  then show ?thesis using collect_roles_Inr [OF rs(1)] rs by auto
qed

definition sample_config :: federation_config where
  "sample_config = \<lparr> fc_tenantId = ''kungalv'', fc_protocol = SAML2, fc_enabled = True, fc_issuer = ''https://idp'',
     fc_audience = ''kommunsign'', fc_destination = ''https://acs'', fc_signingCertificateSecretReference = ''ref'',
     fc_requiredAuthnContexts = [], fc_maximumAuthenticationAgeSeconds = 3600, fc_subjectAttribute = ''uid'',
     fc_groupsAttribute = ''groups'', fc_groupToRole = [(''Handl'', ''document_sender''), (''Arkiv'', ''auditor'')],
     fc_assignableRoles = [''document_sender'', ''auditor''] \<rparr>"

definition sample_assertion :: workforce_assertion where
  "sample_assertion = \<lparr> wa_protocol = SAML2, wa_signatureVerified = True, wa_issuer = ''https://idp'',
     wa_audience = ''kommunsign'', wa_destination = ''https://acs'', wa_assertionId = ''a1'', wa_inResponseTo = Some ''r1'',
     wa_notBefore = None, wa_notOnOrAfter = ''2026-01-01T00:05:00Z'', wa_authenticatedAt = ''2026-01-01T00:00:00Z'',
     wa_authnContext = None, wa_subject = ''anna'', wa_attributes = [(''groups'', [''Handl'', ''Okand'', ''Arkiv'', ''Handl''])] \<rparr>"

definition sample_binding :: request_binding where
  "sample_binding = \<lparr> rb_requestId = ''r1'', rb_tenantId = ''kungalv'', rb_redirectUri = ''https://acs'' \<rparr>"

theorem mapped_roles_exact_witness:
  "\<exists>w. mapWorkforceIdentity sample_assertion sample_config sample_binding = Inr w
     \<and> set (wi_roles w) \<subseteq> {''document_sender'', ''auditor''} \<and> wi_tenantId w = ''kungalv''"
proof -
  have "is_ok (mapWorkforceIdentity sample_assertion sample_config sample_binding)" by code_simp
  then obtain w where w: "mapWorkforceIdentity sample_assertion sample_config sample_binding = Inr w"
    by (auto simp: is_ok_iff)
  from mapped_roles_exact [OF this] w show ?thesis by (auto simp: sample_config_def sample_binding_def)
qed

text \<open>A logout request reaches sessions of the configuration's tenant and of the named subject only.\<close>

lemma logout_targets_own:
  assumes "resolveLogoutTargets r c sessions = Inr ids"
  shows "lo_signatureVerified r \<and> lo_issuer r = fc_issuer c \<and> sorted ids
    \<and> set ids = {fs_sessionId s | s. s \<in> set sessions \<and> fs_tenantId s = fc_tenantId c \<and> fs_subject s = lo_subject r
         \<and> (lo_sessionIndex r = None \<or> fs_sessionIndex s = lo_sessionIndex r)}"
  using assms by (auto simp: resolveLogoutTargets_def split: if_splits)

end
