(* ===== verification/Scim.thy ===== *)
theory Scim
  imports Role_Mapping Canonical_Json
begin

text \<open>
  SCIM provisioning (\<open>packages/scim/src/index.ts\<close>): the tenant check, idempotent creation, PATCH,
  deprovisioning, role resolution, the filter parser and 1-based pagination. Payload values whose
  type the code tests at run time are values of \<open>jsval\<close>; reading a property of null or undefined is
  the \<open>Type_error\<close> JavaScript throws. Lists of the tenant's users come from the repositories.
\<close>

section \<open>Data\<close>

datatype jsval =
    VUndefined | VNull | VBool bool | VNum jsnum | VStr string
  | VArr "jsval list" | VObj "(string \<times> jsval) list"

datatype scim_code =
    SCIM_TENANT_MISMATCH | SCIM_INVALID_VALUE | SCIM_INVALID_FILTER | SCIM_INVALID_PATH | SCIM_UNIQUENESS
  | SCIM_NOT_FOUND | SCIM_MUTABILITY | SCIM_INVALID_PAGINATION | SCIM_ROLE_NOT_ASSIGNABLE

datatype scim_error = Scim_error scim_code | Type_error

fun scim_status :: "scim_code \<Rightarrow> nat" where
  "scim_status SCIM_TENANT_MISMATCH = 404"
| "scim_status SCIM_INVALID_VALUE = 400"
| "scim_status SCIM_INVALID_FILTER = 400"
| "scim_status SCIM_INVALID_PATH = 400"
| "scim_status SCIM_UNIQUENESS = 409"
| "scim_status SCIM_NOT_FOUND = 404"
| "scim_status SCIM_MUTABILITY = 400"
| "scim_status SCIM_INVALID_PAGINATION = 400"
| "scim_status SCIM_ROLE_NOT_ASSIGNABLE = 400"

record scim_user =
  su_id :: string
  su_tenantId :: string
  su_externalId :: "string option"
  su_userName :: string
  su_displayName :: "string option"
  su_email :: "string option"
  su_active :: bool
  su_roles :: "string list"
  su_groups :: "string list"
  su_createdAt :: string
  su_updatedAt :: string

record scim_context =
  sc_tenantId :: string
  sc_clientId :: string
  sc_requestId :: string
  sc_assignableRoles :: "string list"
  sc_groupToRole :: "(string \<times> string) list"

record scim_user_write =
  sw_externalId :: jsval
  sw_userName :: jsval
  sw_displayName :: jsval
  sw_emails :: "jsval list option"
  sw_active :: "bool option"

record scim_create_result =
  cr_user :: scim_user
  cr_idempotentMatch :: bool

definition assertScimTenant :: "scim_context \<Rightarrow> string \<Rightarrow> (scim_error, unit) result" where
  "assertScimTenant ctx tenant =
     (if tenant \<noteq> sc_tenantId ctx then Inl (Scim_error SCIM_TENANT_MISMATCH) else Inr ())"

section \<open>Writes\<close>

fun requireNonEmpty :: "jsval \<Rightarrow> (scim_error, string) result" where
  "requireNonEmpty (VStr s) = (if js_trim s = [] then Inl (Scim_error SCIM_INVALID_VALUE) else Inr (js_trim s))"
| "requireNonEmpty _ = Inl (Scim_error SCIM_INVALID_VALUE)"

text \<open>Reading a property; \<open>js_prop_safe\<close> is the optional chain \<open>v?.k\<close>.\<close>

fun js_prop :: "jsval \<Rightarrow> string \<Rightarrow> (scim_error, jsval) result" where
  "js_prop VUndefined k = Inl Type_error"
| "js_prop VNull k = Inl Type_error"
| "js_prop (VObj kvs) k = Inr (case map_of kvs k of Some v \<Rightarrow> v | None \<Rightarrow> VUndefined)"
| "js_prop _ k = Inr VUndefined"

fun js_prop_safe :: "jsval \<Rightarrow> string \<Rightarrow> jsval" where
  "js_prop_safe (VObj kvs) k = (case map_of kvs k of Some v \<Rightarrow> v | None \<Rightarrow> VUndefined)"
| "js_prop_safe _ k = VUndefined"

fun truthy :: "jsval \<Rightarrow> bool" where
  "truthy VUndefined = False"
| "truthy VNull = False"
| "truthy (VBool b) = b"
| "truthy (VNum n) = (n \<noteq> NInt 0 \<and> n \<noteq> NNaN)"
| "truthy (VStr s) = (s \<noteq> [])"
| "truthy (VArr _) = True"
| "truthy (VObj _) = True"

text \<open>\<open>emails.find((entry) => entry.primary)\<close>.\<close>

fun find_primary :: "jsval list \<Rightarrow> (scim_error, jsval) result" where
  "find_primary [] = Inr VUndefined"
| "find_primary (e # es) = bindR (js_prop e ''primary'') (\<lambda>p. if truthy p then Inr e else find_primary es)"

definition primaryEmail :: "jsval list option \<Rightarrow> (scim_error, string option) result" where
  "primaryEmail write_emails =
     (let emails = (case write_emails of None \<Rightarrow> [] | Some es \<Rightarrow> es) in
      bindR (find_primary emails) (\<lambda>found.
        let chosen = (if found = VUndefined \<or> found = VNull then (case emails of [] \<Rightarrow> VUndefined | e # _ \<Rightarrow> e) else found)
        in Inr (case js_prop_safe chosen ''value'' of
             VStr s \<Rightarrow> if CHR ''@'' \<in> set s then Some (js_lower (js_trim s)) else None
           | _ \<Rightarrow> None)))"

definition createScimUser ::
  "scim_context \<Rightarrow> scim_user_write \<Rightarrow> scim_user list \<Rightarrow> string \<Rightarrow> string \<Rightarrow> (scim_error, scim_create_result) result" where
  "createScimUser ctx w existing uid now =
     bindR (requireNonEmpty (sw_userName w)) (\<lambda>userName.
     bindR (if sw_externalId w = VUndefined then Inr None else bindR (requireNonEmpty (sw_externalId w)) (\<lambda>e. Inr (Some e))) (\<lambda>externalId.
       let scoped = filter (\<lambda>u. su_tenantId u = sc_tenantId ctx) existing in
       case (if externalId = None then None else find (\<lambda>u. su_externalId u = externalId) scoped) of
         Some m \<Rightarrow> Inr \<lparr> cr_user = m, cr_idempotentMatch = True \<rparr>
       | None \<Rightarrow>
           if list_ex (\<lambda>u. js_lower (su_userName u) = js_lower userName) scoped then Inl (Scim_error SCIM_UNIQUENESS)
           else bindR (primaryEmail (sw_emails w)) (\<lambda>email.
             Inr \<lparr> cr_user = \<lparr> su_id = uid, su_tenantId = sc_tenantId ctx, su_externalId = externalId,
                      su_userName = userName,
                      su_displayName = (case sw_displayName w of VStr s \<Rightarrow> Some (js_trim s) | _ \<Rightarrow> None),
                      su_email = email, su_active = (case sw_active w of None \<Rightarrow> True | Some b \<Rightarrow> b),
                      su_roles = [], su_groups = [], su_createdAt = now, su_updatedAt = now \<rparr>,
                   cr_idempotentMatch = False \<rparr>)))"

section \<open>PATCH\<close>

record scim_patch_operation =
  po_op :: string
  po_path :: "string option"
  po_value :: jsval

definition patchable_paths :: "string list" where
  "patchable_paths = [''active'', ''displayname'', ''username'', ''externalid'', ''emails'']"

fun active_value :: "jsval \<Rightarrow> bool option" where
  "active_value (VBool b) = Some b"
| "active_value (VStr s) = (if js_lower s = ''true'' then Some True else if js_lower s = ''false'' then Some False else None)"
| "active_value _ = None"

definition nullable_text :: "jsval \<Rightarrow> (scim_error, string option) result" where
  "nullable_text v = (if v = VNull then Inr None else bindR (requireNonEmpty v) (\<lambda>s. Inr (Some s)))"

definition applySingleAttribute :: "scim_user \<Rightarrow> string \<Rightarrow> jsval \<Rightarrow> (scim_error, scim_user) result" where
  "applySingleAttribute u path v =
     (let p = js_lower path in
      if p = ''active'' then (case active_value v of
          None \<Rightarrow> Inl (Scim_error SCIM_INVALID_VALUE)
        | Some b \<Rightarrow> Inr (u\<lparr> su_active := b \<rparr>))
      else if p = ''displayname'' then bindR (nullable_text v) (\<lambda>d. Inr (u\<lparr> su_displayName := d \<rparr>))
      else if p = ''username'' then bindR (requireNonEmpty v) (\<lambda>n. Inr (u\<lparr> su_userName := n \<rparr>))
      else if p = ''externalid'' then bindR (nullable_text v) (\<lambda>e. Inr (u\<lparr> su_externalId := e \<rparr>))
      else if p = ''emails'' then
        bindR (primaryEmail (Some (case v of VArr es \<Rightarrow> es | _ \<Rightarrow> []))) (\<lambda>m. Inr (u\<lparr> su_email := m \<rparr>))
      else Inl (Scim_error SCIM_INVALID_PATH))"

fun apply_attributes :: "scim_user \<Rightarrow> (string \<times> jsval) list \<Rightarrow> (scim_error, scim_user) result" where
  "apply_attributes u [] = Inr u"
| "apply_attributes u ((k, v) # kvs) = bindR (applySingleAttribute u k v) (\<lambda>u'. apply_attributes u' kvs)"

text \<open>\<open>Object.entries\<close> of an object or an array; the entries of an array are keyed by their index.\<close>

fun object_entries :: "jsval \<Rightarrow> (string \<times> jsval) list" where
  "object_entries (VObj kvs) = kvs"
| "object_entries (VArr vs) = map (\<lambda>(i, v). (nat_str i, v)) (enumerate 0 vs)"
| "object_entries _ = []"

definition is_object :: "jsval \<Rightarrow> bool" where
  "is_object v \<longleftrightarrow> (case v of VObj _ \<Rightarrow> True | VArr _ \<Rightarrow> True | _ \<Rightarrow> False)"

definition patch_operation :: "scim_user \<Rightarrow> scim_patch_operation \<Rightarrow> (scim_error, scim_user) result" where
  "patch_operation u oper =
     (let opr = js_lower (po_op oper) in
      if opr \<noteq> ''replace'' \<and> opr \<noteq> ''add'' \<and> opr \<noteq> ''remove'' then Inl (Scim_error SCIM_INVALID_VALUE)
      else case po_path oper of
        None \<Rightarrow>
          if opr = ''remove'' then Inl (Scim_error SCIM_INVALID_PATH)
          else if \<not> is_object (po_value oper) then Inl (Scim_error SCIM_INVALID_VALUE)
          else apply_attributes u (object_entries (po_value oper))
      | Some path0 \<Rightarrow>
          let path = js_lower path0 in
          if path \<notin> set patchable_paths then Inl (Scim_error SCIM_INVALID_PATH)
          else applySingleAttribute u path (if opr = ''remove'' then VNull else po_value oper))"

fun apply_operations :: "scim_user \<Rightarrow> scim_patch_operation list \<Rightarrow> (scim_error, scim_user) result" where
  "apply_operations u [] = Inr u"
| "apply_operations u (x # xs) = bindR (patch_operation u x) (\<lambda>u'. apply_operations u' xs)"

definition applyScimPatch ::
  "scim_context \<Rightarrow> scim_user \<Rightarrow> scim_patch_operation list \<Rightarrow> string \<Rightarrow> (scim_error, scim_user) result" where
  "applyScimPatch ctx u ops now =
     bindR (assertScimTenant ctx (su_tenantId u)) (\<lambda>_.
     bindR (apply_operations u ops) (\<lambda>next. Inr (next\<lparr> su_updatedAt := now \<rparr>)))"

datatype deprovision_action = DEACTIVATED | DELETED

definition deprovisionScimUser ::
  "scim_context \<Rightarrow> scim_user \<Rightarrow> bool \<Rightarrow> string \<Rightarrow> (scim_error, scim_user \<times> deprovision_action) result" where
  "deprovisionScimUser ctx u hasHistory now =
     bindR (assertScimTenant ctx (su_tenantId u)) (\<lambda>_.
       if hasHistory then Inr (u\<lparr> su_active := False, su_updatedAt := now \<rparr>, DEACTIVATED)
       else Inr (u\<lparr> su_active := False, su_updatedAt := now \<rparr>, DELETED))"

section \<open>Roles\<close>

definition resolveScimRoles :: "scim_context \<Rightarrow> string list \<Rightarrow> (scim_error, string list) result" where
  "resolveScimRoles ctx groups =
     bindR (collect_roles (Scim_error SCIM_ROLE_NOT_ASSIGNABLE) (role_of_group (sc_groupToRole ctx))
              (sc_assignableRoles ctx) groups []) (\<lambda>roles. Inr (sort roles))"

definition applyGroupMembership ::
  "scim_context \<Rightarrow> scim_user \<Rightarrow> string list \<Rightarrow> string \<Rightarrow> (scim_error, scim_user) result" where
  "applyGroupMembership ctx u groups now =
     bindR (assertScimTenant ctx (su_tenantId u)) (\<lambda>_.
     bindR (resolveScimRoles ctx groups) (\<lambda>roles.
       Inr (u\<lparr> su_groups := sort groups, su_roles := roles, su_updatedAt := now \<rparr>)))"

section \<open>Filters\<close>

datatype filter_attribute = Attr_userName | Attr_externalId | Attr_active

record scim_filter =
  sf_attribute :: filter_attribute
  sf_value :: string

definition drop_ws :: "string \<Rightarrow> string" where
  "drop_ws s = dropWhile js_ws s"

text \<open>One or more white-space characters.\<close>

definition some_ws :: "string \<Rightarrow> string option" where
  "some_ws s = (case s of [] \<Rightarrow> None | c # r \<Rightarrow> if js_ws c then Some (drop_ws r) else None)"

text \<open>A keyword in any case; the keyword itself is given in lower case.\<close>

definition keyword :: "string \<Rightarrow> string \<Rightarrow> string option" where
  "keyword k s = (if js_lower (take (length k) s) = k then Some (drop (length k) s) else None)"

definition filter_attribute_name :: "filter_attribute \<Rightarrow> string" where
  "filter_attribute_name a =
     (case a of Attr_userName \<Rightarrow> ''userName'' | Attr_externalId \<Rightarrow> ''externalId'' | Attr_active \<Rightarrow> ''active'')"

definition parse_attribute :: "string \<Rightarrow> (filter_attribute \<times> string) option" where
  "parse_attribute s =
     (case keyword ''username'' s of Some r \<Rightarrow> Some (Attr_userName, r)
      | None \<Rightarrow> (case keyword ''externalid'' s of Some r \<Rightarrow> Some (Attr_externalId, r)
      | None \<Rightarrow> (case keyword ''active'' s of Some r \<Rightarrow> Some (Attr_active, r) | None \<Rightarrow> None)))"

definition plain_char :: "char \<Rightarrow> bool" where
  "plain_char c \<longleftrightarrow> c \<noteq> CHR 0x22 \<and> c \<noteq> CHR 0x5C"

text \<open>The value, which must end the filter up to white space.\<close>

definition parse_filter_value :: "string \<Rightarrow> string option" where
  "parse_filter_value s =
     (case s of
        [] \<Rightarrow> None
      | c # r \<Rightarrow>
          if c = CHR 0x22 then
            (case dropWhile plain_char r of
               q # rest \<Rightarrow> if q = CHR 0x22 \<and> list_all js_ws rest then Some (takeWhile plain_char r) else None
             | [] \<Rightarrow> None)
          else (case keyword ''true'' s of
              Some rest \<Rightarrow> if list_all js_ws rest then Some (take 4 s) else None
            | None \<Rightarrow> (case keyword ''false'' s of
                Some rest \<Rightarrow> if list_all js_ws rest then Some (take 5 s) else None
              | None \<Rightarrow> None)))"

definition match_filter :: "string \<Rightarrow> (filter_attribute \<times> string) option" where
  "match_filter s =
     (case parse_attribute (drop_ws s) of None \<Rightarrow> None
      | Some (a, r1) \<Rightarrow> (case some_ws r1 of None \<Rightarrow> None
      | Some r2 \<Rightarrow> (case keyword ''eq'' r2 of None \<Rightarrow> None
      | Some r3 \<Rightarrow> (case some_ws r3 of None \<Rightarrow> None
      | Some r4 \<Rightarrow> (case parse_filter_value r4 of None \<Rightarrow> None | Some v \<Rightarrow> Some (a, v))))))"

definition parseScimFilter :: "string option \<Rightarrow> (scim_error, scim_filter option) result" where
  "parseScimFilter f =
     (case f of None \<Rightarrow> Inr None
      | Some s \<Rightarrow>
          if js_trim s = [] then Inr None
          else (case match_filter s of
              None \<Rightarrow> Inl (Scim_error SCIM_INVALID_FILTER)
            | Some (a, v) \<Rightarrow>
                if a = Attr_active \<and> js_lower v \<notin> {''true'', ''false''} then Inl (Scim_error SCIM_INVALID_FILTER)
                else if a \<noteq> Attr_active \<and> v = [] then Inl (Scim_error SCIM_INVALID_FILTER)
                else Inr (Some \<lparr> sf_attribute = a, sf_value = v \<rparr>)))"

definition matchesScimFilter :: "scim_user \<Rightarrow> scim_filter option \<Rightarrow> bool" where
  "matchesScimFilter u f =
     (case f of None \<Rightarrow> True
      | Some g \<Rightarrow> (case sf_attribute g of
          Attr_userName \<Rightarrow> js_lower (su_userName u) = js_lower (sf_value g)
        | Attr_externalId \<Rightarrow> su_externalId u = Some (sf_value g)
        | Attr_active \<Rightarrow> su_active u = (js_lower (sf_value g) = ''true'')))"

section \<open>Pagination\<close>

definition scim_maximum_page_size :: int where "scim_maximum_page_size = 200"
definition scim_default_page_size :: int where "scim_default_page_size = 100"

record 'a scim_list_response =
  lr_totalResults :: nat
  lr_startIndex :: int
  lr_itemsPerPage :: nat
  lr_Resources :: "'a list"

definition paginateScim ::
  "'a list \<Rightarrow> jsnum option \<Rightarrow> jsnum option \<Rightarrow> (scim_error, 'a scim_list_response) result" where
  "paginateScim resources startIndex cnt =
     (let start = (case startIndex of None \<Rightarrow> NInt 1 | Some n \<Rightarrow> n) in
      if \<not> is_integer_num start \<or> num_less start 1 then Inl (Scim_error SCIM_INVALID_PAGINATION)
      else if (case cnt of None \<Rightarrow> False | Some c \<Rightarrow> \<not> is_integer_num c \<or> num_less c 0)
        then Inl (Scim_error SCIM_INVALID_PAGINATION)
      else let itemsPerPage = min (case cnt of None \<Rightarrow> scim_default_page_size | Some c \<Rightarrow> num_int c) scim_maximum_page_size;
               offset = num_int start - 1;
               page = take (nat itemsPerPage) (drop (nat offset) resources)
           in Inr \<lparr> lr_totalResults = length resources, lr_startIndex = num_int start,
                 lr_itemsPerPage = length page, lr_Resources = page \<rparr>)"

section \<open>The wire shape\<close>

definition scim_user_schema :: string where
  "scim_user_schema = ''urn:ietf:params:scim:schemas:core:2.0:User''"

definition optional_member :: "string \<Rightarrow> string option \<Rightarrow> (string \<Rightarrow> json) \<Rightarrow> (string \<times> json option) list" where
  "optional_member k v f = (if falsy v then [] else [(k, Some (f (the v)))])"

definition toScimUserResource :: "scim_user \<Rightarrow> json" where
  "toScimUserResource u = JObj
     ([(''schemas'', Some (JArr [JStr scim_user_schema])), (''id'', Some (JStr (su_id u)))]
      @ optional_member ''externalId'' (su_externalId u) JStr
      @ [(''userName'', Some (JStr (su_userName u)))]
      @ optional_member ''displayName'' (su_displayName u) JStr
      @ optional_member ''emails'' (su_email u)
          (\<lambda>e. JArr [JObj [(''value'', Some (JStr e)), (''primary'', Some (JBool True))]])
      @ [(''active'', Some (JBool (su_active u))),
         (''roles'', Some (JArr (map (\<lambda>r. JObj [(''value'', Some (JStr r))]) (su_roles u)))),
         (''meta'', Some (JObj
            [(''resourceType'', Some (JStr ''User'')), (''created'', Some (JStr (su_createdAt u))),
             (''lastModified'', Some (JStr (su_updatedAt u))),
             (''location'', Some (JStr (''/scim/v2/Users/'' @ su_id u)))]))])"

section \<open>Creation\<close>

text \<open>Within a tenant no two users share a login, up to case, or an external identifier.\<close>

definition user_keys_unique :: "string \<Rightarrow> scim_user list \<Rightarrow> bool" where
  "user_keys_unique t users \<longleftrightarrow>
     (let us = filter (\<lambda>u. su_tenantId u = t) users in
      distinct (map (\<lambda>u. js_lower (su_userName u)) us)
      \<and> distinct (map su_externalId (filter (\<lambda>u. su_externalId u \<noteq> None) us)))"

lemma requireNonEmpty_Inr: "requireNonEmpty v = Inr s \<longleftrightarrow> (\<exists>r. v = VStr r \<and> js_trim r \<noteq> [] \<and> s = js_trim r)"
  by (cases v rule: requireNonEmpty.cases) auto

definition wanted_external :: "scim_user_write \<Rightarrow> (scim_error, string option) result" where
  "wanted_external w = (if sw_externalId w = VUndefined then Inr None
     else bindR (requireNonEmpty (sw_externalId w)) (\<lambda>e. Inr (Some e)))"

lemma create_cases:
  assumes "createScimUser ctx w existing uid now = Inr r"
  obtains (Match) u e where "wanted_external w = Inr (Some e)" "u \<in> set existing" "su_tenantId u = sc_tenantId ctx"
      "su_externalId u = Some e" "r = \<lparr> cr_user = u, cr_idempotentMatch = True \<rparr>"
  | (New) e where "wanted_external w = Inr e" "cr_idempotentMatch r = False" "su_externalId (cr_user r) = e"
      "su_tenantId (cr_user r) = sc_tenantId ctx" "su_roles (cr_user r) = []" "su_groups (cr_user r) = []" "su_id (cr_user r) = uid"
      "requireNonEmpty (sw_userName w) = Inr (su_userName (cr_user r))"
      "\<forall>u\<in>set existing. su_tenantId u = sc_tenantId ctx \<longrightarrow> js_lower (su_userName u) \<noteq> js_lower (su_userName (cr_user r))
         \<and> (e \<noteq> None \<longrightarrow> su_externalId u \<noteq> e)"
proof -
  define scoped where "scoped = filter (\<lambda>u. su_tenantId u = sc_tenantId ctx) existing"
  obtain n e where n: "requireNonEmpty (sw_userName w) = Inr n" and e: "wanted_external w = Inr e"
    using assms by (auto simp: createScimUser_def wanted_external_def bindR_Inr_iff)
  show thesis
  proof (cases "if e = None then None else find (\<lambda>u. su_externalId u = e) scoped")
    case (Some u)
    then obtain x where x: "e = Some x" "find (\<lambda>u. su_externalId u = e) scoped = Some u" by (auto split: if_splits)
    have "u \<in> set scoped" "su_externalId u = e" using x(2) by (auto simp: find_Some_iff)
    then have u: "u \<in> set existing" "su_tenantId u = sc_tenantId ctx" "su_externalId u = Some x"
      using x(1) by (auto simp: scoped_def)
    have "r = \<lparr> cr_user = u, cr_idempotentMatch = True \<rparr>"
      using assms n e Some by (simp add: createScimUser_def wanted_external_def [symmetric] scoped_def [symmetric])
    then show thesis using Match e u x(1) by blast
  next
    case None
    then have nf: "\<forall>u\<in>set scoped. e \<noteq> None \<longrightarrow> su_externalId u \<noteq> e" by (auto simp: find_None_iff split: if_splits)
    obtain m where "primaryEmail (sw_emails w) = Inr m" "\<not> list_ex (\<lambda>u. js_lower (su_userName u) = js_lower n) scoped"
      "r = \<lparr> cr_user = \<lparr> su_id = uid, su_tenantId = sc_tenantId ctx, su_externalId = e, su_userName = n,
          su_displayName = (case sw_displayName w of VStr s \<Rightarrow> Some (js_trim s) | _ \<Rightarrow> None),
          su_email = m, su_active = (case sw_active w of None \<Rightarrow> True | Some b \<Rightarrow> b),
          su_roles = [], su_groups = [], su_createdAt = now, su_updatedAt = now \<rparr>, cr_idempotentMatch = False \<rparr>"
      using assms n e None
      by (auto simp: createScimUser_def wanted_external_def [symmetric] scoped_def [symmetric] bindR_Inr_iff split: if_splits)
    then show thesis
      using New [of e] e n nf by (auto simp: scoped_def list_ex_iff)
  qed
qed

definition store_created :: "scim_user list \<Rightarrow> scim_create_result \<Rightarrow> scim_user list" where
  "store_created existing r = (if cr_idempotentMatch r then existing else existing @ [cr_user r])"

lemma create_keeps_unique:
  assumes "user_keys_unique t existing" "createScimUser ctx w existing uid now = Inr r"
  shows "user_keys_unique t (store_created existing r)"
  using assms(2)
proof (cases rule: create_cases)
  case (Match u e)
  then show ?thesis using assms(1) by (simp add: store_created_def)
next
  case (New e)
  show ?thesis
  proof (cases "t = sc_tenantId ctx")
    case False
    then show ?thesis using assms(1) New by (simp add: store_created_def user_keys_unique_def Let_def)
  next
    case True
    then show ?thesis using assms(1) New by (auto simp: store_created_def user_keys_unique_def Let_def)
  qed
qed

lemma create_retry:
  assumes r: "createScimUser ctx w existing uid now = Inr r" and e: "wanted_external w = Inr (Some e)"
  shows "createScimUser ctx w (store_created existing r) uid' now' = Inr \<lparr> cr_user = cr_user r, cr_idempotentMatch = True \<rparr>"
proof -
  obtain n where n: "requireNonEmpty (sw_userName w) = Inr n" using r by (auto simp: createScimUser_def bindR_Inr_iff)
  let ?scope = "filter (\<lambda>u. su_tenantId u = sc_tenantId ctx)"
  have g: "createScimUser ctx w us uid' now' = Inr \<lparr> cr_user = u, cr_idempotentMatch = True \<rparr>"
    if "find (\<lambda>u. su_externalId u = Some e) (?scope us) = Some u" for us u
    using that n e by (simp add: createScimUser_def wanted_external_def [symmetric])
  from r show ?thesis
  proof (cases rule: create_cases)
    case (Match u e')
    have "find (\<lambda>u. su_externalId u = Some e) (?scope existing) = Some (cr_user r)"
      using r n e Match by (auto simp: createScimUser_def wanted_external_def [symmetric] bindR_Inr_iff find_None_iff Let_def split: option.splits if_splits)
    from g [OF this] show ?thesis using Match by (simp add: store_created_def)
  next
    case (New e')
    have "find (\<lambda>u. su_externalId u = Some e) (?scope existing) = None"
      using New e by (auto simp: find_None_iff)
    then have "find (\<lambda>u. su_externalId u = Some e) (?scope existing @ [cr_user r]) = Some (cr_user r)"
      by (rule find_snoc) (use New e in simp)
    then show ?thesis using New by (intro g) (simp add: store_created_def)
  qed
qed

section \<open>What PATCH can change\<close>

definition same_identity :: "scim_user \<Rightarrow> scim_user \<Rightarrow> bool" where
  "same_identity u v \<longleftrightarrow> su_id v = su_id u \<and> su_tenantId v = su_tenantId u \<and> su_roles v = su_roles u
     \<and> su_groups v = su_groups u \<and> su_createdAt v = su_createdAt u"

lemma same_identity_refl [simp]: "same_identity u u"
  by (simp add: same_identity_def)

lemma same_identity_trans: "same_identity u v \<Longrightarrow> same_identity v w \<Longrightarrow> same_identity u w"
  by (simp add: same_identity_def)

lemma apply_single_identity: "applySingleAttribute u p v = Inr u' \<Longrightarrow> same_identity u u'"
  by (auto simp: applySingleAttribute_def same_identity_def Let_def bindR_Inr_iff split: if_splits option.splits)

lemma apply_attributes_identity: "apply_attributes u kvs = Inr u' \<Longrightarrow> same_identity u u'"
  by (induction u kvs rule: apply_attributes.induct)
    (auto simp: bindR_Inr_iff intro: same_identity_trans apply_single_identity)

lemma patch_operation_identity: "patch_operation u oper = Inr u' \<Longrightarrow> same_identity u u'"
  by (auto simp: patch_operation_def Let_def split: if_splits option.splits
      intro: apply_single_identity apply_attributes_identity)

lemma apply_operations_identity: "apply_operations u ops = Inr u' \<Longrightarrow> same_identity u u'"
  by (induction u ops rule: apply_operations.induct)
    (auto simp: bindR_Inr_iff intro: same_identity_trans patch_operation_identity)

section \<open>Reading a printed filter\<close>

definition print_filter :: "scim_filter \<Rightarrow> string" where
  "print_filter f = filter_attribute_name (sf_attribute f) @ '' eq '' @ [CHR 0x22] @ sf_value f @ [CHR 0x22]"

lemma match_print:
  assumes "list_all plain_char (sf_value f)"
  shows "match_filter (print_filter f) = Some (sf_attribute f, sf_value f)"
proof -
  let ?v = "sf_value f"
  have d: "dropWhile plain_char (?v @ [CHR 0x22]) = [CHR 0x22]" "takeWhile plain_char (?v @ [CHR 0x22]) = ?v"
    using assms by (simp_all add: list_all_iff dropWhile_append2 takeWhile_append2 plain_char_def)
  have p: "parse_filter_value (CHR 0x22 # ?v @ [CHR 0x22]) = Some ?v"
    by (simp add: parse_filter_value_def d)
  have l: "js_lower ''userName'' = ''username''" "js_lower ''externalId'' = ''externalid''" "js_lower ''active'' = ''active''"
    "js_lower ''eq'' = ''eq''" "js_lower ''external'' = ''external''" "js_lower ''active e'' = ''active e''"
    "js_lower ''active eq '' = ''active eq ''" by code_simp+
  show ?thesis
    by (cases "sf_attribute f")
      (simp_all add: match_filter_def print_filter_def filter_attribute_name_def parse_attribute_def keyword_def
        drop_ws_def js_ws_def code_def some_ws_def p l)
qed

section \<open>Pages\<close>

lemma concat_pages: "concat (map (\<lambda>k. take c (drop (k * c) xs)) [0..<n]) = take (n * c) xs"
proof (induction n)
  case (Suc n)
  have "take (Suc n * c) xs = take (n * c + c) xs" by (simp add: add.commute)
  then show ?case using Suc by (simp only: take_add upt_Suc_append zero_le map_append concat_append list.map concat.simps append_Nil2)
qed simp

definition page_of :: "'a list \<Rightarrow> nat \<Rightarrow> nat \<Rightarrow> 'a list" where
  "page_of xs c k = (case paginateScim xs (Some (NInt (1 + int (k * c)))) (Some (NInt (int c))) of
     Inl _ \<Rightarrow> [] | Inr p \<Rightarrow> lr_Resources p)"

lemma page_of_take: "c \<le> 200 \<Longrightarrow> page_of xs c k = take c (drop (k * c) xs)"
  by (simp add: page_of_def paginateScim_def scim_maximum_page_size_def min_def Let_def del: of_nat_mult)

section \<open>Properties\<close>

text \<open>C36. Creating a user keeps logins and external identifiers unique within every tenant, and puts the
  user in the tenant of the credential with no roles.\<close>

theorem scim_create_keeps_unique:
  assumes "user_keys_unique t existing" "createScimUser ctx w existing uid now = Inr r"
  shows "user_keys_unique t (store_created existing r) \<and> su_tenantId (cr_user r) = sc_tenantId ctx
    \<and> (\<not> cr_idempotentMatch r \<longrightarrow> su_roles (cr_user r) = [])"
  using create_keeps_unique [OF assms] assms(2) by (auto elim!: create_cases)

definition sample_context :: scim_context where
  "sample_context = \<lparr> sc_tenantId = ''t1'', sc_clientId = ''c'', sc_requestId = ''r'',
     sc_assignableRoles = [''auditor''], sc_groupToRole = [(''Revision'', ''auditor'')] \<rparr>"

definition sample_write :: scim_user_write where
  "sample_write = \<lparr> sw_externalId = VStr ''e1'', sw_userName = VStr ''Anna'', sw_displayName = VUndefined,
     sw_emails = None, sw_active = None \<rparr>"

theorem scim_create_keeps_unique_witness:
  "\<exists>r. createScimUser sample_context sample_write [] ''u1'' ''now'' = Inr r \<and> user_keys_unique ''t1'' (store_created [] r)"
proof -
  have "is_ok (createScimUser sample_context sample_write [] ''u1'' ''now'')" by code_simp
  then obtain r where r: "createScimUser sample_context sample_write [] ''u1'' ''now'' = Inr r" by (auto simp: is_ok_iff)
  have "user_keys_unique ''t1'' []" by (simp add: user_keys_unique_def)
  from scim_create_keeps_unique [OF this r] r show ?thesis by blast
qed

text \<open>Creation is idempotent on the external identifier: repeating a request that carried one, at any
  later time, returns the user of the first attempt and creates nothing.\<close>

theorem scim_create_idempotent:
  assumes "createScimUser ctx w existing uid now = Inr r" and "wanted_external w = Inr (Some e)"
  shows "createScimUser ctx w (store_created existing r) uid' now' = Inr \<lparr> cr_user = cr_user r, cr_idempotentMatch = True \<rparr>"
  using create_retry assms by blast

theorem scim_create_idempotent_witness:
  "\<exists>r. createScimUser sample_context sample_write [] ''u1'' ''now'' = Inr r
     \<and> createScimUser sample_context sample_write (store_created [] r) ''u2'' ''later'' = Inr \<lparr> cr_user = cr_user r, cr_idempotentMatch = True \<rparr>"
proof -
  have "is_ok (createScimUser sample_context sample_write [] ''u1'' ''now'')" by code_simp
  then obtain r where r: "createScimUser sample_context sample_write [] ''u1'' ''now'' = Inr r" by (auto simp: is_ok_iff)
  have "wanted_external sample_write = Inr (Some ''e1'')" by code_simp
  from scim_create_idempotent [OF r this] r show ?thesis by blast
qed

text \<open>A PATCH, whatever its operations, touches only users of the credential's tenant and never
  changes a user's identifier, tenant, roles, groups or creation time; every failure leaves the user
  as it was.\<close>

theorem scim_patch_no_escalation:
  assumes "applyScimPatch ctx u ops now = Inr u'"
  shows "su_tenantId u = sc_tenantId ctx \<and> same_identity u u' \<and> su_updatedAt u' = now"
proof -
  obtain v where v: "su_tenantId u = sc_tenantId ctx" "apply_operations u ops = Inr v" "u' = v\<lparr> su_updatedAt := now \<rparr>"
    using assms by (auto simp: applyScimPatch_def assertScimTenant_def bindR_Inr_iff split: if_splits)
  have "same_identity v u'" using v(3) by (simp add: same_identity_def)
  then show ?thesis using v apply_operations_identity [OF v(2)] same_identity_trans by auto
qed

definition sample_user :: scim_user where
  "sample_user = \<lparr> su_id = ''u1'', su_tenantId = ''t1'', su_externalId = Some ''e1'', su_userName = ''Anna'', su_displayName = None,
     su_email = None, su_active = True, su_roles = [''auditor''], su_groups = [''Revision''], su_createdAt = ''t0'', su_updatedAt = ''t0'' \<rparr>"

theorem scim_patch_no_escalation_witness:
  "\<exists>u'. applyScimPatch sample_context sample_user [\<lparr> po_op = ''Replace'', po_path = Some ''active'', po_value = VStr ''False'' \<rparr>] ''t1'' = Inr u'
     \<and> \<not> su_active u' \<and> su_roles u' = [''auditor'']"
proof -
  have e: "applyScimPatch sample_context sample_user [\<lparr> po_op = ''Replace'', po_path = Some ''active'', po_value = VStr ''False'' \<rparr>] ''t1''
      = Inr (sample_user\<lparr> su_active := False, su_updatedAt := ''t1'' \<rparr>)" by code_simp
  from scim_patch_no_escalation [OF e] e show ?thesis by (simp add: same_identity_def sample_user_def)
qed

text \<open>Reading consecutive 1-based pages of any size from 1 to 200 yields every resource exactly once
  and in order: no user is skipped or repeated at a page boundary.\<close>

theorem scim_pages_complete:
  assumes "1 \<le> c" and "c \<le> 200" and "length xs \<le> n * c"
  shows "concat (map (page_of xs c) [0..<n]) = xs"
proof -
  have "map (page_of xs c) [0..<n] = map (\<lambda>k. take c (drop (k * c) xs)) [0..<n]"
    using assms(2) by (simp add: page_of_take)
  then have "concat (map (page_of xs c) [0..<n]) = take (n * c) xs" by (simp only: concat_pages)
  then show ?thesis using assms(3) by simp
qed

theorem scim_pages_complete_witness: "concat (map (page_of ''abcde'' 2) [0..<3]) = ''abcde''"
  by (rule scim_pages_complete) simp_all

text \<open>A filter value without quotes or backslashes reaches the query as the client wrote it.\<close>

theorem scim_filter_roundtrip:
  assumes "list_all plain_char (sf_value f)" and "sf_attribute f \<noteq> Attr_active" and "sf_value f \<noteq> []"
  shows "parseScimFilter (Some (print_filter f)) = Inr (Some f)"
proof -
  have "CHR ''e'' \<in> set (print_filter f)"
    by (cases "sf_attribute f") (simp_all add: print_filter_def filter_attribute_name_def)
  then have "js_trim (print_filter f) \<noteq> []"
    unfolding js_trim_Nil_iff list_all_iff by (intro notI) (drule (1) bspec, simp add: js_ws_def code_def)
  then show ?thesis using match_print [OF assms(1)] assms(2,3) by (simp add: parseScimFilter_def)
qed

theorem scim_filter_roundtrip_witness:
  "parseScimFilter (Some (print_filter \<lparr> sf_attribute = Attr_userName, sf_value = ''anna@k.se'' \<rparr>))
     = Inr (Some \<lparr> sf_attribute = Attr_userName, sf_value = ''anna@k.se'' \<rparr>)"
  by (rule scim_filter_roundtrip) (simp_all add: plain_char_def)

text \<open>Group membership gives a user of the tenant exactly the mapped roles, all of them assignable
  by the client; a mapping to any other role is refused.\<close>

theorem scim_roles_exact:
  assumes "applyGroupMembership ctx u groups now = Inr u'"
  shows "su_tenantId u = sc_tenantId ctx \<and> distinct (su_roles u') \<and> sorted (su_roles u')
    \<and> set (su_roles u') = granted (role_of_group (sc_groupToRole ctx)) groups
    \<and> set (su_roles u') \<subseteq> set (sc_assignableRoles ctx)"
proof -
  obtain rs where rs: "su_tenantId u = sc_tenantId ctx" "u' = u\<lparr> su_groups := sort groups, su_roles := sort rs, su_updatedAt := now \<rparr>"
    "collect_roles (Scim_error SCIM_ROLE_NOT_ASSIGNABLE) (role_of_group (sc_groupToRole ctx)) (sc_assignableRoles ctx) groups [] = Inr rs"
    using assms by (auto simp: applyGroupMembership_def resolveScimRoles_def assertScimTenant_def bindR_Inr_iff split: if_splits)
  from collect_roles_Inr [OF rs(3)] rs show ?thesis by auto
qed

theorem scim_roles_exact_witness:
  "\<exists>u'. applyGroupMembership sample_context sample_user [''Revision'', ''Annat''] ''now'' = Inr u' \<and> set (su_roles u') \<subseteq> {''auditor''}"
proof -
  have "is_ok (applyGroupMembership sample_context sample_user [''Revision'', ''Annat''] ''now'')" by code_simp
  then obtain u' where u: "applyGroupMembership sample_context sample_user [''Revision'', ''Annat''] ''now'' = Inr u'"
    by (auto simp: is_ok_iff)
  from scim_roles_exact [OF this] u show ?thesis by (auto simp: sample_context_def)
qed

text \<open>A start index beyond the last result is not an error: it yields an empty page.\<close>

theorem scim_page_beyond_end:
  assumes "length xs < nat i"
  shows "paginateScim xs (Some (NInt i)) None =
    Inr \<lparr> lr_totalResults = length xs, lr_startIndex = i, lr_itemsPerPage = 0, lr_Resources = [] \<rparr>"
  using assms by (simp add: paginateScim_def Let_def)

theorem scim_page_beyond_end_witness:
  "paginateScim ''ab'' (Some (NInt 9)) None = Inr \<lparr> lr_totalResults = 2, lr_startIndex = 9, lr_itemsPerPage = 0, lr_Resources = [] \<rparr>"
  using scim_page_beyond_end [of "''ab''" 9] by simp

end
