(* ===== verification/Retention.thy ===== *)
theory Retention
  imports Js_Date
begin

text \<open>
  Retention decisions (\<open>packages/retention/src/index.ts\<close>): the check that a policy is lawful, the
  decision what may happen to a case at a given time, and the report of a gallring (disposal). Times
  are milliseconds since 1970; timestamps are ISO strings read by \<open>date_parse\<close>.
\<close>

section \<open>Data\<close>

datatype retention_mode =
    Retain_forever | Retain_for_period | Archive_then_delete | Delete_after_period | Legal_hold | Other_mode string

datatype retention_class = Business_data | Security_log | Access_log

definition access_log_minimum_retention_days :: int where
  "access_log_minimum_retention_days = 5 * 365"

record retention_policy =
  rp_policyKey :: string
  rp_version :: jsnum
  rp_retentionClass :: retention_class
  rp_mode :: retention_mode
  rp_periodDays :: "jsnum option"
  rp_active :: bool
  rp_instructionReference :: "string option"

record retention_subject =
  rs_tenantId :: string
  rs_caseId :: string
  rs_status :: string
  rs_closedAt :: "string option"
  rs_legalHoldActive :: bool

datatype retention_action = RETAIN | ARCHIVE_THEN_DELETE | DELETE

datatype retention_reason =
    LEGAL_HOLD | CASE_NOT_CLOSED | POLICY_INACTIVE | RETAIN_FOREVER | PERIOD_NOT_ELAPSED
  | MINIMUM_RETENTION_NOT_ELAPSED | DUE_FOR_DELETION | DUE_FOR_ARCHIVE_THEN_DELETION

record retention_decision =
  rd_action :: retention_action
  rd_reason :: retention_reason
  rd_eligibleAt :: "string option"

text \<open>\<open>Range_error\<close> is the exception \<open>toISOString\<close> throws for a time out of range.\<close>

datatype retention_error =
    RETENTION_MODE_INVALID
  | RETENTION_VERSION_INVALID
  | RETENTION_PERIOD_REQUIRED
  | RETENTION_PERIOD_FORBIDDEN
  | RETENTION_LOG_MODE_INVALID
  | RETENTION_BELOW_PUB_FLOOR
  | RETENTION_ANCHOR_INVALID
  | GALLRING_REPORT_EMPTY
  | GALLRING_TARGET_UNKNOWN
  | GALLRING_TARGET_DUPLICATE
  | GALLRING_COUNT_INVALID
  | Range_error

definition terminal_statuses :: "string list" where
  "terminal_statuses = [''completed'', ''declined'', ''expired'', ''cancelled'', ''failed'', ''archived'']"

section \<open>Lawful policies\<close>

fun known_mode :: "retention_mode \<Rightarrow> bool" where
  "known_mode (Other_mode _) = False"
| "known_mode _ = True"

definition needs_period :: "retention_mode \<Rightarrow> bool" where
  "needs_period m \<longleftrightarrow> m = Retain_for_period \<or> m = Delete_after_period \<or> m = Archive_then_delete"

definition assertPolicyIsLawful :: "retention_policy \<Rightarrow> (retention_error, unit) result" where
  "assertPolicyIsLawful p =
     (if \<not> known_mode (rp_mode p) then Inl RETENTION_MODE_INVALID
      else if num_less (rp_version p) 1 \<or> \<not> is_safe_integer (rp_version p) then Inl RETENTION_VERSION_INVALID
      else if needs_period (rp_mode p) \<and>
        (case rp_periodDays p of None \<Rightarrow> True | Some d \<Rightarrow> \<not> is_safe_integer d \<or> num_less d 0) then Inl RETENTION_PERIOD_REQUIRED
      else if \<not> needs_period (rp_mode p) \<and> rp_periodDays p \<noteq> None then Inl RETENTION_PERIOD_FORBIDDEN
      else
        let isLog = (rp_retentionClass p = Access_log \<or> rp_retentionClass p = Security_log) in
        if isLog \<and> rp_mode p = Archive_then_delete then Inl RETENTION_LOG_MODE_INVALID
        else if rp_retentionClass p = Access_log
          \<and> (case rp_periodDays p of None \<Rightarrow> False | Some d \<Rightarrow> num_less d access_log_minimum_retention_days)
          \<and> falsy (rp_instructionReference p) then Inl RETENTION_BELOW_PUB_FLOOR
        else Inr ())"

section \<open>The decision\<close>

definition addDays :: "string \<Rightarrow> int \<Rightarrow> (retention_error, string) result" where
  "addDays i days =
     (case date_parse i of None \<Rightarrow> Inl RETENTION_ANCHOR_INVALID
      | Some base \<Rightarrow> (case to_iso (base + days * ms_per_day) of None \<Rightarrow> Inl Range_error | Some s \<Rightarrow> Inr s))"

definition period_days :: "retention_policy \<Rightarrow> int" where
  "period_days p = (case rp_periodDays p of None \<Rightarrow> 0 | Some d \<Rightarrow> num_int d)"

text \<open>\<open>Date.parse(x) > now\<close>, false for an unreadable \<open>x\<close>.\<close>

definition later_than :: "string \<Rightarrow> int \<Rightarrow> bool" where
  "later_than s now = (case date_parse s of None \<Rightarrow> False | Some t \<Rightarrow> t > now)"

definition decideRetention :: "retention_policy \<Rightarrow> retention_subject \<Rightarrow> int \<Rightarrow> (retention_error, retention_decision) result" where
  "decideRetention p s now =
     bindR (assertPolicyIsLawful p) (\<lambda>_.
       if rs_legalHoldActive s \<or> rp_mode p = Legal_hold
         then Inr \<lparr> rd_action = RETAIN, rd_reason = LEGAL_HOLD, rd_eligibleAt = None \<rparr>
       else if \<not> rp_active p
         then Inr \<lparr> rd_action = RETAIN, rd_reason = POLICY_INACTIVE, rd_eligibleAt = None \<rparr>
       else if rp_mode p = Retain_forever
         then Inr \<lparr> rd_action = RETAIN, rd_reason = RETAIN_FOREVER, rd_eligibleAt = None \<rparr>
       else if falsy (rs_closedAt s) \<or> rs_status s \<notin> set terminal_statuses
         then Inr \<lparr> rd_action = RETAIN, rd_reason = CASE_NOT_CLOSED, rd_eligibleAt = None \<rparr>
       else bindR (addDays (the (rs_closedAt s)) (period_days p)) (\<lambda>eligibleAt.
         if later_than eligibleAt now then
           Inr \<lparr> rd_action = RETAIN,
             rd_reason = (if rp_mode p = Retain_for_period then MINIMUM_RETENTION_NOT_ELAPSED else PERIOD_NOT_ELAPSED),
             rd_eligibleAt = Some eligibleAt \<rparr>
         else if rp_mode p = Retain_for_period then
           Inr \<lparr> rd_action = RETAIN, rd_reason = MINIMUM_RETENTION_NOT_ELAPSED, rd_eligibleAt = Some eligibleAt \<rparr>
         else if rp_mode p = Archive_then_delete then
           Inr \<lparr> rd_action = ARCHIVE_THEN_DELETE, rd_reason = DUE_FOR_ARCHIVE_THEN_DELETION, rd_eligibleAt = Some eligibleAt \<rparr>
         else Inr \<lparr> rd_action = DELETE, rd_reason = DUE_FOR_DELETION, rd_eligibleAt = Some eligibleAt \<rparr>))"

section \<open>The report\<close>

datatype gallring_target =
    Signature_case | Documents | Document_versions | Object_storage | Evidence_packages
  | Derived_renders | Search_index | Cache | Notifications | Unknown_target string

fun target_name :: "gallring_target \<Rightarrow> string" where
  "target_name Signature_case = ''signature_case''"
| "target_name Documents = ''documents''"
| "target_name Document_versions = ''document_versions''"
| "target_name Object_storage = ''object_storage''"
| "target_name Evidence_packages = ''evidence_packages''"
| "target_name Derived_renders = ''derived_renders''"
| "target_name Search_index = ''search_index''"
| "target_name Cache = ''cache''"
| "target_name Notifications = ''notifications''"
| "target_name (Unknown_target s) = s"

fun known_target :: "gallring_target \<Rightarrow> bool" where
  "known_target (Unknown_target _) = False"
| "known_target _ = True"

record target_outcome =
  to_target :: gallring_target
  to_deletedCount :: jsnum
  to_verified :: bool

record report_input =
  ri_tenantId :: string
  ri_jobId :: string
  ri_policyKey :: string
  ri_policyVersion :: jsnum
  ri_retentionClass :: retention_class
  ri_executedBy :: string
  ri_executedAt :: string
  ri_caseIds :: "string list"
  ri_outcomes :: "target_outcome list"

record gallring_report =
  gr_input :: report_input
  gr_caseCount :: nat
  gr_deletedTotal :: int
  gr_complete :: bool
  gr_unverifiedTargets :: "gallring_target list"

fun check_outcomes :: "gallring_target list \<Rightarrow> target_outcome list \<Rightarrow> (retention_error, unit) result" where
  "check_outcomes seen [] = Inr ()"
| "check_outcomes seen (x # xs) =
     (if \<not> known_target (to_target x) then Inl GALLRING_TARGET_UNKNOWN
      else if to_target x \<in> set seen then Inl GALLRING_TARGET_DUPLICATE
      else if num_less (to_deletedCount x) 0 \<or> \<not> is_safe_integer (to_deletedCount x) then Inl GALLRING_COUNT_INVALID
      else check_outcomes (to_target x # seen) xs)"

definition unverified_targets :: "target_outcome list \<Rightarrow> gallring_target list" where
  "unverified_targets xs = map to_target (filter (\<lambda>x. \<not> to_verified x) xs)"

definition buildGallringReport :: "report_input \<Rightarrow> (retention_error, gallring_report) result" where
  "buildGallringReport inp =
     (if ri_caseIds inp = [] then Inl GALLRING_REPORT_EMPTY
      else bindR (check_outcomes [] (ri_outcomes inp)) (\<lambda>_.
        let unverified = unverified_targets (ri_outcomes inp) in
        Inr \<lparr> gr_input = inp, gr_caseCount = length (ri_caseIds inp),
           gr_deletedTotal = foldl (\<lambda>t x. js_add t (num_int (to_deletedCount x))) 0 (ri_outcomes inp),
           gr_complete = (unverified = []), gr_unverifiedTargets = unverified \<rparr>))"

section \<open>What a decision rests on\<close>

definition lawful_period :: "retention_policy \<Rightarrow> bool" where
  "lawful_period p \<longleftrightarrow> 0 \<le> period_days p
     \<and> (rp_retentionClass p = Access_log \<and> falsy (rp_instructionReference p) \<longrightarrow> 1825 \<le> period_days p)"

lemma lawful_needs_period:
  assumes "assertPolicyIsLawful p = Inr u" "needs_period (rp_mode p)"
  shows "lawful_period p"
proof -
  obtain n where n: "rp_periodDays p = Some (NInt n)" "n \<ge> 0"
    using assms by (auto simp: assertPolicyIsLawful_def Let_def safe_integer_iff split: if_splits option.splits)
  then show ?thesis
    using assms by (auto simp: assertPolicyIsLawful_def Let_def lawful_period_def period_days_def
        access_log_minimum_retention_days_def split: if_splits)
qed

lemma due_conditions:
  assumes "decideRetention p s now = Inr d" and "rd_action d \<noteq> RETAIN"
  obtains c base where "assertPolicyIsLawful p = Inr ()" "\<not> rs_legalHoldActive s" "rp_active p"
    "rp_mode p = Archive_then_delete \<or> rp_mode p = Delete_after_period"
    "rs_status s \<in> set terminal_statuses" "rs_closedAt s = Some c" "date_parse c = Some base"
    "base + period_days p * ms_per_day \<le> now"
proof -
  have l: "assertPolicyIsLawful p = Inr ()" using assms(1) by (auto simp: decideRetention_def bindR_Inr_iff)
  have m: "known_mode (rp_mode p)" using l by (auto simp: assertPolicyIsLawful_def split: if_splits)
  obtain c e where c: "\<not> rs_legalHoldActive s" "rp_mode p \<noteq> Legal_hold" "rp_active p" "rp_mode p \<noteq> Retain_forever"
    "rs_closedAt s = Some c" "rs_status s \<in> set terminal_statuses" "addDays c (period_days p) = Inr e"
    "\<not> later_than e now" "rp_mode p \<noteq> Retain_for_period"
    using assms l by (auto simp: decideRetention_def bindR_Inr_iff not_falsy_iff split: if_splits)
  then obtain base where b: "date_parse c = Some base" "to_iso (base + period_days p * ms_per_day) = Some e"
    by (auto simp: addDays_def split: option.splits)
  have "base + period_days p * ms_per_day \<le> now"
    using c(8) date_parse_iso [OF b(2)] by (simp add: later_than_def)
  moreover have "rp_mode p = Archive_then_delete \<or> rp_mode p = Delete_after_period"
    using m c by (cases "rp_mode p") auto
  ultimately show thesis using that l c b by blast
qed

lemma due_monotone:
  assumes "decideRetention p s now = Inr d" "rd_action d \<noteq> RETAIN" "now \<le> later"
  shows "decideRetention p s later = Inr d"
proof -
  have k: "\<not> later_than e now \<Longrightarrow> \<not> later_than e later" for e
    using assms(3) by (auto simp: later_than_def split: option.splits)
  show ?thesis using assms(1,2) k by (auto simp: decideRetention_def bindR_Inr_iff split: if_splits)
qed

lemma sum_js_add:
  assumes "\<forall>x\<in>set xs. 0 \<le> num_int (to_deletedCount x)" "0 \<le> a"
    "a + sum_list (map (\<lambda>x. num_int (to_deletedCount x)) xs) < 2 ^ 53"
  shows "foldl (\<lambda>t x. js_add t (num_int (to_deletedCount x))) a xs = a + sum_list (map (\<lambda>x. num_int (to_deletedCount x)) xs)"
  using assms
proof (induction xs arbitrary: a)
  case (Cons x xs)
  let ?n = "num_int (to_deletedCount x)"
  have "0 \<le> sum_list (map (\<lambda>x. num_int (to_deletedCount x)) xs)"
    using Cons.prems(1) by (intro sum_list_nonneg) auto
  then have "js_add a ?n = a + ?n" using Cons.prems by (intro js_add_exact) auto
  then show ?case using Cons.IH [of "a + ?n"] Cons.prems by (simp add: add.assoc)
qed simp

lemma check_outcomes_iff:
  "check_outcomes seen xs = Inr u \<longleftrightarrow>
     (\<forall>x\<in>set xs. known_target (to_target x) \<and> (\<exists>n. to_deletedCount x = NInt n \<and> 0 \<le> n \<and> n \<le> max_safe_integer))
     \<and> distinct (map to_target xs) \<and> set (map to_target xs) \<inter> set seen = {}"
proof (induction xs arbitrary: seen)
  case (Cons x xs)
  have "(\<not> (num_less (to_deletedCount x) 0 \<or> \<not> is_safe_integer (to_deletedCount x)))
      = (\<exists>n. to_deletedCount x = NInt n \<and> 0 \<le> n \<and> n \<le> max_safe_integer)"
    by (cases "to_deletedCount x") (auto simp: max_safe_integer_def)
  then show ?case using Cons.IH [of "to_target x # seen"] by auto
qed simp

section \<open>Properties\<close>

text \<open>C26. Nothing is due for deletion unless its policy is lawful, active and a deleting one, no legal hold
  is on it, the case is closed in a terminal state, and the policy's whole period has passed since;
  for the access log without a documented instruction that period is at least five years.\<close>

theorem due_only_when_lawful:
  assumes "decideRetention p s now = Inr d" and "rd_action d \<noteq> RETAIN"
  shows "\<not> rs_legalHoldActive s \<and> rp_active p \<and> (rp_mode p = Archive_then_delete \<or> rp_mode p = Delete_after_period)
    \<and> rs_status s \<in> set terminal_statuses
    \<and> (\<exists>c base. rs_closedAt s = Some c \<and> date_parse c = Some base \<and> base \<le> now
        \<and> base + period_days p * ms_per_day \<le> now
        \<and> (rp_retentionClass p = Access_log \<and> falsy (rp_instructionReference p) \<longrightarrow> base + 1825 * ms_per_day \<le> now))"
proof -
  obtain c base where h: "assertPolicyIsLawful p = Inr ()" "\<not> rs_legalHoldActive s" "rp_active p"
    "rp_mode p = Archive_then_delete \<or> rp_mode p = Delete_after_period"
    "rs_status s \<in> set terminal_statuses" "rs_closedAt s = Some c" "date_parse c = Some base"
    "base + period_days p * ms_per_day \<le> now"
    by (rule due_conditions [OF assms])
  have l: "lawful_period p" using lawful_needs_period [OF h(1)] h(4) by (auto simp: needs_period_def)
  have "base \<le> now" using h(8) l by (simp add: lawful_period_def ms_per_day_def)
  moreover have "base + 1825 * ms_per_day \<le> now" if "rp_retentionClass p = Access_log \<and> falsy (rp_instructionReference p)"
    using h(8) l that by (simp add: lawful_period_def ms_per_day_def)
  ultimately show ?thesis using h by blast
qed

definition sample_policy :: retention_policy where
  "sample_policy = \<lparr> rp_policyKey = ''p'', rp_version = NInt 1, rp_retentionClass = Business_data, rp_mode = Delete_after_period,
     rp_periodDays = Some (NInt 30), rp_active = True, rp_instructionReference = None \<rparr>"

definition sample_subject :: "string \<Rightarrow> bool \<Rightarrow> retention_subject" where
  "sample_subject c hold = \<lparr> rs_tenantId = ''t'', rs_caseId = c, rs_status = ''completed'',
     rs_closedAt = Some ''2025-01-01T00:00:00.000Z'', rs_legalHoldActive = hold \<rparr>"

lemma sample_due:
  "decideRetention sample_policy (sample_subject c False) 1767225600000
     = Inr \<lparr> rd_action = DELETE, rd_reason = DUE_FOR_DELETION, rd_eligibleAt = Some ''2025-01-31T00:00:00.000Z'' \<rparr>"
  by (simp add: decideRetention_def sample_subject_def sample_policy_def assertPolicyIsLawful_def needs_period_def
      max_safe_integer_def terminal_statuses_def addDays_def parse_samples period_days_def ms_per_day_def iso_samples
      later_than_def)

theorem due_only_when_lawful_witness:
  "rs_status (sample_subject ''c1'' False) \<in> set terminal_statuses \<and> rp_active sample_policy
   \<and> (\<exists>d. decideRetention sample_policy (sample_subject ''c1'' False) 1767225600000 = Inr d \<and> rd_action d = DELETE)"
  using due_only_when_lawful [OF sample_due [of "''c1''"]] sample_due [of "''c1''"] by simp

text \<open>A decision to delete is stable: while policy and case do not change, what is due stays due with
  the same decision at every later time.\<close>

theorem due_stays_due:
  assumes "decideRetention p s now = Inr d" and "rd_action d \<noteq> RETAIN" and "now \<le> later"
  shows "decideRetention p s later = Inr d"
  using due_monotone assms by blast

theorem due_stays_due_witness:
  "\<exists>d. decideRetention sample_policy (sample_subject ''c1'' False) 1867225600000 = Inr d \<and> rd_action d = DELETE"
  using due_stays_due [OF sample_due [of "''c1''"], of 1867225600000] by simp

text \<open>C38. A report counts the deletions of its outcomes exactly while their total is below \<open>2^53\<close>, names
  each target at most once and lists exactly the unverified ones.\<close>

theorem report_faithful:
  assumes "buildGallringReport inp = Inr r"
    and "sum_list (map (\<lambda>x. num_int (to_deletedCount x)) (ri_outcomes inp)) < 2 ^ 53"
  shows "gr_deletedTotal r = sum_list (map (\<lambda>x. num_int (to_deletedCount x)) (ri_outcomes inp))
    \<and> distinct (map to_target (ri_outcomes inp)) \<and> gr_caseCount r > 0
    \<and> (gr_complete r \<longleftrightarrow> (\<forall>x\<in>set (ri_outcomes inp). to_verified x))
    \<and> set (gr_unverifiedTargets r) = {to_target x | x. x \<in> set (ri_outcomes inp) \<and> \<not> to_verified x}"
proof -
  have c: "check_outcomes [] (ri_outcomes inp) = Inr ()" "ri_caseIds inp \<noteq> []"
    and r: "r = \<lparr> gr_input = inp, gr_caseCount = length (ri_caseIds inp),
      gr_deletedTotal = foldl (\<lambda>t x. js_add t (num_int (to_deletedCount x))) 0 (ri_outcomes inp),
      gr_complete = (unverified_targets (ri_outcomes inp) = []), gr_unverifiedTargets = unverified_targets (ri_outcomes inp) \<rparr>"
    using assms(1) by (auto simp: buildGallringReport_def Let_def bindR_Inr_iff split: if_splits)
  have "\<forall>x\<in>set (ri_outcomes inp). 0 \<le> num_int (to_deletedCount x)"
    using c(1) by (auto simp: check_outcomes_iff)
  from sum_js_add [OF this, of 0] assms(2) c r show ?thesis
    by (auto simp: check_outcomes_iff unverified_targets_def filter_empty_conv)
qed

definition sample_report_input :: "target_outcome list \<Rightarrow> report_input" where
  "sample_report_input xs = \<lparr> ri_tenantId = ''t'', ri_jobId = ''j'', ri_policyKey = ''p'', ri_policyVersion = NInt 1,
     ri_retentionClass = Business_data, ri_executedBy = ''b'', ri_executedAt = ''now'', ri_caseIds = [''c1''], ri_outcomes = xs \<rparr>"

theorem report_faithful_witness:
  "\<exists>r. buildGallringReport (sample_report_input [\<lparr> to_target = Cache, to_deletedCount = NInt 3, to_verified = True \<rparr>]) = Inr r
     \<and> gr_deletedTotal r = 3 \<and> gr_complete r"
proof -
  let ?i = "sample_report_input [\<lparr> to_target = Cache, to_deletedCount = NInt 3, to_verified = True \<rparr>]"
  have "is_ok (buildGallringReport ?i)"
    by (simp add: is_ok_def sample_report_input_def buildGallringReport_def max_safe_integer_def unverified_targets_def)
  then obtain r where r: "buildGallringReport ?i = Inr r" by (auto simp: is_ok_iff)
  from report_faithful [OF this] r show ?thesis by (simp add: sample_report_input_def)
qed

text \<open>A report that lists no target at all counts as complete: completeness is judged on the outcomes
  it is given, not on the list of targets.\<close>

theorem report_without_outcomes_complete:
  assumes "ri_caseIds inp \<noteq> []" and "ri_outcomes inp = []"
  shows "\<exists>r. buildGallringReport inp = Inr r \<and> gr_complete r \<and> gr_unverifiedTargets r = [] \<and> gr_deletedTotal r = 0"
  using assms by (simp add: buildGallringReport_def unverified_targets_def)

theorem report_without_outcomes_complete_witness:
  "\<exists>r. buildGallringReport (sample_report_input []) = Inr r \<and> gr_complete r"
  using report_without_outcomes_complete [of "sample_report_input []"] by (auto simp: sample_report_input_def)

end
