(* ===== verification/Gallring.thy ===== *)
theory Gallring
  imports Retention
begin

text \<open>
  The lifecycle of a gallring job (\<open>packages/retention/src/executor.ts\<close>): queue, plan, approve,
  execute, verify, report. Every operation is a function on the job; \<open>gallring_step\<close> is the step
  relation they span, and the invariant is proved by induction over it.
\<close>

datatype gallring_state = QUEUED | PLANNED | APPROVED | EXECUTING | VERIFIED | REPORTED | ABANDONED

datatype gallring_code =
    GALLRING_STATE_INVALID | GALLRING_NOT_DUE | GALLRING_DECISION_STALE | GALLRING_APPROVAL_REQUIRED
  | GALLRING_APPROVER_NOT_PERMITTED | GALLRING_SELF_APPROVAL | GALLRING_TARGET_NOT_PLANNED
  | GALLRING_OUTCOME_DUPLICATE | GALLRING_TARGET_NOT_EXECUTED | GALLRING_NOT_VERIFIED | GALLRING_TENANT_MISMATCH

datatype gallring_error = Execution gallring_code | Policy retention_error

definition mandatory_case_targets :: "gallring_target list" where
  "mandatory_case_targets =
     [Signature_case, Documents, Document_versions, Object_storage, Evidence_packages, Derived_renders,
      Search_index, Cache, Notifications]"

record gallring_job =
  gj_tenantId :: string
  gj_jobId :: string
  gj_state :: gallring_state
  gj_policyKey :: string
  gj_policyVersion :: jsnum
  gj_caseIds :: "string list"
  gj_queuedDecision :: retention_decision
  gj_queuedAt :: string
  gj_plannedTargets :: "gallring_target list"
  gj_requestedBy :: string
  gj_approvedBy :: "string option"
  gj_approvedAt :: "string option"

record gallring_approver =
  ga_actorId :: string
  ga_tenantId :: string
  ga_hasRetentionExecutePermission :: bool
  ga_isPlatformStaff :: bool

record gallring_completion =
  gc_job :: gallring_job
  gc_report :: gallring_report

definition assertState :: "gallring_job \<Rightarrow> gallring_state \<Rightarrow> (gallring_error, unit) result" where
  "assertState job expected = (if gj_state job \<noteq> expected then Inl (Execution GALLRING_STATE_INVALID) else Inr ())"

definition selectDueCases ::
  "retention_policy \<Rightarrow> retention_subject list \<Rightarrow> int \<Rightarrow> (retention_error, (retention_subject \<times> retention_decision) list) result" where
  "selectDueCases p subjects now =
     bindR (traverse (\<lambda>s. bindR (decideRetention p s now) (\<lambda>d. Inr (s, d))) subjects) (\<lambda>entries.
       Inr (filter (\<lambda>e. rd_action (snd e) \<noteq> RETAIN) entries))"

definition planGallring :: "gallring_job \<Rightarrow> gallring_target list \<Rightarrow> (gallring_error, gallring_job) result" where
  "planGallring job additional =
     bindR (assertState job QUEUED) (\<lambda>_.
       if list_ex (\<lambda>t. \<not> known_target t) additional then Inl (Policy GALLRING_TARGET_UNKNOWN)
       else Inr (job\<lparr> gj_state := PLANNED,
              gj_plannedTargets := sort_key target_name (set_order (mandatory_case_targets @ additional)) \<rparr>))"

definition approveGallring :: "gallring_job \<Rightarrow> gallring_approver \<Rightarrow> string \<Rightarrow> (gallring_error, gallring_job) result" where
  "approveGallring job a approvedAt =
     bindR (assertState job PLANNED) (\<lambda>_.
       if ga_tenantId a \<noteq> gj_tenantId job then Inl (Execution GALLRING_TENANT_MISMATCH)
       else if ga_isPlatformStaff a then Inl (Execution GALLRING_APPROVER_NOT_PERMITTED)
       else if \<not> ga_hasRetentionExecutePermission a then Inl (Execution GALLRING_APPROVER_NOT_PERMITTED)
       else if ga_actorId a = gj_requestedBy job then Inl (Execution GALLRING_SELF_APPROVAL)
       else Inr (job\<lparr> gj_state := APPROVED, gj_approvedBy := Some (ga_actorId a), gj_approvedAt := Some approvedAt \<rparr>))"

definition recheck_subject ::
  "gallring_job \<Rightarrow> retention_policy \<Rightarrow> int \<Rightarrow> retention_subject \<Rightarrow> (gallring_error, unit) result" where
  "recheck_subject job p now s =
     (if rs_tenantId s \<noteq> gj_tenantId job then Inl (Execution GALLRING_TENANT_MISMATCH)
      else if rs_caseId s \<notin> set (gj_caseIds job) then Inl (Execution GALLRING_DECISION_STALE)
      else bindR (mapErr Policy (decideRetention p s now)) (\<lambda>current.
        if rd_action current = RETAIN then Inl (Execution GALLRING_DECISION_STALE)
        else if rd_action current \<noteq> rd_action (gj_queuedDecision job) then Inl (Execution GALLRING_DECISION_STALE)
        else Inr ()))"

definition beginGallringExecution ::
  "gallring_job \<Rightarrow> retention_policy \<Rightarrow> retention_subject list \<Rightarrow> int \<Rightarrow> (gallring_error, gallring_job) result" where
  "beginGallringExecution job p subjects now =
     bindR (assertState job APPROVED) (\<lambda>_.
       if length subjects \<noteq> length (gj_caseIds job) then Inl (Execution GALLRING_DECISION_STALE)
       else bindR (traverse (recheck_subject job p now) subjects) (\<lambda>_. Inr (job\<lparr> gj_state := EXECUTING \<rparr>)))"

definition verifyGallringExecution :: "gallring_job \<Rightarrow> target_outcome list \<Rightarrow> (gallring_error, gallring_job) result" where
  "verifyGallringExecution job outcomes =
     bindR (assertState job EXECUTING) (\<lambda>_.
       let addressed = map to_target outcomes in
       if has_duplicates addressed then Inl (Execution GALLRING_OUTCOME_DUPLICATE)
       else if filter (\<lambda>t. t \<notin> set addressed) (gj_plannedTargets job) \<noteq> [] then Inl (Execution GALLRING_TARGET_NOT_EXECUTED)
       else if filter (\<lambda>t. t \<notin> set (gj_plannedTargets job)) addressed \<noteq> [] then Inl (Execution GALLRING_TARGET_NOT_PLANNED)
       else if unverified_targets outcomes \<noteq> [] then Inl (Execution GALLRING_NOT_VERIFIED)
       else Inr (job\<lparr> gj_state := VERIFIED \<rparr>))"

definition completeGallring ::
  "gallring_job \<Rightarrow> target_outcome list \<Rightarrow> retention_class \<Rightarrow> string \<Rightarrow> (gallring_error, gallring_completion) result" where
  "completeGallring job outcomes cls executedAt =
     bindR (assertState job VERIFIED) (\<lambda>_.
       case gj_approvedBy job of
         None \<Rightarrow> Inl (Execution GALLRING_APPROVAL_REQUIRED)
       | Some approver \<Rightarrow>
           bindR (mapErr Policy (buildGallringReport
             \<lparr> ri_tenantId = gj_tenantId job, ri_jobId = gj_jobId job, ri_policyKey = gj_policyKey job,
                ri_policyVersion = gj_policyVersion job, ri_retentionClass = cls, ri_executedBy = approver,
                ri_executedAt = executedAt, ri_caseIds = gj_caseIds job, ri_outcomes = outcomes \<rparr>)) (\<lambda>report.
             if \<not> gr_complete report then Inl (Execution GALLRING_NOT_VERIFIED)
             else Inr \<lparr> gc_job = job\<lparr> gj_state := REPORTED \<rparr>, gc_report = report \<rparr>))"

definition abandonGallring :: "gallring_job \<Rightarrow> (gallring_error, gallring_job) result" where
  "abandonGallring job =
     (if gj_state job = REPORTED then Inl (Execution GALLRING_STATE_INVALID) else Inr (job\<lparr> gj_state := ABANDONED \<rparr>))"

section \<open>The lifecycle as a step relation\<close>

inductive gallring_step :: "gallring_job \<Rightarrow> gallring_job \<Rightarrow> bool" where
  plan: "planGallring j ts = Inr j' \<Longrightarrow> gallring_step j j'"
| approve: "approveGallring j a t = Inr j' \<Longrightarrow> gallring_step j j'"
| begin_execution: "beginGallringExecution j p ss now = Inr j' \<Longrightarrow> gallring_step j j'"
| verify: "verifyGallringExecution j xs = Inr j' \<Longrightarrow> gallring_step j j'"
| complete: "completeGallring j xs c t = Inr r \<Longrightarrow> gallring_step j (gc_job r)"
| abandon: "abandonGallring j = Inr j' \<Longrightarrow> gallring_step j j'"

inductive gallring_reachable :: "gallring_job \<Rightarrow> gallring_job \<Rightarrow> bool" for j0 where
  start: "gallring_reachable j0 j0"
| step: "gallring_reachable j0 j \<Longrightarrow> gallring_step j j' \<Longrightarrow> gallring_reachable j0 j'"

text \<open>A job as it is queued: no approval yet.\<close>

definition fresh_job :: "gallring_job \<Rightarrow> bool" where
  "fresh_job j \<longleftrightarrow> gj_state j = QUEUED \<and> gj_approvedBy j = None"

definition planned_ok :: "gallring_job \<Rightarrow> bool" where
  "planned_ok j \<longleftrightarrow> set mandatory_case_targets \<subseteq> set (gj_plannedTargets j) \<and> distinct (gj_plannedTargets j)"

definition approved_ok :: "gallring_job \<Rightarrow> bool" where
  "approved_ok j \<longleftrightarrow> (\<exists>a. gj_approvedBy j = Some a \<and> a \<noteq> gj_requestedBy j)"

definition gallring_inv :: "gallring_job \<Rightarrow> gallring_job \<Rightarrow> bool" where
  "gallring_inv j0 j \<longleftrightarrow>
     gj_tenantId j = gj_tenantId j0 \<and> gj_caseIds j = gj_caseIds j0 \<and> gj_requestedBy j = gj_requestedBy j0
     \<and> gj_jobId j = gj_jobId j0 \<and> gj_queuedDecision j = gj_queuedDecision j0
     \<and> (gj_state j \<in> {PLANNED, APPROVED, EXECUTING, VERIFIED, REPORTED} \<longrightarrow> planned_ok j)
     \<and> (gj_state j \<in> {APPROVED, EXECUTING, VERIFIED, REPORTED} \<longrightarrow> approved_ok j)"

lemma gallring_assertState_Inr: "assertState j st = Inr u \<longleftrightarrow> gj_state j = st"
  by (simp add: assertState_def)

lemma plan_Inr:
  assumes "planGallring j ts = Inr j'"
  shows "gj_state j = QUEUED \<and> (\<exists>pl. j' = j\<lparr> gj_state := PLANNED, gj_plannedTargets := pl \<rparr>
    \<and> set mandatory_case_targets \<subseteq> set pl \<and> distinct pl)"
proof -
  let ?pl = "sort_key target_name (set_order (mandatory_case_targets @ ts))"
  have "gj_state j = QUEUED" "j' = j\<lparr> gj_state := PLANNED, gj_plannedTargets := ?pl \<rparr>"
    using assms unfolding planGallring_def bindR_Inr_iff gallring_assertState_Inr by (auto split: if_splits)
  moreover have "set mandatory_case_targets \<subseteq> set ?pl" "distinct ?pl"
    by (simp_all only: set_sort distinct_sort set_set_order distinct_set_order set_append Un_upper1)
  ultimately show ?thesis by blast
qed

lemma approve_Inr:
  assumes "approveGallring j a t = Inr j'"
  shows "gj_state j = PLANNED \<and> ga_tenantId a = gj_tenantId j \<and> \<not> ga_isPlatformStaff a
    \<and> ga_hasRetentionExecutePermission a \<and> ga_actorId a \<noteq> gj_requestedBy j
    \<and> j' = j\<lparr> gj_state := APPROVED, gj_approvedBy := Some (ga_actorId a), gj_approvedAt := Some t \<rparr>"
  using assms unfolding approveGallring_def bindR_Inr_iff gallring_assertState_Inr by (auto split: if_splits)

lemma recheck_Inr:
  "recheck_subject j p now s = Inr u \<longleftrightarrow> rs_tenantId s = gj_tenantId j \<and> rs_caseId s \<in> set (gj_caseIds j)
     \<and> (\<exists>d. decideRetention p s now = Inr d \<and> rd_action d \<noteq> RETAIN \<and> rd_action d = rd_action (gj_queuedDecision j))"
  by (cases "decideRetention p s now") (auto simp: recheck_subject_def)

lemma gallring_begin_Inr:
  "beginGallringExecution j p ss now = Inr j' \<longleftrightarrow>
     gj_state j = APPROVED \<and> length ss = length (gj_caseIds j) \<and> (\<forall>s\<in>set ss. recheck_subject j p now s = Inr ())
     \<and> j' = j\<lparr> gj_state := EXECUTING \<rparr>"
proof -
  have "(\<exists>us. traverse (recheck_subject j p now) ss = Inr us) \<longleftrightarrow> (\<forall>s\<in>set ss. recheck_subject j p now s = Inr ())"
    by (induction ss) (auto simp: bindR_Inr_iff)
  then show ?thesis unfolding beginGallringExecution_def bindR_Inr_iff gallring_assertState_Inr by (auto simp: bindR_Inr_iff)
qed

lemma gallring_verify_Inr:
  "verifyGallringExecution j xs = Inr j' \<longleftrightarrow>
     gj_state j = EXECUTING \<and> distinct (map to_target xs) \<and> set (map to_target xs) = set (gj_plannedTargets j)
     \<and> (\<forall>x\<in>set xs. to_verified x) \<and> j' = j\<lparr> gj_state := VERIFIED \<rparr>"
  unfolding verifyGallringExecution_def bindR_Inr_iff gallring_assertState_Inr Let_def has_duplicates_iff
  by (auto simp: filter_empty_conv unverified_targets_def)

lemma gallring_complete_Inr:
  assumes "completeGallring j xs c t = Inr r"
  shows "gj_state j = VERIFIED \<and> (\<exists>a. gj_approvedBy j = Some a \<and> ri_executedBy (gr_input (gc_report r)) = a)
    \<and> gc_job r = j\<lparr> gj_state := REPORTED \<rparr> \<and> gr_complete (gc_report r)
    \<and> ri_caseIds (gr_input (gc_report r)) = gj_caseIds j"
  using assms unfolding completeGallring_def bindR_Inr_iff gallring_assertState_Inr
  by (auto simp: bindR_Inr_iff buildGallringReport_def Let_def split: option.splits if_splits)

lemma abandon_Inr: "abandonGallring j = Inr j' \<longleftrightarrow> gj_state j \<noteq> REPORTED \<and> j' = j\<lparr> gj_state := ABANDONED \<rparr>"
  by (auto simp: abandonGallring_def)

lemma gallring_step_inv:
  assumes "gallring_step j j'" "gallring_inv j0 j"
  shows "gallring_inv j0 j'"
  using assms(1)
proof cases
  case (plan ts)
  from plan_Inr [OF plan] obtain pl where pl: "gj_state j = QUEUED" "set mandatory_case_targets \<subseteq> set pl" "distinct pl"
    "j' = j\<lparr> gj_state := PLANNED, gj_plannedTargets := pl \<rparr>" by blast
  show ?thesis using assms(2) pl(2,3) unfolding pl(4) by (simp add: gallring_inv_def planned_ok_def)
next
  case (approve a t)
  from approve_Inr [OF approve] assms(2) show ?thesis by (simp add: gallring_inv_def approved_ok_def planned_ok_def)
next
  case (begin_execution p ss now)
  then show ?thesis using assms(2) by (auto simp: gallring_inv_def approved_ok_def planned_ok_def gallring_begin_Inr)
next
  case (verify xs)
  then show ?thesis using assms(2) by (auto simp: gallring_inv_def approved_ok_def planned_ok_def gallring_verify_Inr)
next
  case (complete xs c t r)
  from gallring_complete_Inr [OF complete(2)] assms(2) complete(1) show ?thesis
    by (auto simp: gallring_inv_def approved_ok_def planned_ok_def)
next
  case abandon
  then show ?thesis using assms(2) by (auto simp: gallring_inv_def abandon_Inr)
qed

lemma gallring_reachable_inv: "gallring_reachable j0 j \<Longrightarrow> fresh_job j0 \<Longrightarrow> gallring_inv j0 j"
proof (induction rule: gallring_reachable.induct)
  case start
  then show ?case by (simp add: fresh_job_def gallring_inv_def)
next
  case (step j j')
  then show ?case using gallring_step_inv by blast
qed

section \<open>Re-evaluation before execution\<close>

lemma subjects_cover:
  assumes "length ss = length cs" "distinct (map rs_caseId ss)" "set (map rs_caseId ss) \<subseteq> set cs" "c \<in> set cs"
  shows "\<exists>s\<in>set ss. rs_caseId s = c"
proof -
  have "card (set (map rs_caseId ss)) = length cs"
    using assms(1) distinct_card [OF assms(2)] by simp
  then have "card (set cs) \<le> card (set (map rs_caseId ss))" using card_length [of cs] by simp
  then have "set (map rs_caseId ss) = set cs" using assms(3) by (intro card_seteq) auto
  then have "c \<in> rs_caseId ` set ss" using assms(4) by simp
  then show ?thesis by blast
qed

section \<open>Properties\<close>


definition sample_job :: "string list \<Rightarrow> gallring_job" where
  "sample_job cs = \<lparr> gj_tenantId = ''t'', gj_jobId = ''j1'', gj_state = QUEUED, gj_policyKey = ''p'', gj_policyVersion = NInt 1,
     gj_caseIds = cs, gj_queuedDecision = \<lparr> rd_action = DELETE, rd_reason = DUE_FOR_DELETION, rd_eligibleAt = None \<rparr>,
     gj_queuedAt = ''q'', gj_plannedTargets = [], gj_requestedBy = ''anna'', gj_approvedBy = None, gj_approvedAt = None \<rparr>"

definition sample_approver :: gallring_approver where
  "sample_approver = \<lparr> ga_actorId = ''bo'', ga_tenantId = ''t'', ga_hasRetentionExecutePermission = True, ga_isPlatformStaff = False \<rparr>"

definition sample_approved :: "string list \<Rightarrow> gallring_job" where
  "sample_approved cs = (sample_job cs)\<lparr> gj_state := APPROVED,
     gj_plannedTargets := sort_key target_name (set_order (mandatory_case_targets @ [])),
     gj_approvedBy := Some ''bo'', gj_approvedAt := Some ''t1'' \<rparr>"

lemma sample_approved_steps:
  "planGallring (sample_job cs) [] = Inr ((sample_job cs)\<lparr> gj_state := PLANNED,
     gj_plannedTargets := sort_key target_name (set_order (mandatory_case_targets @ [])) \<rparr>)"
  "approveGallring ((sample_job cs)\<lparr> gj_state := PLANNED,
     gj_plannedTargets := sort_key target_name (set_order (mandatory_case_targets @ [])) \<rparr>) sample_approver ''t1'' = Inr (sample_approved cs)"
  by (simp_all add: planGallring_def approveGallring_def assertState_def sample_job_def sample_approver_def sample_approved_def
      del: set_order.simps append_Nil2)

lemma sample_approved_reachable: "gallring_reachable (sample_job cs) (sample_approved cs)"
  using gallring_reachable.step [OF gallring_reachable.step [OF gallring_reachable.start]]
    gallring_step.plan [OF sample_approved_steps(1)] gallring_step.approve [OF sample_approved_steps(2)] by blast

lemma sample_recheck:
  "c \<in> set cs \<Longrightarrow> recheck_subject (sample_approved cs) sample_policy 1767225600000 (sample_subject c False) = Inr ()"
proof -
  assume "c \<in> set cs"
  then show ?thesis
    unfolding recheck_Inr using sample_due [of c]
    by (simp add: sample_approved_def sample_job_def sample_subject_def)
qed


text \<open>Execution starts only when every case of the job is due at that very moment: if the subjects
  presented are of distinct cases, no case of the job is under legal hold, and each is due for the
  action that was queued.\<close>

theorem execution_rechecks_every_case:
  assumes "beginGallringExecution j p ss now = Inr j'" and "distinct (map rs_caseId ss)" and "c \<in> set (gj_caseIds j)"
  shows "gj_state j = APPROVED \<and> (\<exists>s\<in>set ss. rs_caseId s = c \<and> rs_tenantId s = gj_tenantId j \<and> \<not> rs_legalHoldActive s
    \<and> (\<exists>d. decideRetention p s now = Inr d \<and> rd_action d = rd_action (gj_queuedDecision j) \<and> rd_action d \<noteq> RETAIN))"
proof -
  have b: "gj_state j = APPROVED" "length ss = length (gj_caseIds j)" "\<forall>s\<in>set ss. recheck_subject j p now s = Inr ()"
    using assms(1) by (simp_all add: gallring_begin_Inr)
  then have "set (map rs_caseId ss) \<subseteq> set (gj_caseIds j)" by (auto simp: recheck_Inr)
  from subjects_cover [OF b(2) assms(2) this assms(3)]
  obtain s where s: "s \<in> set ss" "rs_caseId s = c" by blast
  then obtain d where d: "decideRetention p s now = Inr d" "rd_action d \<noteq> RETAIN" "rd_action d = rd_action (gj_queuedDecision j)"
    "rs_tenantId s = gj_tenantId j" using b(3) by (auto simp: recheck_Inr)
  have "\<not> rs_legalHoldActive s" by (rule due_conditions [OF d(1,2)]) assumption
  then show ?thesis using b s d by blast
qed

theorem execution_rechecks_every_case_witness:
  "\<exists>s. rs_caseId s = ''c1'' \<and> \<not> rs_legalHoldActive s
     \<and> beginGallringExecution (sample_approved [''c1'']) sample_policy [s] 1767225600000
         = Inr ((sample_approved [''c1''])\<lparr> gj_state := EXECUTING \<rparr>)"
proof -
  let ?s = "sample_subject ''c1'' False"
  have b: "beginGallringExecution (sample_approved [''c1'']) sample_policy [?s] 1767225600000
      = Inr ((sample_approved [''c1''])\<lparr> gj_state := EXECUTING \<rparr>)"
    unfolding gallring_begin_Inr using sample_recheck [of "''c1''" "[''c1'']"] by (simp add: sample_approved_def sample_job_def)
  have c: "''c1'' \<in> set (gj_caseIds (sample_approved [''c1'']))" by (simp add: sample_approved_def sample_job_def)
  from execution_rechecks_every_case [OF b _ c] b show ?thesis by auto
qed

text \<open>Without that distinctness the check has a gap: a job of two cases starts when the subject of one is
  presented twice, and the other case is deleted without having been looked at, legal hold or not.\<close>

theorem duplicated_subject_skips_recheck:
  "beginGallringExecution (sample_approved [''c1'', ''c2'']) sample_policy
     [sample_subject ''c1'' False, sample_subject ''c1'' False] 1767225600000
   = Inr ((sample_approved [''c1'', ''c2''])\<lparr> gj_state := EXECUTING \<rparr>)
   \<and> recheck_subject (sample_approved [''c1'', ''c2'']) sample_policy 1767225600000 (sample_subject ''c2'' True)
     = Inl (Execution GALLRING_DECISION_STALE)"
proof
  show "beginGallringExecution (sample_approved [''c1'', ''c2'']) sample_policy
     [sample_subject ''c1'' False, sample_subject ''c1'' False] 1767225600000
   = Inr ((sample_approved [''c1'', ''c2''])\<lparr> gj_state := EXECUTING \<rparr>)"
    unfolding gallring_begin_Inr using sample_recheck [of "''c1''" "[''c1'', ''c2'']"] by (simp add: sample_approved_def sample_job_def)
  show "recheck_subject (sample_approved [''c1'', ''c2'']) sample_policy 1767225600000 (sample_subject ''c2'' True)
     = Inl (Execution GALLRING_DECISION_STALE)"
    by (simp add: recheck_subject_def sample_approved_def sample_job_def sample_subject_def decideRetention_def
        sample_policy_def assertPolicyIsLawful_def needs_period_def max_safe_integer_def)
qed

text \<open>A run is verified exactly when it reports, once each and verified, precisely the planned targets:
  an unaddressed, unplanned, repeated or unverified target stops the job.\<close>

theorem verified_iff_plan_executed:
  assumes "gj_state j = EXECUTING"
  shows "(\<exists>j'. verifyGallringExecution j xs = Inr j') \<longleftrightarrow>
    distinct (map to_target xs) \<and> set (map to_target xs) = set (gj_plannedTargets j) \<and> (\<forall>x\<in>set xs. to_verified x)"
  using assms by (simp add: gallring_verify_Inr)

theorem verified_iff_plan_executed_witness:
  "\<not> (\<exists>j'. verifyGallringExecution ((sample_approved [''c1''])\<lparr> gj_state := EXECUTING, gj_plannedTargets := [Cache] \<rparr>) [] = Inr j')"
  using verified_iff_plan_executed [of "(sample_approved [''c1''])\<lparr> gj_state := EXECUTING, gj_plannedTargets := [Cache] \<rparr>" "[]"]
  by simp

end
