(* ===== verification/Pades_Gate.thy ===== *)
theory Pades_Gate
  imports Prelude
begin

text \<open>
  The PAdES admission gate (\<open>packages/pades/src/index.ts\<close>): which baseline level the collected
  evidence supports and whether a signature may be registered under a policy. The levels are a
  linear order, so \<open>max\<close>, \<open>\<le>\<close> and the library's order automation apply to them.
\<close>

datatype pades_level = B | T | LT | LTA

fun pades_index :: "pades_level \<Rightarrow> nat" where
  "pades_index B = 0" | "pades_index T = 1" | "pades_index LT = 2" | "pades_index LTA = 3"

instantiation pades_level :: linorder
begin

definition less_eq_pades_level :: "pades_level \<Rightarrow> pades_level \<Rightarrow> bool" where
  "less_eq_pades_level a b \<longleftrightarrow> pades_index a \<le> pades_index b"

definition less_pades_level :: "pades_level \<Rightarrow> pades_level \<Rightarrow> bool" where
  "less_pades_level a b \<longleftrightarrow> pades_index a < pades_index b"

instance
proof
  fix a b c :: pades_level
  have inj: "pades_index x = pades_index y \<Longrightarrow> x = y" for x y by (cases x; cases y) simp_all
  show "(a < b) = (a \<le> b \<and> \<not> b \<le> a)" by (auto simp: less_eq_pades_level_def less_pades_level_def)
  show "a \<le> a" by (simp add: less_eq_pades_level_def)
  show "a \<le> b \<Longrightarrow> b \<le> c \<Longrightarrow> a \<le> c" by (simp add: less_eq_pades_level_def)
  show "a \<le> b \<Longrightarrow> b \<le> a \<Longrightarrow> a = b" using inj by (simp add: less_eq_pades_level_def)
  show "a \<le> b \<or> b \<le> a" by (auto simp: less_eq_pades_level_def)
qed

end

lemma pades_order [simp]:
  "B \<le> l" "T \<le> l \<longleftrightarrow> l \<noteq> B" "LT \<le> l \<longleftrightarrow> l = LT \<or> l = LTA" "LTA \<le> l \<longleftrightarrow> l = LTA"
  "l \<le> B \<longleftrightarrow> l = B" "l \<le> T \<longleftrightarrow> l = B \<or> l = T" "l \<le> LT \<longleftrightarrow> l \<noteq> LTA" "l \<le> LTA"
  by (cases l; simp add: less_eq_pades_level_def)+

datatype validation_result = TOTAL_PASSED | INDETERMINATE | TOTAL_FAILED

record signature_evidence =
  se_signingCertificateReference :: "string option"
  se_certificateChainReference :: "string option"
  se_signedRevisionSha256 :: "string option"
  se_signatureTimestampReference :: "string option"
  se_archiveTimestampReference :: "string option"
  se_revocationEvidenceReferences :: "string list"
  se_trustListSnapshotReference :: "string option"
  se_validationResult :: "validation_result option"
  se_validatedAt :: "string option"

text \<open>The required level \<open>None\<close> is the policy's \<open>'NONE'\<close>.\<close>

record pades_policy =
  pp_requiredPadesLevel :: "pades_level option"
  pp_requiresTimestamp :: bool
  pp_allowedValidationResults :: "validation_result list"

datatype pades_error =
    PADES_SIGNATURE_MISSING | PADES_CERTIFICATE_MISSING | PADES_CHAIN_MISSING | PADES_NOT_VALIDATED
  | PADES_VALIDATION_FAILED | PADES_VALIDATION_RESULT_NOT_ALLOWED | PADES_TIMESTAMP_MISSING
  | PADES_REVOCATION_EVIDENCE_MISSING | PADES_TRUST_LIST_MISSING | PADES_ARCHIVE_TIMESTAMP_MISSING
  | PADES_LEVEL_NOT_REACHED | PADES_NOT_REQUIRED_BY_POLICY

record pades_admission =
  pa_admittedLevel :: pades_level
  pa_validationResult :: validation_result
  pa_validatedAt :: string

definition attainedPadesLevel :: "signature_evidence \<Rightarrow> pades_level option" where
  "attainedPadesLevel e =
     (if falsy (se_signedRevisionSha256 e) \<or> falsy (se_signingCertificateReference e) \<or> falsy (se_certificateChainReference e)
        then None
      else if falsy (se_signatureTimestampReference e) then Some B
      else if se_revocationEvidenceReferences e = [] \<or> falsy (se_trustListSnapshotReference e) then Some T
      else if falsy (se_archiveTimestampReference e) then Some LT
      else Some LTA)"

definition levelAtLeast :: "pades_level \<Rightarrow> pades_level \<Rightarrow> bool" where
  "levelAtLeast actual required \<longleftrightarrow> pades_index actual \<ge> pades_index required"

definition missingEvidenceCode :: "signature_evidence \<Rightarrow> pades_level \<Rightarrow> pades_error" where
  "missingEvidenceCode e required =
     (if falsy (se_signedRevisionSha256 e) then PADES_SIGNATURE_MISSING
      else if falsy (se_signingCertificateReference e) then PADES_CERTIFICATE_MISSING
      else if falsy (se_certificateChainReference e) then PADES_CHAIN_MISSING
      else if falsy (se_signatureTimestampReference e) then PADES_TIMESTAMP_MISSING
      else if (required = LT \<or> required = LTA) \<and> se_revocationEvidenceReferences e = [] then PADES_REVOCATION_EVIDENCE_MISSING
      else if (required = LT \<or> required = LTA) \<and> falsy (se_trustListSnapshotReference e) then PADES_TRUST_LIST_MISSING
      else if required = LTA \<and> falsy (se_archiveTimestampReference e) then PADES_ARCHIVE_TIMESTAMP_MISSING
      else PADES_LEVEL_NOT_REACHED)"

definition admitPadesSignature :: "pades_policy \<Rightarrow> signature_evidence \<Rightarrow> (pades_error, pades_admission) result" where
  "admitPadesSignature p e =
     (case pp_requiredPadesLevel p of
        None \<Rightarrow> Inl PADES_NOT_REQUIRED_BY_POLICY
      | Some required \<Rightarrow>
          (case (se_validationResult e, se_validatedAt e) of
             (Some vr, Some at) \<Rightarrow>
               if vr = TOTAL_FAILED then Inl PADES_VALIDATION_FAILED
               else if vr \<notin> set (pp_allowedValidationResults p) then Inl PADES_VALIDATION_RESULT_NOT_ALLOWED
               else (case attainedPadesLevel e of
                   None \<Rightarrow> Inl (missingEvidenceCode e required)
                 | Some attained \<Rightarrow>
                     if pp_requiresTimestamp p \<and> falsy (se_signatureTimestampReference e) then Inl PADES_TIMESTAMP_MISSING
                     else if \<not> levelAtLeast attained required then Inl (missingEvidenceCode e required)
                     else Inr \<lparr> pa_admittedLevel = attained, pa_validationResult = vr, pa_validatedAt = at \<rparr>)
           | _ \<Rightarrow> Inl PADES_NOT_VALIDATED))"

section \<open>The levels as a specification\<close>

text \<open>The evidence each baseline level rests on, level by level and cumulative.\<close>

definition supports :: "signature_evidence \<Rightarrow> pades_level \<Rightarrow> bool" where
  "supports e l \<longleftrightarrow>
     \<not> falsy (se_signedRevisionSha256 e) \<and> \<not> falsy (se_signingCertificateReference e) \<and> \<not> falsy (se_certificateChainReference e)
     \<and> (T \<le> l \<longrightarrow> \<not> falsy (se_signatureTimestampReference e))
     \<and> (LT \<le> l \<longrightarrow> se_revocationEvidenceReferences e \<noteq> [] \<and> \<not> falsy (se_trustListSnapshotReference e))
     \<and> (LTA \<le> l \<longrightarrow> \<not> falsy (se_archiveTimestampReference e))"

lemma attained_iff: "attainedPadesLevel e = Some l \<longleftrightarrow> supports e l \<and> (\<forall>m. supports e m \<longrightarrow> m \<le> l)"
proof -
  have all: "(\<forall>m. P m) \<longleftrightarrow> P B \<and> P T \<and> P LT \<and> P LTA" for P :: "pades_level \<Rightarrow> bool"
    by (metis pades_level.exhaust)
  show ?thesis unfolding all by (cases l) (auto simp: attainedPadesLevel_def supports_def)
qed

lemma attained_None_iff: "attainedPadesLevel e = None \<longleftrightarrow> \<not> supports e B"
  by (auto simp: attainedPadesLevel_def supports_def)

lemma supports_down: "supports e l \<Longrightarrow> m \<le> l \<Longrightarrow> supports e m"
  by (cases l; cases m) (auto simp: supports_def)

lemma levelAtLeast_le: "levelAtLeast a r \<longleftrightarrow> r \<le> a"
  by (simp add: levelAtLeast_def less_eq_pades_level_def)

lemma admit_Inr_iff:
  "admitPadesSignature p e = Inr a \<longleftrightarrow>
     (\<exists>required. pp_requiredPadesLevel p = Some required \<and> attainedPadesLevel e = Some (pa_admittedLevel a)
        \<and> required \<le> pa_admittedLevel a)
     \<and> se_validationResult e = Some (pa_validationResult a) \<and> pa_validationResult a \<noteq> TOTAL_FAILED
     \<and> pa_validationResult a \<in> set (pp_allowedValidationResults p) \<and> se_validatedAt e = Some (pa_validatedAt a)
     \<and> (pp_requiresTimestamp p \<longrightarrow> \<not> falsy (se_signatureTimestampReference e))"
  by (cases a) (auto simp: admitPadesSignature_def levelAtLeast_le split: option.splits if_splits)

text \<open>Which rejection codes speak of missing evidence, and of which.\<close>

fun lacks :: "signature_evidence \<Rightarrow> pades_error \<Rightarrow> bool" where
  "lacks e PADES_SIGNATURE_MISSING = falsy (se_signedRevisionSha256 e)"
| "lacks e PADES_CERTIFICATE_MISSING = falsy (se_signingCertificateReference e)"
| "lacks e PADES_CHAIN_MISSING = falsy (se_certificateChainReference e)"
| "lacks e PADES_NOT_VALIDATED = (se_validationResult e = None \<or> se_validatedAt e = None)"
| "lacks e PADES_VALIDATION_FAILED = (se_validationResult e = Some TOTAL_FAILED)"
| "lacks e PADES_VALIDATION_RESULT_NOT_ALLOWED = (se_validationResult e \<noteq> Some TOTAL_FAILED \<and> se_validationResult e \<noteq> None)"
| "lacks e PADES_TIMESTAMP_MISSING = falsy (se_signatureTimestampReference e)"
| "lacks e PADES_REVOCATION_EVIDENCE_MISSING = (se_revocationEvidenceReferences e = [])"
| "lacks e PADES_TRUST_LIST_MISSING = falsy (se_trustListSnapshotReference e)"
| "lacks e PADES_ARCHIVE_TIMESTAMP_MISSING = falsy (se_archiveTimestampReference e)"
| "lacks e PADES_LEVEL_NOT_REACHED = False"
| "lacks e PADES_NOT_REQUIRED_BY_POLICY = True"

lemma missing_code_lacks:
  assumes "case attainedPadesLevel e of None \<Rightarrow> True | Some a \<Rightarrow> \<not> r \<le> a"
  shows "lacks e (missingEvidenceCode e r)"
  using assms by (cases r) (auto simp: attainedPadesLevel_def missingEvidenceCode_def split: if_splits)

section \<open>Properties\<close>

text \<open>A signature is admitted exactly when it was validated with a result the policy allows and its
  evidence reaches the required level; the level recorded is the greatest one the evidence supports,
  never more and never less.\<close>

theorem pades_admission_exact:
  "admitPadesSignature p e = Inr a \<longleftrightarrow>
     (\<exists>required. pp_requiredPadesLevel p = Some required \<and> supports e required)
     \<and> supports e (pa_admittedLevel a) \<and> (\<forall>m. supports e m \<longrightarrow> m \<le> pa_admittedLevel a)
     \<and> se_validationResult e = Some (pa_validationResult a) \<and> pa_validationResult a \<noteq> TOTAL_FAILED
     \<and> pa_validationResult a \<in> set (pp_allowedValidationResults p) \<and> se_validatedAt e = Some (pa_validatedAt a)
     \<and> (pp_requiresTimestamp p \<longrightarrow> \<not> falsy (se_signatureTimestampReference e))"
  unfolding admit_Inr_iff attained_iff using supports_down by blast

theorem pades_admission_exact_witness:
  "admitPadesSignature \<lparr> pp_requiredPadesLevel = Some T, pp_requiresTimestamp = True, pp_allowedValidationResults = [TOTAL_PASSED] \<rparr>
     \<lparr> se_signingCertificateReference = Some ''c'', se_certificateChainReference = Some ''k'', se_signedRevisionSha256 = Some ''h'',
        se_signatureTimestampReference = Some ''t'', se_archiveTimestampReference = Some ''a'', se_revocationEvidenceReferences = [],
        se_trustListSnapshotReference = Some ''l'', se_validationResult = Some TOTAL_PASSED, se_validatedAt = Some ''v'' \<rparr>
   = Inr \<lparr> pa_admittedLevel = T, pa_validationResult = TOTAL_PASSED, pa_validatedAt = ''v'' \<rparr>"
proof -
  have "(\<forall>m. P m) \<longleftrightarrow> P B \<and> P T \<and> P LT \<and> P LTA" for P :: "pades_level \<Rightarrow> bool"
    by (metis pades_level.exhaust)
  then show ?thesis by (subst pades_admission_exact) (simp add: supports_def)
qed

text \<open>A rejection names evidence that really is missing, or a validation that really failed; the
  catch-all code is never given.\<close>

theorem pades_rejection_truthful:
  "case admitPadesSignature p e of Inr _ \<Rightarrow> True | Inl c \<Rightarrow> lacks e c \<and> c \<noteq> PADES_LEVEL_NOT_REACHED"
proof -
  have m: "lacks e (missingEvidenceCode e r) \<and> missingEvidenceCode e r \<noteq> PADES_LEVEL_NOT_REACHED"
    if "case attainedPadesLevel e of None \<Rightarrow> True | Some a \<Rightarrow> \<not> r \<le> a" for r
  proof -
    have "lacks e (missingEvidenceCode e r)" using that by (rule missing_code_lacks)
    then show ?thesis by (cases "missingEvidenceCode e r") simp_all
  qed
  show ?thesis
  proof (cases "pp_requiredPadesLevel p")
    case None
    then show ?thesis by (simp add: admitPadesSignature_def)
  next
    case (Some r)
    then show ?thesis
      using m [of r] by (auto simp: admitPadesSignature_def levelAtLeast_le split: option.splits)
  qed
qed

end
