(* ===== verification/Key_Rotation.thy ===== *)
theory Key_Rotation
  imports Prelude
begin

text \<open>
  Staged rotation of encryption and blind-index keys (\<open>packages/crypto/src/key-rotation.ts\<close>): the
  key ring, promotion with a dual-read window, retirement gated on verified re-encryption, rollback
  and the rotation of blind indexes. Row counts and version numbers are integers.
\<close>

datatype key_error =
    KEY_VERSION_UNKNOWN | KEY_VERSION_RETIRED | KEY_NO_ACTIVE_VERSION | KEY_MULTIPLE_ACTIVE_VERSIONS
  | KEY_WRITE_TO_NON_ACTIVE_VERSION | KEY_ROTATION_INCOMPLETE | KEY_ROTATION_NOT_VERIFIED
  | KEY_COMPROMISED_INDEX_RETAINED | KEY_STATE_INVALID

datatype key_state = Pending | Active | Decrypt_only | Retired

record key_version =
  kv_version :: int
  kv_state :: key_state
  kv_secretReference :: string
  kv_createdAt :: string
  kv_compromised :: bool

datatype key_purpose = Sensitive_data | Blind_index

record key_ring =
  kr_purpose :: key_purpose
  kr_versions :: "key_version list"

datatype rotation_state = PLANNED | DUAL_READ | REENCRYPTING | VERIFIED | COMPLETED | ROLLED_BACK

record rotation_progress =
  pr_purpose :: key_purpose
  pr_state :: rotation_state
  pr_fromVersion :: int
  pr_toVersion :: int
  pr_totalRows :: int
  pr_reencryptedRows :: int
  pr_verifiedRows :: int
  pr_failedRows :: int

definition active_versions :: "key_ring \<Rightarrow> key_version list" where
  "active_versions r = filter (\<lambda>v. kv_state v = Active) (kr_versions r)"

definition assertKeyRingIsSane :: "key_ring \<Rightarrow> (key_error, unit) result" where
  "assertKeyRingIsSane r =
     (if kr_versions r = [] then Inl KEY_NO_ACTIVE_VERSION
      else if length (active_versions r) = 0 then Inl KEY_NO_ACTIVE_VERSION
      else if length (active_versions r) > 1 then Inl KEY_MULTIPLE_ACTIVE_VERSIONS
      else if has_duplicates (map kv_version (kr_versions r)) then Inl KEY_STATE_INVALID
      else Inr ())"

definition activeKeyVersion :: "key_ring \<Rightarrow> (key_error, key_version) result" where
  "activeKeyVersion r = bindR (assertKeyRingIsSane r) (\<lambda>_. Inr (hd (active_versions r)))"

definition rotationRequired :: "key_ring \<Rightarrow> (key_error, bool) result" where
  "rotationRequired r = bindR (activeKeyVersion r) (\<lambda>v. Inr (kv_compromised v))"

definition assertWritableVersion :: "key_ring \<Rightarrow> int \<Rightarrow> (key_error, unit) result" where
  "assertWritableVersion r v =
     bindR (activeKeyVersion r) (\<lambda>a. if v \<noteq> kv_version a then Inl KEY_WRITE_TO_NON_ACTIVE_VERSION else Inr ())"

definition find_version :: "key_ring \<Rightarrow> int \<Rightarrow> key_version option" where
  "find_version r v = find (\<lambda>k. kv_version k = v) (kr_versions r)"

definition assertReadableVersion :: "key_ring \<Rightarrow> int \<Rightarrow> (key_error, unit) result" where
  "assertReadableVersion r v =
     (case find_version r v of
        None \<Rightarrow> Inl KEY_VERSION_UNKNOWN
      | Some k \<Rightarrow> (if kv_state k = Retired then Inl KEY_VERSION_RETIRED
                   else if kv_state k = Pending then Inl KEY_STATE_INVALID
                   else Inr ()))"

definition beginDualRead :: "key_ring \<Rightarrow> int \<Rightarrow> (key_error, key_ring) result" where
  "beginDualRead r toVersion =
     bindR (activeKeyVersion r) (\<lambda>current.
       case find_version r toVersion of
         None \<Rightarrow> Inl KEY_VERSION_UNKNOWN
       | Some next \<Rightarrow>
           if kv_state next \<noteq> Pending then Inl KEY_STATE_INVALID
           else if kv_compromised next then Inl KEY_STATE_INVALID
           else Inr (r\<lparr> kr_versions := map (\<lambda>k.
                  if kv_version k = toVersion then k\<lparr> kv_state := Active \<rparr>
                  else if kv_version k = kv_version current then k\<lparr> kv_state := Decrypt_only \<rparr>
                  else k) (kr_versions r) \<rparr>))"

definition assertRotationComplete :: "rotation_progress \<Rightarrow> (key_error, unit) result" where
  "assertRotationComplete p =
     (if pr_failedRows p > 0 then Inl KEY_ROTATION_INCOMPLETE
      else if pr_reencryptedRows p < pr_totalRows p then Inl KEY_ROTATION_INCOMPLETE
      else if pr_verifiedRows p < pr_totalRows p then Inl KEY_ROTATION_NOT_VERIFIED
      else Inr ())"

definition retireOldVersion :: "key_ring \<Rightarrow> rotation_progress \<Rightarrow> (key_error, key_ring) result" where
  "retireOldVersion r p =
     bindR (assertRotationComplete p) (\<lambda>_.
     bindR (assertReadableVersion r (pr_fromVersion p)) (\<lambda>_.
       Inr (r\<lparr> kr_versions := map (\<lambda>k. if kv_version k = pr_fromVersion p then k\<lparr> kv_state := Retired \<rparr> else k)
              (kr_versions r) \<rparr>)))"

definition rollbackRotation :: "key_ring \<Rightarrow> rotation_progress \<Rightarrow> (key_error, key_ring) result" where
  "rollbackRotation r p =
     (case find_version r (pr_fromVersion p) of
        None \<Rightarrow> Inl KEY_VERSION_UNKNOWN
      | Some old \<Rightarrow>
          if kv_state old = Retired then Inl KEY_STATE_INVALID
          else if kv_compromised old then Inl KEY_STATE_INVALID
          else Inr (r\<lparr> kr_versions := map (\<lambda>k.
                 if kv_version k = pr_fromVersion p then k\<lparr> kv_state := Active \<rparr>
                 else if kv_version k = pr_toVersion p then k\<lparr> kv_state := Pending \<rparr>
                 else k) (kr_versions r) \<rparr>))"

section \<open>Blind indexes\<close>

record blind_index_entry =
  be_keyVersion :: int
  be_indexValue :: string

record blind_index_plan =
  bp_lookupVersions :: "int list"
  bp_mustOverwrite :: "int list"

definition planBlindIndexRotation :: "blind_index_entry list \<Rightarrow> int list \<Rightarrow> int \<Rightarrow> blind_index_plan" where
  "planBlindIndexRotation entries compromised active =
     (let present = sort (set_order (map be_keyVersion entries)) in
      \<lparr> bp_lookupVersions = present,
         bp_mustOverwrite = filter (\<lambda>v. v \<in> set compromised \<and> v \<noteq> active) present \<rparr>)"

definition assertNoCompromisedIndexRemains :: "blind_index_entry list \<Rightarrow> int list \<Rightarrow> (key_error, unit) result" where
  "assertNoCompromisedIndexRemains entries compromised =
     (if filter (\<lambda>e. be_keyVersion e \<in> set compromised) entries \<noteq> [] then Inl KEY_COMPROMISED_INDEX_RETAINED else Inr ())"

section \<open>Sane rings\<close>

definition key_ring_sane :: "key_ring \<Rightarrow> int \<Rightarrow> bool" where
  "key_ring_sane r a \<longleftrightarrow> distinct (map kv_version (kr_versions r))
     \<and> (\<forall>k\<in>set (kr_versions r). kv_state k = Active \<longleftrightarrow> kv_version k = a)
     \<and> a \<in> kv_version ` set (kr_versions r)"

lemma distinct_version: "distinct (map kv_version ks) \<Longrightarrow> k \<in> set ks \<Longrightarrow> l \<in> set ks \<Longrightarrow> kv_version k = kv_version l \<Longrightarrow> k = l"
  by (simp add: distinct_map inj_on_def)

lemma active_single:
  assumes "active_versions r = [k]"
  shows "k \<in> set (kr_versions r)" "kv_state k = Active"
proof -
  have "k \<in> set (active_versions r)" using assms by simp
  then show "k \<in> set (kr_versions r)" "kv_state k = Active" by (simp_all add: active_versions_def)
qed

lemma sane_active:
  assumes "key_ring_sane r a"
  obtains k where "active_versions r = [k]" "k \<in> set (kr_versions r)" "kv_version k = a" "kv_state k = Active"
proof -
  obtain k where k: "k \<in> set (kr_versions r)" "kv_version k = a" using assms by (auto simp: key_ring_sane_def)
  have d: "distinct (kr_versions r)" using assms by (auto simp: key_ring_sane_def distinct_map)
  have st: "set (active_versions r) = {k}"
    using assms k distinct_version [of "kr_versions r"] by (auto simp: active_versions_def key_ring_sane_def)
  have "distinct (active_versions r)" using d by (simp add: active_versions_def)
  with st have "active_versions r = [k]"
    by (cases "active_versions r") (auto simp: subset_singleton_iff)
  moreover have "kv_state k = Active" using assms k by (simp add: key_ring_sane_def)
  ultimately show thesis using that k by blast
qed

lemma sane_iff: "activeKeyVersion r = Inr k \<longleftrightarrow> key_ring_sane r (kv_version k) \<and> active_versions r = [k]"
proof
  assume a: "activeKeyVersion r = Inr k"
  then have len: "length (active_versions r) = 1" and d: "distinct (map kv_version (kr_versions r))" and h: "hd (active_versions r) = k"
    by (auto simp: activeKeyVersion_def assertKeyRingIsSane_def not_less le_Suc_eq split: if_splits)
  then have av: "active_versions r = [k]" by (cases "active_versions r") auto
  have kin: "k \<in> set (kr_versions r)" "kv_state k = Active"
    using active_single [OF av] by simp_all
  have "kv_state l = Active \<longleftrightarrow> kv_version l = kv_version k" if "l \<in> set (kr_versions r)" for l
  proof -
    have "kv_state l = Active \<longleftrightarrow> l \<in> set (active_versions r)" using that by (simp add: active_versions_def)
    then show ?thesis using av distinct_version [OF d that kin(1)] by auto
  qed
  then show "key_ring_sane r (kv_version k) \<and> active_versions r = [k]"
    using av d kin by (auto simp: key_ring_sane_def)
next
  assume a: "key_ring_sane r (kv_version k) \<and> active_versions r = [k]"
  then have "kr_versions r \<noteq> []" by (auto simp: key_ring_sane_def)
  then show "activeKeyVersion r = Inr k"
    using a by (simp add: activeKeyVersion_def assertKeyRingIsSane_def key_ring_sane_def)
qed

lemma find_version_Some: "find_version r v = Some k \<Longrightarrow> k \<in> set (kr_versions r) \<and> kv_version k = v"
  by (auto simp: find_version_def find_Some_iff)

lemma find_key: "distinct (map f xs) \<Longrightarrow> x \<in> set xs \<Longrightarrow> find (\<lambda>y. f y = f x) xs = Some x"
  by (induction xs) (auto simp: image_iff)

lemma find_version_in:
  "distinct (map kv_version (kr_versions r)) \<Longrightarrow> k \<in> set (kr_versions r) \<Longrightarrow> find_version r (kv_version k) = Some k"
  unfolding find_version_def by (rule find_key)

lemma find_version_iff:
  assumes "distinct (map kv_version (kr_versions r))"
  shows "find_version r v = Some k \<longleftrightarrow> k \<in> set (kr_versions r) \<and> kv_version k = v"
  using find_version_Some find_version_in [OF assms] by blast

section \<open>Rotation\<close>

text \<open>The promotion as a function on versions: \<open>to\<close> becomes active and \<open>a\<close> decrypt-only.\<close>

definition promote :: "int \<Rightarrow> int \<Rightarrow> key_version \<Rightarrow> key_version" where
  "promote to a k = (if kv_version k = to then k\<lparr> kv_state := Active \<rparr>
     else if kv_version k = a then k\<lparr> kv_state := Decrypt_only \<rparr> else k)"

lemma promote_version [simp]: "kv_version (promote to a k) = kv_version k" "kv_compromised (promote to a k) = kv_compromised k"
  "kv_secretReference (promote to a k) = kv_secretReference k"
  by (simp_all add: promote_def)

lemma map_promote_version [simp]: "map kv_version (map (promote to a) ks) = map kv_version ks"
  by simp

lemma begin_Inr:
  "beginDualRead r v = Inr r' \<longleftrightarrow>
     (\<exists>c n. activeKeyVersion r = Inr c \<and> find_version r v = Some n \<and> kv_state n = Pending \<and> \<not> kv_compromised n
        \<and> r' = r\<lparr> kr_versions := map (promote v (kv_version c)) (kr_versions r) \<rparr>)"
  by (auto simp: beginDualRead_def bindR_Inr_iff promote_def [abs_def] split: option.splits)

lemma begin_sane:
  assumes "beginDualRead r v = Inr r'"
  shows "key_ring_sane r' v"
proof -
  obtain c n where c: "activeKeyVersion r = Inr c" "find_version r v = Some n" "kv_state n = Pending"
    "r' = r\<lparr> kr_versions := map (promote v (kv_version c)) (kr_versions r) \<rparr>"
    using assms by (auto simp: begin_Inr)
  have s: "key_ring_sane r (kv_version c)" using c(1) by (simp add: sane_iff)
  have n: "n \<in> set (kr_versions r)" "kv_version n = v" using find_version_Some [OF c(2)] by simp_all
  have v: "kr_versions r' = map (promote v (kv_version c)) (kr_versions r)" using c(4) by simp
  have "kv_state (promote v (kv_version c) k) = Active \<longleftrightarrow> kv_version (promote v (kv_version c) k) = v"
    if "k \<in> set (kr_versions r)" for k
  proof -
    have "kv_state k = Active \<longleftrightarrow> kv_version k = kv_version c" using s that unfolding key_ring_sane_def by blast
    then show ?thesis by (simp add: promote_def)
  qed
  then have "\<forall>k\<in>set (kr_versions r'). kv_state k = Active \<longleftrightarrow> kv_version k = v" unfolding v by simp
  moreover have "promote v (kv_version c) n \<in> set (kr_versions r')" using n(1) unfolding v by simp
  then have "v \<in> kv_version ` set (kr_versions r')"
    using n(2) by (intro image_eqI [of _ _ "promote v (kv_version c) n"]) simp_all
  moreover have "distinct (map kv_version (kr_versions r'))"
    using s unfolding v map_promote_version key_ring_sane_def by blast
  ultimately show ?thesis unfolding key_ring_sane_def by blast
qed

lemma readable_iff:
  assumes "distinct (map kv_version (kr_versions r))"
  shows "assertReadableVersion r v = Inr u \<longleftrightarrow>
    (\<exists>k\<in>set (kr_versions r). kv_version k = v \<and> (kv_state k = Active \<or> kv_state k = Decrypt_only))"
proof (cases "find_version r v")
  case None
  then have "\<forall>k\<in>set (kr_versions r). kv_version k \<noteq> v" by (auto simp: find_version_def find_None_iff)
  then show ?thesis using None by (auto simp: assertReadableVersion_def)
next
  case (Some k)
  have k: "k \<in> set (kr_versions r)" "kv_version k = v" using find_version_Some [OF Some] by simp_all
  then have "(\<exists>k'\<in>set (kr_versions r). kv_version k' = v \<and> (kv_state k' = Active \<or> kv_state k' = Decrypt_only))
      \<longleftrightarrow> kv_state k = Active \<or> kv_state k = Decrypt_only"
    using distinct_version [OF assms] by metis
  then show ?thesis using Some by (cases "kv_state k") (simp_all add: assertReadableVersion_def)
qed

lemma begin_keeps_readable:
  assumes "beginDualRead r v = Inr r'" "assertReadableVersion r w = Inr ()"
  shows "assertReadableVersion r' w = Inr ()"
proof -
  obtain c n where c: "activeKeyVersion r = Inr c"
    "r' = r\<lparr> kr_versions := map (promote v (kv_version c)) (kr_versions r) \<rparr>"
    using assms(1) by (auto simp: begin_Inr)
  have d: "distinct (map kv_version (kr_versions r))" "distinct (map kv_version (kr_versions r'))"
    using c by (simp_all add: sane_iff key_ring_sane_def comp_def)
  obtain k where k: "k \<in> set (kr_versions r)" "kv_version k = w" "kv_state k = Active \<or> kv_state k = Decrypt_only"
    using assms(2) unfolding readable_iff [OF d(1)] by blast
  have "promote v (kv_version c) k \<in> set (kr_versions r')" using k(1) c(2) by simp
  moreover have "kv_state (promote v (kv_version c) k) = Active \<or> kv_state (promote v (kv_version c) k) = Decrypt_only"
    using k(3) by (simp add: promote_def)
  ultimately show ?thesis unfolding readable_iff [OF d(2)] using k(2) promote_version(1) by blast
qed

lemma complete_Inr:
  "assertRotationComplete p = Inr u \<longleftrightarrow>
     pr_failedRows p \<le> 0 \<and> pr_totalRows p \<le> pr_reencryptedRows p \<and> pr_totalRows p \<le> pr_verifiedRows p"
  by (auto simp: assertRotationComplete_def not_less)

lemma retire_Inr:
  "retireOldVersion r p = Inr r' \<longleftrightarrow> assertRotationComplete p = Inr () \<and> assertReadableVersion r (pr_fromVersion p) = Inr ()
     \<and> r' = r\<lparr> kr_versions := map (\<lambda>k. if kv_version k = pr_fromVersion p then k\<lparr> kv_state := Retired \<rparr> else k) (kr_versions r) \<rparr>"
  by (auto simp: retireOldVersion_def bindR_Inr_iff)

lemma retire_versions [simp]:
  "map kv_version (map (\<lambda>k. if kv_version k = f then k\<lparr> kv_state := s \<rparr> else k) ks) = map kv_version ks"
  by (induction ks) auto

lemma retire_sane:
  assumes "retireOldVersion r p = Inr r'" "key_ring_sane r a" "pr_fromVersion p \<noteq> a"
  shows "key_ring_sane r' a"
proof -
  let ?f = "\<lambda>k. if kv_version k = pr_fromVersion p then k\<lparr> kv_state := Retired \<rparr> else k"
  have r': "kr_versions r' = map ?f (kr_versions r)" using assms(1) by (simp add: retire_Inr)
  have "distinct (map kv_version (kr_versions r'))" using assms(2) unfolding r' retire_versions by (simp add: key_ring_sane_def)
  moreover have "kv_version ` set (kr_versions r') = kv_version ` set (kr_versions r)"
    unfolding r' set_map [symmetric] retire_versions ..
  moreover have "\<forall>k\<in>set (kr_versions r'). kv_state k = Active \<longleftrightarrow> kv_version k = a"
    using assms(2,3) unfolding r' by (auto simp: key_ring_sane_def)
  ultimately show ?thesis using assms(2) by (simp add: key_ring_sane_def)
qed

lemma rollback_after_begin:
  assumes "beginDualRead r v = Inr r'" "activeKeyVersion r = Inr c" "\<not> kv_compromised c"
    "pr_fromVersion p = kv_version c" "pr_toVersion p = v"
  shows "rollbackRotation r' p = Inr r"
proof -
  obtain n where n: "find_version r v = Some n" "kv_state n = Pending"
    and r': "r' = r\<lparr> kr_versions := map (promote v (kv_version c)) (kr_versions r) \<rparr>"
    using assms(1,2) by (auto simp: begin_Inr)
  have s: "key_ring_sane r (kv_version c)" "active_versions r = [c]" using assms(2) by (simp_all add: sane_iff)
  have d: "distinct (map kv_version (kr_versions r))" using s by (simp add: key_ring_sane_def)
  have c: "c \<in> set (kr_versions r)" "kv_state c = Active"
    using active_single [OF s(2)] by simp_all
  have nv: "n \<in> set (kr_versions r)" "kv_version n = v" using find_version_Some [OF n(1)] by simp_all
  have ne: "kv_version c \<noteq> v" using distinct_version [OF d c(1) nv(1)] nv(2) n(2) c(2) by auto
  have "promote v (kv_version c) c \<in> set (kr_versions r')" using c(1) r' by simp
  then have "find_version r' (kv_version c) = Some (promote v (kv_version c) c)"
    using find_version_in [of r' "promote v (kv_version c) c"] d r' by (simp add: comp_def)
  then have "rollbackRotation r' p = Inr (r'\<lparr> kr_versions := map (\<lambda>k.
       if kv_version k = kv_version c then k\<lparr> kv_state := Active \<rparr>
       else if kv_version k = v then k\<lparr> kv_state := Pending \<rparr> else k) (kr_versions r') \<rparr>)"
    using assms(3-5) ne by (simp add: rollbackRotation_def promote_def)
  moreover have "map (\<lambda>k. if kv_version k = kv_version c then k\<lparr> kv_state := Active \<rparr>
       else if kv_version k = v then k\<lparr> kv_state := Pending \<rparr> else k) (kr_versions r') = kr_versions r"
    (is "map ?g _ = _")
  proof -
    have "?g (promote v (kv_version c) k) = k" if "k \<in> set (kr_versions r)" for k
      using distinct_version [OF d that c(1)] distinct_version [OF d that nv(1)] nv(2) n(2) c(2) ne
      by (cases k) (auto simp: promote_def)
    then have "map (\<lambda>k. ?g (promote v (kv_version c) k)) (kr_versions r) = kr_versions r" by (rule map_idI)
    moreover have "kr_versions r' = map (promote v (kv_version c)) (kr_versions r)" using r' by simp
    ultimately show ?thesis by (simp only: map_map comp_def)
  qed
  ultimately show ?thesis using r' by simp
qed

section \<open>Properties\<close>

text \<open>Starting the dual-read window keeps exactly one active version, the new one, which is not
  compromised; every version that could decrypt before still can, so no row becomes unreadable.\<close>

theorem begin_dual_read_safe:
  assumes "beginDualRead r v = Inr r'"
  shows "(\<exists>k. activeKeyVersion r' = Inr k \<and> kv_version k = v \<and> \<not> kv_compromised k)
    \<and> assertWritableVersion r' v = Inr ()
    \<and> (\<forall>w. assertReadableVersion r w = Inr () \<longrightarrow> assertReadableVersion r' w = Inr ())"
proof -
  have s: "key_ring_sane r' v" using begin_sane [OF assms] .
  obtain k where k: "active_versions r' = [k]" "k \<in> set (kr_versions r')" "kv_version k = v" by (rule sane_active [OF s])
  have a: "activeKeyVersion r' = Inr k" using s k by (simp add: sane_iff)
  obtain c n where c: "activeKeyVersion r = Inr c" "find_version r v = Some n" "\<not> kv_compromised n"
    "r' = r\<lparr> kr_versions := map (promote v (kv_version c)) (kr_versions r) \<rparr>"
    using assms by (auto simp: begin_Inr)
  obtain k0 where k0: "k0 \<in> set (kr_versions r)" "k = promote v (kv_version c) k0" using k(2) c(4) by auto
  have d: "distinct (map kv_version (kr_versions r))" using c(1) by (simp add: sane_iff key_ring_sane_def)
  have n: "n \<in> set (kr_versions r)" "kv_version n = v" using find_version_Some [OF c(2)] by simp_all
  have "kv_version k0 = kv_version n" using k0(2) k(3) n(2) by simp
  then have "k0 = n" using distinct_version [OF d k0(1) n(1)] by simp
  then have "\<not> kv_compromised k" using k0(2) c(3) by simp
  moreover have "assertWritableVersion r' v = Inr ()" using a k(3) by (simp add: assertWritableVersion_def)
  ultimately show ?thesis using a k(3) begin_keeps_readable [OF assms] by blast
qed

definition sample_ring :: key_ring where
  "sample_ring = \<lparr> kr_purpose = Sensitive_data, kr_versions =
     [\<lparr> kv_version = 1, kv_state = Active, kv_secretReference = ''s1'', kv_createdAt = ''d1'', kv_compromised = False \<rparr>,
      \<lparr> kv_version = 2, kv_state = Pending, kv_secretReference = ''s2'', kv_createdAt = ''d2'', kv_compromised = False \<rparr>] \<rparr>"

definition sample_ring2 :: key_ring where
  "sample_ring2 = \<lparr> kr_purpose = Sensitive_data, kr_versions =
     [\<lparr> kv_version = 1, kv_state = Decrypt_only, kv_secretReference = ''s1'', kv_createdAt = ''d1'', kv_compromised = False \<rparr>,
      \<lparr> kv_version = 2, kv_state = Active, kv_secretReference = ''s2'', kv_createdAt = ''d2'', kv_compromised = False \<rparr>] \<rparr>"

lemma sample_begin: "beginDualRead sample_ring 2 = Inr sample_ring2"
  by (simp add: beginDualRead_def activeKeyVersion_def assertKeyRingIsSane_def active_versions_def find_version_def
      sample_ring_def sample_ring2_def)

theorem begin_dual_read_safe_witness:
  "assertWritableVersion sample_ring2 2 = Inr () \<and> assertReadableVersion sample_ring2 1 = Inr ()"
proof -
  have "assertReadableVersion sample_ring 1 = Inr ()"
    by (simp add: assertReadableVersion_def find_version_def sample_ring_def)
  with begin_dual_read_safe [OF sample_begin] show ?thesis by blast
qed

definition sample_progress :: "int \<Rightarrow> rotation_progress" where
  "sample_progress f = \<lparr> pr_purpose = Sensitive_data, pr_state = VERIFIED, pr_fromVersion = f, pr_toVersion = 2,
     pr_totalRows = 10, pr_reencryptedRows = 10, pr_verifiedRows = 10, pr_failedRows = 0 \<rparr>"

text \<open>A version is retired only when no row failed and every row was re-encrypted and verified; when
  it is not the active one, the ring keeps its one active version and the retired version can no
  longer decrypt.\<close>

theorem retire_old_version_safe:
  assumes "retireOldVersion r p = Inr r'" and "activeKeyVersion r = Inr a" and "pr_fromVersion p \<noteq> kv_version a"
  shows "pr_failedRows p \<le> 0 \<and> pr_totalRows p \<le> pr_reencryptedRows p \<and> pr_totalRows p \<le> pr_verifiedRows p
    \<and> key_ring_sane r' (kv_version a) \<and> assertReadableVersion r' (pr_fromVersion p) = Inl KEY_VERSION_RETIRED"
proof -
  have s: "key_ring_sane r (kv_version a)" using assms(2) by (simp add: sane_iff)
  have s': "key_ring_sane r' (kv_version a)" using retire_sane [OF assms(1) s assms(3)] .
  have d: "distinct (map kv_version (kr_versions r))" using s by (simp add: key_ring_sane_def)
  obtain k where k: "k \<in> set (kr_versions r)" "kv_version k = pr_fromVersion p"
    using assms(1) unfolding retire_Inr readable_iff [OF d] by blast
  have "k\<lparr> kv_state := Retired \<rparr> \<in> set (kr_versions r')" using assms(1) k by (auto simp: retire_Inr)
  then have "find_version r' (pr_fromVersion p) = Some (k\<lparr> kv_state := Retired \<rparr>)"
    using find_version_in [of r' "k\<lparr> kv_state := Retired \<rparr>"] s' k(2) by (simp add: key_ring_sane_def)
  then have "assertReadableVersion r' (pr_fromVersion p) = Inl KEY_VERSION_RETIRED"
    by (simp add: assertReadableVersion_def)
  then show ?thesis using s' assms(1) by (simp add: retire_Inr complete_Inr)
qed

theorem retire_old_version_safe_witness:
  "\<exists>r'. retireOldVersion sample_ring2 (sample_progress 1) = Inr r' \<and> key_ring_sane r' 2"
proof -
  have "is_ok (retireOldVersion sample_ring2 (sample_progress 1))"
    by (simp add: is_ok_def retireOldVersion_def assertRotationComplete_def assertReadableVersion_def find_version_def
        sample_ring2_def sample_progress_def)
  then obtain r' where r: "retireOldVersion sample_ring2 (sample_progress 1) = Inr r'" by (auto simp: is_ok_iff)
  have a: "activeKeyVersion sample_ring2 = Inr \<lparr> kv_version = 2, kv_state = Active, kv_secretReference = ''s2'', kv_createdAt = ''d2'', kv_compromised = False \<rparr>"
    by (simp add: activeKeyVersion_def assertKeyRingIsSane_def active_versions_def sample_ring2_def)
  from retire_old_version_safe [OF r a] r show ?thesis by (simp add: sample_progress_def)
qed

text \<open>Rolling back onto an uncompromised key restores the ring as it was before the promotion.\<close>

theorem rollback_undoes_promotion:
  assumes "beginDualRead r v = Inr r'" and "activeKeyVersion r = Inr c" and "\<not> kv_compromised c"
    and "pr_fromVersion p = kv_version c" and "pr_toVersion p = v"
  shows "rollbackRotation r' p = Inr r"
  using rollback_after_begin assms by blast

theorem rollback_undoes_promotion_witness: "rollbackRotation sample_ring2 (sample_progress 1) = Inr sample_ring"
proof -
  have a: "activeKeyVersion sample_ring = Inr \<lparr> kv_version = 1, kv_state = Active, kv_secretReference = ''s1'', kv_createdAt = ''d1'', kv_compromised = False \<rparr>"
    by (simp add: activeKeyVersion_def assertKeyRingIsSane_def active_versions_def sample_ring_def)
  show ?thesis by (rule rollback_undoes_promotion [OF sample_begin a]) (simp_all add: sample_progress_def)
qed

text \<open>That rollback makes rows written in the dual-read window unreadable: the version they were
  written under, the only writable one, is refused for decryption afterwards.\<close>

theorem rollback_strands_new_rows:
  "beginDualRead sample_ring 2 = Inr sample_ring2 \<and> assertWritableVersion sample_ring2 2 = Inr ()
   \<and> rollbackRotation sample_ring2 (sample_progress 1) = Inr sample_ring
   \<and> assertReadableVersion sample_ring 2 = Inl KEY_STATE_INVALID"
proof (intro conjI)
  show "beginDualRead sample_ring 2 = Inr sample_ring2" by (rule sample_begin)
  show "assertWritableVersion sample_ring2 2 = Inr ()"
    by (simp add: assertWritableVersion_def activeKeyVersion_def assertKeyRingIsSane_def active_versions_def sample_ring2_def)
  show "rollbackRotation sample_ring2 (sample_progress 1) = Inr sample_ring"
    by (simp add: rollbackRotation_def find_version_def sample_ring_def sample_ring2_def sample_progress_def)
  show "assertReadableVersion sample_ring 2 = Inl KEY_STATE_INVALID"
    by (simp add: assertReadableVersion_def find_version_def sample_ring_def)
qed

text \<open>Nothing stops the retirement of the active version: with complete counts it succeeds and leaves
  a ring without an active version.\<close>

theorem retire_active_leaves_none:
  "\<exists>r'. retireOldVersion sample_ring2 (sample_progress 2) = Inr r' \<and> assertKeyRingIsSane r' = Inl KEY_NO_ACTIVE_VERSION"
  by (simp add: retireOldVersion_def assertRotationComplete_def assertReadableVersion_def find_version_def
      sample_ring2_def sample_progress_def assertKeyRingIsSane_def active_versions_def)

text \<open>Once the entries of every version that must be overwritten are gone, and the active version is
  not compromised, no searchable index under a compromised key is left.\<close>

theorem blind_index_plan_sufficient:
  assumes "active \<notin> set compromised"
    and "\<forall>v\<in>set (bp_mustOverwrite (planBlindIndexRotation entries compromised active)). \<forall>e\<in>set after. be_keyVersion e \<noteq> v"
    and "be_keyVersion ` set after \<subseteq> insert active (be_keyVersion ` set entries)"
  shows "assertNoCompromisedIndexRemains after compromised = Inr ()"
  using assms by (fastforce simp: assertNoCompromisedIndexRemains_def planBlindIndexRotation_def Let_def filter_empty_conv)

theorem blind_index_plan_sufficient_witness:
  "assertNoCompromisedIndexRemains [\<lparr> be_keyVersion = 2, be_indexValue = ''x'' \<rparr>] [1] = Inr ()"
  by (rule blind_index_plan_sufficient [of 2 _ "[\<lparr> be_keyVersion = 1, be_indexValue = ''y'' \<rparr>]"])
    (simp_all add: planBlindIndexRotation_def Let_def)

end
