(* ===== verification/Privacy.thy ===== *)
theory Privacy
  imports Js_Date
begin

text \<open>
  Data subject rights: the response to a request (\<open>packages/privacy/src/index.ts\<close>) and its lifecycle
  (\<open>packages/privacy/src/executor.ts\<close>). The lifecycle's operations are functions on the request job;
  \<open>privacy_step\<close> is the step relation they span. The order of the overdue list is the collation of
  the platform, given by its sort key \<open>collate\<close>.
\<close>

section \<open>The response\<close>

datatype data_subject_right = ACCESS | RECTIFICATION | RESTRICTION | ERASURE | PORTABILITY | Other_right string

datatype personal_data_store = CONTROL | DATA | OBJECT_STORAGE | AUDIT_LOG | BACKUP | Other_store string

definition response_deadline_days :: int where "response_deadline_days = 30"

datatype privacy_error =
    PRIVACY_RIGHT_UNKNOWN | PRIVACY_RESPONSE_BLOCKED_BY_LEGAL_HOLD | PRIVACY_STORE_UNKNOWN | PRIVACY_STORE_DUPLICATE
  | PRIVACY_RECORD_COUNT_INVALID | PRIVACY_STORE_NOT_SEARCHED | PRIVACY_COVERAGE_INCOMPLETE | PRIVACY_TIMESTAMP_INVALID
  | Range_error

record store_coverage =
  cv_store :: personal_data_store
  cv_recordCount :: jsnum
  cv_searched :: bool
  cv_exemptionReason :: "string option"

record data_subject_request =
  dq_tenantId :: string
  dq_requestId :: string
  dq_right :: data_subject_right
  dq_receivedAt :: string
  dq_legalHoldActive :: bool

record data_subject_response =
  dr_requestId :: string
  dr_right :: data_subject_right
  dr_dueAt :: string
  dr_coverage :: "store_coverage list"
  dr_totalRecords :: int
  dr_exemptedStores :: "personal_data_store list"
  dr_complete :: bool

definition personal_data_stores :: "personal_data_store list" where
  "personal_data_stores = [CONTROL, DATA, OBJECT_STORAGE, AUDIT_LOG, BACKUP]"

fun known_right :: "data_subject_right \<Rightarrow> bool" where
  "known_right (Other_right _) = False"
| "known_right _ = True"

definition addDays :: "string \<Rightarrow> int \<Rightarrow> (privacy_error, string) result" where
  "addDays i days =
     (case date_parse i of None \<Rightarrow> Inl PRIVACY_TIMESTAMP_INVALID
      | Some base \<Rightarrow> (case to_iso (base + days * ms_per_day) of None \<Rightarrow> Inl Range_error | Some s \<Rightarrow> Inr s))"

fun check_coverage :: "personal_data_store list \<Rightarrow> store_coverage list \<Rightarrow> (privacy_error, unit) result" where
  "check_coverage seen [] = Inr ()"
| "check_coverage seen (c # cs) =
     (if cv_store c \<notin> set personal_data_stores then Inl PRIVACY_STORE_UNKNOWN
      else if cv_store c \<in> set seen then Inl PRIVACY_STORE_DUPLICATE
      else if num_less (cv_recordCount c) 0 \<or> \<not> is_safe_integer (cv_recordCount c) then Inl PRIVACY_RECORD_COUNT_INVALID
      else if \<not> cv_searched c \<and> falsy (map_option js_trim (cv_exemptionReason c)) then Inl PRIVACY_STORE_NOT_SEARCHED
      else check_coverage (cv_store c # seen) cs)"

definition buildDataSubjectResponse ::
  "data_subject_request \<Rightarrow> store_coverage list \<Rightarrow> (privacy_error, data_subject_response) result" where
  "buildDataSubjectResponse q coverage =
     (if \<not> known_right (dq_right q) then Inl PRIVACY_RIGHT_UNKNOWN
      else if dq_right q = ERASURE \<and> dq_legalHoldActive q then Inl PRIVACY_RESPONSE_BLOCKED_BY_LEGAL_HOLD
      else bindR (check_coverage [] coverage) (\<lambda>_.
        if filter (\<lambda>s. s \<notin> set (map cv_store coverage)) personal_data_stores \<noteq> [] then Inl PRIVACY_COVERAGE_INCOMPLETE
        else bindR (addDays (dq_receivedAt q) response_deadline_days) (\<lambda>due.
          Inr \<lparr> dr_requestId = dq_requestId q, dr_right = dq_right q, dr_dueAt = due, dr_coverage = coverage,
             dr_totalRecords = foldl (\<lambda>t c. js_add t (num_int (cv_recordCount c))) 0 coverage,
             dr_exemptedStores = map cv_store (filter (\<lambda>c. \<not> falsy (cv_exemptionReason c)) coverage),
             dr_complete = True \<rparr>)))"

definition erasureExemption :: "personal_data_store \<Rightarrow> string option" where
  "erasureExemption s =
     (if s = AUDIT_LOG then Some ([CHR 0xC5] @ ''tkomstloggar bevaras enligt PUB-avtalet 7.5 och raderas f'' @ [CHR 0xF6] @
        ''rst fem '' @ [CHR 0xE5] @ ''r efter loggningstillf'' @ [CHR 0xE4] @ ''llet'')
      else if s = BACKUP then Some ([CHR 0x53, CHR 0xE4] @ ''kerhetskopior punktraderas inte; uppgifterna f'' @ [CHR 0xF6] @
        ''rsvinner n'' @ [CHR 0xE4] @ ''r backupretentionen l'' @ [CHR 0xF6] @ ''per ut'')
      else None)"

definition isOverdue :: "data_subject_response \<Rightarrow> int \<Rightarrow> bool" where
  "isOverdue r now = (case date_parse (dr_dueAt r) of None \<Rightarrow> False | Some t \<Rightarrow> t < now)"

section \<open>The lifecycle\<close>

datatype privacy_state = RECEIVED | IDENTITY_VERIFIED | IN_PROGRESS | FULFILLED | DELIVERED | REFUSED

datatype privacy_code =
    PRIVACY_STATE_INVALID | PRIVACY_IDENTITY_NOT_VERIFIED | PRIVACY_IDENTITY_ASSURANCE_TOO_LOW | PRIVACY_SUBJECT_MISMATCH
  | PRIVACY_TENANT_MISMATCH | PRIVACY_ERASURE_BLOCKED_BY_LEGAL_HOLD | PRIVACY_RESTRICTION_ACTIVE | PRIVACY_NOT_FULFILLED
  | PRIVACY_REFUSAL_NEEDS_GROUND

datatype privacy_failure = Execution privacy_code | Request privacy_error

datatype assurance_level = LOW | SUBSTANTIAL | HIGH

record identity_verification =
  iv_verified :: bool
  iv_method :: string
  iv_assuranceLevel :: assurance_level
  iv_subjectId :: string
  iv_verifiedAt :: string

record privacy_job =
  pj_request :: data_subject_request
  pj_state :: privacy_state
  pj_subjectId :: string
  pj_identity :: "identity_verification option"
  pj_handledBy :: "string option"
  pj_refusalGround :: "string option"
  pj_response :: "data_subject_response option"

definition high_assurance_rights :: "data_subject_right list" where
  "high_assurance_rights = [ACCESS, ERASURE, PORTABILITY, RECTIFICATION]"

definition assertState :: "privacy_job \<Rightarrow> privacy_state \<Rightarrow> (privacy_failure, unit) result" where
  "assertState j expected = (if pj_state j \<noteq> expected then Inl (Execution PRIVACY_STATE_INVALID) else Inr ())"

definition deadlineFor :: "data_subject_request \<Rightarrow> (privacy_error, string) result" where
  "deadlineFor q = addDays (dq_receivedAt q) response_deadline_days"

definition verifySubjectIdentity :: "privacy_job \<Rightarrow> identity_verification \<Rightarrow> (privacy_failure, privacy_job) result" where
  "verifySubjectIdentity j i =
     bindR (assertState j RECEIVED) (\<lambda>_.
       if \<not> iv_verified i then Inl (Execution PRIVACY_IDENTITY_NOT_VERIFIED)
       else if iv_subjectId i \<noteq> pj_subjectId j then Inl (Execution PRIVACY_SUBJECT_MISMATCH)
       else if dq_right (pj_request j) \<in> set high_assurance_rights \<and> iv_assuranceLevel i \<noteq> HIGH
         then Inl (Execution PRIVACY_IDENTITY_ASSURANCE_TOO_LOW)
       else Inr (j\<lparr> pj_state := IDENTITY_VERIFIED, pj_identity := Some i \<rparr>))"

definition beginHandling :: "privacy_job \<Rightarrow> string \<Rightarrow> string \<Rightarrow> (privacy_failure, privacy_job) result" where
  "beginHandling j handledBy tenantId =
     bindR (assertState j IDENTITY_VERIFIED) (\<lambda>_.
       if tenantId \<noteq> dq_tenantId (pj_request j) then Inl (Execution PRIVACY_TENANT_MISMATCH)
       else Inr (j\<lparr> pj_state := IN_PROGRESS, pj_handledBy := Some handledBy \<rparr>))"

definition fulfilRequest :: "privacy_job \<Rightarrow> store_coverage list \<Rightarrow> bool \<Rightarrow> bool \<Rightarrow> (privacy_failure, privacy_job) result" where
  "fulfilRequest j coverage legalHoldActive restrictionActive =
     bindR (assertState j IN_PROGRESS) (\<lambda>_.
       if pj_identity j = None then Inl (Execution PRIVACY_IDENTITY_NOT_VERIFIED)
       else if dq_right (pj_request j) = ERASURE \<and> restrictionActive then Inl (Execution PRIVACY_RESTRICTION_ACTIVE)
       else bindR (mapErr Request (buildDataSubjectResponse ((pj_request j)\<lparr> dq_legalHoldActive := legalHoldActive \<rparr>) coverage)) (\<lambda>r.
         Inr (j\<lparr> pj_state := FULFILLED, pj_response := Some r \<rparr>)))"

definition deliverResponse :: "privacy_job \<Rightarrow> (privacy_failure, privacy_job) result" where
  "deliverResponse j =
     bindR (assertState j FULFILLED) (\<lambda>_.
       if (case pj_response j of None \<Rightarrow> True | Some r \<Rightarrow> \<not> dr_complete r) then Inl (Execution PRIVACY_NOT_FULFILLED)
       else Inr (j\<lparr> pj_state := DELIVERED \<rparr>))"

definition refuseRequest :: "privacy_job \<Rightarrow> string \<Rightarrow> (privacy_failure, privacy_job) result" where
  "refuseRequest j ground =
     (if pj_state j = DELIVERED then Inl (Execution PRIVACY_STATE_INVALID)
      else if js_trim ground = [] then Inl (Execution PRIVACY_REFUSAL_NEEDS_GROUND)
      else Inr (j\<lparr> pj_state := REFUSED, pj_refusalGround := Some (js_trim ground) \<rparr>))"

record overdue_entry =
  od_requestId :: string
  od_dueAt :: string
  od_state :: privacy_state

definition overdueRequests :: "(string \<Rightarrow> nat list) \<Rightarrow> privacy_job list \<Rightarrow> int \<Rightarrow> (privacy_error, overdue_entry list) result" where
  "overdueRequests collate jobs now =
     bindR (traverse (\<lambda>j. bindR (deadlineFor (pj_request j)) (\<lambda>due.
         Inr \<lparr> od_requestId = dq_requestId (pj_request j), od_dueAt = due, od_state = pj_state j \<rparr>))
       (filter (\<lambda>j. pj_state j \<noteq> DELIVERED \<and> pj_state j \<noteq> REFUSED) jobs)) (\<lambda>entries.
       Inr (sort_key (\<lambda>e. collate (od_dueAt e))
         (filter (\<lambda>e. case date_parse (od_dueAt e) of None \<Rightarrow> False | Some t \<Rightarrow> t \<le> now) entries)))"

inductive privacy_step :: "privacy_job \<Rightarrow> privacy_job \<Rightarrow> bool" where
  verify: "verifySubjectIdentity j i = Inr j' \<Longrightarrow> privacy_step j j'"
| handle: "beginHandling j h t = Inr j' \<Longrightarrow> privacy_step j j'"
| fulfil: "fulfilRequest j cov hold restr = Inr j' \<Longrightarrow> privacy_step j j'"
| deliver: "deliverResponse j = Inr j' \<Longrightarrow> privacy_step j j'"
| refuse: "refuseRequest j g = Inr j' \<Longrightarrow> privacy_step j j'"

inductive privacy_reachable :: "privacy_job \<Rightarrow> privacy_job \<Rightarrow> bool" for j0 where
  start: "privacy_reachable j0 j0"
| step: "privacy_reachable j0 j \<Longrightarrow> privacy_step j j' \<Longrightarrow> privacy_reachable j0 j'"

definition received_job :: "privacy_job \<Rightarrow> bool" where
  "received_job j \<longleftrightarrow> pj_state j = RECEIVED \<and> pj_identity j = None \<and> pj_response j = None"

section \<open>Coverage\<close>

lemma check_coverage_iff:
  "check_coverage seen cs = Inr u \<longleftrightarrow>
     (\<forall>c\<in>set cs. cv_store c \<in> set personal_data_stores
        \<and> (\<exists>n. cv_recordCount c = NInt n \<and> 0 \<le> n \<and> n \<le> max_safe_integer)
        \<and> (cv_searched c \<or> \<not> falsy (map_option js_trim (cv_exemptionReason c))))
     \<and> distinct (map cv_store cs) \<and> set (map cv_store cs) \<inter> set seen = {}"
proof (induction cs arbitrary: seen)
  case (Cons c cs)
  have n: "(\<not> (num_less (cv_recordCount c) 0 \<or> \<not> is_safe_integer (cv_recordCount c)))
      = (\<exists>n. cv_recordCount c = NInt n \<and> 0 \<le> n \<and> n \<le> max_safe_integer)"
    by (cases "cv_recordCount c") (auto simp: max_safe_integer_def)
  show ?case
    unfolding check_coverage.simps
    using Cons.IH [of "cv_store c # seen"] n by (simp split del: if_split split: if_split_asm) auto
qed simp

text \<open>A response that accounts for every store, each searched or exempted on a stated ground.\<close>

definition accounts_for_all :: "store_coverage list \<Rightarrow> bool" where
  "accounts_for_all cs \<longleftrightarrow> distinct (map cv_store cs) \<and> set (map cv_store cs) = set personal_data_stores
     \<and> (\<forall>c\<in>set cs. cv_searched c \<or> \<not> falsy (map_option js_trim (cv_exemptionReason c)))"

lemma build_response:
  assumes "buildDataSubjectResponse q cov = Inr r"
  shows "accounts_for_all cov \<and> dr_coverage r = cov \<and> dr_complete r \<and> dr_right r = dq_right q \<and> dr_requestId r = dq_requestId q
    \<and> \<not> (dq_right q = ERASURE \<and> dq_legalHoldActive q) \<and> addDays (dq_receivedAt q) response_deadline_days = Inr (dr_dueAt r)"
proof -
  obtain due where d: "check_coverage [] cov = Inr ()" "filter (\<lambda>s. s \<notin> set (map cv_store cov)) personal_data_stores = []"
    "\<not> (dq_right q = ERASURE \<and> dq_legalHoldActive q)" "addDays (dq_receivedAt q) response_deadline_days = Inr due"
    and r: "r = \<lparr> dr_requestId = dq_requestId q, dr_right = dq_right q, dr_dueAt = due, dr_coverage = cov,
             dr_totalRecords = foldl (\<lambda>t c. js_add t (num_int (cv_recordCount c))) 0 cov,
             dr_exemptedStores = map cv_store (filter (\<lambda>c. \<not> falsy (cv_exemptionReason c)) cov),
             dr_complete = True \<rparr>"
    using assms unfolding buildDataSubjectResponse_def by (auto simp: bindR_Inr_iff split: if_splits)
  have "set personal_data_stores \<subseteq> set (map cv_store cov)" using d(2) by (auto simp: filter_empty_conv)
  then have "accounts_for_all cov" using d(1) unfolding check_coverage_iff accounts_for_all_def by auto
  then show ?thesis using d r by simp
qed

lemma addDays_parse: "addDays i n = Inr s \<Longrightarrow> \<exists>b. date_parse i = Some b \<and> date_parse s = Some (b + n * ms_per_day)"
  by (auto simp: addDays_def date_parse_iso split: option.splits)

section \<open>The invariant of the lifecycle\<close>

definition identity_ok :: "privacy_job \<Rightarrow> bool" where
  "identity_ok j \<longleftrightarrow> (\<exists>i. pj_identity j = Some i \<and> iv_verified i \<and> iv_subjectId i = pj_subjectId j
     \<and> (dq_right (pj_request j) \<in> set high_assurance_rights \<longrightarrow> iv_assuranceLevel i = HIGH))"

definition response_ok :: "privacy_job \<Rightarrow> bool" where
  "response_ok j \<longleftrightarrow> (\<exists>r. pj_response j = Some r \<and> accounts_for_all (dr_coverage r) \<and> dr_complete r
     \<and> dr_requestId r = dq_requestId (pj_request j) \<and> dr_right r = dq_right (pj_request j))"

definition privacy_inv :: "privacy_job \<Rightarrow> privacy_job \<Rightarrow> bool" where
  "privacy_inv j0 j \<longleftrightarrow> pj_request j = pj_request j0 \<and> pj_subjectId j = pj_subjectId j0
     \<and> (pj_state j \<in> {IDENTITY_VERIFIED, IN_PROGRESS, FULFILLED, DELIVERED} \<longrightarrow> identity_ok j)
     \<and> (pj_state j \<in> {FULFILLED, DELIVERED} \<longrightarrow> response_ok j)
     \<and> (pj_state j = REFUSED \<longrightarrow> \<not> falsy (pj_refusalGround j))"

lemma privacy_assertState_Inr: "assertState j st = Inr u \<longleftrightarrow> pj_state j = st"
  by (simp add: assertState_def)

lemma privacy_verify_Inr:
  "verifySubjectIdentity j i = Inr j' \<longleftrightarrow> pj_state j = RECEIVED \<and> iv_verified i \<and> iv_subjectId i = pj_subjectId j
     \<and> (dq_right (pj_request j) \<in> set high_assurance_rights \<longrightarrow> iv_assuranceLevel i = HIGH)
     \<and> j' = j\<lparr> pj_state := IDENTITY_VERIFIED, pj_identity := Some i \<rparr>"
  unfolding verifySubjectIdentity_def bindR_Inr_iff privacy_assertState_Inr by auto

lemma handle_Inr:
  "beginHandling j h t = Inr j' \<longleftrightarrow> pj_state j = IDENTITY_VERIFIED \<and> t = dq_tenantId (pj_request j)
     \<and> j' = j\<lparr> pj_state := IN_PROGRESS, pj_handledBy := Some h \<rparr>"
  unfolding beginHandling_def bindR_Inr_iff privacy_assertState_Inr by auto

lemma fulfil_Inr:
  "fulfilRequest j cov hold restr = Inr j' \<longleftrightarrow> pj_state j = IN_PROGRESS \<and> pj_identity j \<noteq> None
     \<and> \<not> (dq_right (pj_request j) = ERASURE \<and> restr)
     \<and> (\<exists>r. buildDataSubjectResponse ((pj_request j)\<lparr> dq_legalHoldActive := hold \<rparr>) cov = Inr r
          \<and> j' = j\<lparr> pj_state := FULFILLED, pj_response := Some r \<rparr>)"
  unfolding fulfilRequest_def bindR_Inr_iff privacy_assertState_Inr by (auto simp: bindR_Inr_iff)

lemma deliver_Inr:
  "deliverResponse j = Inr j' \<longleftrightarrow> pj_state j = FULFILLED \<and> (\<exists>r. pj_response j = Some r \<and> dr_complete r)
     \<and> j' = j\<lparr> pj_state := DELIVERED \<rparr>"
  unfolding deliverResponse_def bindR_Inr_iff privacy_assertState_Inr by (auto split: option.splits)

lemma refuse_Inr:
  "refuseRequest j g = Inr j' \<longleftrightarrow> pj_state j \<noteq> DELIVERED \<and> js_trim g \<noteq> []
     \<and> j' = j\<lparr> pj_state := REFUSED, pj_refusalGround := Some (js_trim g) \<rparr>"
  by (auto simp: refuseRequest_def)

lemmas privacy_ops_Inr = privacy_verify_Inr handle_Inr fulfil_Inr deliver_Inr refuse_Inr

lemma fulfil_response_ok:
  assumes "fulfilRequest j cov hold restr = Inr j'"
  shows "response_ok j'"
proof -
  obtain r where r: "buildDataSubjectResponse ((pj_request j)\<lparr> dq_legalHoldActive := hold \<rparr>) cov = Inr r"
    "j' = j\<lparr> pj_state := FULFILLED, pj_response := Some r \<rparr>" using assms by (auto simp: fulfil_Inr)
  then show ?thesis using build_response [OF r(1)] by (simp add: response_ok_def)
qed

lemma privacy_step_inv:
  assumes "privacy_step j j'" "privacy_inv j0 j"
  shows "privacy_inv j0 j'"
  using assms(1)
proof cases
  case (fulfil cov hold restr)
  then show ?thesis using assms(2) fulfil_response_ok [OF fulfil]
    by (auto simp: fulfil_Inr privacy_inv_def identity_ok_def)
qed (use assms(2) in \<open>auto simp: privacy_ops_Inr privacy_inv_def identity_ok_def response_ok_def\<close>)

lemma privacy_reachable_inv: "privacy_reachable j0 j \<Longrightarrow> received_job j0 \<Longrightarrow> privacy_inv j0 j"
proof (induction rule: privacy_reachable.induct)
  case start
  then show ?case by (simp add: received_job_def privacy_inv_def)
next
  case (step j j')
  then show ?case using privacy_step_inv by blast
qed

section \<open>Properties\<close>

text \<open>C34. Whatever happens to a received request, personal data are delivered only to the verified person
  the request is about, with high assurance for every right that discloses or changes data, and with
  a response that accounts for every store of personal data.\<close>

theorem privacy_delivery_safe:
  assumes "privacy_reachable j0 j" and "received_job j0" and "pj_state j = DELIVERED"
  shows "(\<exists>i. pj_identity j = Some i \<and> iv_verified i \<and> iv_subjectId i = pj_subjectId j0
      \<and> (dq_right (pj_request j0) \<in> set high_assurance_rights \<longrightarrow> iv_assuranceLevel i = HIGH))
    \<and> (\<exists>r. pj_response j = Some r \<and> accounts_for_all (dr_coverage r) \<and> dr_requestId r = dq_requestId (pj_request j0))"
  using privacy_reachable_inv [OF assms(1,2)] assms(3)
  by (auto simp: privacy_inv_def identity_ok_def response_ok_def)

definition sample_privacy_job :: privacy_job where
  "sample_privacy_job = \<lparr> pj_request = \<lparr> dq_tenantId = ''t'', dq_requestId = ''q1'', dq_right = ACCESS,
       dq_receivedAt = ''2025-01-01T00:00:00.000Z'', dq_legalHoldActive = False \<rparr>,
     pj_state = RECEIVED, pj_subjectId = ''anna'', pj_identity = None, pj_handledBy = None, pj_refusalGround = None, pj_response = None \<rparr>"

definition sample_identity :: identity_verification where
  "sample_identity = \<lparr> iv_verified = True, iv_method = ''bankid'', iv_assuranceLevel = HIGH, iv_subjectId = ''anna'', iv_verifiedAt = ''v'' \<rparr>"

definition sample_coverage :: "store_coverage list" where
  "sample_coverage = map (\<lambda>s. \<lparr> cv_store = s, cv_recordCount = NInt 0, cv_searched = True, cv_exemptionReason = None \<rparr>) personal_data_stores"

definition sample_response :: data_subject_response where
  "sample_response = \<lparr> dr_requestId = ''q1'', dr_right = ACCESS, dr_dueAt = ''2025-01-31T00:00:00.000Z'', dr_coverage = sample_coverage,
     dr_totalRecords = 0, dr_exemptedStores = [], dr_complete = True \<rparr>"

lemma js_add_zero: "js_add 0 0 = 0"
  by (simp add: js_add_exact)

lemma sample_response_builds:
  "buildDataSubjectResponse ((pj_request sample_privacy_job)\<lparr> dq_legalHoldActive := False \<rparr>) sample_coverage = Inr sample_response"
  by (simp add: buildDataSubjectResponse_def sample_privacy_job_def sample_coverage_def sample_response_def personal_data_stores_def
      max_safe_integer_def addDays_def response_deadline_days_def parse_samples iso_samples ms_per_day_def js_add_zero)

lemma sample_delivered:
  "privacy_reachable sample_privacy_job (sample_privacy_job\<lparr> pj_state := DELIVERED, pj_identity := Some sample_identity,
     pj_handledBy := Some ''bo'', pj_response := Some sample_response \<rparr>)"
proof -
  let ?j1 = "sample_privacy_job\<lparr> pj_state := IDENTITY_VERIFIED, pj_identity := Some sample_identity \<rparr>"
  let ?j2 = "?j1\<lparr> pj_state := IN_PROGRESS, pj_handledBy := Some ''bo'' \<rparr>"
  let ?j3 = "?j2\<lparr> pj_state := FULFILLED, pj_response := Some sample_response \<rparr>"
  have 1: "privacy_step sample_privacy_job ?j1"
    by (rule privacy_step.verify [of _ sample_identity]) (simp add: privacy_verify_Inr, simp add: sample_privacy_job_def sample_identity_def)
  have 2: "privacy_step ?j1 ?j2"
    by (rule privacy_step.handle [of _ "''bo''" "''t''"]) (simp add: handle_Inr sample_privacy_job_def)
  have 3: "privacy_step ?j2 ?j3"
    by (rule privacy_step.fulfil [of _ sample_coverage False False])
      (use sample_response_builds in \<open>simp add: fulfil_Inr\<close>)
  have 4: "privacy_step ?j3 (?j3\<lparr> pj_state := DELIVERED \<rparr>)"
    by (rule privacy_step.deliver) (simp add: deliver_Inr sample_response_def)
  have "privacy_reachable sample_privacy_job (?j3\<lparr> pj_state := DELIVERED \<rparr>)"
    by (rule privacy_reachable.step [OF privacy_reachable.step [OF privacy_reachable.step
          [OF privacy_reachable.step [OF privacy_reachable.start 1] 2] 3] 4])
  moreover have "?j3\<lparr> pj_state := DELIVERED \<rparr> = sample_privacy_job\<lparr> pj_state := DELIVERED, pj_identity := Some sample_identity,
     pj_handledBy := Some ''bo'', pj_response := Some sample_response \<rparr>" by (cases sample_privacy_job) simp
  ultimately show ?thesis by (simp only:)
qed

theorem privacy_delivery_safe_witness:
  "\<exists>j. privacy_reachable sample_privacy_job j \<and> pj_state j = DELIVERED
     \<and> (\<exists>r. pj_response j = Some r \<and> accounts_for_all (dr_coverage r) \<and> dr_requestId r = ''q1'')"
proof -
  let ?j = "sample_privacy_job\<lparr> pj_state := DELIVERED, pj_identity := Some sample_identity,
     pj_handledBy := Some ''bo'', pj_response := Some sample_response \<rparr>"
  have r: "received_job sample_privacy_job" by (simp add: received_job_def sample_privacy_job_def)
  have d: "pj_state ?j = DELIVERED" by simp
  have "dq_requestId (pj_request sample_privacy_job) = ''q1''" by (simp add: sample_privacy_job_def)
  with privacy_delivery_safe [OF sample_delivered r d] sample_delivered d show ?thesis by metis
qed

text \<open>An erasure is carried out only when, at that moment, no legal hold and no restriction of
  processing is in force, and a fulfilled request is due exactly thirty days after it was received.\<close>

theorem privacy_fulfilment_safe:
  assumes "fulfilRequest j cov hold restr = Inr j'"
  shows "(dq_right (pj_request j) = ERASURE \<longrightarrow> \<not> hold \<and> \<not> restr) \<and> accounts_for_all cov
    \<and> (\<exists>r b. pj_response j' = Some r \<and> date_parse (dq_receivedAt (pj_request j)) = Some b
        \<and> date_parse (dr_dueAt r) = Some (b + 30 * ms_per_day))"
proof -
  obtain r where r: "buildDataSubjectResponse ((pj_request j)\<lparr> dq_legalHoldActive := hold \<rparr>) cov = Inr r"
    "j' = j\<lparr> pj_state := FULFILLED, pj_response := Some r \<rparr>" "\<not> (dq_right (pj_request j) = ERASURE \<and> restr)"
    using assms by (auto simp: fulfil_Inr)
  have a: "addDays (dq_receivedAt (pj_request j)) 30 = Inr (dr_dueAt r)"
    using build_response [OF r(1)] by (simp add: response_deadline_days_def)
  show ?thesis using build_response [OF r(1)] r addDays_parse [OF a] by auto
qed

theorem privacy_fulfilment_safe_witness:
  "accounts_for_all sample_coverage
   \<and> fulfilRequest (sample_privacy_job\<lparr> pj_state := IN_PROGRESS, pj_identity := Some sample_identity \<rparr>) sample_coverage False True
     = Inr (sample_privacy_job\<lparr> pj_state := FULFILLED, pj_identity := Some sample_identity, pj_response := Some sample_response \<rparr>)"
proof -
  have f: "fulfilRequest (sample_privacy_job\<lparr> pj_state := IN_PROGRESS, pj_identity := Some sample_identity \<rparr>) sample_coverage False True
     = Inr (sample_privacy_job\<lparr> pj_state := FULFILLED, pj_identity := Some sample_identity, pj_response := Some sample_response \<rparr>)"
    unfolding fulfil_Inr using sample_response_builds by (simp, simp add: sample_privacy_job_def)
  from privacy_fulfilment_safe [OF f] f show ?thesis by blast
qed

end
