(* ===== verification/Protected_Identity.thy ===== *)
theory Protected_Identity
  imports Js_Date
begin

text \<open>
  Protected personal data (\<open>packages/protected-identity/src/index.ts\<close>): the levels of protection as a
  linear order, the disclosure table per output channel, support access and searchability. A value
  outside a TypeScript union that the code tests for has a constructor of its own.
\<close>

section \<open>Levels, channels and fields\<close>

datatype protection_level = NONE | SEKRETESSMARKERING | SKYDDAD_FOLKBOKFORING | FINGERADE_PERSONUPPGIFTER

fun level_index :: "protection_level \<Rightarrow> nat" where
  "level_index NONE = 0"
| "level_index SEKRETESSMARKERING = 1"
| "level_index SKYDDAD_FOLKBOKFORING = 2"
| "level_index FINGERADE_PERSONUPPGIFTER = 3"

instantiation protection_level :: linorder
begin

definition less_eq_protection_level :: "protection_level \<Rightarrow> protection_level \<Rightarrow> bool" where
  "less_eq_protection_level a b \<longleftrightarrow> level_index a \<le> level_index b"

definition less_protection_level :: "protection_level \<Rightarrow> protection_level \<Rightarrow> bool" where
  "less_protection_level a b \<longleftrightarrow> level_index a < level_index b"

instance
proof
  fix a b c :: protection_level
  have inj: "level_index x = level_index y \<Longrightarrow> x = y" for x y by (cases x; cases y) simp_all
  show "(a < b) = (a \<le> b \<and> \<not> b \<le> a)" by (auto simp: less_eq_protection_level_def less_protection_level_def)
  show "a \<le> a" by (simp add: less_eq_protection_level_def)
  show "a \<le> b \<Longrightarrow> b \<le> c \<Longrightarrow> a \<le> c" by (simp add: less_eq_protection_level_def)
  show "a \<le> b \<Longrightarrow> b \<le> a \<Longrightarrow> a = b" using inj by (simp add: less_eq_protection_level_def)
  show "a \<le> b \<or> b \<le> a" by (auto simp: less_eq_protection_level_def)
qed

end

datatype output_channel =
    SCREEN_AUTHORISED | SCREEN_COLLEAGUE | SEARCH_RESULT | NOTIFICATION_EMAIL_BODY | NOTIFICATION_EMAIL_SUBJECT
  | DOCUMENT_VISIBLE_TEXT | EVIDENCE_PACKAGE | ARCHIVE_EXPORT | APPLICATION_LOG | AUDIT_LOG | SUPPORT_TOOLING
  | ANALYTICS | URL | Other_channel string

datatype protected_field = PersonalNumber | FullName | Address | EmailAddress | PhoneNumber | OrganisationalUnit

datatype protected_error =
    PROTECTED_CHANNEL_UNKNOWN | PROTECTED_DISCLOSURE_FORBIDDEN | PROTECTED_ASSESSMENT_REQUIRED
  | PROTECTED_ACCESS_NOT_GRANTED | PROTECTED_GRANT_EXPIRED | PROTECTED_TENANT_MISMATCH

definition protectionAtLeast :: "protection_level \<Rightarrow> protection_level \<Rightarrow> bool" where
  "protectionAtLeast actual threshold \<longleftrightarrow> level_index actual \<ge> level_index threshold"

text \<open>What the caller has for a level: null or undefined, a string, or a value of another type.\<close>

datatype level_value = Absent | Text string | Not_text

definition level_name :: "protection_level \<Rightarrow> string" where
  "level_name l = (case l of NONE \<Rightarrow> ''NONE'' | SEKRETESSMARKERING \<Rightarrow> ''SEKRETESSMARKERING''
     | SKYDDAD_FOLKBOKFORING \<Rightarrow> ''SKYDDAD_FOLKBOKFORING'' | FINGERADE_PERSONUPPGIFTER \<Rightarrow> ''FINGERADE_PERSONUPPGIFTER'')"

definition protection_levels :: "protection_level list" where
  "protection_levels = [NONE, SEKRETESSMARKERING, SKYDDAD_FOLKBOKFORING, FINGERADE_PERSONUPPGIFTER]"

definition normaliseProtectionLevel :: "level_value \<Rightarrow> protection_level" where
  "normaliseProtectionLevel v =
     (case v of Absent \<Rightarrow> NONE
      | Not_text \<Rightarrow> FINGERADE_PERSONUPPGIFTER
      | Text s \<Rightarrow> (case find (\<lambda>l. level_name l = s) protection_levels of
            Some l \<Rightarrow> l | None \<Rightarrow> FINGERADE_PERSONUPPGIFTER))"

section \<open>The disclosure table\<close>

definition never_identifying :: "output_channel list" where
  "never_identifying = [APPLICATION_LOG, ANALYTICS, URL]"

record channel_rule =
  cr_allowed :: "protected_field list"
  cr_requiresAssessment :: "protected_field list"

definition all_fields :: "protected_field list" where
  "all_fields = [PersonalNumber, FullName, Address, EmailAddress, PhoneNumber, OrganisationalUnit]"

definition identifying_only :: "protected_field list" where
  "identifying_only = [FullName, PersonalNumber]"

definition no_disclosure :: channel_rule where
  "no_disclosure = \<lparr> cr_allowed = [], cr_requiresAssessment = [] \<rparr>"

definition rulesFor :: "protection_level \<Rightarrow> output_channel \<Rightarrow> channel_rule" where
  "rulesFor level channel =
     (if channel \<in> set never_identifying then no_disclosure
      else case level of
        NONE \<Rightarrow> \<lparr> cr_allowed = all_fields, cr_requiresAssessment = [] \<rparr>
      | SEKRETESSMARKERING \<Rightarrow>
          (if channel \<in> {SCREEN_AUTHORISED, SUPPORT_TOOLING} then \<lparr> cr_allowed = [], cr_requiresAssessment = all_fields \<rparr>
           else if channel \<in> {EVIDENCE_PACKAGE, AUDIT_LOG} then \<lparr> cr_allowed = identifying_only, cr_requiresAssessment = [] \<rparr>
           else if channel \<in> {SCREEN_COLLEAGUE, SEARCH_RESULT, NOTIFICATION_EMAIL_BODY, DOCUMENT_VISIBLE_TEXT, ARCHIVE_EXPORT}
             then \<lparr> cr_allowed = [], cr_requiresAssessment = identifying_only \<rparr>
           else no_disclosure)
      | SKYDDAD_FOLKBOKFORING \<Rightarrow>
          (if channel \<in> {EVIDENCE_PACKAGE, AUDIT_LOG} then \<lparr> cr_allowed = identifying_only, cr_requiresAssessment = [] \<rparr>
           else if channel = SCREEN_AUTHORISED then \<lparr> cr_allowed = [], cr_requiresAssessment = identifying_only \<rparr>
           else no_disclosure)
      | FINGERADE_PERSONUPPGIFTER \<Rightarrow> no_disclosure)"

record confidentiality_assessment =
  ca_tenantId :: string
  ca_subjectId :: string
  ca_assessedBy :: string
  ca_assessedAt :: string
  ca_expiresAt :: string
  ca_ground :: string

record disclosure_request =
  di_tenantId :: string
  di_subjectId :: string
  di_level :: protection_level
  di_channel :: output_channel
  di_fields :: "protected_field list"
  di_assessment :: "confidentiality_assessment option"
  di_now :: int

record disclosure_decision =
  dd_disclosed :: "protected_field list"
  dd_redacted :: "protected_field list"

fun known_channel :: "output_channel \<Rightarrow> bool" where
  "known_channel (Other_channel _) = False"
| "known_channel _ = True"

definition assessment_valid :: "disclosure_request \<Rightarrow> bool" where
  "assessment_valid q =
     (case di_assessment q of None \<Rightarrow> False
      | Some a \<Rightarrow> ca_tenantId a = di_tenantId q \<and> ca_subjectId a = di_subjectId q \<and> js_trim (ca_ground a) \<noteq> []
          \<and> (case date_parse (ca_expiresAt a) of None \<Rightarrow> False | Some t \<Rightarrow> t > di_now q))"

text \<open>The loop over the fields; \<open>ok\<close> tells whether a field may be disclosed.\<close>

fun split_fields :: "(protected_field \<Rightarrow> bool) \<Rightarrow> protected_field list \<Rightarrow> disclosure_decision \<Rightarrow> disclosure_decision" where
  "split_fields ok [] d = d"
| "split_fields ok (f # fs) d =
     split_fields ok fs (if ok f then d\<lparr> dd_disclosed := dd_disclosed d @ [f] \<rparr> else d\<lparr> dd_redacted := dd_redacted d @ [f] \<rparr>)"

definition may_disclose :: "disclosure_request \<Rightarrow> protected_field \<Rightarrow> bool" where
  "may_disclose q f \<longleftrightarrow> (let rule = rulesFor (di_level q) (di_channel q) in
     f \<in> set (cr_allowed rule) \<or> assessment_valid q \<and> f \<in> set (cr_requiresAssessment rule))"

definition decideDisclosure :: "disclosure_request \<Rightarrow> (protected_error, disclosure_decision) result" where
  "decideDisclosure q =
     (if \<not> known_channel (di_channel q) then Inl PROTECTED_CHANNEL_UNKNOWN
      else Inr (split_fields (may_disclose q) (di_fields q) \<lparr> dd_disclosed = [], dd_redacted = [] \<rparr>))"

section \<open>Subject lines, support access and search\<close>

fun assertSubjectLineIsSafe :: "string \<Rightarrow> string list \<Rightarrow> (protected_error, unit) result" where
  "assertSubjectLineIsSafe subject [] = Inr ()"
| "assertSubjectLineIsSafe subject (i # is) =
     (if js_trim i \<noteq> [] \<and> contains_str i subject then Inl PROTECTED_DISCLOSURE_FORBIDDEN
      else assertSubjectLineIsSafe subject is)"

record support_grant =
  sg_tenantId :: string
  sg_subjectId :: string
  sg_grantedTo :: string
  sg_grantedBy :: string
  sg_grantedByCustomer :: bool
  sg_expiresAt :: string
  sg_reason :: string

record support_request =
  sq_tenantId :: string
  sq_subjectId :: string
  sq_actorId :: string
  sq_now :: int

text \<open>\<open>Date.parse(x) <= now\<close>, false for an unreadable \<open>x\<close>.\<close>

definition not_after :: "string \<Rightarrow> int \<Rightarrow> bool" where
  "not_after s now = (case date_parse s of None \<Rightarrow> False | Some t \<Rightarrow> t \<le> now)"

definition assertSupportAccess :: "support_grant option \<Rightarrow> support_request \<Rightarrow> (protected_error, unit) result" where
  "assertSupportAccess grant q =
     (case grant of None \<Rightarrow> Inl PROTECTED_ACCESS_NOT_GRANTED
      | Some g \<Rightarrow>
          if sg_tenantId g \<noteq> sq_tenantId q then Inl PROTECTED_TENANT_MISMATCH
          else if sg_subjectId g \<noteq> sq_subjectId q \<or> sg_grantedTo g \<noteq> sq_actorId q then Inl PROTECTED_ACCESS_NOT_GRANTED
          else if \<not> sg_grantedByCustomer g then Inl PROTECTED_ACCESS_NOT_GRANTED
          else if js_trim (sg_reason g) = [] then Inl PROTECTED_ACCESS_NOT_GRANTED
          else if not_after (sg_expiresAt g) (sq_now q) then Inl PROTECTED_GRANT_EXPIRED
          else Inr ())"

definition isSearchable :: "protection_level \<Rightarrow> bool" where
  "isSearchable l \<longleftrightarrow> \<not> protectionAtLeast l SKYDDAD_FOLKBOKFORING"

definition redactedPlaceholder :: "protected_field \<Rightarrow> string" where
  "redactedPlaceholder f = (case f of
      PersonalNumber \<Rightarrow> ''Skyddad uppgift'' | FullName \<Rightarrow> ''Skyddad identitet'' | Address \<Rightarrow> ''Skyddad adress''
    | EmailAddress \<Rightarrow> ''Skyddad e-postadress'' | PhoneNumber \<Rightarrow> ''Skyddat telefonnummer''
    | OrganisationalUnit \<Rightarrow> ''Skyddad organisationstillh'' @ [CHR 0xF6] @ ''righet'')"

section \<open>Lemmas\<close>

lemma split_fields_filter:
  "split_fields ok fs d = d\<lparr> dd_disclosed := dd_disclosed d @ filter ok fs, dd_redacted := dd_redacted d @ filter (\<lambda>f. \<not> ok f) fs \<rparr>"
  by (induction ok fs d rule: split_fields.induct) auto

lemma decide_Inr:
  "decideDisclosure q = Inr d \<longleftrightarrow> known_channel (di_channel q)
     \<and> d = \<lparr> dd_disclosed = filter (may_disclose q) (di_fields q), dd_redacted = filter (\<lambda>f. \<not> may_disclose q f) (di_fields q) \<rparr>"
  by (auto simp: decideDisclosure_def split_fields_filter)

lemma rules_antitone:
  assumes "l \<le> m"
  shows "set (cr_allowed (rulesFor m c)) \<subseteq> set (cr_allowed (rulesFor l c))"
    and "set (cr_requiresAssessment (rulesFor m c)) \<subseteq> set (cr_allowed (rulesFor l c)) \<union> set (cr_requiresAssessment (rulesFor l c))"
  using assms
  by (cases l; cases m; simp add: less_eq_protection_level_def rulesFor_def no_disclosure_def identifying_only_def all_fields_def)+

lemma assessment_valid_level [simp]: "assessment_valid (q\<lparr> di_level := l \<rparr>) = assessment_valid q"
  by (simp add: assessment_valid_def split: option.split)

lemma may_disclose_antitone:
  "l \<le> m \<Longrightarrow> may_disclose (q\<lparr> di_level := m \<rparr>) f \<Longrightarrow> may_disclose (q\<lparr> di_level := l \<rparr>) f"
  using rules_antitone [of l m "di_channel q"] by (auto simp: may_disclose_def Let_def)

lemma protection_order [simp]:
  "SKYDDAD_FOLKBOKFORING \<le> l \<longleftrightarrow> l = SKYDDAD_FOLKBOKFORING \<or> l = FINGERADE_PERSONUPPGIFTER"
  by (cases l) (simp_all add: less_eq_protection_level_def)

section \<open>Properties\<close>

text \<open>Strengthening a person's protection never discloses more: on every channel, with or without an
  assessment, what a stronger level discloses a weaker one discloses too.\<close>

theorem disclosure_antitone:
  assumes "l \<le> m" and "decideDisclosure (q\<lparr> di_level := l \<rparr>) = Inr d" and "decideDisclosure (q\<lparr> di_level := m \<rparr>) = Inr e"
  shows "set (dd_disclosed e) \<subseteq> set (dd_disclosed d)"
  using assms may_disclose_antitone [OF assms(1)] by (auto simp: decide_Inr)

definition sample_disclosure :: "protection_level \<Rightarrow> disclosure_request" where
  "sample_disclosure l = \<lparr> di_tenantId = ''t'', di_subjectId = ''s'', di_level = l, di_channel = EVIDENCE_PACKAGE,
     di_fields = [FullName, Address], di_assessment = None, di_now = 0 \<rparr>"

theorem disclosure_antitone_witness:
  "set (dd_disclosed \<lparr> dd_disclosed = [FullName], dd_redacted = [Address] \<rparr>)
     \<subseteq> set (dd_disclosed \<lparr> dd_disclosed = [FullName, Address], dd_redacted = [] \<rparr>)"
proof (rule disclosure_antitone [of NONE SKYDDAD_FOLKBOKFORING "sample_disclosure NONE"])
  show "NONE \<le> SKYDDAD_FOLKBOKFORING" by (simp add: less_eq_protection_level_def)
  show "decideDisclosure ((sample_disclosure NONE)\<lparr> di_level := NONE \<rparr>) = Inr \<lparr> dd_disclosed = [FullName, Address], dd_redacted = [] \<rparr>"
    by code_simp
  show "decideDisclosure ((sample_disclosure NONE)\<lparr> di_level := SKYDDAD_FOLKBOKFORING \<rparr>) = Inr \<lparr> dd_disclosed = [FullName], dd_redacted = [Address] \<rparr>"
    by code_simp
qed

text \<open>Every requested field is either disclosed or redacted, in the requested order, and a person with
  protected registration or new identity details never has an address disclosed, and is never found
  by a search; for new identity details nothing is disclosed at all, and neither is anything on a
  channel that outlives access control.\<close>

theorem disclosure_limits:
  assumes "decideDisclosure q = Inr d"
  shows "mset (dd_disclosed d) + mset (dd_redacted d) = mset (di_fields q)
    \<and> (SKYDDAD_FOLKBOKFORING \<le> di_level q \<longrightarrow> Address \<notin> set (dd_disclosed d) \<and> \<not> isSearchable (di_level q))
    \<and> (di_level q = FINGERADE_PERSONUPPGIFTER \<or> di_channel q \<in> set never_identifying \<longrightarrow> dd_disclosed d = [])"
proof -
  have d: "d = \<lparr> dd_disclosed = filter (may_disclose q) (di_fields q), dd_redacted = filter (\<lambda>f. \<not> may_disclose q f) (di_fields q) \<rparr>"
    using assms by (simp add: decide_Inr)
  have "\<not> may_disclose q Address" if "SKYDDAD_FOLKBOKFORING \<le> di_level q"
    using that by (auto simp: may_disclose_def rulesFor_def no_disclosure_def identifying_only_def)
  moreover have "\<not> may_disclose q f" if "di_level q = FINGERADE_PERSONUPPGIFTER \<or> di_channel q \<in> set never_identifying" for f
    using that by (auto simp: may_disclose_def rulesFor_def no_disclosure_def)
  ultimately show ?thesis
    unfolding d by (auto simp: isSearchable_def protectionAtLeast_def filter_empty_conv)
qed

theorem disclosure_limits_witness:
  "\<exists>d. decideDisclosure (sample_disclosure FINGERADE_PERSONUPPGIFTER) = Inr d \<and> dd_disclosed d = []"
proof -
  obtain d where d: "decideDisclosure (sample_disclosure FINGERADE_PERSONUPPGIFTER) = Inr d"
    by (simp add: decideDisclosure_def sample_disclosure_def)
  from disclosure_limits [OF d] d show ?thesis by (simp add: sample_disclosure_def)
qed

text \<open>The subject line of a notification is not among the channels that never identify anyone: for a
  person without protection every field is disclosed there.\<close>

theorem subject_line_discloses_unprotected:
  assumes "di_level q = NONE" and "di_channel q = NOTIFICATION_EMAIL_SUBJECT"
  shows "decideDisclosure q = Inr \<lparr> dd_disclosed = di_fields q, dd_redacted = [] \<rparr>"
proof -
  have "may_disclose q f" for f
    using assms by (cases f) (simp_all add: may_disclose_def rulesFor_def never_identifying_def all_fields_def)
  then show ?thesis using assms by (simp add: decide_Inr)
qed

theorem subject_line_discloses_unprotected_witness:
  "decideDisclosure ((sample_disclosure NONE)\<lparr> di_channel := NOTIFICATION_EMAIL_SUBJECT \<rparr>) = Inr \<lparr> dd_disclosed = [FullName, Address], dd_redacted = [] \<rparr>"
  using subject_line_discloses_unprotected [of "(sample_disclosure NONE)\<lparr> di_channel := NOTIFICATION_EMAIL_SUBJECT \<rparr>"]
  by (simp add: sample_disclosure_def)

text \<open>A support grant whose expiry cannot be read never expires: it opens access at every time.\<close>

theorem unreadable_expiry_never_expires:
  assumes "date_parse (sg_expiresAt g) = None" and "assertSupportAccess (Some g) q = Inr ()"
  shows "assertSupportAccess (Some g) (q\<lparr> sq_now := later \<rparr>) = Inr ()"
  using assms by (auto simp: assertSupportAccess_def not_after_def split: if_splits)

theorem unreadable_expiry_never_expires_witness:
  "assertSupportAccess (Some \<lparr> sg_tenantId = ''t'', sg_subjectId = ''s'', sg_grantedTo = ''a'', sg_grantedBy = ''c'', sg_grantedByCustomer = True,
     sg_expiresAt = ''next week'', sg_reason = ''r'' \<rparr>) \<lparr> sq_tenantId = ''t'', sq_subjectId = ''s'', sq_actorId = ''a'', sq_now = 99 \<rparr> = Inr ()"
proof -
  let ?g = "\<lparr> sg_tenantId = ''t'', sg_subjectId = ''s'', sg_grantedTo = ''a'', sg_grantedBy = ''c'', sg_grantedByCustomer = True,
     sg_expiresAt = ''next week'', sg_reason = ''r'' \<rparr>"
  let ?q = "\<lparr> sq_tenantId = ''t'', sq_subjectId = ''s'', sq_actorId = ''a'', sq_now = 0 \<rparr>"
  have u: "date_parse (sg_expiresAt ?g) = None" by code_simp
  have "assertSupportAccess (Some ?g) ?q = Inr ()" by code_simp
  from unreadable_expiry_never_expires [OF u this, of 99] show ?thesis by simp
qed

end
