(* ===== verification/Js_Float.thy ===== *)
theory Js_Float
  imports Complex_Main "HOL-Library.Log_Nat"
begin

text \<open>
  Arithmetic on JavaScript's numbers where the code leaves the integers: the rounding of an
  exact non-negative rational to the nearest IEEE-754 double, ties to the even significand.
  \<open>fl x\<close> is exact on every non-negative rational below the overflow threshold, subnormal
  numbers included; an operation of the code is \<open>fl\<close> of the exact result.
\<close>

named_theorems float_bounds \<open>bounds of rounded quantities\<close>

text \<open>The exponent of the last place: subnormal numbers share the place \<open>2\<^sup>-\<^sup>1\<^sup>0\<^sup>7\<^sup>4\<close>.\<close>

definition ulp_bits :: "rat \<Rightarrow> nat" where
  "ulp_bits x = nat (bitlen \<lfloor>x * 2 ^ 1074\<rfloor> - 53)"

definition round_even :: "rat \<Rightarrow> int" where
  "round_even y =
     (let n = \<lfloor>y\<rfloor>; d = y - of_int n
      in if d < 1 / 2 \<or> (d = 1 / 2 \<and> even n) then n else n + 1)"

definition fl :: "rat \<Rightarrow> rat" where
  "fl x = (let u = 2 ^ ulp_bits x / 2 ^ 1074 in of_int (round_even (x / u)) * u)"

lemma round_even_of_int [simp]: "round_even (of_int n) = n"
  by (simp add: round_even_def Let_def)

lemma round_even_mono: "x \<le> y \<Longrightarrow> round_even x \<le> round_even y"
proof -
  assume le: "x \<le> y"
  then have fl_le: "\<lfloor>x\<rfloor> \<le> \<lfloor>y\<rfloor>" by (rule floor_mono)
  show ?thesis
  proof (cases "\<lfloor>x\<rfloor> = \<lfloor>y\<rfloor>")
    case True
    then show ?thesis using le by (simp add: round_even_def Let_def)
  next
    case False
    then show ?thesis using fl_le by (auto simp: round_even_def Let_def)
  qed
qed

lemma bitlen_mono: "a \<le> b \<Longrightarrow> bitlen a \<le> bitlen b"
  by (simp add: bitlen_def floorlog_mono nat_mono)

lemma ulp_bits_mono: "x \<le> y \<Longrightarrow> ulp_bits x \<le> ulp_bits y"
  unfolding ulp_bits_def by (intro nat_mono diff_right_mono bitlen_mono floor_mono) simp

text \<open>A significand fills at most 53 bits; above the subnormals it fills all of them.\<close>

lemma significand_upper:
  assumes "0 \<le> x"
  shows "x * 2 ^ 1074 < 2 ^ 53 * 2 ^ ulp_bits x"
proof -
  define n where "n = \<lfloor>x * 2 ^ 1074\<rfloor>"
  have "n < 2 ^ nat (bitlen n)"
  proof (cases "n > 0")
    case False
    then show ?thesis by (simp add: not_less) (meson le_less_trans zero_less_numeral zero_less_power)
  qed (use bitlen_bounds in blast)
  also have "\<dots> \<le> 2 ^ (53 + ulp_bits x)"
    by (rule power_increasing) (auto simp: ulp_bits_def n_def)
  finally have "n + 1 \<le> 2 ^ (53 + ulp_bits x)" by simp
  then have "(of_int (n + 1) :: rat) \<le> of_int (2 ^ (53 + ulp_bits x))"
    by (simp only: of_int_le_iff)
  then have "(of_int (n + 1) :: rat) \<le> 2 ^ 53 * 2 ^ ulp_bits x"
    by (simp add: power_add)
  moreover have "x * 2 ^ 1074 < of_int (n + 1)" unfolding n_def by linarith
  ultimately show ?thesis by linarith
qed

lemma significand_lower:
  assumes "ulp_bits x > 0"
  shows "2 ^ 52 * 2 ^ ulp_bits x \<le> x * 2 ^ 1074"
proof -
  define n where "n = \<lfloor>x * 2 ^ 1074\<rfloor>"
  have len: "bitlen n = 53 + int (ulp_bits x)"
    using assms by (simp add: ulp_bits_def n_def)
  then have "n > 0" by (metis add_pos_nonneg bitlen_eq_zero_iff less_irrefl linorder_not_less of_nat_0_le_iff zero_less_numeral)
  then have "2 ^ nat (bitlen n - 1) \<le> n" using bitlen_bounds by blast
  also have "nat (bitlen n - 1) = 52 + ulp_bits x" using len by simp
  finally have "(of_int (2 ^ (52 + ulp_bits x)) :: rat) \<le> of_int n"
    by (simp only: of_int_le_iff)
  then have "(2 ^ 52 * 2 ^ ulp_bits x :: rat) \<le> of_int n" by (simp add: power_add)
  also have "\<dots> \<le> x * 2 ^ 1074" by (simp add: n_def)
  finally show ?thesis .
qed

text \<open>Rounding is monotone and leaves every double unchanged.\<close>

lemma fl_scaled: "fl x * 2 ^ 1074 = of_int (round_even (x * 2 ^ 1074 / 2 ^ ulp_bits x)) * 2 ^ ulp_bits x"
  by (simp add: fl_def Let_def)

lemma fl_mono:
  assumes "0 \<le> x" "x \<le> y"
  shows "fl x \<le> fl y"
proof (cases "ulp_bits x = ulp_bits y")
  case True
  have "x / (2 ^ ulp_bits x / 2 ^ 1074) \<le> y / (2 ^ ulp_bits x / 2 ^ 1074)"
    using assms by (intro divide_right_mono) auto
  from round_even_mono [OF this] show ?thesis
    unfolding fl_def Let_def True by (intro mult_right_mono) auto
next
  case False
  then have lt: "ulp_bits x < ulp_bits y"
    using ulp_bits_mono [OF assms(2)] by simp
  have "x * 2 ^ 1074 / 2 ^ ulp_bits x \<le> of_int (2 ^ 53)"
    using significand_upper [OF assms(1)] by (simp add: divide_le_eq)
  from round_even_mono [OF this] have "round_even (x * 2 ^ 1074 / 2 ^ ulp_bits x) \<le> 2 ^ 53"
    by (simp only: round_even_of_int)
  then have "(of_int (round_even (x * 2 ^ 1074 / 2 ^ ulp_bits x)) :: rat) \<le> of_int (2 ^ 53)"
    by (simp only: of_int_le_iff)
  then have "fl x * 2 ^ 1074 \<le> 2 ^ 53 * 2 ^ ulp_bits x"
    unfolding fl_scaled by (intro mult_right_mono) auto
  also have "\<dots> \<le> 2 ^ 52 * 2 ^ ulp_bits y"
    using power_increasing [of "Suc (ulp_bits x)" "ulp_bits y" "2 :: rat"] lt by simp
  also have "\<dots> \<le> fl y * 2 ^ 1074"
  proof -
    have "of_int (2 ^ 52) \<le> y * 2 ^ 1074 / 2 ^ ulp_bits y"
      using significand_lower [of y] lt by (simp add: le_divide_eq)
    from round_even_mono [OF this] have "2 ^ 52 \<le> round_even (y * 2 ^ 1074 / 2 ^ ulp_bits y)"
      by (simp only: round_even_of_int)
    then have "(of_int (2 ^ 52) :: rat) \<le> of_int (round_even (y * 2 ^ 1074 / 2 ^ ulp_bits y))"
      by (simp only: of_int_le_iff)
    then show ?thesis
      unfolding fl_scaled by (intro mult_right_mono) auto
  qed
  finally show ?thesis by simp
qed

lemma fl_double:
  assumes "0 \<le> m" "m < 2 ^ 53" and x: "x = of_int m * 2 ^ e / 2 ^ 1074"
  shows "fl x = x"
proof -
  have fl_int: "\<lfloor>x * 2 ^ 1074\<rfloor> = m * 2 ^ e"
    using floor_of_int [of "m * 2 ^ e", where 'a = rat] by (simp add: x)
  have "ulp_bits x \<le> e"
  proof (cases "m = 0")
    case False
    then have "m > 0" using assms(1) by simp
    moreover have "bitlen m \<le> 53"
      using assms(1,2) bitlen_le_iff_power [of m 53] by simp
    ultimately show ?thesis
      unfolding ulp_bits_def fl_int by simp
  qed (use fl_int in \<open>simp add: ulp_bits_def\<close>)
  then obtain k where k: "e = ulp_bits x + k" by (rule le_Suc_ex [THEN exE])
  have scaled: "x * 2 ^ 1074 = of_int m * 2 ^ e" by (subst x) simp
  then have "x * 2 ^ 1074 / 2 ^ ulp_bits x = of_int (m * 2 ^ k)"
    by (simp only: k power_add) simp
  then have "fl x * 2 ^ 1074 = of_int (m * 2 ^ k) * 2 ^ ulp_bits x"
    unfolding fl_scaled by (simp only: round_even_of_int)
  also have "\<dots> = x * 2 ^ 1074"
    unfolding scaled by (subst k) (simp add: power_add)
  finally show ?thesis by simp
qed

lemma fl_of_int [float_bounds]: "0 \<le> n \<Longrightarrow> n < 2 ^ 53 \<Longrightarrow> fl (of_int n) = of_int n"
  by (rule fl_double [where m = n and e = 1074]) simp_all

lemma fl_nonneg: "0 \<le> x \<Longrightarrow> 0 \<le> fl x"
  using fl_mono [of 0 x] fl_of_int [of 0] by simp

lemma fl_ge_int [float_bounds]: "0 \<le> n \<Longrightarrow> n < 2 ^ 53 \<Longrightarrow> of_int n \<le> x \<Longrightarrow> of_int n \<le> fl x"
  using fl_mono [of "of_int n" x] fl_of_int [of n] by simp

lemma fl_le_int [float_bounds]: "0 \<le> x \<Longrightarrow> n < 2 ^ 53 \<Longrightarrow> x \<le> of_int n \<Longrightarrow> fl x \<le> of_int n"
proof -
  assume a: "0 \<le> x" "n < 2 ^ 53" "x \<le> of_int n"
  then have "0 \<le> n" by (metis of_int_0_le_iff order_trans)
  then show ?thesis using a fl_mono [of x "of_int n"] fl_of_int [of n] by simp
qed

end
