(* ===== verification/Jobs.thy ===== *)
theory Jobs
  imports Prelude Js_Float Js_Date Canonical_Json "HOL-Library.Word" "HOL-Library.Product_Lexorder"
begin

text \<open>
  Durable jobs: the retry policy and the processing of a claimed job
  (\<open>apps/workers/src/jobs.ts\<close>), the queue they are claimed from
  (\<open>apps/workers/src/postgres-production-adapter.ts\<close>, with the SQL function
  \<open>app.claim_durable_jobs\<close> of migration 0009 it calls) and the enqueuing adapter of the API
  (\<open>apps/api/src/adapters/postgres-queue.ts\<close>).

  The table \<open>app.durable_jobs\<close> is a list of rows, each SQL statement is one atomic update of
  it, and \<open>now()\<close> is an argument in milliseconds. The set of rows that a concurrent
  transaction has locked, which \<open>SKIP LOCKED\<close> passes over, is an argument as well. A cause is
  what a \<open>catch\<close> clause receives: something that is not an \<open>Error\<close>, or an error with its name
  and message.
\<close>

unbundle bit_operations_syntax

section \<open>Data\<close>

datatype durable_job_type =
    APPLICATION_NOTIFICATION | APPLICATION_DEADLINE | TENANT_PROVISION | TENANT_READINESS
  | TENANT_ACTIVATION | CERTIFICATE_MONITOR | DOCUMENT_SCAN | DOCUMENT_CANONICALIZE
  | IDENTITY_STATUS_POLL | SIGNATURE_CREATE | SIGNATURE_VALIDATE | PADES_CREATE | PADES_VALIDATE
  | TIC_EVIDENCE_COLLECT | EVIDENCE_PACKAGE_BUILD | EMAIL_SEND | WEBHOOK_DELIVER | REMINDER_SEND
  | CASE_EXPIRE | ARCHIVE_EXPORT | RETENTION_EXECUTE | PRIVACY_REQUEST_EXECUTE

text \<open>The keys of \<open>SUPPORTED_JOB_TYPES\<close>, in the order of the record.\<close>

definition supportedTypes :: "(string \<times> durable_job_type) list" where
  "supportedTypes =
     [(''APPLICATION_NOTIFICATION'', APPLICATION_NOTIFICATION),
      (''APPLICATION_DEADLINE'', APPLICATION_DEADLINE),
      (''TENANT_PROVISION'', TENANT_PROVISION),
      (''TENANT_READINESS'', TENANT_READINESS),
      (''TENANT_ACTIVATION'', TENANT_ACTIVATION),
      (''CERTIFICATE_MONITOR'', CERTIFICATE_MONITOR),
      (''DOCUMENT_SCAN'', DOCUMENT_SCAN),
      (''DOCUMENT_CANONICALIZE'', DOCUMENT_CANONICALIZE),
      (''IDENTITY_STATUS_POLL'', IDENTITY_STATUS_POLL),
      (''SIGNATURE_CREATE'', SIGNATURE_CREATE),
      (''SIGNATURE_VALIDATE'', SIGNATURE_VALIDATE),
      (''PADES_CREATE'', PADES_CREATE),
      (''PADES_VALIDATE'', PADES_VALIDATE),
      (''TIC_EVIDENCE_COLLECT'', TIC_EVIDENCE_COLLECT),
      (''EVIDENCE_PACKAGE_BUILD'', EVIDENCE_PACKAGE_BUILD),
      (''EMAIL_SEND'', EMAIL_SEND),
      (''WEBHOOK_DELIVER'', WEBHOOK_DELIVER),
      (''REMINDER_SEND'', REMINDER_SEND),
      (''CASE_EXPIRE'', CASE_EXPIRE),
      (''ARCHIVE_EXPORT'', ARCHIVE_EXPORT),
      (''RETENTION_EXECUTE'', RETENTION_EXECUTE),
      (''PRIVACY_REQUEST_EXECUTE'', PRIVACY_REQUEST_EXECUTE)]"

record durable_job =
  job_id :: string
  job_tenant :: string
  job_type :: durable_job_type
  job_payload :: json
  job_key :: string
  job_available :: string
  job_attempts :: int
  job_maximum :: int

datatype cause = NonError | JsError (cause_name: string) (cause_message: string)

type_synonym 'a outcome = "(cause, 'a) result"

definition throw :: "string \<Rightarrow> 'a outcome" where
  "throw msg = Inl (JsError ''Error'' msg)"

section \<open>Retry delays\<close>

definition retryDelaySeconds :: "int \<Rightarrow> int" where
  "retryDelaySeconds attempts =
     (let completedFailures = max 1 attempts
      in min 3600 (2 ^ nat (min (completedFailures - 1) 10)))"

text \<open>
  The 32-bit FNV-1a hash of the seed; \<open>Math.imul\<close> and \<open>>>> 0\<close> keep it an unsigned 32-bit
  number.
\<close>

definition fnv_step :: "char \<Rightarrow> 32 word \<Rightarrow> 32 word" where
  "fnv_step c h = (h XOR of_nat (code c)) * 16777619"

definition fnv_hash :: "string \<Rightarrow> 32 word" where
  "fnv_hash seed = fold fnv_step seed 2166136261"

definition jitter_seed :: "string \<Rightarrow> int \<Rightarrow> string" where
  "jitter_seed jobId attempts = jobId @ '':'' @ int_str (max 1 attempts)"

definition jitteredRetryDelaySeconds :: "string \<Rightarrow> int \<Rightarrow> rat" where
  "jitteredRetryDelaySeconds jobId attempts =
     (let base = of_int (retryDelaySeconds attempts);
          hash = fnv_hash (jitter_seed jobId attempts);
          fraction = fl (of_int (uint hash) / 4294967295);
          delay = fl (fl (base / 2) + fl (fl (base / 2) * fraction))
      in min 3600 delay)"

text \<open>\<open>new Date(Date.now() + delaySeconds * 1000)\<close>: a date drops the fraction of a millisecond.\<close>

definition retry_time :: "int \<Rightarrow> string \<Rightarrow> int \<Rightarrow> int" where
  "retry_time now jobId attempts =
     \<lfloor>fl (of_int now + fl (jitteredRetryDelaySeconds jobId attempts * 1000))\<rfloor>"

section \<open>Error codes\<close>

text \<open>
  \<open>toUpperCase().replace(/[^A-Z0-9_]/g, '_')\<close> of one code unit. The upper case of sharp s (223) is
  \<open>SS\<close>; the other letters beyond ASCII have upper cases beyond ASCII.
\<close>

definition upper_safe :: "char \<Rightarrow> string" where
  "upper_safe c = (let n = code c in
     if 97 \<le> n \<and> n \<le> 122 then [char_of (n - 32)]
     else if n = 223 then ''SS''
     else if (65 \<le> n \<and> n \<le> 90) \<or> is_digit c \<or> c = CHR ''_'' then [c]
     else ''_'')"

definition is_upper_code :: "char \<Rightarrow> bool" where
  "is_upper_code c = ((65 \<le> code c \<and> code c \<le> 90) \<or> is_digit c \<or> c = CHR ''_'')"

definition safeWorkerErrorCode :: "cause \<Rightarrow> string" where
  "safeWorkerErrorCode c = (case c of
      NonError \<Rightarrow> ''UNKNOWN_WORKER_ERROR''
    | JsError name _ \<Rightarrow>
        (let candidate = take 80 (concat (map upper_safe name))
         in if candidate = [] then ''WORKER_ERROR'' else candidate))"

text \<open>\<open>/^[A-Z][A-Z0-9_]{2,79}$/\<close>.\<close>

definition is_message_code :: "string \<Rightarrow> bool" where
  "is_message_code s =
     (3 \<le> length s \<and> length s \<le> 80 \<and> 65 \<le> code (hd s) \<and> code (hd s) \<le> 90 \<and> list_all is_upper_code (tl s))"

definition failure_code :: "cause \<Rightarrow> string" where
  "failure_code c = (case c of
      NonError \<Rightarrow> safeWorkerErrorCode c
    | JsError _ message \<Rightarrow> if is_message_code message then message else safeWorkerErrorCode c)"

definition is_permanent :: "cause \<Rightarrow> bool" where
  "is_permanent c = (case c of NonError \<Rightarrow> False | JsError name _ \<Rightarrow> name = ''PermanentWorkerError'')"

definition cleanErrorCode :: "string \<Rightarrow> string" where
  "cleanErrorCode s =
     (let cleaned = take 120 (map (\<lambda>c. if is_alnum c \<or> c \<in> set ''_:-'' then c else CHR ''_'') s)
      in if cleaned = [] then ''WORKER_ERROR'' else cleaned)"

section \<open>The queue\<close>

datatype job_status = Pending | Leased | Completed | Dead_letter

record job_row =
  row_tenant :: string
  row_id :: string
  row_type :: string
  row_payload :: json
  row_key :: string
  row_status :: job_status
  row_available :: int
  row_attempts :: int
  row_maximum :: int
  row_owner :: "string option"
  row_lease :: "int option"
  row_error :: "string option"
  row_created :: int

definition row_ident :: "job_row \<Rightarrow> string \<times> string" where
  "row_ident r = (row_tenant r, row_id r)"

text \<open>The condition of \<open>app.claim_durable_jobs\<close> on a candidate.\<close>

definition claimable :: "int \<Rightarrow> string \<Rightarrow> job_row \<Rightarrow> bool" where
  "claimable now tenant r \<longleftrightarrow>
     row_tenant r = tenant \<and> row_available r \<le> now \<and> row_attempts r < row_maximum r \<and>
     (row_status r = Pending \<or>
      (row_status r = Leased \<and> (case row_lease r of Some t \<Rightarrow> t < now | None \<Rightarrow> False)))"

definition lease_row :: "int \<Rightarrow> string \<Rightarrow> int \<Rightarrow> job_row \<Rightarrow> job_row" where
  "lease_row now worker seconds r =
     r\<lparr>row_status := Leased, row_owner := Some worker, row_lease := Some (now + seconds * 1000),
       row_attempts := row_attempts r + 1\<rparr>"

definition claim_candidates ::
  "int \<Rightarrow> (job_row \<Rightarrow> bool) \<Rightarrow> string \<Rightarrow> int \<Rightarrow> job_row list \<Rightarrow> (string \<times> string) list" where
  "claim_candidates now locked tenant limit rows =
     map row_ident (take (nat limit)
       (sort_key (\<lambda>r. (row_available r, row_created r))
         (filter (\<lambda>r. claimable now tenant r \<and> \<not> locked r) rows)))"

definition claim_durable_jobs ::
  "int \<Rightarrow> (job_row \<Rightarrow> bool) \<Rightarrow> string \<Rightarrow> string \<Rightarrow> int \<Rightarrow> int \<Rightarrow> job_row list
     \<Rightarrow> (job_row list \<times> job_row list) outcome" where
  "claim_durable_jobs now locked tenant worker limit seconds rows =
     (if js_trim worker = [] then throw ''worker identity is required''
      else if limit < 1 \<or> limit > 1000 then throw ''job claim limit must be between 1 and 1000''
      else if seconds < 5 \<or> seconds > 3600 then throw ''job lease must be between 5 and 3600 seconds''
      else
        let chosen = set (claim_candidates now locked tenant limit rows);
            lease = lease_row now worker seconds
        in Inr (map (\<lambda>r. if row_ident r \<in> chosen then lease r else r) rows,
                map lease (filter (\<lambda>r. row_ident r \<in> chosen) rows)))"

section \<open>The repository of a worker process\<close>

text \<open>
  The repository object of a worker process: the tenant of every job it has claimed, next to the
  table it shares with every other process.
\<close>

record worker_state =
  ws_rows :: "job_row list"
  ws_claimed :: "string \<Rightarrow> string option"

datatype tenant_status = Tenant_provisioning | Tenant_onboarding | Tenant_active | Other_tenant_status string

record platform_tenant =
  pt_id :: string
  pt_status :: tenant_status
  pt_created :: int

definition platform_job_tenant :: string where
  "platform_job_tenant = ''00000000-0000-0000-0000-000000000000''"

definition claimableTenantIds :: "platform_tenant list \<Rightarrow> string list" where
  "claimableTenantIds tenants =
     platform_job_tenant #
     map pt_id (sort_key (\<lambda>t. (pt_created t, pt_id t))
       (filter (\<lambda>t. pt_status t \<in> {Tenant_provisioning, Tenant_onboarding, Tenant_active}) tenants))"

definition worker_char :: "char \<Rightarrow> bool" where
  "worker_char c \<longleftrightarrow> is_alnum c \<or> c \<in> set ''._:-''"

definition validateClaim :: "string \<Rightarrow> jsnum \<Rightarrow> jsnum \<Rightarrow> unit outcome" where
  "validateClaim worker limit seconds =
     (if \<not> (3 \<le> length worker \<and> length worker \<le> 200 \<and> list_all worker_char worker)
      then throw ''WORKER_ID_INVALID''
      else if \<not> is_integer_num limit \<or> num_less limit 1 \<or> num_greater limit 1000
      then throw ''WORKER_CLAIM_LIMIT_INVALID''
      else if \<not> is_integer_num seconds \<or> num_less seconds 5 \<or> num_greater seconds 3600
      then throw ''WORKER_LEASE_SECONDS_INVALID''
      else Inr ())"

definition durableJobType :: "string \<Rightarrow> durable_job_type outcome" where
  "durableJobType t = (case map_of supportedTypes t of
      Some ty \<Rightarrow> Inr ty
    | None \<Rightarrow> throw (''WORKER_JOB_TYPE_UNSUPPORTED:'' @ t))"

text \<open>The job a claimed row becomes; an instant outside the range of dates makes \<open>toISOString\<close> throw.\<close>

definition job_of_row :: "job_row \<Rightarrow> durable_job outcome" where
  "job_of_row r = bindR (durableJobType (row_type r)) (\<lambda>ty.
     case to_iso (row_available r) of
       None \<Rightarrow> Inl (JsError ''RangeError'' ''Invalid time value'')
     | Some available \<Rightarrow> Inr \<lparr>job_id = row_id r, job_tenant = row_tenant r, job_type = ty,
         job_payload = row_payload r, job_key = row_key r, job_available = available,
         job_attempts = row_attempts r, job_maximum = row_maximum r\<rparr>)"

text \<open>
  The loop over the rows one tenant's claim returned. The table update is committed before the
  loop starts, so an unsupported type leaves the rows leased: the state is returned next to the
  error.
\<close>

fun collect_claimed ::
  "(string \<Rightarrow> string option) \<Rightarrow> job_row list
     \<Rightarrow> (string \<Rightarrow> string option) \<times> (durable_job list) outcome" where
  "collect_claimed claimed [] = (claimed, Inr [])"
| "collect_claimed claimed (r # rs) =
     (case durableJobType (row_type r) of
        Inl e \<Rightarrow> (claimed, Inl e)
      | Inr _ \<Rightarrow>
         (let claimed' = claimed(row_id r \<mapsto> row_tenant r)
          in case job_of_row r of
               Inl e \<Rightarrow> (claimed', Inl e)
             | Inr j \<Rightarrow> (let (c, res) = collect_claimed claimed' rs
                         in (c, bindR res (\<lambda>js. Inr (j # js))))))"

fun claim_tenants ::
  "int \<Rightarrow> (job_row \<Rightarrow> bool) \<Rightarrow> string \<Rightarrow> int \<Rightarrow> int \<Rightarrow> string list \<Rightarrow> durable_job list \<Rightarrow> worker_state
     \<Rightarrow> worker_state \<times> (durable_job list) outcome" where
  "claim_tenants now locked worker limit seconds [] jobs s = (s, Inr jobs)"
| "claim_tenants now locked worker limit seconds (tenant # tenants) jobs s =
     (if int (length jobs) \<ge> limit then (s, Inr jobs)
      else case claim_durable_jobs now locked tenant worker (limit - int (length jobs)) seconds (ws_rows s) of
        Inl e \<Rightarrow> (s, Inl e)
      | Inr (rows, leased) \<Rightarrow>
         (let (claimed, res) = collect_claimed (ws_claimed s) leased;
              s' = s\<lparr>ws_rows := rows, ws_claimed := claimed\<rparr>
          in case res of
               Inl e \<Rightarrow> (s', Inl e)
             | Inr js \<Rightarrow> claim_tenants now locked worker limit seconds tenants (jobs @ js) s'))"

definition claim ::
  "int \<Rightarrow> (job_row \<Rightarrow> bool) \<Rightarrow> platform_tenant list \<Rightarrow> string \<Rightarrow> jsnum \<Rightarrow> jsnum \<Rightarrow> worker_state
     \<Rightarrow> worker_state \<times> (durable_job list) outcome" where
  "claim now locked tenants worker limit seconds s =
     (case validateClaim worker limit seconds of
        Inl e \<Rightarrow> (s, Inl e)
      | Inr _ \<Rightarrow> claim_tenants now locked worker (num_int limit) (num_int seconds)
                 (claimableTenantIds tenants) [] s)"

definition requiredClaimedTenant :: "(string \<Rightarrow> string option) \<Rightarrow> string \<Rightarrow> string outcome" where
  "requiredClaimedTenant claimed jobId =
     (if falsy (claimed jobId) then throw ''WORKER_JOB_NOT_CLAIMED_BY_PROCESS''
      else Inr (the (claimed jobId)))"

definition updateJob ::
  "string \<Rightarrow> string \<Rightarrow> (job_row list \<Rightarrow> job_row list outcome) \<Rightarrow> worker_state \<Rightarrow> worker_state outcome" where
  "updateJob jobId worker work s =
     (if \<not> is_uuid_text jobId then throw ''WORKER_JOB_ID_INVALID''
      else if js_trim worker = [] then throw ''WORKER_ID_INVALID''
      else bindR (work (ws_rows s)) (\<lambda>rows. Inr (s\<lparr>ws_rows := rows\<rparr>)))"

text \<open>The condition every update of a leased job carries: the row is leased, and by this worker.\<close>

definition held_by :: "string \<Rightarrow> string \<Rightarrow> string \<Rightarrow> job_row \<Rightarrow> bool" where
  "held_by tenant jobId worker r \<longleftrightarrow>
     row_tenant r = tenant \<and> row_id r = jobId \<and> row_status r = Leased \<and> row_owner r = Some worker"

definition update_held ::
  "string \<Rightarrow> string \<Rightarrow> string \<Rightarrow> (job_row \<Rightarrow> job_row) \<Rightarrow> job_row list \<Rightarrow> job_row list" where
  "update_held tenant jobId worker f rows = map (\<lambda>r. if held_by tenant jobId worker r then f r else r) rows"

definition forget :: "string \<Rightarrow> worker_state \<Rightarrow> worker_state" where
  "forget jobId s = s\<lparr>ws_claimed := (ws_claimed s)(jobId := None)\<rparr>"

definition release :: "job_status \<Rightarrow> job_row \<Rightarrow> job_row" where
  "release status r = r\<lparr>row_status := status, row_owner := None, row_lease := None\<rparr>"

definition complete :: "string \<Rightarrow> string \<Rightarrow> worker_state \<Rightarrow> worker_state outcome" where
  "complete jobId worker s =
     bindR (requiredClaimedTenant (ws_claimed s) jobId) (\<lambda>tenant.
     bindR (updateJob jobId worker (\<lambda>rows. Inr (update_held tenant jobId worker (release Completed) rows)) s)
       (\<lambda>s'. Inr (forget jobId s')))"

definition retry :: "string \<Rightarrow> string \<Rightarrow> int \<Rightarrow> string \<Rightarrow> worker_state \<Rightarrow> worker_state outcome" where
  "retry jobId worker next error s =
     bindR (requiredClaimedTenant (ws_claimed s) jobId) (\<lambda>tenant.
     bindR (updateJob jobId worker (\<lambda>rows. Inr (update_held tenant jobId worker
         (\<lambda>r. (release Pending r)\<lparr>row_available := next, row_error := Some (cleanErrorCode error)\<rparr>) rows)) s)
       (\<lambda>s'. Inr (forget jobId s')))"

definition deadLetter :: "string \<Rightarrow> string \<Rightarrow> string \<Rightarrow> worker_state \<Rightarrow> worker_state outcome" where
  "deadLetter jobId worker error s =
     bindR (requiredClaimedTenant (ws_claimed s) jobId) (\<lambda>tenant.
     bindR (updateJob jobId worker (\<lambda>rows. Inr (update_held tenant jobId worker
         (\<lambda>r. (release Dead_letter r)\<lparr>row_error := Some (cleanErrorCode error)\<rparr>) rows)) s)
       (\<lambda>s'. Inr (forget jobId s')))"

definition heartbeat :: "int \<Rightarrow> string \<Rightarrow> string \<Rightarrow> jsnum \<Rightarrow> worker_state \<Rightarrow> worker_state outcome" where
  "heartbeat now jobId worker seconds s =
     bindR (requiredClaimedTenant (ws_claimed s) jobId) (\<lambda>tenant.
     bindR (validateClaim worker (NInt 1) seconds) (\<lambda>_.
     updateJob jobId worker (\<lambda>rows.
       if list_ex (held_by tenant jobId worker) rows
       then Inr (update_held tenant jobId worker
         (\<lambda>r. r\<lparr>row_lease := Some (now + num_int seconds * 1000)\<rparr>) rows)
       else throw ''WORKER_LEASE_LOST'') s))"

section \<open>Processing a claimed job\<close>

text \<open>
  \<open>processClaimedJob\<close> with a repository that offers heartbeats. The handler is an argument; the
  heartbeats of the timer are steps of their own below. The state survives a throw, so it is
  returned next to the outcome. \<open>now\<close> is the time of the last statement.
\<close>

definition settle_failure :: "int \<Rightarrow> string \<Rightarrow> durable_job \<Rightarrow> cause \<Rightarrow> worker_state \<Rightarrow> worker_state \<times> unit outcome" where
  "settle_failure now worker job c s =
     (let code = failure_code c;
          dead = is_permanent c \<or> job_attempts job \<ge> job_maximum job
      in case (if dead then deadLetter (job_id job) worker code s
               else retry (job_id job) worker (retry_time now (job_id job) (job_attempts job)) code s) of
           Inl e \<Rightarrow> (s, Inl e)
         | Inr s' \<Rightarrow> (s', Inr ()))"

definition processClaimedJob ::
  "int \<Rightarrow> (durable_job \<Rightarrow> unit outcome) \<Rightarrow> string \<Rightarrow> durable_job \<Rightarrow> worker_state \<Rightarrow> worker_state \<times> unit outcome" where
  "processClaimedJob now handler worker job s =
     (if js_trim worker = [] then (s, throw ''Worker identity is required'')
      else if job_attempts job < 1 then (s, throw ''Claimed jobs must include the current attempt'')
      else case heartbeat now (job_id job) worker (NInt 60) s of
        Inl c \<Rightarrow> settle_failure now worker job c s
      | Inr s1 \<Rightarrow>
         (case handler job of
            Inl c \<Rightarrow> settle_failure now worker job c s1
          | Inr _ \<Rightarrow>
             (case complete (job_id job) worker s1 of
                Inl c \<Rightarrow> settle_failure now worker job c s1
              | Inr s2 \<Rightarrow> (s2, Inr ()))))"

section \<open>Enqueuing\<close>

definition key_char :: "char \<Rightarrow> bool" where
  "key_char c \<longleftrightarrow> is_alnum c \<or> c \<in> set ''._:-''"

definition enqueue_conflict :: "string \<Rightarrow> string \<Rightarrow> string \<Rightarrow> job_row \<Rightarrow> bool" where
  "enqueue_conflict tenant type key r \<longleftrightarrow> row_tenant r = tenant \<and> row_type r = type \<and> row_key r = key"

text \<open>
  The upsert: the identifier of a new row is generated by the database and an argument here; a
  row in conflict is refreshed only while it is pending.
\<close>

definition enqueue ::
  "int \<Rightarrow> string \<Rightarrow> string \<Rightarrow> string \<Rightarrow> string \<Rightarrow> json \<Rightarrow> job_row list \<Rightarrow> (job_row list \<times> string) outcome" where
  "enqueue now fresh tenant type key payload rows =
     (if \<not> (3 \<le> length type \<and> length type \<le> 100 \<and> list_all key_char type) then throw ''QUEUE_JOB_TYPE_INVALID''
      else if \<not> (8 \<le> length key \<and> length key \<le> 200 \<and> list_all key_char key) then throw ''QUEUE_IDEMPOTENCY_KEY_INVALID''
      else case find (enqueue_conflict tenant type key) rows of
        Some old \<Rightarrow> Inr (map (\<lambda>r. if enqueue_conflict tenant type key r \<and> row_status r = Pending
                              then r\<lparr>row_payload := payload\<rparr> else r) rows, row_id old)
      | None \<Rightarrow> Inr (rows @ [\<lparr>row_tenant = tenant, row_id = fresh, row_type = type, row_payload = payload,
          row_key = key, row_status = Pending, row_available = now, row_attempts = 0, row_maximum = 10,
          row_owner = None, row_lease = None, row_error = None, row_created = now\<rparr>], fresh))"

section \<open>The worker loop\<close>

text \<open>
  One turn of the loop of \<open>production-runner.ts\<close>: claim, then process every claimed job. The
  jobs of a turn run concurrently there; they are processed one after the other here, which
  gives the same table because each touches its own row only. A throw ends the loop.
\<close>

fun process_all ::
  "int \<Rightarrow> (durable_job \<Rightarrow> unit outcome) \<Rightarrow> string \<Rightarrow> durable_job list \<Rightarrow> worker_state \<Rightarrow> worker_state \<times> unit outcome" where
  "process_all now handler w [] s = (s, Inr ())"
| "process_all now handler w (j # js) s =
     (let (s1, r1) = processClaimedJob now handler w j s;
          (s2, r2) = process_all now handler w js s1
      in (s2, bindR r1 (\<lambda>_. r2)))"

definition run_turn ::
  "int \<Rightarrow> (job_row \<Rightarrow> bool) \<Rightarrow> platform_tenant list \<Rightarrow> (durable_job \<Rightarrow> unit outcome) \<Rightarrow> string \<Rightarrow> jsnum \<Rightarrow> jsnum
     \<Rightarrow> worker_state \<Rightarrow> worker_state \<times> (durable_job list) outcome" where
  "run_turn now locked tenants handler w limit seconds s =
     (case claim now locked tenants w limit seconds s of
        (s1, Inl e) \<Rightarrow> (s1, Inl e)
      | (s1, Inr jobs) \<Rightarrow>
          (let (s2, r) = process_all now handler w jobs s1 in (s2, bindR r (\<lambda>_. Inr jobs))))"

text \<open>\<open>boundedInteger\<close>: \<open>Number.parseInt\<close> reads an optional sign and the digits that follow.\<close>

definition parse_int :: "string \<Rightarrow> int option" where
  "parse_int s = (let t = js_trim s;
       (neg, u) = (case t of CHR ''-'' # r \<Rightarrow> (True, r) | CHR ''+'' # r \<Rightarrow> (False, r) | _ \<Rightarrow> (False, t));
       ds = takeWhile is_digit u
     in if ds = [] then None else Some (if neg then - int (num_of ds) else int (num_of ds)))"

definition boundedInteger :: "string \<Rightarrow> string option \<Rightarrow> string \<Rightarrow> int \<Rightarrow> int \<Rightarrow> int outcome" where
  "boundedInteger name env fallback minimum maximum =
     (let text = (case env of Some v \<Rightarrow> if js_trim v = [] then fallback else js_trim v | None \<Rightarrow> fallback)
      in case parse_int text of
           None \<Rightarrow> throw (name @ ''_INVALID'')
         | Some parsed \<Rightarrow> if parsed < minimum \<or> parsed > maximum then throw (name @ ''_INVALID'') else Inr parsed)"

text \<open>The poll delay after a turn: it backs off while the queue is idle.\<close>

definition next_idle :: "int \<Rightarrow> int \<Rightarrow> int \<Rightarrow> int \<Rightarrow> durable_job list \<Rightarrow> int" where
  "next_idle poll maximum factor idle jobs =
     (if jobs = [] then min (idle * factor) maximum else poll)"

section \<open>Several workers on one table\<close>

text \<open>
  The table together with what every worker process remembers of its claims. A worker restarts
  with an empty memory. \<open>Some w\<close> labels the steps of worker \<open>w\<close>, \<open>None\<close> those of the clock and
  of the API; the identifier the database generates for a new row is one no row has. An operation
  that throws before its update changes nothing and is no step.
\<close>

record queue_state =
  qs_now :: int
  qs_rows :: "job_row list"
  qs_claimed :: "string \<Rightarrow> string \<Rightarrow> string option"

definition worker_view :: "queue_state \<Rightarrow> string \<Rightarrow> worker_state" where
  "worker_view s w = \<lparr>ws_rows = qs_rows s, ws_claimed = qs_claimed s w\<rparr>"

definition worker_put :: "queue_state \<Rightarrow> string \<Rightarrow> worker_state \<Rightarrow> queue_state" where
  "worker_put s w v = s\<lparr>qs_rows := ws_rows v, qs_claimed := (qs_claimed s)(w := ws_claimed v)\<rparr>"

inductive queue_step :: "queue_state \<Rightarrow> string option \<Rightarrow> queue_state \<Rightarrow> bool" where
  tick: "qs_now s \<le> now \<Longrightarrow> queue_step s None (s\<lparr>qs_now := now\<rparr>)"
| enqueues: "enqueue (qs_now s) fresh tenant type key payload (qs_rows s) = Inr (rows, jobId) \<Longrightarrow>
    fresh \<notin> row_id ` set (qs_rows s) \<Longrightarrow> queue_step s None (s\<lparr>qs_rows := rows\<rparr>)"
| restarts: "queue_step s (Some w) (s\<lparr>qs_claimed := (qs_claimed s)(w := (\<lambda>_. None))\<rparr>)"
| claims: "claim (qs_now s) locked tenants w limit seconds (worker_view s w) = (v, res) \<Longrightarrow>
    queue_step s (Some w) (worker_put s w v)"
| beats: "heartbeat (qs_now s) jobId w seconds (worker_view s w) = Inr v \<Longrightarrow>
    queue_step s (Some w) (worker_put s w v)"
| completes: "complete jobId w (worker_view s w) = Inr v \<Longrightarrow> queue_step s (Some w) (worker_put s w v)"
| retries: "retry jobId w next error (worker_view s w) = Inr v \<Longrightarrow> queue_step s (Some w) (worker_put s w v)"
| buries: "deadLetter jobId w error (worker_view s w) = Inr v \<Longrightarrow> queue_step s (Some w) (worker_put s w v)"

inductive queue_run :: "queue_state \<Rightarrow> queue_state \<Rightarrow> bool" where
  stop: "queue_run s s"
| more: "queue_run s s' \<Longrightarrow> queue_step s' a s'' \<Longrightarrow> queue_run s s''"

inductive_cases queue_stepE: "queue_step s a s'"

section \<open>Lemmas: retry delays\<close>

lemma retryDelay_pow: "\<exists>k \<le> 10. retryDelaySeconds a = 2 ^ k"
proof -
  define k where "k = nat (min (max 1 a - 1) 10)"
  have "k \<le> 10" by (simp add: k_def)
  then have "(2 :: int) ^ k \<le> 2 ^ 10" by (intro power_increasing) auto
  then have "retryDelaySeconds a = 2 ^ k"
    by (simp add: retryDelaySeconds_def Let_def k_def)
  then show ?thesis using \<open>k \<le> 10\<close> by blast
qed

lemma retryDelay_bounds: "1 \<le> retryDelaySeconds a" "retryDelaySeconds a \<le> 1024"
proof -
  obtain k where k: "k \<le> 10" "retryDelaySeconds a = 2 ^ k" using retryDelay_pow by blast
  have "(2 :: int) ^ k \<le> 2 ^ 10" using k(1) by (intro power_increasing) auto
  then show "retryDelaySeconds a \<le> 1024" by (simp add: k(2))
  show "1 \<le> retryDelaySeconds a" by (simp add: k(2))
qed

lemma fl_half_power: "fl (of_int (2 ^ k) / 2) = of_int (2 ^ k) / 2" if "k \<le> 10"
proof (rule fl_double [where m = "2 ^ k" and e = 1073])
  show "(2 :: int) ^ k < 2 ^ 53" using that by (intro power_strict_increasing) auto
qed simp_all

lemma hash_fraction: "0 \<le> fl (of_int (uint (h :: 32 word)) / 4294967295) \<and> fl (of_int (uint h) / 4294967295) \<le> 1"
proof -
  have "uint h < 2 ^ 32" using unsigned_less [of h] by simp
  then have "uint h \<le> 4294967295" by simp
  then have "(of_int (uint h) :: rat) \<le> of_int 4294967295" by (simp only: of_int_le_iff)
  then have le: "(of_int (uint h) :: rat) / 4294967295 \<le> of_int 1" by simp
  have "(0 :: rat) \<le> of_int (uint h)" by (simp only: of_int_0_le_iff unsigned_greater_eq)
  then have ge: "0 \<le> (of_int (uint h) :: rat) / 4294967295" by (rule divide_nonneg_nonneg) simp
  show ?thesis using fl_nonneg [OF ge] fl_le_int [OF ge _ le] by simp
qed

lemma jittered_window:
  "of_int (retryDelaySeconds a) / 2 \<le> jitteredRetryDelaySeconds j a \<and>
   jitteredRetryDelaySeconds j a \<le> of_int (retryDelaySeconds a)"
proof -
  obtain k where k: "k \<le> 10" "retryDelaySeconds a = 2 ^ k" using retryDelay_pow by blast
  define b :: rat where "b = of_int (retryDelaySeconds a)"
  define f where "f = fl (of_int (uint (fnv_hash (jitter_seed j a))) / 4294967295)"
  have f: "0 \<le> f" "f \<le> 1" unfolding f_def using hash_fraction by auto
  have b: "0 \<le> b" "b \<le> 1024"
    using retryDelay_bounds [of a] unfolding b_def by (simp, metis of_int_le_iff of_int_numeral)
  have half: "fl (b / 2) = b / 2" unfolding b_def k(2) by (rule fl_half_power [OF k(1)])
  have prod: "0 \<le> fl (b / 2 * f)" "fl (b / 2 * f) \<le> b / 2"
    using fl_nonneg [of "b / 2 * f"] fl_mono [of "b / 2 * f" "b / 2"] half b f
    by (simp_all add: mult_left_le)
  have whole: "fl b = b" unfolding b_def using retryDelay_bounds [of a] by (intro fl_of_int) simp_all
  have "b / 2 \<le> fl (b / 2 + fl (b / 2 * f))"
    using fl_mono [of "b / 2" "b / 2 + fl (b / 2 * f)"] half b prod by simp
  moreover have "fl (b / 2 + fl (b / 2 * f)) \<le> b"
    using fl_mono [of "b / 2 + fl (b / 2 * f)" b] whole b prod by simp
  moreover have "jitteredRetryDelaySeconds j a = min 3600 (fl (b / 2 + fl (b / 2 * f)))"
    unfolding jitteredRetryDelaySeconds_def Let_def b_def [symmetric] f_def [symmetric] half ..
  ultimately show ?thesis using b unfolding b_def [symmetric] by simp
qed

lemma retry_time_window:
  assumes "0 \<le> now" "now \<le> max_time"
  shows "now + 500 * retryDelaySeconds a \<le> retry_time now j a \<and>
         retry_time now j a \<le> now + 1000 * retryDelaySeconds a"
proof -
  let ?b = "retryDelaySeconds a" and ?d = "jitteredRetryDelaySeconds j a * 1000"
  note b = retryDelay_bounds [of a]
  have win: "of_int (500 * ?b) \<le> ?d" "?d \<le> of_int (1000 * ?b)"
    using jittered_window [of a j] by (simp_all add: field_simps)
  have "0 \<le> (of_int (500 * ?b) :: rat)" using b by simp
  then have nn: "0 \<le> ?d" using win by linarith
  have d: "of_int (500 * ?b) \<le> fl ?d" "fl ?d \<le> of_int (1000 * ?b)"
    using b by (intro fl_ge_int fl_le_int nn win; simp)+
  have lo: "of_int (now + 500 * ?b) \<le> fl (of_int now + fl ?d)"
    using b assms d by (intro fl_ge_int) (simp_all add: max_time_def)
  have "0 \<le> of_int now + fl ?d" using assms fl_nonneg [OF nn] by simp
  then have hi: "fl (of_int now + fl ?d) \<le> of_int (now + 1000 * ?b)"
    using b assms d by (intro fl_le_int) (simp_all add: max_time_def)
  show ?thesis unfolding retry_time_def using lo hi by (simp add: le_floor_iff floor_le_iff)
qed

section \<open>Lemmas: one attempt\<close>

text \<open>What one attempt makes of the row it holds.\<close>

definition settle_row :: "int \<Rightarrow> durable_job \<Rightarrow> unit outcome \<Rightarrow> job_row \<Rightarrow> job_row" where
  "settle_row now job res r = (case res of
      Inr _ \<Rightarrow> release Completed r
    | Inl c \<Rightarrow>
        (if is_permanent c \<or> job_attempts job \<ge> job_maximum job
         then (release Dead_letter r)\<lparr>row_error := Some (cleanErrorCode (failure_code c))\<rparr>
         else (release Pending r)\<lparr>row_available := retry_time now (job_id job) (job_attempts job),
                row_error := Some (cleanErrorCode (failure_code c))\<rparr>))"

definition worker_name :: "string \<Rightarrow> bool" where
  "worker_name w \<longleftrightarrow> 3 \<le> length w \<and> length w \<le> 200 \<and> list_all worker_char w"

lemma worker_char_not_ws: "worker_char c \<Longrightarrow> \<not> js_ws c"
  by (auto simp: worker_char_def is_alnum_def is_alpha_def is_digit_def js_ws_def code_def)

lemma worker_name_trim: "worker_name w \<Longrightarrow> js_trim w \<noteq> []"
  by (cases w) (auto simp: worker_name_def js_trim_Nil_iff worker_char_not_ws)

lemma worker_name_valid: "worker_name w \<Longrightarrow> validateClaim w (NInt 1) (NInt 60) = Inr ()"
  by (simp add: worker_name_def validateClaim_def)

lemma update_held_twice:
  assumes "\<And>r. held_by t i w r \<Longrightarrow> held_by t i w (f r)"
  shows "update_held t i w g (update_held t i w f rows) = update_held t i w (\<lambda>r. g (f r)) rows"
  using assms by (simp add: update_held_def)

lemma update_held_cong:
  assumes "\<And>r. held_by t i w r \<Longrightarrow> f r = g r"
  shows "update_held t i w f rows = update_held t i w g rows"
  using assms by (simp add: update_held_def)

lemma held_by_lease [simp]: "held_by t i w (r\<lparr>row_lease := l\<rparr>) = held_by t i w r"
  by (simp add: held_by_def)

lemma settle_row_lease [simp]:
  "settle_row now job res (r\<lparr>row_lease := l\<rparr>) = settle_row now job res r"
  by (cases r) (simp add: settle_row_def release_def split: sum.split)

lemma forget_update: "forget i (s\<lparr>ws_rows := rows\<rparr>) = (forget i s)\<lparr>ws_rows := rows\<rparr>"
  by (simp add: forget_def)

text \<open>
  An attempt of a job this process holds ends with the row settled as the handler's outcome
  demands, and nothing else changed.
\<close>

lemma process_held:
  assumes tenant: "ws_claimed s (job_id job) = Some tenant" "tenant \<noteq> []"
    and id: "is_uuid_text (job_id job)" and worker: "worker_name w" and att: "1 \<le> job_attempts job"
    and held: "list_ex (held_by tenant (job_id job) w) (ws_rows s)"
  shows "processClaimedJob now handler w job s =
    ((forget (job_id job) s)\<lparr>ws_rows := update_held tenant (job_id job) w
       (settle_row now job (handler job)) (ws_rows s)\<rparr>, Inr ())"
proof -
  let ?beat = "\<lambda>r :: job_row. r\<lparr>row_lease := Some (now + 60 * 1000)\<rparr>"
  let ?s1 = "s\<lparr>ws_rows := update_held tenant (job_id job) w ?beat (ws_rows s)\<rparr>"
  note base = requiredClaimedTenant_def falsy_def updateJob_def bindR_def tenant id worker_name_trim [OF worker]
  have beat: "heartbeat now (job_id job) w (NInt 60) s = Inr ?s1"
    using held worker_name_valid [OF worker] by (simp add: heartbeat_def base)
  show ?thesis
  proof (cases "handler job")
    case (Inl c)
    then show ?thesis
      using att worker_name_trim [OF worker] beat base
      by (cases s) (simp add: processClaimedJob_def settle_failure_def deadLetter_def retry_def base Let_def
          update_held_twice forget_update settle_row_def [abs_def] release_def forget_def)
  next
    case (Inr u)
    then show ?thesis
      using att worker_name_trim [OF worker] beat base
      by (cases s) (simp add: processClaimedJob_def complete_def base update_held_twice forget_update
          settle_row_def [abs_def] release_def forget_def)
  qed
qed

end
