(* ===== verification/Job_Queue.thy ===== *)
theory Job_Queue
  imports Jobs
begin

text \<open>
  The correctness of the durable job queue of theory \<open>Jobs\<close>: what a claim leases, what a turn of
  a worker makes of the table, why the queue drains, and what several workers with crashes can
  and cannot do to one table.
\<close>

section \<open>Lemmas: claiming\<close>

definition row_job :: "job_row \<Rightarrow> durable_job" where
  "row_job r = projr (job_of_row r)"

definition row_readable :: "job_row \<Rightarrow> bool" where
  "row_readable r \<longleftrightarrow> is_ok (job_of_row r)"

definition lease_chosen :: "int \<Rightarrow> string \<Rightarrow> int \<Rightarrow> string set \<Rightarrow> job_row list \<Rightarrow> job_row list" where
  "lease_chosen now w seconds S rows = map (\<lambda>r. if row_id r \<in> S then lease_row now w seconds r else r) rows"

lemma lease_row_fields [simp]:
  "row_id (lease_row now w seconds r) = row_id r"
  "row_tenant (lease_row now w seconds r) = row_tenant r"
  "row_maximum (lease_row now w seconds r) = row_maximum r"
  "row_attempts (lease_row now w seconds r) = row_attempts r + 1"
  "row_readable (lease_row now w seconds r) = row_readable r"
  by (simp_all add: lease_row_def row_readable_def job_of_row_def is_ok_def bindR_def split: sum.split option.split)

lemma row_job_fields:
  assumes "row_readable r"
  shows "job_of_row r = Inr (row_job r)" "job_id (row_job r) = row_id r" "job_tenant (row_job r) = row_tenant r"
    "job_attempts (row_job r) = row_attempts r" "job_maximum (row_job r) = row_maximum r"
    "is_ok (durableJobType (row_type r))"
proof -
  obtain j where j: "job_of_row r = Inr j" using assms by (auto simp: row_readable_def is_ok_iff)
  then show "job_of_row r = Inr (row_job r)" by (simp add: row_job_def)
  show "job_id (row_job r) = row_id r" "job_tenant (row_job r) = row_tenant r"
    "job_attempts (row_job r) = row_attempts r" "job_maximum (row_job r) = row_maximum r"
    "is_ok (durableJobType (row_type r))"
    using j by (auto simp: row_job_def job_of_row_def bindR_Inr_iff is_ok_iff split: option.splits)
qed

lemma collect_claimed_ok:
  assumes "\<forall>r \<in> set rs. row_readable r" "distinct (map row_id rs)"
  shows "\<exists>c'. collect_claimed c rs = (c', Inr (map row_job rs)) \<and>
    (\<forall>r \<in> set rs. c' (row_id r) = Some (row_tenant r)) \<and> (\<forall>i. i \<notin> row_id ` set rs \<longrightarrow> c' i = c i)"
  using assms
proof (induction rs arbitrary: c)
  case (Cons r rs)
  let ?c1 = "c(row_id r \<mapsto> row_tenant r)"
  have r: "row_readable r" using Cons.prems by simp
  obtain ty where ty: "durableJobType (row_type r) = Inr ty"
    using row_job_fields(6) [OF r] by (auto simp: is_ok_iff)
  obtain c' where c': "collect_claimed ?c1 rs = (c', Inr (map row_job rs))"
    "\<forall>r \<in> set rs. c' (row_id r) = Some (row_tenant r)" "\<forall>i. i \<notin> row_id ` set rs \<longrightarrow> c' i = ?c1 i"
    using Cons.IH [of ?c1] Cons.prems by (auto simp del: fun_upd_apply)
  have "collect_claimed c (r # rs) = (c', Inr (map row_job (r # rs)))"
    using c'(1) ty row_job_fields(1) [OF r] by (simp add: Let_def)
  moreover have "c' (row_id r) = Some (row_tenant r)"
    using c'(3) Cons.prems(2) by simp
  ultimately show ?case using c'(2,3) by auto
qed simp

lemma leased_not_claimable: "0 < seconds \<Longrightarrow> \<not> claimable now t (lease_row now w seconds r)"
  by (simp add: claimable_def lease_row_def)

lemma candidate_rows:
  assumes "x \<in> set (claim_candidates now locked tenant limit rows)"
  shows "\<exists>r \<in> set rows. x = row_ident r \<and> claimable now tenant r \<and> \<not> locked r"
  using assms by (auto simp: claim_candidates_def dest!: in_set_takeD)

lemma candidates_exist:
  assumes "r \<in> set rows" "claimable now tenant r" "\<not> locked r" "1 \<le> limit"
  shows "claim_candidates now locked tenant limit rows \<noteq> []"
proof -
  have "r \<in> set (filter (\<lambda>r. claimable now tenant r \<and> \<not> locked r) rows)" using assms by simp
  then have "filter (\<lambda>r. claimable now tenant r \<and> \<not> locked r) rows \<noteq> []" by (metis empty_iff empty_set)
  then have "sort_key (\<lambda>r. (row_available r, row_created r)) (filter (\<lambda>r. claimable now tenant r \<and> \<not> locked r) rows) \<noteq> []"
    by (metis length_0_conv length_sort)
  then show ?thesis using assms(4) by (simp add: claim_candidates_def)
qed

text \<open>One tenant's claim leases a set of claimable rows, not empty when there are any.\<close>

lemma claim_one:
  assumes ids: "distinct (map row_id rows)" and w: "worker_name w"
    and lim: "1 \<le> limit" "limit \<le> 1000" and secs: "5 \<le> seconds" "seconds \<le> 3600"
  obtains S where
    "claim_durable_jobs now locked tenant w limit seconds rows =
      Inr (lease_chosen now w seconds S rows, map (lease_row now w seconds) (filter (\<lambda>r. row_id r \<in> S) rows))"
    "\<And>r. r \<in> set rows \<Longrightarrow> row_id r \<in> S \<Longrightarrow> claimable now tenant r"
    "S = {} \<Longrightarrow> \<forall>r \<in> set rows. \<not> (claimable now tenant r \<and> \<not> locked r)"
    "S \<subseteq> row_id ` set rows"
proof -
  define C where "C = set (claim_candidates now locked tenant limit rows)"
  define S where "S = snd ` C"
  have same: "x = y" if "x \<in> set rows" "y \<in> set rows" "row_id x = row_id y" for x y
    using inj_onD [OF ids [unfolded distinct_map, THEN conjunct2]] that by blast
  have mem: "row_ident r \<in> C \<longleftrightarrow> row_id r \<in> S" if r: "r \<in> set rows" for r
  proof
    assume "row_id r \<in> S"
    then obtain x where x: "x \<in> C" "snd x = row_id r" unfolding S_def by (metis imageE)
    then obtain r' where r': "r' \<in> set rows" "x = row_ident r'"
      unfolding C_def using candidate_rows by blast
    have "r = r'" by (rule same [OF r r'(1)]) (use x(2) in \<open>simp add: r'(2) row_ident_def\<close>)
    then show "row_ident r \<in> C" using x(1) r'(2) by simp
  next
    assume "row_ident r \<in> C"
    then have "snd (row_ident r) \<in> S" unfolding S_def by (rule imageI)
    then show "row_id r \<in> S" by (simp add: row_ident_def)
  qed
  have call: "claim_durable_jobs now locked tenant w limit seconds rows =
      Inr (lease_chosen now w seconds S rows, map (lease_row now w seconds) (filter (\<lambda>r. row_id r \<in> S) rows))"
  proof -
    have "map (\<lambda>r. if row_ident r \<in> C then lease_row now w seconds r else r) rows =
        lease_chosen now w seconds S rows"
      unfolding lease_chosen_def by (rule map_cong) (simp_all add: mem)
    moreover have "filter (\<lambda>r. row_ident r \<in> C) rows = filter (\<lambda>r. row_id r \<in> S) rows"
      by (rule filter_cong) (simp_all add: mem)
    ultimately show ?thesis
      using lim secs worker_name_trim [OF w]
      unfolding claim_durable_jobs_def Let_def C_def [symmetric] by simp
  qed
  show thesis
  proof (rule that [OF call])
    show "claimable now tenant r" if r: "r \<in> set rows" "row_id r \<in> S" for r
    proof -
      obtain r' where r': "r' \<in> set rows" "row_ident r = row_ident r'" "claimable now tenant r'"
        using candidate_rows mem [OF r(1)] r(2) unfolding C_def by blast
      have "r = r'" by (rule same [OF r(1) r'(1)]) (use r'(2) in \<open>simp add: row_ident_def\<close>)
      then show ?thesis using r'(3) by simp
    qed
    show "\<forall>r \<in> set rows. \<not> (claimable now tenant r \<and> \<not> locked r)" if "S = {}"
      using that candidates_exist [OF _ _ _ lim(1)] unfolding S_def C_def by blast
    show "S \<subseteq> row_id ` set rows"
      using candidate_rows by (fastforce simp: S_def C_def row_ident_def)
  qed
qed

lemma lease_chosen_fields:
  "map row_id (lease_chosen now w seconds S rows) = map row_id rows"
  by (simp add: lease_chosen_def)

lemma lease_chosen_set:
  "r \<in> set (lease_chosen now w seconds S rows) \<longleftrightarrow>
     (\<exists>x \<in> set rows. r = (if row_id x \<in> S then lease_row now w seconds x else x))"
  by (auto simp: lease_chosen_def)

lemma lease_chosen_union:
  assumes "\<And>r. r \<in> set rows \<Longrightarrow> row_id r \<in> S \<Longrightarrow> row_id r \<notin> T"
  shows "lease_chosen now w seconds T (lease_chosen now w seconds S rows) = lease_chosen now w seconds (S \<union> T) rows"
  using assms by (auto simp: lease_chosen_def)

definition claim_result ::
  "int \<Rightarrow> string \<Rightarrow> int \<Rightarrow> worker_state \<Rightarrow> string set \<Rightarrow> durable_job list \<Rightarrow> worker_state \<Rightarrow> bool" where
  "claim_result now w seconds s S new s' \<longleftrightarrow>
     ws_rows s' = lease_chosen now w seconds S (ws_rows s) \<and>
     (\<forall>r \<in> set (ws_rows s). row_id r \<in> S \<longrightarrow> claimable now (row_tenant r) r) \<and>
     S \<subseteq> row_id ` set (ws_rows s) \<and> job_id ` set new = S \<and> distinct (map job_id new) \<and>
     set new = {row_job (lease_row now w seconds r) | r. r \<in> set (ws_rows s) \<and> row_id r \<in> S} \<and>
     (\<forall>j \<in> set new. ws_claimed s' (job_id j) = Some (job_tenant j)) \<and>
     (\<forall>i. i \<notin> S \<longrightarrow> ws_claimed s' i = ws_claimed s i)"

lemma claim_resultD:
  assumes "claim_result now w seconds s S new s'"
  shows "ws_rows s' = lease_chosen now w seconds S (ws_rows s)"
    "\<And>r. r \<in> set (ws_rows s) \<Longrightarrow> row_id r \<in> S \<Longrightarrow> claimable now (row_tenant r) r"
    "S \<subseteq> row_id ` set (ws_rows s)" "job_id ` set new = S" "distinct (map job_id new)"
    "set new = {row_job (lease_row now w seconds r) | r. r \<in> set (ws_rows s) \<and> row_id r \<in> S}"
    "\<And>j. j \<in> set new \<Longrightarrow> ws_claimed s' (job_id j) = Some (job_tenant j)"
    "\<And>i. i \<notin> S \<Longrightarrow> ws_claimed s' i = ws_claimed s i"
  using assms unfolding claim_result_def by blast+

lemma claim_result_none: "claim_result now w seconds s {} [] s"
  by (simp add: claim_result_def lease_chosen_def)

text \<open>Two claims in a row are one claim of both sets.\<close>

lemma claim_result_trans:
  assumes one: "claim_result now w seconds s S new s1" and two: "claim_result now w seconds s1 T extra s2"
    and secs: "0 < seconds"
  shows "claim_result now w seconds s (S \<union> T) (new @ extra) s2"
proof -
  let ?rows = "ws_rows s" and ?lease = "lease_row now w seconds"
  note one = claim_resultD [OF one] and two = claim_resultD [OF two]
  have apart: "row_id r \<notin> T" if r: "r \<in> set ?rows" "row_id r \<in> S" for r
  proof
    assume T: "row_id r \<in> T"
    have "?lease r \<in> set (ws_rows s1)"
      unfolding one(1) lease_chosen_set using r by auto
    from two(2) [OF this] T have "claimable now (row_tenant r) (?lease r)" by simp
    then show False using leased_not_claimable [OF secs] by blast
  qed
  have kept: "r \<in> set (ws_rows s1)" if "r \<in> set ?rows" "row_id r \<in> T" for r
    unfolding one(1) lease_chosen_set using that apart [OF that(1)] by auto
  have origin: "r \<in> set ?rows" if "r \<in> set (ws_rows s1)" "row_id r \<in> T" for r
    using that apart unfolding one(1) lease_chosen_set by auto
  have disjoint: "S \<inter> T = {}" using one(3) apart by blast
  show ?thesis
    unfolding claim_result_def
  proof (intro conjI)
    show "ws_rows s2 = lease_chosen now w seconds (S \<union> T) ?rows"
      unfolding two(1) one(1) by (rule lease_chosen_union) (rule apart)
    show "\<forall>r \<in> set ?rows. row_id r \<in> S \<union> T \<longrightarrow> claimable now (row_tenant r) r"
      using one(2) two(2) kept by blast
    have "row_id ` set (ws_rows s1) = row_id ` set ?rows" by (metis one(1) lease_chosen_fields list.set_map)
    with two(3) have "T \<subseteq> row_id ` set ?rows" by simp
    with one(3) show "S \<union> T \<subseteq> row_id ` set ?rows" by (rule Un_least)
    show "job_id ` set (new @ extra) = S \<union> T" using one(4) two(4) by (simp only: set_append image_Un)
    show "distinct (map job_id (new @ extra))"
      using one(4,5) two(4,5) disjoint by (simp only: map_append distinct_append list.set_map simp_thms)
    show "set (new @ extra) = {row_job (?lease r) | r. r \<in> set ?rows \<and> row_id r \<in> S \<union> T}"
      unfolding set_append one(6) two(6) using kept origin by blast
    show "\<forall>j \<in> set (new @ extra). ws_claimed s2 (job_id j) = Some (job_tenant j)"
    proof
      fix j assume "j \<in> set (new @ extra)"
      then consider "j \<in> set new" | "j \<in> set extra" by auto
      then show "ws_claimed s2 (job_id j) = Some (job_tenant j)"
      proof cases
        case 1
        then have "job_id j \<notin> T" using one(4) disjoint by blast
        then show ?thesis using one(7) [OF 1] two(8) by simp
      qed (rule two(7))
    qed
    show "\<forall>i. i \<notin> S \<union> T \<longrightarrow> ws_claimed s2 i = ws_claimed s i"
      using one(8) two(8) by simp
  qed
qed

lemma claim_result_one:
  assumes rows: "distinct (map row_id (ws_rows s))" "\<forall>r \<in> set (ws_rows s). row_readable r"
    and w: "worker_name w" and lim: "1 \<le> limit" "limit \<le> 1000" and secs: "5 \<le> seconds" "seconds \<le> 3600"
  obtains S rows leased claimed where
    "claim_durable_jobs now locked tenant w limit seconds (ws_rows s) = Inr (rows, leased)"
    "collect_claimed (ws_claimed s) leased = (claimed, Inr (map row_job leased))"
    "claim_result now w seconds s S (map row_job leased) (s\<lparr>ws_rows := rows, ws_claimed := claimed\<rparr>)"
    "S = {} \<longrightarrow> (\<forall>r \<in> set (ws_rows s). \<not> (claimable now tenant r \<and> \<not> locked r))"
proof -
  let ?lease = "lease_row now w seconds"
  obtain S where S: "claim_durable_jobs now locked tenant w limit seconds (ws_rows s) =
      Inr (lease_chosen now w seconds S (ws_rows s), map ?lease (filter (\<lambda>r. row_id r \<in> S) (ws_rows s)))"
    "\<And>r. r \<in> set (ws_rows s) \<Longrightarrow> row_id r \<in> S \<Longrightarrow> claimable now tenant r"
    "S = {} \<Longrightarrow> \<forall>r \<in> set (ws_rows s). \<not> (claimable now tenant r \<and> \<not> locked r)"
    "S \<subseteq> row_id ` set (ws_rows s)"
    using claim_one [OF rows(1) w lim secs] by metis
  define leased where "leased = map ?lease (filter (\<lambda>r. row_id r \<in> S) (ws_rows s))"
  have ok: "\<forall>r \<in> set leased. row_readable r" using rows(2) by (auto simp: leased_def)
  have idl: "map row_id leased = filter (\<lambda>i. i \<in> S) (map row_id (ws_rows s))"
    by (simp add: leased_def filter_map o_def)
  have dist: "distinct (map row_id leased)" unfolding idl using rows(1) by (rule distinct_filter)
  obtain c where c: "collect_claimed (ws_claimed s) leased = (c, Inr (map row_job leased))"
    "\<forall>r \<in> set leased. c (row_id r) = Some (row_tenant r)" "\<forall>i. i \<notin> row_id ` set leased \<longrightarrow> c i = ws_claimed s i"
    using collect_claimed_ok [OF ok dist] by blast
  have img: "row_id ` set leased = S"
    using arg_cong [OF idl, of set] S(4) by auto
  have jobs: "map job_id (map row_job leased) = map row_id leased"
    using ok by (simp add: row_job_fields(2))
  have "claim_result now w seconds s S (map row_job leased)
      (s\<lparr>ws_rows := lease_chosen now w seconds S (ws_rows s), ws_claimed := c\<rparr>)"
    unfolding claim_result_def
  proof (intro conjI)
    show "\<forall>r \<in> set (ws_rows s). row_id r \<in> S \<longrightarrow> claimable now (row_tenant r) r"
      using S(2) by (auto simp: claimable_def)
    show "job_id ` set (map row_job leased) = S"
      using img arg_cong [OF jobs, of set] by (simp add: image_image)
    show "distinct (map job_id (map row_job leased))" unfolding jobs by (rule dist)
    show "set (map row_job leased) = {row_job (?lease r) | r. r \<in> set (ws_rows s) \<and> row_id r \<in> S}"
      by (auto simp: leased_def)
    show "\<forall>j \<in> set (map row_job leased). ws_claimed (s\<lparr>ws_rows := lease_chosen now w seconds S (ws_rows s),
        ws_claimed := c\<rparr>) (job_id j) = Some (job_tenant j)"
      using c(2) ok by (simp add: row_job_fields(2,3))
    show "\<forall>i. i \<notin> S \<longrightarrow> ws_claimed (s\<lparr>ws_rows := lease_chosen now w seconds S (ws_rows s), ws_claimed := c\<rparr>) i
        = ws_claimed s i"
      using c(3) img by simp
  qed (use S(4) in simp_all)
  from that [OF S(1) [folded leased_def] c(1) this impI [OF S(3)]] show thesis by blast
qed

lemma claim_result_keeps:
  assumes "claim_result now w seconds s S new s'"
  shows "map row_id (ws_rows s') = map row_id (ws_rows s)"
    "(\<forall>r \<in> set (ws_rows s). row_readable r) \<Longrightarrow> (\<forall>r \<in> set (ws_rows s'). row_readable r)"
  using assms by (auto simp: claim_result_def lease_chosen_fields lease_chosen_set)

lemma claim_tenants_ok:
  assumes "distinct (map row_id (ws_rows s))" "\<forall>r \<in> set (ws_rows s). row_readable r"
    and w: "worker_name w" and lim: "limit \<le> 1000" and secs: "5 \<le> seconds" "seconds \<le> 3600"
  shows "\<exists>S new s'. claim_tenants now locked w limit seconds tenants jobs s = (s', Inr (jobs @ new)) \<and>
    claim_result now w seconds s S new s' \<and>
    (S = {} \<and> int (length jobs) < limit \<longrightarrow>
      (\<forall>t \<in> set tenants. \<forall>r \<in> set (ws_rows s). \<not> (claimable now t r \<and> \<not> locked r)))"
  using assms(1,2)
proof (induction tenants arbitrary: jobs s)
  case Nil
  have "claim_tenants now locked w limit seconds [] jobs s = (s, Inr (jobs @ []))" by simp
  then show ?case using claim_result_none by (metis empty_iff empty_set)
next
  case (Cons t ts)
  show ?case
  proof (cases "int (length jobs) \<ge> limit")
    case True
    then have "claim_tenants now locked w limit seconds (t # ts) jobs s = (s, Inr (jobs @ []))" by simp
    then show ?thesis using claim_result_none True by (metis not_less)
  next
    case False
    define left where "left = limit - int (length jobs)"
    have left: "1 \<le> left" "left \<le> 1000" using False lim by (simp_all add: left_def)
    obtain S rows leased c where one:
      "claim_durable_jobs now locked t w left seconds (ws_rows s) = Inr (rows, leased)"
      "collect_claimed (ws_claimed s) leased = (c, Inr (map row_job leased))"
      "claim_result now w seconds s S (map row_job leased) (s\<lparr>ws_rows := rows, ws_claimed := c\<rparr>)"
      "S = {} \<longrightarrow> (\<forall>r \<in> set (ws_rows s). \<not> (claimable now t r \<and> \<not> locked r))"
      by (rule claim_result_one [OF Cons.prems w left secs, of now locked t])
    let ?s1 = "s\<lparr>ws_rows := rows, ws_claimed := c\<rparr>" and ?jobs = "jobs @ map row_job leased"
    have step: "claim_tenants now locked w limit seconds (t # ts) jobs s =
        claim_tenants now locked w limit seconds ts ?jobs ?s1"
      using False one(1,2) by (simp add: left_def)
    have pre: "distinct (map row_id (ws_rows ?s1))" "\<forall>r \<in> set (ws_rows ?s1). row_readable r"
      using claim_result_keeps [OF one(3)] Cons.prems by simp_all
    obtain T extra s' where two:
      "claim_tenants now locked w limit seconds ts ?jobs ?s1 = (s', Inr (?jobs @ extra))"
      "claim_result now w seconds ?s1 T extra s'"
      "T = {} \<and> int (length ?jobs) < limit \<longrightarrow>
        (\<forall>t \<in> set ts. \<forall>r \<in> set (ws_rows ?s1). \<not> (claimable now t r \<and> \<not> locked r))"
      using Cons.IH [of ?s1 ?jobs] pre by blast
    have res: "claim_result now w seconds s (S \<union> T) (map row_job leased @ extra) s'"
      by (rule claim_result_trans [OF one(3) two(2)]) (use secs in simp)
    have none: "\<forall>u \<in> set (t # ts). \<forall>r \<in> set (ws_rows s). \<not> (claimable now u r \<and> \<not> locked r)"
      if "S \<union> T = {}"
    proof -
      have e: "S = {}" "T = {}" using that by auto
      have "leased = []" using one(3) e(1) by (simp add: claim_result_def)
      moreover have "rows = ws_rows s" using one(3) e(1) by (simp add: claim_result_def lease_chosen_def)
      ultimately show ?thesis using one(4) e(1) two(3) e(2) False by simp
    qed
    show ?thesis
      unfolding step
      by (rule exI [of _ "S \<union> T"], rule exI [of _ "map row_job leased @ extra"], rule exI [of _ s'])
        (use two(1) res none in \<open>unfold append_assoc, blast\<close>)
  qed
qed

section \<open>Lemmas: one turn of the worker\<close>

definition row_attempt :: "int \<Rightarrow> string \<Rightarrow> int \<Rightarrow> (durable_job \<Rightarrow> unit outcome) \<Rightarrow> job_row \<Rightarrow> job_row" where
  "row_attempt now w seconds handler r =
     (let leased = lease_row now w seconds r; j = row_job leased
      in settle_row now j (handler j) leased)"

definition settle_held :: "int \<Rightarrow> (durable_job \<Rightarrow> unit outcome) \<Rightarrow> string \<Rightarrow> durable_job \<Rightarrow> job_row \<Rightarrow> job_row" where
  "settle_held now handler w j r =
     (if held_by (job_tenant j) (job_id j) w r then settle_row now j (handler j) r else r)"

lemma settle_row_fields [simp]:
  "row_id (settle_row now j res r) = row_id r" "row_tenant (settle_row now j res r) = row_tenant r"
  "row_type (settle_row now j res r) = row_type r" "row_attempts (settle_row now j res r) = row_attempts r"
  "row_maximum (settle_row now j res r) = row_maximum r" "row_status (settle_row now j res r) \<noteq> Leased"
  by (simp_all add: settle_row_def release_def split: sum.split)

lemma settle_held_id [simp]: "row_id (settle_held now handler w j r) = row_id r"
  by (simp add: settle_held_def)

lemma settle_others:
  assumes "\<forall>j \<in> set js. job_id j \<noteq> row_id r \<or> row_status r \<noteq> Leased"
  shows "fold (settle_held now handler w) js r = r"
  using assms by (induction js) (auto simp: settle_held_def held_by_def)

lemma settle_its_job:
  assumes "j \<in> set js" "distinct (map job_id js)" "held_by (job_tenant j) (job_id j) w r"
  shows "fold (settle_held now handler w) js r = settle_row now j (handler j) r"
proof -
  obtain pre post where js: "js = pre @ j # post" using assms(1) by (meson split_list)
  have id: "row_id r = job_id j" using assms(3) by (simp add: held_by_def)
  have "fold (settle_held now handler w) pre r = r"
    by (rule settle_others) (use assms(2) in \<open>auto simp: js id image_iff\<close>)
  moreover have "fold (settle_held now handler w) post (settle_row now j (handler j) r) = settle_row now j (handler j) r"
    by (rule settle_others) simp
  ultimately show ?thesis using assms(3) by (simp add: js settle_held_def)
qed

lemma process_all_ok:
  assumes "worker_name w" "distinct (map job_id js)"
    and "\<forall>j \<in> set js. ws_claimed s (job_id j) = Some (job_tenant j) \<and> job_tenant j \<noteq> [] \<and>
      is_uuid_text (job_id j) \<and> 1 \<le> job_attempts j \<and>
      list_ex (held_by (job_tenant j) (job_id j) w) (ws_rows s)"
  shows "\<exists>s'. process_all now handler w js s = (s', Inr ()) \<and>
    ws_rows s' = map (fold (settle_held now handler w) js) (ws_rows s)"
  using assms(2,3)
proof (induction js arbitrary: s)
  case (Cons j js)
  let ?s1 = "(forget (job_id j) s)\<lparr>ws_rows := map (settle_held now handler w j) (ws_rows s)\<rparr>"
  have step: "processClaimedJob now handler w j s = (?s1, Inr ())"
    using process_held [of s j "job_tenant j" w now handler] assms(1) Cons.prems(2)
    by (simp add: update_held_def settle_held_def)
  have other: "held_by t i w (settle_held now handler w j r) = held_by t i w r" if "i \<noteq> job_id j" for t i r
    using that by (auto simp: held_by_def settle_held_def)
  have "list_ex (held_by (job_tenant k) (job_id k) w) (ws_rows ?s1)" if k: "k \<in> set js" for k
  proof -
    have "job_id k \<noteq> job_id j" using Cons.prems(1) k by (auto simp: image_iff)
    then show ?thesis using Cons.prems(2) k by (auto simp: list_ex_iff other)
  qed
  moreover have "ws_claimed ?s1 (job_id k) = ws_claimed s (job_id k)" if "k \<in> set js" for k
    using Cons.prems(1) that by (auto simp: forget_def image_iff)
  ultimately obtain s' where "process_all now handler w js ?s1 = (s', Inr ())"
    "ws_rows s' = map (fold (settle_held now handler w) js) (ws_rows ?s1)"
    using Cons.IH [of ?s1] Cons.prems by auto
  then show ?case using step by (simp add: o_def)
qed simp

text \<open>A table no worker is busy on, whose rows the given tenants' claims reach.\<close>

definition quiet_row :: "platform_tenant list \<Rightarrow> int \<Rightarrow> job_row \<Rightarrow> bool" where
  "quiet_row tenants until r \<longleftrightarrow>
     row_status r \<noteq> Leased \<and> row_available r \<le> until \<and> valid_time (row_available r) \<and>
     row_type r \<in> fst ` set supportedTypes \<and> is_uuid_text (row_id r) \<and> row_tenant r \<noteq> [] \<and>
     row_tenant r \<in> set (claimableTenantIds tenants) \<and> 0 \<le> row_attempts r \<and>
     (row_status r = Pending \<longrightarrow> row_attempts r < row_maximum r)"

definition quiet :: "platform_tenant list \<Rightarrow> int \<Rightarrow> job_row list \<Rightarrow> bool" where
  "quiet tenants until rows \<longleftrightarrow> distinct (map row_id rows) \<and> (\<forall>r \<in> set rows. quiet_row tenants until r)"

lemma readable_quiet: "quiet_row tenants until r \<Longrightarrow> row_readable r"
  unfolding quiet_row_def row_readable_def job_of_row_def durableJobType_def is_ok_iff
  using to_iso_valid [of "row_available r"]
  by (auto simp: bindR_Inr_iff dom_map_of_conv_image_fst [symmetric] split: option.splits)

lemma turn_effect:
  assumes q: "quiet tenants now (ws_rows s)" and w: "worker_name w"
    and lim: "1 \<le> limit" "limit \<le> 1000" and secs: "5 \<le> seconds" "seconds \<le> 3600"
  shows "\<exists>S jobs s'. run_turn now (\<lambda>_. False) tenants handler w (NInt limit) (NInt seconds) s = (s', Inr jobs) \<and>
    ws_rows s' = map (\<lambda>r. if row_id r \<in> S then row_attempt now w seconds handler r else r) (ws_rows s) \<and>
    (\<forall>r \<in> set (ws_rows s). row_id r \<in> S \<longrightarrow> row_status r = Pending) \<and>
    (S \<inter> row_id ` set (ws_rows s) = {} \<longrightarrow> (\<forall>r \<in> set (ws_rows s). row_status r \<noteq> Pending))"
proof -
  let ?rows = "ws_rows s" and ?lease = "lease_row now w seconds"
  have qr: "quiet_row tenants now r" if "r \<in> set ?rows" for r using q that by (simp add: quiet_def)
  have ready: "\<forall>r \<in> set ?rows. row_readable r" using qr readable_quiet by blast
  have ids: "distinct (map row_id ?rows)" using q by (simp add: quiet_def)
  obtain S new s1 where c:
    "claim_tenants now (\<lambda>_. False) w limit seconds (claimableTenantIds tenants) [] s = (s1, Inr ([] @ new))"
    "claim_result now w seconds s S new s1"
    "S = {} \<and> int (length ([] :: durable_job list)) < limit \<longrightarrow>
      (\<forall>t \<in> set (claimableTenantIds tenants). \<forall>r \<in> set ?rows. \<not> (claimable now t r \<and> \<not> False))"
    using claim_tenants_ok [OF ids ready w lim(2) secs, of now "\<lambda>_. False" "claimableTenantIds tenants" "[]"] by blast
  note cr = claim_resultD [OF c(2)]
  have claim: "claim now (\<lambda>_. False) tenants w (NInt limit) (NInt seconds) s = (s1, Inr new)"
    using c(1) w lim secs by (simp add: claim_def validateClaim_def worker_name_def)
  have job: "\<exists>r \<in> set ?rows. row_id r \<in> S \<and> j = row_job (?lease r)" if "j \<in> set new" for j
    using that unfolding cr(6) by blast
  have fields: "job_id (row_job (?lease r)) = row_id r" "job_tenant (row_job (?lease r)) = row_tenant r"
    "job_attempts (row_job (?lease r)) = row_attempts r + 1" if "r \<in> set ?rows" for r
    using row_job_fields [of "?lease r"] ready that by simp_all
  have held: "held_by (row_tenant r) (row_id r) w (?lease r)" for r
    by (simp add: held_by_def lease_row_def)
  have all: "\<forall>j \<in> set new. ws_claimed s1 (job_id j) = Some (job_tenant j) \<and> job_tenant j \<noteq> [] \<and>
      is_uuid_text (job_id j) \<and> 1 \<le> job_attempts j \<and> list_ex (held_by (job_tenant j) (job_id j) w) (ws_rows s1)"
  proof
    fix j assume j: "j \<in> set new"
    then obtain r where r: "r \<in> set ?rows" "row_id r \<in> S" "j = row_job (?lease r)" using job by blast
    have "?lease r \<in> set (ws_rows s1)" unfolding cr(1) lease_chosen_set using r by auto
    then have "list_ex (held_by (job_tenant j) (job_id j) w) (ws_rows s1)"
      using held [of r] fields [OF r(1)] unfolding r(3) list_ex_iff by auto
    then show "ws_claimed s1 (job_id j) = Some (job_tenant j) \<and> job_tenant j \<noteq> [] \<and>
      is_uuid_text (job_id j) \<and> 1 \<le> job_attempts j \<and> list_ex (held_by (job_tenant j) (job_id j) w) (ws_rows s1)"
      using cr(7) [OF j] fields [OF r(1)] qr [OF r(1)] r(3) by (simp add: quiet_row_def)
  qed
  obtain s2 where s2: "process_all now handler w new s1 = (s2, Inr ())"
    "ws_rows s2 = map (fold (settle_held now handler w) new) (ws_rows s1)"
    using process_all_ok [OF w cr(5) all] by blast
  have row: "fold (settle_held now handler w) new (if row_id r \<in> S then ?lease r else r) =
      (if row_id r \<in> S then row_attempt now w seconds handler r else r)" if r: "r \<in> set ?rows" for r
  proof (cases "row_id r \<in> S")
    case True
    have "row_job (?lease r) \<in> set new" unfolding cr(6) using r True by blast
    from settle_its_job [OF this cr(5)] held [of r] fields [OF r]
    show ?thesis using True by (simp add: row_attempt_def Let_def)
  next
    case False
    have "job_id j \<noteq> row_id r" if "j \<in> set new" for j
      using cr(4) False imageI [OF that, of job_id] by metis
    then have "fold (settle_held now handler w) new r = r"
      by (intro settle_others) blast
    then show ?thesis using False by simp
  qed
  have "ws_rows s2 = map (\<lambda>r. if row_id r \<in> S then row_attempt now w seconds handler r else r) ?rows"
    unfolding s2(2) cr(1) lease_chosen_def map_map o_def by (rule map_cong [OF refl row])
  moreover have "row_status r = Pending" if "r \<in> set ?rows" "row_id r \<in> S" for r
    using cr(2) [OF that] qr [OF that(1)] by (auto simp: claimable_def quiet_row_def)
  moreover have "\<forall>r \<in> set ?rows. row_status r \<noteq> Pending" if "S \<inter> row_id ` set ?rows = {}"
  proof (rule ballI, rule notI)
    fix r assume r: "r \<in> set ?rows" "row_status r = Pending"
    have "S = {}" using that cr(3) by blast
    moreover have "row_tenant r \<in> set (claimableTenantIds tenants)" "claimable now (row_tenant r) r"
      using qr [OF r(1)] r(2) by (auto simp: quiet_row_def claimable_def)
    ultimately show False using c(3) lim(1) r(1) by auto
  qed
  moreover have "run_turn now (\<lambda>_. False) tenants handler w (NInt limit) (NInt seconds) s = (s2, Inr new)"
    by (simp add: run_turn_def claim s2(1))
  ultimately show ?thesis by blast
qed

section \<open>Lemmas: the queue drains\<close>

text \<open>The attempts the pending rows have left.\<close>

definition attempts_left :: "job_row \<Rightarrow> nat" where
  "attempts_left r = (if row_status r = Pending then nat (row_maximum r - row_attempts r) else 0)"

definition total_left :: "job_row list \<Rightarrow> nat" where
  "total_left rows = sum_list (map attempts_left rows)"

definition retry_window :: int where
  "retry_window = 1024000"

lemma attempt_quiet:
  assumes q: "quiet_row tenants now r" and pending: "row_status r = Pending"
    and t: "0 \<le> now" "now + retry_window \<le> max_time"
  shows "quiet_row tenants (now + retry_window) (row_attempt now w seconds handler r)"
    "attempts_left (row_attempt now w seconds handler r) < attempts_left r"
proof -
  let ?l = "lease_row now w seconds r"
  note j = row_job_fields [of ?l, simplified, OF readable_quiet [OF q]]
  have window: "0 \<le> retry_time now i a \<and> retry_time now i a \<le> now + retry_window \<and> valid_time (retry_time now i a)" for i a
    using retry_time_window [of now a i] retryDelay_bounds [of a] t
    by (simp add: retry_window_def valid_time_def)
  have keep: "row_available r \<le> now + retry_window" using q by (simp add: quiet_row_def retry_window_def)
  have attempt: "row_attempt now w seconds handler r = settle_row now (row_job ?l) (handler (row_job ?l)) ?l"
    by (simp add: row_attempt_def Let_def)
  show "quiet_row tenants (now + retry_window) (row_attempt now w seconds handler r)"
    using q keep window j(3,4,5) unfolding attempt
    by (simp add: quiet_row_def settle_row_def release_def lease_row_def split: sum.split)
  show "attempts_left (row_attempt now w seconds handler r) < attempts_left r"
    using q pending unfolding attempt
    by (simp add: attempts_left_def quiet_row_def settle_row_def release_def lease_row_def split: sum.split)
qed

lemma quiet_later: "quiet_row tenants now r \<Longrightarrow> now \<le> later \<Longrightarrow> quiet_row tenants later r"
  by (simp add: quiet_row_def)

lemma sum_list_less:
  fixes f g :: "'a \<Rightarrow> nat"
  assumes "\<forall>x \<in> set xs. f x \<le> g x" "\<exists>x \<in> set xs. f x < g x"
  shows "sum_list (map f xs) < sum_list (map g xs)"
  using assms
proof (induction xs)
  case (Cons x xs)
  have le: "sum_list (map f xs) \<le> sum_list (map g xs)" using Cons.prems(1) by (intro sum_list_mono) simp
  show ?case
  proof (cases "f x < g x")
    case True
    then show ?thesis using le by simp
  next
    case False
    then have "sum_list (map f xs) < sum_list (map g xs)" using Cons by auto
    then show ?thesis using Cons.prems(1) by (simp add: add_le_less_mono)
  qed
qed simp

lemma turn_progress:
  assumes q: "quiet tenants now (ws_rows s)" and t: "0 \<le> now" "now + retry_window \<le> max_time"
    and w: "worker_name w" and lim: "1 \<le> limit" "limit \<le> 1000" and secs: "5 \<le> seconds" "seconds \<le> 3600"
  shows "\<exists>jobs s'. run_turn now (\<lambda>_. False) tenants handler w (NInt limit) (NInt seconds) s = (s', Inr jobs) \<and>
    quiet tenants (now + retry_window) (ws_rows s') \<and> map row_id (ws_rows s') = map row_id (ws_rows s) \<and>
    (total_left (ws_rows s') < total_left (ws_rows s) \<or> (\<forall>r \<in> set (ws_rows s'). row_status r \<noteq> Pending))"
proof -
  let ?step = "row_attempt now w seconds handler"
  obtain S jobs s' where e:
    "run_turn now (\<lambda>_. False) tenants handler w (NInt limit) (NInt seconds) s = (s', Inr jobs)"
    "ws_rows s' = map (\<lambda>r. if row_id r \<in> S then ?step r else r) (ws_rows s)"
    "\<forall>r \<in> set (ws_rows s). row_id r \<in> S \<longrightarrow> row_status r = Pending"
    "S \<inter> row_id ` set (ws_rows s) = {} \<longrightarrow> (\<forall>r \<in> set (ws_rows s). row_status r \<noteq> Pending)"
    using turn_effect [OF q w lim secs, of handler] by (elim exE conjE) (rule that)
  have qr: "quiet_row tenants now r" if "r \<in> set (ws_rows s)" for r using q that by (simp add: quiet_def)
  have id: "row_id (?step r) = row_id r" for r by (simp add: row_attempt_def Let_def)
  have ids: "map row_id (ws_rows s') = map row_id (ws_rows s)" unfolding e(2) by (simp add: id o_def)
  have "quiet tenants (now + retry_window) (ws_rows s')"
  proof -
    have "quiet_row tenants (now + retry_window) (if row_id r \<in> S then ?step r else r)" if r: "r \<in> set (ws_rows s)" for r
      using attempt_quiet(1) [OF qr [OF r] _ t] quiet_later [OF qr [OF r], of "now + retry_window"] e(3) r
      by (simp add: retry_window_def)
    moreover have "distinct (map row_id (ws_rows s'))" unfolding ids using q by (simp add: quiet_def)
    ultimately show ?thesis unfolding quiet_def by (auto simp only: e(2) list.set_map ball_simps)
  qed
  moreover have "total_left (ws_rows s') < total_left (ws_rows s)" if "S \<inter> row_id ` set (ws_rows s) \<noteq> {}"
  proof -
    have "total_left (ws_rows s') = sum_list (map (\<lambda>r. attempts_left (if row_id r \<in> S then ?step r else r)) (ws_rows s))"
      by (simp add: total_left_def e(2) o_def)
    also have "\<dots> < total_left (ws_rows s)"
      unfolding total_left_def
    proof (rule sum_list_less)
      show "\<forall>r \<in> set (ws_rows s). attempts_left (if row_id r \<in> S then ?step r else r) \<le> attempts_left r"
        using attempt_quiet(2) [OF qr _ t] e(3) by (auto intro: less_imp_le)
      show "\<exists>r \<in> set (ws_rows s). attempts_left (if row_id r \<in> S then ?step r else r) < attempts_left r"
      proof -
        from that obtain i where "i \<in> S" "i \<in> row_id ` set (ws_rows s)" by blast
        then obtain r where r: "r \<in> set (ws_rows s)" "row_id r \<in> S" by (auto simp only: image_iff)
        with attempt_quiet(2) [OF qr [OF r(1)] _ t] e(3) show ?thesis by (intro bexI [of _ r]) simp_all
      qed
    qed
    finally show ?thesis .
  qed
  moreover have "\<forall>r \<in> set (ws_rows s'). row_status r \<noteq> Pending" if "S \<inter> row_id ` set (ws_rows s) = {}"
    using e(4) that by (auto simp: e(2))
  ultimately show ?thesis using e(1) ids by blast
qed

text \<open>The turns of one worker, the \<open>n\<close>-th at time \<open>t n\<close> with the handlers as they behave then.\<close>

primrec worker_turns ::
  "(nat \<Rightarrow> int) \<Rightarrow> platform_tenant list \<Rightarrow> (nat \<Rightarrow> durable_job \<Rightarrow> unit outcome) \<Rightarrow> string \<Rightarrow> int \<Rightarrow> int \<Rightarrow> worker_state
     \<Rightarrow> nat \<Rightarrow> worker_state" where
  "worker_turns t tenants handlers w limit seconds s 0 = s"
| "worker_turns t tenants handlers w limit seconds s (Suc n) =
     fst (run_turn (t n) (\<lambda>_. False) tenants (handlers n) w (NInt limit) (NInt seconds)
       (worker_turns t tenants handlers w limit seconds s n))"

lemma none_left: "\<forall>r \<in> set rows. row_status r \<noteq> Pending \<Longrightarrow> total_left rows = 0"
  by (induction rows) (auto simp: total_left_def attempts_left_def)

definition turn_times :: "(nat \<Rightarrow> int) \<Rightarrow> nat \<Rightarrow> bool" where
  "turn_times t n \<longleftrightarrow> (\<forall>k < n. 0 \<le> t k \<and> t k + retry_window \<le> t (Suc k) \<and> t k + retry_window \<le> max_time)"

lemma turns_progress:
  fixes handlers :: "nat \<Rightarrow> durable_job \<Rightarrow> unit outcome"
  assumes q: "quiet tenants (t 0) (ws_rows s)" and t: "turn_times t n"
    and w: "worker_name w" "1 \<le> limit" "limit \<le> 1000" "5 \<le> seconds" "seconds \<le> 3600"
  defines "rows k \<equiv> ws_rows (worker_turns t tenants handlers w limit seconds s k)"
  shows "quiet tenants (t n) (rows n) \<and> map row_id (rows n) = map row_id (ws_rows s) \<and>
    (total_left (rows n) + n \<le> total_left (ws_rows s) \<or> (\<forall>r \<in> set (rows n). row_status r \<noteq> Pending))"
  using t
proof (induction n)
  case 0
  then show ?case using q by (simp add: rows_def)
next
  case (Suc n)
  let ?s = "worker_turns t tenants handlers w limit seconds s n"
  have t: "0 \<le> t n" "t n + retry_window \<le> t (Suc n)" "t n + retry_window \<le> max_time" "turn_times t n"
    using Suc.prems by (auto simp: turn_times_def)
  have q: "quiet tenants (t n) (ws_rows ?s)" using Suc.IH [OF t(4)] by (simp add: rows_def)
  obtain jobs s' where e:
    "run_turn (t n) (\<lambda>_. False) tenants (handlers n) w (NInt limit) (NInt seconds) ?s = (s', Inr jobs)"
    "quiet tenants (t n + retry_window) (ws_rows s')" "map row_id (ws_rows s') = map row_id (ws_rows ?s)"
    "total_left (ws_rows s') < total_left (ws_rows ?s) \<or> (\<forall>r \<in> set (ws_rows s'). row_status r \<noteq> Pending)"
    using turn_progress [OF q t(1,3) w, of "handlers n"] by (elim exE conjE) (rule that)
  have rows': "rows (Suc n) = ws_rows s'" using e(1) by (simp add: rows_def)
  have "quiet tenants (t (Suc n)) (rows (Suc n))"
    using e(2) quiet_later [OF _ t(2)] unfolding rows' quiet_def by blast
  moreover have "map row_id (rows (Suc n)) = map row_id (ws_rows s)"
    unfolding rows' using e(3) Suc.IH [OF t(4)] by (simp add: rows_def)
  moreover have "total_left (rows (Suc n)) + Suc n \<le> total_left (ws_rows s) \<or>
      (\<forall>r \<in> set (rows (Suc n)). row_status r \<noteq> Pending)"
  proof (cases "\<forall>r \<in> set (ws_rows ?s). row_status r \<noteq> Pending")
    case True
    then show ?thesis using e(4) none_left [OF True] unfolding rows' by simp
  next
    case False
    then have "total_left (ws_rows ?s) + n \<le> total_left (ws_rows s)"
      using Suc.IH [OF t(4)] unfolding rows_def by blast
    then show ?thesis using e(4) unfolding rows' by linarith
  qed
  ultimately show ?case by blast
qed

section \<open>Lemmas: several workers\<close>

text \<open>What a step can make of a row: nothing, a fresh payload, a new lease, or what its owner does.\<close>

definition row_change :: "int \<Rightarrow> string option \<Rightarrow> job_row \<Rightarrow> job_row \<Rightarrow> bool" where
  "row_change now a r r' \<longleftrightarrow>
     r' = r \<or>
     (\<exists>payload. row_status r = Pending \<and> r' = r\<lparr>row_payload := payload\<rparr>) \<or>
     (\<exists>w seconds. a = Some w \<and> 5 \<le> seconds \<and> claimable now (row_tenant r) r \<and> r' = lease_row now w seconds r) \<or>
     (\<exists>w. a = Some w \<and> row_status r = Leased \<and> row_owner r = Some w \<and>
        row_ident r' = row_ident r \<and> row_type r' = row_type r \<and> row_key r' = row_key r \<and>
        row_attempts r' = row_attempts r \<and> row_maximum r' = row_maximum r \<and>
        (row_status r' = Leased \<and> row_owner r' = Some w \<and> row_lease r' \<noteq> None \<or>
         row_status r' \<noteq> Leased \<and> row_owner r' = None \<and> row_lease r' = None))"

lemma row_change_refl [simp]: "row_change now a r r"
  by (simp add: row_change_def)

lemma collect_claimed_memory:
  "collect_claimed c rs = (c', res) \<Longrightarrow> i \<notin> row_id ` set rs \<Longrightarrow> c' i = c i"
proof (induction rs arbitrary: c c' res)
  case (Cons r rs)
  obtain d x where rest: "collect_claimed (c(row_id r \<mapsto> row_tenant r)) rs = (d, x)" by force
  have "d i = c i" using Cons.IH [OF rest] Cons.prems(2) by simp
  then show ?case using Cons.prems rest by (auto simp: Let_def split: sum.splits)
qed simp

lemma claims_lease:
  assumes "claim_tenants now locked w limit seconds tenants jobs s = (s', res)"
    and w: "worker_name w" "limit \<le> 1000" "5 \<le> seconds" "seconds \<le> 3600"
    and ids: "distinct (map row_id (ws_rows s))"
  shows "\<exists>S. ws_rows s' = lease_chosen now w seconds S (ws_rows s) \<and>
    (\<forall>r \<in> set (ws_rows s). row_id r \<in> S \<longrightarrow> claimable now (row_tenant r) r) \<and>
    (\<forall>i. i \<notin> S \<longrightarrow> ws_claimed s' i = ws_claimed s i)"
  using assms(1) ids
proof (induction tenants arbitrary: jobs s)
  case Nil
  then show ?case by (intro exI [of _ "{}"]) (auto simp: lease_chosen_def)
next
  case (Cons t ts)
  show ?case
  proof (cases "int (length jobs) \<ge> limit")
    case True
    then show ?thesis using Cons.prems by (intro exI [of _ "{}"]) (auto simp: lease_chosen_def)
  next
    case False
    define left where "left = limit - int (length jobs)"
    have left: "1 \<le> left" "left \<le> 1000" using False w(2) by (simp_all add: left_def)
    obtain S where S: "claim_durable_jobs now locked t w left seconds (ws_rows s) =
        Inr (lease_chosen now w seconds S (ws_rows s), map (lease_row now w seconds) (filter (\<lambda>r. row_id r \<in> S) (ws_rows s)))"
      "\<And>r. r \<in> set (ws_rows s) \<Longrightarrow> row_id r \<in> S \<Longrightarrow> claimable now t r"
      using claim_one [OF Cons.prems(2) w(1) left w(3,4), of now locked t] by metis
    then have claim: "row_id r \<in> S \<longrightarrow> claimable now (row_tenant r) r" if "r \<in> set (ws_rows s)" for r
      using that by (auto simp: claimable_def)
    obtain c r where c: "collect_claimed (ws_claimed s)
        (map (lease_row now w seconds) (filter (\<lambda>r. row_id r \<in> S) (ws_rows s))) = (c, r)" by force
    have mem: "c i = ws_claimed s i" if "i \<notin> S" for i
      using collect_claimed_memory [OF c, of i] that by force
    let ?s1 = "s\<lparr>ws_rows := lease_chosen now w seconds S (ws_rows s), ws_claimed := c\<rparr>"
    show ?thesis
    proof (cases r)
      case (Inl e)
      then have "s' = ?s1" using Cons.prems(1) False S(1) c by (simp add: left_def)
      then show ?thesis using claim mem by (intro exI [of _ S]) simp
    next
      case (Inr js)
      then have rest: "claim_tenants now locked w limit seconds ts (jobs @ js) ?s1 = (s', res)"
        using Cons.prems(1) False S(1) c by (simp add: left_def)
      then obtain T where T: "ws_rows s' = lease_chosen now w seconds T (ws_rows ?s1)"
        "\<forall>r \<in> set (ws_rows ?s1). row_id r \<in> T \<longrightarrow> claimable now (row_tenant r) r"
        "\<forall>i. i \<notin> T \<longrightarrow> ws_claimed s' i = c i"
        using Cons.IH [OF rest] Cons.prems(2) by (auto simp: lease_chosen_fields)
      have apart: "row_id r \<notin> T" if "r \<in> set (ws_rows s)" "row_id r \<in> S" for r
      proof
        assume t: "row_id r \<in> T"
        have "lease_row now w seconds r \<in> set (ws_rows ?s1)" using that by (auto simp: lease_chosen_set)
        from bspec [OF T(2) this] t have "claimable now (row_tenant r) (lease_row now w seconds r)" by simp
        then show False using leased_not_claimable [of seconds] w(3) by simp
      qed
      have "row_id r \<in> S \<union> T \<longrightarrow> claimable now (row_tenant r) r" if r: "r \<in> set (ws_rows s)" for r
      proof
        assume "row_id r \<in> S \<union> T"
        moreover have "r \<in> set (ws_rows ?s1)" if "row_id r \<in> T"
          using apart [OF r] r that by (auto simp: lease_chosen_set)
        ultimately show "claimable now (row_tenant r) r" using claim [OF r] T(2) by blast
      qed
      moreover have "ws_rows s' = lease_chosen now w seconds (S \<union> T) (ws_rows s)"
        using T(1) lease_chosen_union [OF apart] by simp
      moreover have "\<forall>i. i \<notin> S \<union> T \<longrightarrow> ws_claimed s' i = ws_claimed s i" using T(3) mem by simp
      ultimately show ?thesis by blast
    qed
  qed
qed

lemma row_change_update:
  assumes "\<And>r. held_by tenant i w r \<Longrightarrow> row_change now (Some w) r (f r)"
  shows "list_all2 (row_change now (Some w)) rows (update_held tenant i w f rows)"
  using assms by (induction rows) (auto simp: update_held_def)

lemma row_change_updated:
  assumes "update_held tenant i w f rows = rows'" "\<And>r. held_by tenant i w r \<Longrightarrow> row_change now (Some w) r (f r)"
  shows "list_all2 (row_change now (Some w)) rows rows'"
  unfolding assms(1) [symmetric] by (rule row_change_update) (rule assms(2))

lemma updateJob_rows: "updateJob i w work s = Inr s' \<Longrightarrow> work (ws_rows s) = Inr (ws_rows s')"
  by (auto simp: updateJob_def throw_def bindR_Inr_iff split: if_splits)

lemma forget_rows [simp]: "ws_rows (forget i s) = ws_rows s"
  by (simp add: forget_def)

lemma settle_change:
  assumes "complete i w s = Inr v \<or> retry i w next e s = Inr v \<or> deadLetter i w e s = Inr v"
  shows "list_all2 (row_change now (Some w)) (ws_rows s) (ws_rows v)"
  using assms
  by (elim disjE)
    (auto simp: complete_def retry_def deadLetter_def bindR_Inr_iff held_by_def row_change_def row_ident_def release_def
      dest!: updateJob_rows elim!: row_change_updated)

lemma heartbeat_change:
  assumes "heartbeat now i w seconds s = Inr v"
  shows "list_all2 (row_change now (Some w)) (ws_rows s) (ws_rows v)"
  using assms
  by (auto simp: heartbeat_def throw_def bindR_Inr_iff held_by_def row_change_def row_ident_def
      dest!: updateJob_rows elim!: row_change_updated split: if_splits)

lemma lease_change:
  assumes "\<forall>r \<in> set rows. row_id r \<in> S \<longrightarrow> claimable now (row_tenant r) r" "5 \<le> seconds"
  shows "list_all2 (row_change now (Some w)) rows (lease_chosen now w seconds S rows)"
  using assms by (induction rows) (auto simp: lease_chosen_def row_change_def)

lemma claim_change:
  assumes "claim now locked tenants w limit seconds s = (v, res)" "distinct (map row_id (ws_rows s))"
  shows "list_all2 (row_change now (Some w)) (ws_rows s) (ws_rows v)"
proof (cases "validateClaim w limit seconds")
  case (Inl e)
  then show ?thesis using assms(1) by (simp add: claim_def list_all2_refl)
next
  case (Inr u)
  then have valid: "worker_name w" "num_int limit \<le> 1000" "5 \<le> num_int seconds" "num_int seconds \<le> 3600"
    by (cases limit; cases seconds; simp add: validateClaim_def throw_def worker_name_def split: if_splits)+
  have "claim_tenants now locked w (num_int limit) (num_int seconds) (claimableTenantIds tenants) [] s = (v, res)"
    using assms(1) Inr by (simp add: claim_def)
  from claims_lease [OF this valid assms(2)] show ?thesis using lease_change valid(3) by metis
qed

text \<open>Every step changes each row as \<open>row_change\<close> allows; the API may add a pending row at the end.\<close>

definition fresh_row :: "job_row list \<Rightarrow> job_row \<Rightarrow> bool" where
  "fresh_row rows r \<longleftrightarrow> row_status r = Pending \<and> row_attempts r = 0 \<and> row_maximum r = 10 \<and>
     row_owner r = None \<and> row_lease r = None \<and> row_id r \<notin> row_id ` set rows \<and>
     (\<forall>x \<in> set rows. \<not> enqueue_conflict (row_tenant r) (row_type r) (row_key r) x)"

definition table_change :: "int \<Rightarrow> string option \<Rightarrow> job_row list \<Rightarrow> job_row list \<Rightarrow> bool" where
  "table_change now a rows rows' \<longleftrightarrow> list_all2 (row_change now a) rows rows' \<or>
     (\<exists>r. rows' = rows @ [r] \<and> fresh_row rows r)"

lemma enqueue_change:
  assumes "enqueue now fresh tenant type key payload rows = Inr (rows', i)" "fresh \<notin> row_id ` set rows"
  shows "table_change now a rows rows'"
proof (cases "find (enqueue_conflict tenant type key) rows")
  case None
  then have "rows' = rows @ [\<lparr>row_tenant = tenant, row_id = fresh, row_type = type, row_payload = payload,
        row_key = key, row_status = Pending, row_available = now, row_attempts = 0, row_maximum = 10,
        row_owner = None, row_lease = None, row_error = None, row_created = now\<rparr>]"
    using assms(1) by (auto simp: enqueue_def throw_def split: if_splits)
  then show ?thesis using None assms(2) by (auto simp: table_change_def fresh_row_def find_None_iff)
next
  case (Some old)
  then have "rows' = map (\<lambda>r. if enqueue_conflict tenant type key r \<and> row_status r = Pending
      then r\<lparr>row_payload := payload\<rparr> else r) rows"
    using assms(1) by (auto simp: enqueue_def throw_def split: if_splits)
  then have "list_all2 (row_change now a) rows rows'"
    by (auto simp: list_all2_conv_all_nth row_change_def)
  then show ?thesis by (simp add: table_change_def)
qed

lemma step_change:
  assumes "queue_step s a s'" "distinct (map row_id (qs_rows s))"
  shows "table_change (qs_now s) a (qs_rows s) (qs_rows s')"
  using assms(1)
proof cases
  case (enqueues fresh tenant type key payload rows jobId)
  then show ?thesis using enqueue_change by simp
next
  case (claims locked tenants w limit seconds v res)
  then show ?thesis using claim_change [OF claims(3)] assms(2)
    by (simp add: worker_view_def worker_put_def table_change_def)
next
  case (beats jobId w seconds v)
  then show ?thesis using heartbeat_change [OF beats(3)]
    by (simp add: worker_view_def worker_put_def table_change_def)
next
  case (completes jobId w v)
  then show ?thesis using settle_change [of jobId w "worker_view s w" v]
    by (simp add: worker_view_def worker_put_def table_change_def)
next
  case (retries jobId w later error v)
  then show ?thesis using settle_change [of jobId w "worker_view s w" v later error]
    by (simp add: worker_view_def worker_put_def table_change_def)
next
  case (buries jobId w error v)
  then show ?thesis using settle_change [of jobId w "worker_view s w" v undefined error]
    by (simp add: worker_view_def worker_put_def table_change_def)
qed (simp_all add: table_change_def list_all2_refl)

definition row_sane :: "job_row \<Rightarrow> bool" where
  "row_sane r \<longleftrightarrow> 0 \<le> row_attempts r \<and> row_attempts r \<le> row_maximum r \<and>
     (row_status r = Leased \<longleftrightarrow> row_owner r \<noteq> None) \<and> (row_status r = Leased \<longleftrightarrow> row_lease r \<noteq> None)"

definition row_unique :: "job_row \<Rightarrow> string \<times> string \<times> string" where
  "row_unique r = (row_tenant r, row_type r, row_key r)"

definition table_sane :: "job_row list \<Rightarrow> bool" where
  "table_sane rows \<longleftrightarrow> distinct (map row_id rows) \<and> distinct (map row_unique rows) \<and> (\<forall>r \<in> set rows. row_sane r)"

definition settled :: "job_row \<Rightarrow> bool" where
  "settled r \<longleftrightarrow> row_status r = Completed \<or> row_status r = Dead_letter"

text \<open>What a row has become: the same job, with at least as many attempts, final once settled.\<close>

definition row_later :: "job_row \<Rightarrow> job_row \<Rightarrow> bool" where
  "row_later r r' \<longleftrightarrow> row_id r' = row_id r \<and> row_unique r' = row_unique r \<and> row_maximum r' = row_maximum r \<and>
     row_attempts r \<le> row_attempts r' \<and> (settled r \<longrightarrow> r' = r)"

lemma row_later_refl [simp]: "row_later r r"
  by (simp add: row_later_def)

lemma row_later_trans: "row_later a b \<Longrightarrow> row_later b c \<Longrightarrow> row_later a c"
  by (auto simp: row_later_def)

lemma row_change_keeps:
  assumes "row_change now a r r'" "row_sane r"
  shows "row_later r r' \<and> row_sane r'"
  using assms(1) unfolding row_change_def
proof (elim disjE exE conjE)
  assume "r' = r"
  then show ?thesis using assms(2) by simp
next
  fix payload
  assume "row_status r = Pending" "r' = r\<lparr>row_payload := payload\<rparr>"
  then show ?thesis using assms(2) by (auto simp: row_later_def row_sane_def row_unique_def settled_def)
next
  fix w seconds
  assume "claimable now (row_tenant r) r" "r' = lease_row now w seconds r"
  then show ?thesis using assms(2)
    by (auto simp: row_later_def row_sane_def row_unique_def settled_def lease_row_def claimable_def)
next
  assume "row_status r = Leased" "row_ident r' = row_ident r" "row_type r' = row_type r" "row_key r' = row_key r"
    "row_attempts r' = row_attempts r" "row_maximum r' = row_maximum r"
    "row_status r' \<noteq> Leased" "row_owner r' = None" "row_lease r' = None"
  then show ?thesis using assms(2)
    by (simp add: row_later_def row_sane_def row_unique_def settled_def row_ident_def)
next
  fix w
  assume "row_status r = Leased" "row_ident r' = row_ident r" "row_type r' = row_type r" "row_key r' = row_key r"
    "row_attempts r' = row_attempts r" "row_maximum r' = row_maximum r"
    "row_status r' = Leased" "row_owner r' = Some w" "row_lease r' \<noteq> None"
  then show ?thesis using assms(2)
    by (simp add: row_later_def row_sane_def row_unique_def settled_def row_ident_def)
qed

lemma table_change_keeps:
  assumes "table_change now a rows rows'" "table_sane rows"
  shows "table_sane rows'"
proof -
  consider "list_all2 (row_change now a) rows rows'" | r where "rows' = rows @ [r]" "fresh_row rows r"
    using assms(1) by (auto simp: table_change_def)
  then show ?thesis
  proof cases
    case 1
    then have "list_all2 (\<lambda>r r'. row_id r' = row_id r \<and> row_unique r' = row_unique r \<and> row_sane r') rows rows'"
      using assms(2) row_change_keeps
      by (induction rows rows' rule: list_all2_induct) (simp_all add: table_sane_def row_later_def)
    then have "map row_id rows' = map row_id rows \<and> map row_unique rows' = map row_unique rows \<and> (\<forall>r \<in> set rows'. row_sane r)"
      by (induction rows rows' rule: list_all2_induct) auto
    then show ?thesis using assms(2) by (simp add: table_sane_def)
  next
    case 2
    then show ?thesis using assms(2)
      by (auto simp: table_sane_def fresh_row_def row_unique_def row_sane_def enqueue_conflict_def)
  qed
qed

lemma table_change_later:
  assumes "table_change now a rows rows'" "table_sane rows" "r \<in> set rows"
  shows "\<exists>r' \<in> set rows'. row_later r r'"
proof -
  have "list_all2 (row_change now a) rows rows' \<or> r \<in> set rows'"
    using assms(1,3) by (auto simp: table_change_def)
  then show ?thesis
  proof
    assume "list_all2 (row_change now a) rows rows'"
    then obtain r' where "r' \<in> set rows'" "row_change now a r r'"
      using assms(3) list_all2_in_left by metis
    then show ?thesis using row_change_keeps [of now a r r'] assms(2,3) by (auto simp: table_sane_def)
  qed (use row_later_refl in blast)
qed

lemma run_keeps:
  assumes "queue_run s s'" "table_sane (qs_rows s)"
  shows "table_sane (qs_rows s') \<and> (\<forall>r \<in> set (qs_rows s). \<exists>r' \<in> set (qs_rows s'). row_later r r')"
  using assms
proof (induction rule: queue_run.induct)
  case (stop s)
  then show ?case using row_later_refl by blast
next
  case (more s s' a s'')
  have sane: "table_sane (qs_rows s')" using more by blast
  have "table_change (qs_now s') a (qs_rows s') (qs_rows s'')"
    using step_change [OF more(2)] sane by (simp add: table_sane_def)
  with sane table_change_keeps table_change_later row_later_trans more.IH [OF more.prems] show ?case by meson
qed

lemma list_ex_update: "r \<in> set rows \<Longrightarrow> \<not> held_by t i w r \<Longrightarrow> r \<in> set (update_held t i w f rows)"
  by (force simp: update_held_def)

text \<open>An operation of a process that does not remember the job leaves its row alone.\<close>

lemma other_worker_settles:
  assumes "complete i w s = Inr v \<or> retry i w later e s = Inr v \<or> deadLetter i w e s = Inr v"
    and "r \<in> set (ws_rows s)" "row_owner r \<noteq> Some w \<or> ws_claimed s (row_id r) = None"
  shows "r \<in> set (ws_rows v) \<and> (ws_claimed s (row_id r) = None \<longrightarrow> ws_claimed v (row_id r) = None)"
proof -
  obtain tenant f s1 where u: "requiredClaimedTenant (ws_claimed s) i = Inr tenant"
    "updateJob i w (\<lambda>rows. Inr (update_held tenant i w f rows)) s = Inr s1" "v = forget i s1"
    using assms(1) by (auto simp: complete_def retry_def deadLetter_def bindR_Inr_iff)
  have s1: "s1 = s\<lparr>ws_rows := update_held tenant i w f (ws_rows s)\<rparr>"
    using u(2) by (auto simp: updateJob_def throw_def split: if_splits)
  have "ws_claimed s i \<noteq> None" using u(1) by (auto simp: requiredClaimedTenant_def falsy_def throw_def split: if_splits)
  then have "\<not> held_by tenant i w r" using assms(3) by (auto simp: held_by_def)
  from list_ex_update [OF assms(2) this, of f] show ?thesis by (simp add: u(3) s1 forget_def)
qed

lemma other_worker_beats:
  assumes "heartbeat now i w seconds s = Inr v"
    and "r \<in> set (ws_rows s)" "row_owner r \<noteq> Some w \<or> ws_claimed s (row_id r) = None"
  shows "r \<in> set (ws_rows v) \<and> ws_claimed v = ws_claimed s"
proof -
  obtain tenant f where u: "requiredClaimedTenant (ws_claimed s) i = Inr tenant"
    "v = s\<lparr>ws_rows := update_held tenant i w f (ws_rows s)\<rparr>"
    using assms(1)
    by (auto simp: heartbeat_def bindR_Inr_iff updateJob_def throw_def split: if_splits)
  have "ws_claimed s i \<noteq> None" using u(1) by (auto simp: requiredClaimedTenant_def falsy_def throw_def split: if_splits)
  then have "\<not> held_by tenant i w r" using assms(3) by (auto simp: held_by_def)
  from list_ex_update [OF assms(2) this, of f] show ?thesis by (simp add: u(2))
qed

lemma unclaimable_kept:
  assumes "claim now locked tenants w limit seconds s = (v, res)" "distinct (map row_id (ws_rows s))"
    and "r \<in> set (ws_rows s)" "\<not> claimable now (row_tenant r) r"
  shows "r \<in> set (ws_rows v) \<and> ws_claimed v (row_id r) = ws_claimed s (row_id r)"
proof (cases "validateClaim w limit seconds")
  case (Inl e)
  then show ?thesis using assms(1,3) by (simp add: claim_def)
next
  case (Inr u)
  then have valid: "worker_name w" "num_int limit \<le> 1000" "5 \<le> num_int seconds" "num_int seconds \<le> 3600"
    by (cases limit; cases seconds; simp add: validateClaim_def throw_def worker_name_def split: if_splits)+
  have "claim_tenants now locked w (num_int limit) (num_int seconds) (claimableTenantIds tenants) [] s = (v, res)"
    using assms(1) Inr by (simp add: claim_def)
  from claims_lease [OF this valid assms(2)] obtain S where
    S: "ws_rows v = lease_chosen now w (num_int seconds) S (ws_rows s)" "row_id r \<notin> S"
      "\<forall>i. i \<notin> S \<longrightarrow> ws_claimed v i = ws_claimed s i"
    using assms(3,4) by blast
  then show ?thesis using assms(3) by (auto simp: lease_chosen_set)
qed

definition abandoned :: "job_row \<Rightarrow> queue_state \<Rightarrow> bool" where
  "abandoned r s \<longleftrightarrow> r \<in> set (qs_rows s) \<and> row_status r = Leased \<and> row_maximum r \<le> row_attempts r \<and>
     (\<forall>w. row_owner r = Some w \<longrightarrow> qs_claimed s w (row_id r) = None)"

lemma enqueue_keeps:
  assumes "enqueue now fresh tenant type key payload rows = Inr (rows', i)" "r \<in> set rows" "row_status r \<noteq> Pending"
  shows "r \<in> set rows'"
  using assms by (force simp: enqueue_def throw_def split: if_splits option.splits)

lemma step_abandoned:
  assumes "queue_step s a s'" "distinct (map row_id (qs_rows s))" "abandoned r s"
  shows "abandoned r s'"
  using assms(1)
proof cases
  case (tick now)
  then show ?thesis using assms(3) by (simp add: abandoned_def)
next
  case (enqueues fresh tenant type key payload rows jobId)
  then show ?thesis using assms(3) enqueue_keeps [OF enqueues(3)] by (simp add: abandoned_def)
next
  case (restarts w)
  then show ?thesis using assms(3) by (simp add: abandoned_def)
next
  case (claims locked tenants w limit seconds v res)
  have "\<not> claimable (qs_now s) (row_tenant r) r" using assms(3) by (simp add: abandoned_def claimable_def)
  then show ?thesis using unclaimable_kept [OF claims(3), of r] assms(2,3) claims(2)
    by (simp add: abandoned_def worker_view_def worker_put_def)
next
  case (beats jobId w seconds v)
  then show ?thesis using other_worker_beats [OF beats(3), of r] assms(3)
    by (auto simp: abandoned_def worker_view_def worker_put_def)
next
  case (completes jobId w v)
  then show ?thesis using other_worker_settles [of jobId w "worker_view s w" v _ _ r] assms(3)
    by (auto simp: abandoned_def worker_view_def worker_put_def)
next
  case (retries jobId w later error v)
  then show ?thesis using other_worker_settles [of jobId w "worker_view s w" v later error r] assms(3)
    by (auto simp: abandoned_def worker_view_def worker_put_def)
next
  case (buries jobId w error v)
  then show ?thesis using other_worker_settles [of jobId w "worker_view s w" v _ error r] assms(3)
    by (auto simp: abandoned_def worker_view_def worker_put_def)
qed

lemma run_abandoned:
  assumes "queue_run s s'" "table_sane (qs_rows s)" "abandoned r s"
  shows "abandoned r s'"
  using assms
proof (induction rule: queue_run.induct)
  case (more s s' a s'')
  then show ?case using step_abandoned [OF more(2)] run_keeps [OF more(1)] by (auto simp: table_sane_def)
qed simp

section \<open>Properties\<close>


definition sample_row :: "string \<Rightarrow> string \<Rightarrow> int \<Rightarrow> job_row" where
  "sample_row jobId type maximum =
     \<lparr>row_tenant = platform_job_tenant, row_id = jobId, row_type = type, row_payload = JNull,
      row_key = jobId, row_status = Pending, row_available = 0, row_attempts = 0, row_maximum = maximum,
      row_owner = None, row_lease = None, row_error = None, row_created = 0\<rparr>"

definition sample_jobs :: "job_row list" where
  "sample_jobs = [sample_row ''00000000-0000-0000-0000-000000000001'' ''EMAIL_SEND'' 2,
                  sample_row ''00000000-0000-0000-0000-000000000002'' ''CASE_EXPIRE'' 1]"




text \<open>Leases are exclusive: while a worker's lease on a job lasts, no step of another
  worker, of the clock or of the API changes the job's row; a worker that lost its lease to
  another one can no longer complete, retry or bury the job.\<close>

theorem lease_exclusive:
  assumes "queue_step s a s'" "table_sane (qs_rows s)" "r \<in> set (qs_rows s)"
    and "row_status r = Leased" "row_owner r = Some w" "row_lease r = Some until" "qs_now s \<le> until"
    and "a \<noteq> Some w"
  shows "r \<in> set (qs_rows s')"
proof -
  have "table_change (qs_now s) a (qs_rows s) (qs_rows s')"
    using step_change [OF assms(1)] assms(2) by (simp add: table_sane_def)
  then consider "list_all2 (row_change (qs_now s) a) (qs_rows s) (qs_rows s')" | "r \<in> set (qs_rows s')"
    using assms(3) by (auto simp: table_change_def)
  then show ?thesis
  proof cases
    case 1
    then obtain r' where "r' \<in> set (qs_rows s')" "row_change (qs_now s) a r r'"
      using assms(3) list_all2_in_left by metis
    moreover have "\<not> claimable (qs_now s) (row_tenant r) r" using assms(4,6,7) by (simp add: claimable_def)
    ultimately show ?thesis using assms(4,5,8) by (simp add: row_change_def)
  qed
qed

definition leased_row :: "int \<Rightarrow> job_row" where
  "leased_row maximum = lease_row 0 ''worker-1'' 60 (sample_row ''00000000-0000-0000-0000-000000000001'' ''EMAIL_SEND'' maximum)"

lemma lease_exclusive_witness:
  "leased_row 2 \<in> set (qs_rows (\<lparr>qs_now = 0, qs_rows = [leased_row 2], qs_claimed = (\<lambda>_ _. None)\<rparr>\<lparr>qs_now := 9\<rparr>))"
  by (rule lease_exclusive [where a = None and w = "''worker-1''" and until = 60000, OF queue_step.tick])
    (simp_all add: table_sane_def row_sane_def leased_row_def lease_row_def sample_row_def)

text \<open>A job is lost when its worker dies during the last attempt: the row stays leased
  with its attempts exhausted, no process remembers it, and in every later state the row is still
  the same. It is never claimed again, never completed and never put in the dead letter state.\<close>

theorem dead_worker_strands_last_attempt:
  assumes "queue_run s s'" "table_sane (qs_rows s)" "r \<in> set (qs_rows s)"
    and "row_status r = Leased" "row_attempts r = row_maximum r"
    and "row_owner r = Some w" "qs_claimed s w = (\<lambda>_. None)"
  shows "r \<in> set (qs_rows s') \<and> \<not> claimable (qs_now s') (row_tenant r) r"
proof -
  have "abandoned r s" using assms(3-) by (simp add: abandoned_def)
  from run_abandoned [OF assms(1,2) this] show ?thesis using assms(5) by (simp add: abandoned_def claimable_def)
qed

lemma dead_worker_strands_last_attempt_witness:
  "leased_row 1 \<in> set (qs_rows \<lparr>qs_now = 99999999, qs_rows = [leased_row 1], qs_claimed = (\<lambda>_ _. None)\<rparr>) \<and>
   \<not> claimable 99999999 (row_tenant (leased_row 1)) (leased_row 1)"
proof -
  let ?s = "\<lparr>qs_now = 0, qs_rows = [leased_row 1], qs_claimed = (\<lambda>_ _. None)\<rparr>"
  have "queue_run ?s (?s\<lparr>qs_now := 99999999\<rparr>)"
    by (rule queue_run.more [OF queue_run.stop queue_step.tick]) simp
  from dead_worker_strands_last_attempt [OF this, of "leased_row 1" "''worker-1''"] show ?thesis
    by (simp add: table_sane_def row_sane_def leased_row_def lease_row_def sample_row_def)
qed

text \<open>The retry delay stays in its window: the next attempt is between half the
  exponential base and the whole of it away, the base being at least one second and at most 1024,
  for every job identifier and number of attempts, rounding of the arithmetic included.\<close>

theorem retry_delay_window:
  assumes "0 \<le> now" "now \<le> max_time"
  shows "now + 500 * retryDelaySeconds a \<le> retry_time now j a \<and>
    retry_time now j a \<le> now + 1000 * retryDelaySeconds a \<and>
    1 \<le> retryDelaySeconds a \<and> retryDelaySeconds a \<le> 1024"
  using retry_time_window [OF assms] retryDelay_bounds [of a] by blast

lemma retry_delay_window_witness: "retry_time 0 ''job'' 3 \<le> 4000 \<and> 2000 \<le> retry_time 0 ''job'' 3"
  using retry_delay_window [of 0 3 "''job''"] by (simp add: max_time_def retryDelaySeconds_def)

end
