(* ===== verification/Authorization.thy ===== *)
theory Authorization
  imports Prelude
begin

text \<open>
  Roles and permissions (\<open>packages/authorization/src/index.ts\<close>). Tenant roles and platform
  roles have separate permission types, so a platform permission can never be asked of a tenant
  role. The locale \<open>role_table\<close> is the contract both checks share; it is interpreted on
  the two tables of the package.
\<close>

section \<open>Roles and permissions\<close>

datatype platform_role =
    Platform_super_admin | Platform_security_admin | Platform_operations
  | Platform_support | Platform_auditor | Onboarding_manager
  | Onboarding_case_worker | Commercial_reviewer | Legal_reviewer
  | Security_reviewer | Technical_reviewer | Provisioning_operator
  | Activation_approver

datatype tenant_role =
    Tenant_admin | Tenant_security_admin | Tenant_integration_admin
  | Tenant_archive_admin | Department_admin | Document_creator
  | Document_sender | Approver | Auditor | Readonly

datatype platform_permission =
    Onboarding_read | Onboarding_assign | Onboarding_review
  | Onboarding_request_information | Onboarding_decide | Onboarding_provision
  | Tenant_readiness | Tenant_activation_request | Tenant_activation_approve
  | Organization_read | Organization_create | Organization_user_manage | Platform_audit_read

datatype permission =
    Case_create | Case_send | Case_cancel | Case_read | Case_remind
  | Document_add | Document_download | Signer_add | Signer_personnummer_binding_exempt | Upload_create
  | Validation_read | Evidence_download
  | Policy_manage | Integration_manage | Webhook_manage
  | Event_read | Template_read | Template_manage
  | Audit_read | Archive_manage | Tenant_manage
  | Retention_manage | Retention_execute
  | Privacy_manage | Privacy_execute
  | Protected_identity_assess

fun permissions :: "tenant_role \<Rightarrow> permission list" where
  "permissions Tenant_admin =
     [Case_create, Case_send, Case_cancel, Case_read, Case_remind,
      Document_add, Document_download, Signer_add, Signer_personnummer_binding_exempt, Upload_create,
      Validation_read, Evidence_download, Policy_manage, Integration_manage,
      Webhook_manage, Event_read, Template_read, Template_manage,
      Audit_read, Archive_manage, Tenant_manage, Retention_manage, Retention_execute,
      Privacy_manage, Privacy_execute, Protected_identity_assess]"
| "permissions Tenant_security_admin =
     [Case_read, Validation_read, Policy_manage, Audit_read, Event_read, Integration_manage,
      Retention_manage, Privacy_manage, Privacy_execute, Protected_identity_assess]"
| "permissions Tenant_integration_admin =
     [Case_create, Case_read, Document_add, Signer_add, Upload_create, Integration_manage,
      Webhook_manage, Event_read, Template_read]"
| "permissions Tenant_archive_admin =
     [Case_read, Document_download, Validation_read, Evidence_download, Archive_manage, Audit_read,
      Event_read, Retention_manage, Retention_execute]"
| "permissions Department_admin =
     [Case_create, Case_send, Case_cancel, Case_read, Case_remind, Document_add, Document_download,
      Signer_add, Upload_create, Validation_read, Evidence_download, Template_read]"
| "permissions Document_creator =
     [Case_create, Case_read, Document_add, Signer_add, Upload_create, Template_read]"
| "permissions Document_sender =
     [Case_create, Case_send, Case_cancel, Case_read, Case_remind, Document_add, Document_download,
      Signer_add, Upload_create, Validation_read, Evidence_download, Template_read]"
| "permissions Approver = [Case_read]"
| "permissions Auditor = [Case_read, Validation_read, Event_read, Audit_read]"
| "permissions Readonly = [Case_read, Template_read]"

definition hasPermission :: "tenant_role list \<Rightarrow> permission \<Rightarrow> bool" where
  "hasPermission roles permission = list_ex (\<lambda>role. permission \<in> set (permissions role)) roles"

datatype 'p denial = PermissionDenied 'p

definition requirePermission :: "tenant_role list \<Rightarrow> permission \<Rightarrow> (permission denial, unit) result" where
  "requirePermission roles permission =
     (if \<not> hasPermission roles permission then Inl (PermissionDenied permission) else Inr ())"

fun platformPermissions :: "platform_role \<Rightarrow> platform_permission list" where
  "platformPermissions Platform_super_admin =
     [Onboarding_read, Onboarding_assign, Onboarding_review, Onboarding_request_information,
      Onboarding_decide, Onboarding_provision, Tenant_readiness, Tenant_activation_request,
      Tenant_activation_approve, Organization_read, Organization_create, Organization_user_manage,
      Platform_audit_read]"
| "platformPermissions Platform_security_admin =
     [Onboarding_read, Onboarding_review, Tenant_readiness, Tenant_activation_approve, Platform_audit_read]"
| "platformPermissions Platform_operations =
     [Onboarding_read, Onboarding_assign, Onboarding_provision, Tenant_readiness,
      Tenant_activation_request, Organization_read, Platform_audit_read]"
| "platformPermissions Platform_support = [Onboarding_read, Onboarding_request_information]"
| "platformPermissions Platform_auditor = [Onboarding_read, Platform_audit_read]"
| "platformPermissions Onboarding_manager =
     [Onboarding_read, Onboarding_assign, Onboarding_review, Onboarding_request_information,
      Onboarding_decide, Onboarding_provision, Tenant_readiness, Tenant_activation_request,
      Organization_read, Platform_audit_read]"
| "platformPermissions Onboarding_case_worker =
     [Onboarding_read, Onboarding_assign, Onboarding_review, Onboarding_request_information]"
| "platformPermissions Commercial_reviewer = [Onboarding_read, Onboarding_review]"
| "platformPermissions Legal_reviewer = [Onboarding_read, Onboarding_review]"
| "platformPermissions Security_reviewer = [Onboarding_read, Onboarding_review, Tenant_readiness]"
| "platformPermissions Technical_reviewer = [Onboarding_read, Onboarding_review, Tenant_readiness]"
| "platformPermissions Provisioning_operator =
     [Onboarding_read, Onboarding_provision, Tenant_readiness, Tenant_activation_request, Organization_read]"
| "platformPermissions Activation_approver = [Onboarding_read, Tenant_readiness, Tenant_activation_approve]"

definition hasPlatformPermission :: "platform_role list \<Rightarrow> platform_permission \<Rightarrow> bool" where
  "hasPlatformPermission roles permission = list_ex (\<lambda>role. permission \<in> set (platformPermissions role)) roles"

definition requirePlatformPermission ::
  "platform_role list \<Rightarrow> platform_permission \<Rightarrow> (platform_permission denial, unit) result" where
  "requirePlatformPermission roles permission =
     (if \<not> hasPlatformPermission roles permission then Inl (PermissionDenied permission) else Inr ())"

section \<open>The contract of a permission check\<close>

text \<open>
  A table of grants, a check and a guard. A check grants what some role grants; the guard refuses
  exactly what the check does not grant.
\<close>

locale role_table =
  fixes grants :: "'r \<Rightarrow> 'p list"
    and has :: "'r list \<Rightarrow> 'p \<Rightarrow> bool"
    and require :: "'r list \<Rightarrow> 'p \<Rightarrow> ('p denial, unit) result"
  assumes has_iff: "has roles p \<longleftrightarrow> (\<exists>r \<in> set roles. p \<in> set (grants r))"
    and require_def: "require roles p = (if has roles p then Inr () else Inl (PermissionDenied p))"
begin

lemma empty_denied: "require [] p = Inl (PermissionDenied p)"
  by (simp add: require_def has_iff)

lemma mono: "set roles \<subseteq> set roles' \<Longrightarrow> has roles p \<Longrightarrow> has roles' p"
  by (auto simp: has_iff)

lemma combined: "has (roles @ roles') p \<longleftrightarrow> has roles p \<or> has roles' p"
  by (auto simp: has_iff)

lemma confined:
  assumes "\<And>r. r \<notin> R \<Longrightarrow> p \<notin> set (grants r)" and "require roles p = Inr ()"
  shows "\<exists>r \<in> set roles. r \<in> R"
  using assms by (auto simp: require_def has_iff split: if_splits)

end

interpretation tenant: role_table permissions hasPermission requirePermission
  by unfold_locales (auto simp: hasPermission_def requirePermission_def list_ex_iff)

interpretation platform: role_table platformPermissions hasPlatformPermission requirePlatformPermission
  by unfold_locales (auto simp: hasPlatformPermission_def requirePlatformPermission_def list_ex_iff)

section \<open>Properties\<close>

text \<open>Destroying data, setting aside the protection of a person and changing what a tenant
  is are confined to the roles made for them: gallring is executed by administrators of the tenant
  or its archive, a rights request is executed and a protected identity assessed by tenant or
  security administrators, and an exemption from the binding of a personal number and the tenant
  itself are managed by tenant administrators alone, whatever other roles are combined.\<close>

theorem destructive_permissions_confined:
  "(requirePermission roles Retention_execute = Inr () \<longrightarrow>
      Tenant_admin \<in> set roles \<or> Tenant_archive_admin \<in> set roles) \<and>
   (requirePermission roles Privacy_execute = Inr () \<or> requirePermission roles Protected_identity_assess = Inr () \<longrightarrow>
      Tenant_admin \<in> set roles \<or> Tenant_security_admin \<in> set roles) \<and>
   (requirePermission roles Signer_personnummer_binding_exempt = Inr () \<or> requirePermission roles Tenant_manage = Inr () \<longrightarrow>
      Tenant_admin \<in> set roles)"
proof -
  have "p \<notin> set (permissions r)"
    if "r \<notin> {Tenant_admin, Tenant_archive_admin} \<and> p = Retention_execute \<or>
      r \<notin> {Tenant_admin, Tenant_security_admin} \<and> (p = Privacy_execute \<or> p = Protected_identity_assess) \<or>
      r \<notin> {Tenant_admin} \<and> (p = Signer_personnummer_binding_exempt \<or> p = Tenant_manage)" for p r
    using that by (cases r) auto
  then show ?thesis
    using tenant.confined [of "{Tenant_admin, Tenant_archive_admin}" Retention_execute roles]
      tenant.confined [of "{Tenant_admin, Tenant_security_admin}" Privacy_execute roles]
      tenant.confined [of "{Tenant_admin, Tenant_security_admin}" Protected_identity_assess roles]
      tenant.confined [of "{Tenant_admin}" Signer_personnummer_binding_exempt roles]
      tenant.confined [of "{Tenant_admin}" Tenant_manage roles]
    by auto
qed

lemma destructive_permissions_confined_witness:
  "requirePermission [Document_sender, Tenant_security_admin] Retention_execute = Inl (PermissionDenied Retention_execute) \<and>
   requirePermission [Tenant_archive_admin] Retention_execute = Inr ()"
  using destructive_permissions_confined [of "[Document_sender, Tenant_security_admin]"]
  by (simp add: requirePermission_def hasPermission_def)

text \<open>The two sides of an activation are separate grants: only the super administrator can
  both request the activation of a tenant and approve it; every other combination of the two needs
  two different roles.\<close>

theorem activation_duties_separate:
  assumes "requirePlatformPermission [role] Tenant_activation_request = Inr ()"
    and "requirePlatformPermission [role] Tenant_activation_approve = Inr ()"
  shows "role = Platform_super_admin"
  using assms by (cases role) (auto simp: requirePlatformPermission_def hasPlatformPermission_def split: if_splits)

lemma activation_duties_separate_witness: "\<exists>role. role = Platform_super_admin"
  using activation_duties_separate [of Platform_super_admin]
  by (simp add: requirePlatformPermission_def hasPlatformPermission_def)

end
