(* ===== verification/Transitions.thy ===== *)
theory Transitions
  imports Prelude
begin

text \<open>
  Status machines given by a table of allowed successors and a guard that refuses every other
  move. The packages for onboarding and for custom domains both have this shape; the locale is
  their contract, its lemmas turn a check of the table into a statement on every history.
\<close>

text \<open>A history: statuses in order, each move allowed.\<close>

fun history :: "('s \<Rightarrow> 's list) \<Rightarrow> 's list \<Rightarrow> bool" where
  "history allowed (s # t # r) = (t \<in> set (allowed s) \<and> history allowed (t # r))"
| "history allowed _ = True"

text \<open>The statuses within \<open>n\<close> moves.\<close>

fun within :: "('s \<Rightarrow> 's list) \<Rightarrow> nat \<Rightarrow> 's \<Rightarrow> 's list" where
  "within allowed 0 s = [s]"
| "within allowed (Suc n) s = remdups (s # concat (map (within allowed n) (allowed s)))"

lemma within_history:
  "t \<in> set (within allowed n s) \<Longrightarrow> \<exists>hs. history allowed (s # hs) \<and> last (s # hs) = t"
proof (induction n arbitrary: s)
  case 0
  then show ?case by (intro exI [of _ "[]"]) simp
next
  case (Suc n)
  then consider "t = s" | u where "u \<in> set (allowed s)" "t \<in> set (within allowed n u)"
    by (auto simp only: within.simps set_remdups list.set_map set_concat list.set insert_iff UN_iff image_iff)
  then show ?case
  proof cases
    case 1
    then show ?thesis by (intro exI [of _ "[]"]) simp
  next
    case 2
    then obtain hs where "history allowed (u # hs)" "last (u # hs) = t" using Suc.IH by blast
    then show ?thesis using 2(1) by (intro exI [of _ "u # hs"]) simp
  qed
qed

locale transition_table =
  fixes allowed :: "'s \<Rightarrow> 's list"
    and guard :: "'s \<Rightarrow> 's \<Rightarrow> ('e, unit) result"
  assumes guard_iff: "guard s t = Inr () \<longleftrightarrow> t \<in> set (allowed s)"
begin

lemma terminal: "allowed s = [] \<Longrightarrow> guard s t \<noteq> Inr ()"
  by (simp add: guard_iff)

lemma history_closed:
  assumes "\<And>s t. P s \<Longrightarrow> t \<in> set (allowed s) \<Longrightarrow> P t" "history allowed (s # hs)" "P s"
  shows "\<forall>t \<in> set (s # hs). P t"
  using assms(2,3)
proof (induction hs arbitrary: s)
  case (Cons t hs)
  then have "\<forall>u \<in> set (t # hs). P u" using assms(1) [of s t] by (intro Cons.IH) simp_all
  then show ?case using Cons.prems by simp
qed simp

text \<open>
  A gate: when a set of statuses can only be left through \<open>gate\<close>, every history from inside it
  to a status outside has passed \<open>gate\<close>.
\<close>

lemma history_gate:
  assumes "\<And>s t. P s \<Longrightarrow> t \<in> set (allowed s) \<Longrightarrow> P t \<or> t = gate"
    and "history allowed (s # hs)" "P s" "\<not> P (last (s # hs))"
  shows "gate \<in> set hs"
  using assms(2-)
proof (induction hs arbitrary: s)
  case (Cons t hs)
  show ?case
  proof (cases "t = gate")
    case False
    then have "P t" using Cons.prems assms(1) by auto
    then show ?thesis using Cons.IH [of t] Cons.prems by simp
  qed simp
qed simp

end

end
