(* ===== verification/Onboarding.thy ===== *)
theory Onboarding
  imports Transitions Crypto_Encoding Js_Date
begin

text \<open>
  Onboarding of organisations (\<open>packages/onboarding/src/index.ts\<close>): the life cycle of an
  application, its reference, the verification of the applicant's e-mail address, organisation
  numbers and the two-person rule. SHA-256 and the random generator are arguments.
\<close>

unbundle bit_operations_syntax

section \<open>Statuses\<close>

datatype application_status =
    Draft | Email_verification_pending | Email_verified | Submitted
  | Under_initial_review | Additional_information_requested | Resubmitted
  | Commercial_review | Legal_review | Security_review | Technical_review
  | Approved | Rejected | Withdrawn | Provisioning | Provisioning_failed
  | Onboarding_active | Ready_for_acceptance_test | Acceptance_test_failed
  | Ready_for_activation | Active | Archived

definition application_statuses :: "application_status list" where
  "application_statuses =
     [Draft, Email_verification_pending, Email_verified, Submitted,
      Under_initial_review, Additional_information_requested, Resubmitted,
      Commercial_review, Legal_review, Security_review, Technical_review,
      Approved, Rejected, Withdrawn, Provisioning, Provisioning_failed,
      Onboarding_active, Ready_for_acceptance_test, Acceptance_test_failed,
      Ready_for_activation, Active, Archived]"

definition decision_pending_statuses :: "application_status list" where
  "decision_pending_statuses =
     [Submitted, Under_initial_review, Additional_information_requested, Resubmitted,
      Commercial_review, Legal_review, Security_review, Technical_review]"

definition approved_or_later_statuses :: "application_status list" where
  "approved_or_later_statuses =
     [Approved, Provisioning, Provisioning_failed, Onboarding_active,
      Ready_for_acceptance_test, Acceptance_test_failed, Ready_for_activation, Active]"

fun applicationTransitions :: "application_status \<Rightarrow> application_status list" where
  "applicationTransitions Draft = [Email_verification_pending, Withdrawn]"
| "applicationTransitions Email_verification_pending = [Email_verified, Withdrawn]"
| "applicationTransitions Email_verified = [Submitted, Withdrawn]"
| "applicationTransitions Submitted = [Under_initial_review, Approved, Rejected, Withdrawn]"
| "applicationTransitions Under_initial_review =
     [Additional_information_requested, Commercial_review, Legal_review, Security_review,
      Technical_review, Approved, Rejected, Withdrawn]"
| "applicationTransitions Additional_information_requested = [Resubmitted, Approved, Rejected, Withdrawn]"
| "applicationTransitions Resubmitted =
     [Under_initial_review, Commercial_review, Legal_review, Security_review, Technical_review,
      Approved, Rejected, Withdrawn]"
| "applicationTransitions Commercial_review =
     [Legal_review, Security_review, Technical_review, Additional_information_requested, Approved, Rejected]"
| "applicationTransitions Legal_review =
     [Commercial_review, Security_review, Technical_review, Additional_information_requested, Approved, Rejected]"
| "applicationTransitions Security_review =
     [Commercial_review, Legal_review, Technical_review, Additional_information_requested, Approved, Rejected]"
| "applicationTransitions Technical_review =
     [Commercial_review, Legal_review, Security_review, Additional_information_requested, Approved, Rejected]"
| "applicationTransitions Approved = [Provisioning, Archived]"
| "applicationTransitions Rejected = [Archived]"
| "applicationTransitions Withdrawn = [Archived]"
| "applicationTransitions Provisioning = [Provisioning_failed, Onboarding_active]"
| "applicationTransitions Provisioning_failed = [Provisioning, Rejected, Archived]"
| "applicationTransitions Onboarding_active = [Ready_for_acceptance_test, Archived]"
| "applicationTransitions Ready_for_acceptance_test = [Acceptance_test_failed, Ready_for_activation]"
| "applicationTransitions Acceptance_test_failed = [Onboarding_active, Ready_for_acceptance_test, Archived]"
| "applicationTransitions Ready_for_activation = [Active, Onboarding_active, Archived]"
| "applicationTransitions Active = [Archived]"
| "applicationTransitions Archived = []"

definition isApplicationDecisionPending :: "application_status \<Rightarrow> bool" where
  "isApplicationDecisionPending s = (s \<in> set decision_pending_statuses)"

definition isApplicationApprovedOrLater :: "application_status \<Rightarrow> bool" where
  "isApplicationApprovedOrLater s = (s \<in> set approved_or_later_statuses)"

definition canTransitionApplication :: "application_status \<Rightarrow> application_status \<Rightarrow> bool" where
  "canTransitionApplication from to = (to \<in> set (applicationTransitions from))"

datatype onboarding_error =
    Invalid_application_state_transition
  | Application_reference_year_invalid | Application_reference_sequence_invalid
  | Email_verification_expiry_invalid | Email_verification_revoked | Email_verification_already_used
  | Email_verification_expired | Email_verification_email_mismatch | Email_verification_token_invalid
  | Email_invalid | Organization_number_invalid | Approver_required | Two_person_approval_required
  | Random_token_invalid | Invalid_date

definition assertApplicationTransition ::
  "application_status \<Rightarrow> application_status \<Rightarrow> (onboarding_error, unit) result" where
  "assertApplicationTransition from to =
     (if \<not> canTransitionApplication from to then Inl Invalid_application_state_transition else Inr ())"

interpretation application: transition_table applicationTransitions assertApplicationTransition
  by unfold_locales (simp add: assertApplicationTransition_def canTransitionApplication_def)

section \<open>References\<close>

definition formatApplicationReference :: "jsnum \<Rightarrow> jsnum \<Rightarrow> (onboarding_error, string) result" where
  "formatApplicationReference year sequence =
     (if \<not> is_integer_num year \<or> num_less year 2020 \<or> num_greater year 9999
      then Inl Application_reference_year_invalid
      else if \<not> is_safe_integer sequence \<or> num_less sequence 1 \<or> num_greater sequence 999999
      then Inl Application_reference_sequence_invalid
      else Inr (''ONB-'' @ int_str (num_int year) @ ''-'' @ pad_num 6 (nat (num_int sequence))))"

section \<open>E-mail verification\<close>

text \<open>\<open>/^[^\s@]+@[^\s@]+\.[^\s@]+$/\<close>.\<close>

definition email_pattern :: "string \<Rightarrow> bool" where
  "email_pattern s =
     (let l = takeWhile (\<lambda>c. c \<noteq> CHR ''@'') s; d = drop (length l + 1) s
      in \<not> list_ex js_ws s \<and> l \<noteq> [] \<and> length l < length s \<and> CHR ''@'' \<notin> set d \<and>
         CHR ''.'' \<in> set (butlast (tl d)))"

definition normalizeEmail :: "string \<Rightarrow> (onboarding_error, string) result" where
  "normalizeEmail v =
     (let normalized = js_lower (js_trim v)
      in if length normalized > 254 \<or> \<not> email_pattern normalized then Inl Email_invalid else Inr normalized)"

definition normalizeOrganizationNumber :: "string \<Rightarrow> (onboarding_error, string) result" where
  "normalizeOrganizationNumber v =
     (let normalized = filter is_digit v
      in if length normalized \<noteq> 10 then Inl Organization_number_invalid else Inr normalized)"

definition assertDistinctApprovers :: "string \<Rightarrow> string \<Rightarrow> (onboarding_error, unit) result" where
  "assertDistinctApprovers initiatedBy approvedBy =
     (if initiatedBy = [] \<or> approvedBy = [] then Inl Approver_required
      else if initiatedBy = approvedBy then Inl Two_person_approval_required
      else Inr ())"

text \<open>\<open>charCodeAt\<close> beyond the end is \<open>NaN\<close>, which \<open>|| 0\<close> makes 0.\<close>

definition char_code_or_0 :: "string \<Rightarrow> nat \<Rightarrow> 32 word" where
  "char_code_or_0 s i = (if i < length s then of_nat (code (s ! i)) else 0)"

definition constantTimeHexEqual :: "string \<Rightarrow> string \<Rightarrow> bool" where
  "constantTimeHexEqual left right =
     (fold (\<lambda>i d. d OR (char_code_or_0 left i XOR char_code_or_0 right i))
        [0..<max (length left) (length right)]
        ((of_nat (length left) :: 32 word) XOR of_nat (length right)) = 0)"

record email_verification =
  ev_applicationId :: string
  ev_email :: string
  ev_tokenHash :: string
  ev_expiresAt :: string
  ev_createdAt :: string
  ev_usedAt :: "string option"
  ev_revokedAt :: "string option"

text \<open>
  \<open>Date.parse\<close> of an unreadable text is \<open>NaN\<close>, and every comparison with it is false.
\<close>

definition createEmailVerification ::
  "(byte list \<Rightarrow> byte list) \<Rightarrow> (nat \<Rightarrow> byte list) \<Rightarrow> string \<Rightarrow> string \<Rightarrow> string \<Rightarrow> int
     \<Rightarrow> (onboarding_error, string \<times> email_verification) result" where
  "createEmailVerification sha256 random applicationId email expiresAt now =
     bindR (normalizeEmail email) (\<lambda>normalizedEmail.
       if (case date_parse expiresAt of Some t \<Rightarrow> t \<le> now | None \<Rightarrow> False)
       then Inl Email_verification_expiry_invalid
       else bindR (mapErr (\<lambda>_. Random_token_invalid) (randomToken random (NInt 32))) (\<lambda>token.
         case to_iso now of
           None \<Rightarrow> Inl Invalid_date
         | Some created \<Rightarrow> Inr (token,
             \<lparr>ev_applicationId = applicationId, ev_email = normalizedEmail,
              ev_tokenHash = sha256Hex sha256 (TextInput token), ev_expiresAt = expiresAt,
              ev_createdAt = created, ev_usedAt = None, ev_revokedAt = None\<rparr>)))"

definition verifyEmailToken ::
  "(byte list \<Rightarrow> byte list) \<Rightarrow> email_verification \<Rightarrow> string \<Rightarrow> string \<Rightarrow> int \<Rightarrow> (onboarding_error, unit) result" where
  "verifyEmailToken sha256 record token email now =
     (if \<not> falsy (ev_revokedAt record) then Inl Email_verification_revoked
      else if \<not> falsy (ev_usedAt record) then Inl Email_verification_already_used
      else if (case date_parse (ev_expiresAt record) of Some t \<Rightarrow> now \<ge> t | None \<Rightarrow> False)
      then Inl Email_verification_expired
      else bindR (normalizeEmail email) (\<lambda>normalized.
        if ev_email record \<noteq> normalized then Inl Email_verification_email_mismatch
        else if \<not> constantTimeHexEqual (ev_tokenHash record) (sha256Hex sha256 (TextInput token))
        then Inl Email_verification_token_invalid
        else Inr ()))"


section \<open>Lemmas\<close>

lemma constantTimeHexEqual_iff:
  assumes "length l < 2 ^ 32" "length r < 2 ^ 32"
  shows "constantTimeHexEqual l r \<longleftrightarrow> l = r"
proof
  have len: "(of_nat (length l) :: 32 word) = of_nat (length r) \<longleftrightarrow> length l = length r"
    using assms by (auto simp: word_of_nat_eq_iff take_bit_nat_eq_self)
  have small: "(of_nat (code c) :: 32 word) = of_nat (code d) \<longleftrightarrow> c = d" for c d
  proof
    assume "(of_nat (code c) :: 32 word) = of_nat (code d)"
    then have "code c = code d"
      using code_less [of c] code_less [of d] by (simp add: word_of_nat_eq_iff take_bit_nat_eq_self)
    then show "c = d" by (simp add: code_def)
  qed simp
  assume "constantTimeHexEqual l r"
  then have n: "length l = length r" and d: "\<forall>i<length l. char_code_or_0 l i = char_code_or_0 r i"
    by (auto simp: constantTimeHexEqual_def fold_or_zero xor_zero_iff len)
  show "l = r"
  proof (rule nth_equalityI [OF n])
    fix i assume i: "i < length l"
    with d n show "l ! i = r ! i" by (auto simp: char_code_or_0_def small)
  qed
next
  assume "l = r"
  then show "constantTimeHexEqual l r"
    unfolding constantTimeHexEqual_def fold_or_zero by simp
qed

lemma active_from: "Active \<in> set (applicationTransitions s) \<Longrightarrow> s = Ready_for_activation"
  by (cases s) simp_all

lemma length_digest: "length (sha256 m) = 32 \<Longrightarrow> length (toHex (sha256 m)) < 2 ^ 32"
  by (simp add: length_toHex)

lemma create_fields:
  assumes "createEmailVerification sha256 random a email expires now = Inr (token, record)"
  shows "normalizeEmail email = Inr (ev_email record)" "ev_tokenHash record = sha256Hex sha256 (TextInput token)"
    "ev_expiresAt record = expires" "ev_usedAt record = None" "ev_revokedAt record = None"
  using assms by (auto simp: createEmailVerification_def bindR_Inr_iff split: option.splits if_splits)

lemma email_verify_Inr:
  "verifyEmailToken sha256 record token email now = Inr () \<longleftrightarrow>
     falsy (ev_revokedAt record) \<and> falsy (ev_usedAt record) \<and>
     (\<forall>t. date_parse (ev_expiresAt record) = Some t \<longrightarrow> now < t) \<and>
     normalizeEmail email = Inr (ev_email record) \<and>
     constantTimeHexEqual (ev_tokenHash record) (sha256Hex sha256 (TextInput token))"
  by (auto simp: verifyEmailToken_def bindR_Inr_iff split: option.splits if_splits)

section \<open>Properties\<close>

text \<open>No organisation is activated around the process: every history of an application
  from draft to active has passed the verification of the e-mail address, the submission, the
  approval, the provisioning, the onboarding, the acceptance test and the readiness for activation.\<close>

theorem activation_passes_every_gate:
  assumes "history applicationTransitions (Draft # hs)" "last (Draft # hs) = Active"
  shows "{Email_verified, Submitted, Approved, Provisioning, Onboarding_active,
     Ready_for_acceptance_test, Ready_for_activation} \<subseteq> set hs"
proof -
  note gate = application.history_gate [OF _ assms(1)]
  let ?before = "{Draft, Email_verification_pending, Withdrawn, Rejected, Archived}"
  let ?review = "?before \<union> {Email_verified} \<union> set decision_pending_statuses"
  have "Email_verified \<in> set hs"
    by (rule gate [of "\<lambda>s. s \<in> ?before"]) (use assms(2) in \<open>auto elim: applicationTransitions.elims\<close>)
  moreover have "Submitted \<in> set hs"
    by (rule gate [of "\<lambda>s. s \<in> ?before \<union> {Email_verified}"]) (use assms(2) in auto)
  moreover have "Approved \<in> set hs"
    by (rule gate [of "\<lambda>s. s \<in> ?review"]) (use assms(2) in \<open>auto simp: decision_pending_statuses_def\<close>)
  moreover have "Provisioning \<in> set hs"
    by (rule gate [of "\<lambda>s. s \<in> ?review \<union> {Approved}"]) (use assms(2) in \<open>auto simp: decision_pending_statuses_def\<close>)
  moreover have "Onboarding_active \<in> set hs"
    by (rule gate [of "\<lambda>s. s \<in> ?review \<union> {Approved, Provisioning, Provisioning_failed}"])
      (use assms(2) in \<open>auto simp: decision_pending_statuses_def\<close>)
  moreover have "Ready_for_acceptance_test \<in> set hs"
    by (rule gate [of "\<lambda>s. s \<in> ?review \<union> {Approved, Provisioning, Provisioning_failed, Onboarding_active}"])
      (use assms(2) in \<open>auto simp: decision_pending_statuses_def\<close>)
  moreover have "Ready_for_activation \<in> set hs"
    by (rule gate [of "\<lambda>s. s \<notin> {Ready_for_activation, Active}"]) (use assms(2) active_from in auto)
  ultimately show ?thesis by blast
qed

definition shortest_activation :: "application_status list" where
  "shortest_activation = [Email_verification_pending, Email_verified, Submitted, Approved, Provisioning,
     Onboarding_active, Ready_for_acceptance_test, Ready_for_activation, Active]"

lemma activation_passes_every_gate_witness: "Approved \<in> set shortest_activation"
  using activation_passes_every_gate [of shortest_activation] by (simp add: shortest_activation_def)

text \<open>No application is stuck: from every status some history leads to the archive, and an
  application that has been approved never goes back to a status in which the decision is pending.\<close>

theorem application_never_stuck:
  "(\<exists>hs. history applicationTransitions (s # hs) \<and> last (s # hs) = Archived) \<and>
   (isApplicationApprovedOrLater s \<and> history applicationTransitions (s # hs) \<longrightarrow>
     (\<forall>t \<in> set hs. \<not> isApplicationDecisionPending t))"
proof (intro conjI impI)
  have "Archived \<in> set (within applicationTransitions 4 s)"
    by (cases s) (simp_all add: numeral_eq_Suc)
  then show "\<exists>hs. history applicationTransitions (s # hs) \<and> last (s # hs) = Archived"
    by (rule within_history)
next
  assume "isApplicationApprovedOrLater s \<and> history applicationTransitions (s # hs)"
  then have "\<forall>t \<in> set (s # hs). isApplicationApprovedOrLater t \<or> t \<in> {Rejected, Archived}"
    by (intro application.history_closed)
      (auto simp: isApplicationApprovedOrLater_def approved_or_later_statuses_def)
  then show "\<forall>t \<in> set hs. \<not> isApplicationDecisionPending t"
    by (auto simp: isApplicationApprovedOrLater_def approved_or_later_statuses_def
        isApplicationDecisionPending_def decision_pending_statuses_def)
qed

lemma application_never_stuck_witness: "\<not> isApplicationDecisionPending Provisioning_failed"
  using application_never_stuck [of Approved "[Provisioning, Provisioning_failed]"]
  by (simp add: isApplicationApprovedOrLater_def approved_or_later_statuses_def)


text \<open>The link sent to an applicant is worth exactly what it says: a freshly created
  verification accepts, until it expires, the token it was created with together with the same
  normalised address, and any other token only if the two have the same SHA-256 digest.\<close>

theorem email_verification_exact:
  assumes "\<And>m. length (sha256 m) = 32"
    and "createEmailVerification sha256 random applicationId email expiresAt created = Inr (token, record)"
    and "date_parse expiresAt = Some expiry"
  shows "verifyEmailToken sha256 record token' email' now = Inr () \<longleftrightarrow>
    now < expiry \<and> normalizeEmail email' = normalizeEmail email \<and>
    sha256 (text_encode token') = sha256 (text_encode token)"
proof -
  note fields = create_fields [OF assms(2)]
  have "constantTimeHexEqual (ev_tokenHash record) (sha256Hex sha256 (TextInput token')) \<longleftrightarrow>
      sha256 (text_encode token') = sha256 (text_encode token)"
    unfolding fields(2)
    by (subst constantTimeHexEqual_iff) (auto simp: sha256Hex_def input_bytes_def length_toHex assms(1))
  then show ?thesis
    unfolding email_verify_Inr using assms(3) fields by auto
qed

definition sample_digest :: "byte list \<Rightarrow> byte list" where
  "sample_digest m = replicate 31 0 @ [fold (+) m 0]"

lemma email_verification_exact_witness:
  "\<exists>token record. createEmailVerification sample_digest (\<lambda>n. replicate n 7) ''app-1'' '' Anna@Kommun.SE '' ''2025-01-31T00:00:00.000Z''
       1735689600000 = Inr (token, record) \<and>
     verifyEmailToken sample_digest record token ''anna@kommun.se'' 1735689600001 = Inr ()"
proof -
  let ?create = "createEmailVerification sample_digest (\<lambda>n. replicate n 7) ''app-1'' '' Anna@Kommun.SE '' ''2025-01-31T00:00:00.000Z'' 1735689600000"
  have mail: "normalizeEmail '' Anna@Kommun.SE '' = Inr ''anna@kommun.se''" "normalizeEmail ''anna@kommun.se'' = Inr ''anna@kommun.se''"
    by code_simp+
  have "is_ok ?create"
    by (simp add: createEmailVerification_def mail parse_samples iso_samples randomToken_def is_ok_def)
  then obtain token saved where create: "?create = Inr (token, saved)" by (auto simp: is_ok_iff)
  have len: "length (sample_digest m) = 32" for m by (simp add: sample_digest_def)
  have "verifyEmailToken sample_digest saved token ''anna@kommun.se'' 1735689600001 = Inr ()"
    using email_verification_exact [OF len create, of 1738281600000 token "''anna@kommun.se''" 1735689600001]
    by (simp add: mail parse_samples)
  then show ?thesis using create by blast
qed

text \<open>A verification whose expiry is not a readable date never expires: creating it is not
  refused, and no point in time is too late for it.\<close>

theorem unreadable_verification_never_expires:
  assumes "date_parse expiresAt = None" "\<And>m. length (sha256 m) = 32"
    and "createEmailVerification sha256 random applicationId email expiresAt created = Inr (token, record)"
  shows "verifyEmailToken sha256 record token email now = Inr ()"
  using create_fields [OF assms(3)] assms(1,2) unfolding email_verify_Inr
  by (simp add: constantTimeHexEqual_iff sha256Hex_def length_toHex)

end
