(* ===== verification/Custom_Domains.thy ===== *)
theory Custom_Domains
  imports Onboarding
begin

text \<open>
  Custom domains of tenants (\<open>packages/custom-domains/src/index.ts\<close>): slugs and hostnames, the
  life cycle of a domain, when it may become primary and the DNS challenge that proves control of
  it. The URL parser of the platform (the WHATWG constructor \<open>URL\<close>), SHA-256 and the random
  generator are arguments.
\<close>

section \<open>States\<close>

datatype domain_state =
    Requested | Dns_challenge_created | Dns_verification_pending | Dns_verified
  | Routing_pending | Certificate_pending | Active_domain | Renewal_required
  | Suspended | Removed | Failed

datatype domain_type = Platform_default | Customer_custom | Customer_test | Internal

fun domain_transitions :: "domain_state \<Rightarrow> domain_state list" where
  "domain_transitions Requested = [Dns_challenge_created, Removed, Failed]"
| "domain_transitions Dns_challenge_created = [Dns_verification_pending, Dns_verified, Suspended, Removed, Failed]"
| "domain_transitions Dns_verification_pending = [Dns_verified, Dns_challenge_created, Suspended, Removed, Failed]"
| "domain_transitions Dns_verified = [Routing_pending, Certificate_pending, Suspended, Removed, Failed]"
| "domain_transitions Routing_pending = [Certificate_pending, Suspended, Removed, Failed]"
| "domain_transitions Certificate_pending = [Active_domain, Suspended, Removed, Failed]"
| "domain_transitions Active_domain = [Renewal_required, Suspended, Removed, Failed]"
| "domain_transitions Renewal_required = [Certificate_pending, Suspended, Removed, Failed]"
| "domain_transitions Suspended =
     [Dns_challenge_created, Dns_verification_pending, Routing_pending, Certificate_pending, Removed, Failed]"
| "domain_transitions Failed =
     [Dns_challenge_created, Dns_verification_pending, Routing_pending, Certificate_pending, Suspended, Removed]"
| "domain_transitions Removed = []"

datatype domain_error =
    Domain_transition_invalid domain_state domain_state
  | Tenant_slug_length_invalid | Tenant_slug_invalid | Tenant_slug_reserved
  | Domain_hostname_length_invalid | Domain_hostname_invalid | Domain_platform_namespace_reserved
  | Primary_domain_not_active | Primary_domain_dns_not_verified | Primary_domain_certificate_not_ready
  | Primary_domain_health_not_green | Primary_domain_not_activated
  | Domain_challenge_tenant_id_invalid | Domain_challenge_expiry_invalid | Domain_random_token_invalid

definition assertDomainTransition :: "domain_state \<Rightarrow> domain_state \<Rightarrow> (domain_error, unit) result" where
  "assertDomainTransition from to =
     (if to \<notin> set (domain_transitions from) then Inl (Domain_transition_invalid from to) else Inr ())"

interpretation domain: transition_table domain_transitions assertDomainTransition
  by unfold_locales (simp add: assertDomainTransition_def)

section \<open>Slugs\<close>

definition reserved_tenant_slugs :: "string list" where
  "reserved_tenant_slugs =
     [''www'', ''admin'', ''apply'', ''app'', ''api'', ''auth'', ''sign'', ''verify'', ''docs'', ''status'',
      ''hooks'', ''mail'', ''support'', ''billing'', ''test'', ''staging'', ''dev'', ''internal'', ''system'',
      ''root'', ''security'', ''platform'', ''public'', ''static'', ''assets'', ''cdn'']"

definition low_alnum :: "char \<Rightarrow> bool" where
  "low_alnum c \<longleftrightarrow> (97 \<le> code c \<and> code c \<le> 122) \<or> is_digit c"

text \<open>
  \<open>normalize('NFKD')\<close> followed by dropping the combining marks U+0300 to U+036F, for one code
  unit: the letters with diacritics lose them, compatibility characters become what they stand
  for. A result beyond Latin-1 (the fraction slash, a Greek mu) is shown as \<open>/\<close> or \<open>*\<close>:
  like every other character it becomes a dash below.
\<close>

definition nfkd_base :: "char \<Rightarrow> string" where
  "nfkd_base c = (let n = code c in
     if n = 160 \<or> n = 168 \<or> n = 175 \<or> n = 180 \<or> n = 184 then '' ''
     else if n = 170 then ''a'' else if n = 186 then ''o''
     else if n = 178 then ''2'' else if n = 179 then ''3'' else if n = 185 then ''1''
     else if n = 181 then ''*''
     else if n = 188 then ''1/4'' else if n = 189 then ''1/2'' else if n = 190 then ''3/4''
     else if 192 \<le> n \<and> n \<le> 197 then ''A'' else if n = 199 then ''C''
     else if 200 \<le> n \<and> n \<le> 203 then ''E'' else if 204 \<le> n \<and> n \<le> 207 then ''I''
     else if n = 209 then ''N'' else if 210 \<le> n \<and> n \<le> 214 then ''O''
     else if 217 \<le> n \<and> n \<le> 220 then ''U'' else if n = 221 then ''Y''
     else if 224 \<le> n \<and> n \<le> 229 then ''a'' else if n = 231 then ''c''
     else if 232 \<le> n \<and> n \<le> 235 then ''e'' else if 236 \<le> n \<and> n \<le> 239 then ''i''
     else if n = 241 then ''n'' else if 242 \<le> n \<and> n \<le> 246 then ''o''
     else if 249 \<le> n \<and> n \<le> 252 then ''u'' else if n = 253 \<or> n = 255 then ''y''
     else [c])"

text \<open>\<open>replace(/p+/g, r)\<close>: every longest run of characters that satisfy \<open>p\<close> becomes one \<open>r\<close>.\<close>

function collapse :: "(char \<Rightarrow> bool) \<Rightarrow> char \<Rightarrow> string \<Rightarrow> string" where
  "collapse p r [] = []"
| "collapse p r (c # cs) = (if p c then r # collapse p r (dropWhile p cs) else c # collapse p r cs)"
  by pat_completeness auto
termination
  by (relation "measure (\<lambda>(p, r, s). length s)") (auto simp: less_Suc_eq_le length_dropWhile_le)

definition strip_dashes :: "string \<Rightarrow> string" where
  "strip_dashes s = rev (dropWhile (\<lambda>c. c = CHR ''-'') (rev (dropWhile (\<lambda>c. c = CHR ''-'') s)))"

text \<open>\<open>/^[a-z0-9](?:[a-z0-9-]{0,61}[a-z0-9])?$/\<close>, a DNS label.\<close>

definition dns_label :: "string \<Rightarrow> bool" where
  "dns_label l \<longleftrightarrow> l \<noteq> [] \<and> length l \<le> 63 \<and> low_alnum (hd l) \<and> low_alnum (last l) \<and>
     list_all (\<lambda>c. low_alnum c \<or> c = CHR ''-'') l"

definition normalizeTenantSlug :: "string \<Rightarrow> (domain_error, string) result" where
  "normalizeTenantSlug v =
     (let marks_gone = concat (map nfkd_base (js_lower (js_trim v)));
          dashed = collapse (\<lambda>c. \<not> low_alnum c) (CHR ''-'') marks_gone;
          normalized = collapse (\<lambda>c. c = CHR ''-'') (CHR ''-'') (strip_dashes dashed)
      in if length normalized < 2 \<or> length normalized > 63 then Inl Tenant_slug_length_invalid
         else if \<not> (dns_label normalized \<and> 2 \<le> length normalized) then Inl Tenant_slug_invalid
         else if normalized \<in> set reserved_tenant_slugs then Inl Tenant_slug_reserved
         else Inr normalized)"

section \<open>Hostnames\<close>

text \<open>What the code reads of a parsed URL.\<close>

record url_parts =
  url_protocol :: string
  url_username :: string
  url_password :: string
  url_hostname :: string
  url_port :: string
  url_pathname :: string
  url_search :: string
  url_hash :: string

fun split_on :: "char \<Rightarrow> string \<Rightarrow> string list" where
  "split_on d [] = [[]]"
| "split_on d (c # cs) =
     (if c = d then [] # split_on d cs
      else case split_on d cs of l # ls \<Rightarrow> (c # l) # ls | [] \<Rightarrow> [[c]])"

definition drop_final_dot :: "string \<Rightarrow> string" where
  "drop_final_dot s = (if s \<noteq> [] \<and> last s = CHR ''.'' then butlast s else s)"

text \<open>At least two labels, the last of at least two characters, within 253 characters.\<close>

definition dns_name :: "string \<Rightarrow> bool" where
  "dns_name h \<longleftrightarrow> (let labels = split_on (CHR ''.'') h
     in length h \<le> 253 \<and> 2 \<le> length labels \<and> list_all dns_label labels \<and> 2 \<le> length (last labels))"

definition platform_namespace :: "string \<Rightarrow> bool" where
  "platform_namespace h \<longleftrightarrow> h = ''kommunsign.se'' \<or> ends_with ''.kommunsign.se'' h"

definition canonicalHostname ::
  "(string \<Rightarrow> url_parts option) \<Rightarrow> bool \<Rightarrow> string \<Rightarrow> (domain_error, string) result" where
  "canonicalHostname parse_url allowPlatformNamespace v =
     (let candidate = drop_final_dot (js_trim v)
      in if candidate = [] then Inl Domain_hostname_length_invalid
         else case parse_url (''https://'' @ candidate) of
           None \<Rightarrow> Inl Domain_hostname_invalid
         | Some url \<Rightarrow>
            if url_username url \<noteq> [] \<or> url_password url \<noteq> [] \<or> url_port url \<noteq> [] \<or>
               url_pathname url \<noteq> ''/'' \<or> url_search url \<noteq> [] \<or> url_hash url \<noteq> []
            then Inl Domain_hostname_invalid
            else
              let hostname = drop_final_dot (js_lower (url_hostname url))
              in if length hostname < 1 \<or> length hostname > 253 then Inl Domain_hostname_length_invalid
                 else if \<not> dns_name hostname then Inl Domain_hostname_invalid
                 else if \<not> allowPlatformNamespace \<and> platform_namespace hostname
                 then Inl Domain_platform_namespace_reserved
                 else Inr hostname)"

definition platformDefaultHostname ::
  "(string \<Rightarrow> url_parts option) \<Rightarrow> string \<Rightarrow> string \<Rightarrow> (domain_error, string) result" where
  "platformDefaultHostname parse_url slug rootDomain =
     bindR (normalizeTenantSlug slug) (\<lambda>normalizedSlug.
     bindR (canonicalHostname parse_url True rootDomain) (\<lambda>normalizedRoot.
     canonicalHostname parse_url True (normalizedSlug @ ''.'' @ normalizedRoot)))"

section \<open>Primary domains\<close>

record domain_facts =
  df_status :: domain_state
  df_dnsVerifiedAt :: "string option"
  df_certificateIssuedAt :: "string option"
  df_lastHealthStatus :: "string option"
  df_activatedAt :: "string option"

definition assertDomainMayBecomePrimary :: "domain_facts \<Rightarrow> (domain_error, unit) result" where
  "assertDomainMayBecomePrimary d =
     (if df_status d \<noteq> Active_domain then Inl Primary_domain_not_active
      else if falsy (df_dnsVerifiedAt d) then Inl Primary_domain_dns_not_verified
      else if falsy (df_certificateIssuedAt d) then Inl Primary_domain_certificate_not_ready
      else if df_lastHealthStatus d \<noteq> Some ''healthy'' then Inl Primary_domain_health_not_green
      else if falsy (df_activatedAt d) then Inl Primary_domain_not_activated
      else Inr ())"

section \<open>The DNS challenge\<close>

record domain_challenge =
  dc_token :: string
  dc_tokenHash :: string
  dc_recordName :: string
  dc_recordValue :: string
  dc_recordValueHash :: string
  dc_expiresAt :: string

definition challenge_digest :: "(byte list \<Rightarrow> byte list) \<Rightarrow> string \<Rightarrow> string \<Rightarrow> string \<Rightarrow> string" where
  "challenge_digest sha256 tenantId hostname v =
     sha256Hex sha256 (TextInput (tenantId @ '':'' @ hostname @ '':'' @ v))"

definition createDomainVerificationChallenge ::
  "(string \<Rightarrow> url_parts option) \<Rightarrow> (byte list \<Rightarrow> byte list) \<Rightarrow> (nat \<Rightarrow> byte list) \<Rightarrow> string \<Rightarrow> string \<Rightarrow> string
     \<Rightarrow> string option \<Rightarrow> int \<Rightarrow> (domain_error, domain_challenge) result" where
  "createDomainVerificationChallenge parse_url sha256 random host tenantId expiresAt prefix now =
     bindR (canonicalHostname parse_url True host) (\<lambda>hostname.
       if \<not> is_uuid_text tenantId then Inl Domain_challenge_tenant_id_invalid
       else if (case date_parse expiresAt of Some t \<Rightarrow> t \<le> now | None \<Rightarrow> False)
       then Inl Domain_challenge_expiry_invalid
       else bindR (mapErr (\<lambda>_. Domain_random_token_invalid) (randomToken random (NInt 32))) (\<lambda>token.
         let recordValue = ''ks-verification='' @ tenantId @ ''.'' @ token
         in Inr \<lparr>dc_token = token, dc_tokenHash = challenge_digest sha256 tenantId hostname token,
              dc_recordName = (case prefix of Some p \<Rightarrow> p | None \<Rightarrow> ''_kommunsign-verification'') @ ''.'' @ hostname,
              dc_recordValue = recordValue, dc_recordValueHash = challenge_digest sha256 tenantId hostname recordValue,
              dc_expiresAt = expiresAt\<rparr>))"

text \<open>\<open>replace(/^"|"$/g, '')\<close>: one quotation mark at either end.\<close>

definition drop_quotes :: "string \<Rightarrow> string" where
  "drop_quotes s =
     (let t = (case s of c # cs \<Rightarrow> if c = char_of (34 :: nat) then cs else s | [] \<Rightarrow> [])
      in if t \<noteq> [] \<and> last t = char_of (34 :: nat) then butlast t else t)"

definition verifyDomainChallengeValue ::
  "(string \<Rightarrow> url_parts option) \<Rightarrow> (byte list \<Rightarrow> byte list) \<Rightarrow> string \<Rightarrow> string \<Rightarrow> string \<Rightarrow> string list
     \<Rightarrow> (domain_error, bool) result" where
  "verifyDomainChallengeValue parse_url sha256 tenantId host expected observed =
     bindR (canonicalHostname parse_url True host) (\<lambda>hostname.
       Inr (list_ex (\<lambda>raw. constantTimeHexEqual
         (challenge_digest sha256 tenantId hostname (drop_quotes (js_trim raw))) expected) observed))"


section \<open>Lemmas: slugs\<close>

definition slug_char :: "char \<Rightarrow> bool" where
  "slug_char c \<longleftrightarrow> low_alnum c \<or> c = CHR ''-''"

fun no_double :: "char \<Rightarrow> string \<Rightarrow> bool" where
  "no_double d (a # b # r) = (\<not> (a = d \<and> b = d) \<and> no_double d (b # r))"
| "no_double d _ = True"

lemma no_double_Cons: "no_double d (c # s) \<longleftrightarrow> \<not> (c = d \<and> s \<noteq> [] \<and> hd s = d) \<and> no_double d s"
  by (cases s) auto

lemma collapse_hd: "s \<noteq> [] \<Longrightarrow> \<not> p (hd s) \<Longrightarrow> collapse p d s \<noteq> [] \<and> hd (collapse p d s) = hd s"
  by (cases s) auto

lemma collapse_no_double: "no_double d (collapse (\<lambda>c. c = d) d s)"
proof (induction "\<lambda>c. c = d" d s rule: collapse.induct)
  case (2 r c cs)
  let ?rest = "dropWhile (\<lambda>c. c = r) cs"
  have "collapse (\<lambda>c. c = r) r ?rest = [] \<or> hd (collapse (\<lambda>c. c = r) r ?rest) \<noteq> r"
  proof (cases "?rest = []")
    case True
    then show ?thesis by (simp only: collapse.simps simp_thms)
  next
    case False
    then have "hd ?rest \<noteq> r" using hd_dropWhile [of "\<lambda>c. c = r" cs] by blast
    then show ?thesis using collapse_hd [OF False, of "\<lambda>c. c = r" r] by simp
  qed
  then show ?case using 2 by (auto simp: no_double_Cons)
qed simp

lemma collapse_fixed:
  assumes "no_double d s" "\<And>c. c \<in> set s \<Longrightarrow> p c \<longleftrightarrow> c = d"
  shows "collapse p d s = s"
  using assms
proof (induction s)
  case (Cons c cs)
  have rest: "collapse p d cs = cs" using Cons by (auto simp: no_double_Cons)
  have "dropWhile p cs = cs" if "p c"
    using Cons.prems that by (cases cs) (auto simp: no_double_Cons)
  then show ?case using Cons.prems(2) rest by auto
qed simp

lemma slug_char_props:
  assumes "slug_char c"
  shows "\<not> js_ws c" "lower_char c = c" "nfkd_base c = [c]"
proof -
  have n: "code c = 45 \<or> (48 \<le> code c \<and> code c \<le> 57) \<or> (97 \<le> code c \<and> code c \<le> 122)"
    using assms by (auto simp: slug_char_def low_alnum_def is_digit_def code_def)
  show "\<not> js_ws c" using n by (auto simp: js_ws_def)
  show "lower_char c = c" using n by (auto simp: lower_char_def)
  from n have "code c < 128" by auto
  then show "nfkd_base c = [c]" by (simp add: nfkd_base_def Let_def)
qed

lemma low_alnum_not_dash: "low_alnum c \<Longrightarrow> c \<noteq> CHR ''-''"
  by (auto simp: low_alnum_def is_digit_def code_def)

lemma strip_dashes_fixed: "s \<noteq> [] \<Longrightarrow> hd s \<noteq> CHR ''-'' \<Longrightarrow> last s \<noteq> CHR ''-'' \<Longrightarrow> strip_dashes s = s"
proof -
  assume a: "s \<noteq> []" "hd s \<noteq> CHR ''-''" "last s \<noteq> CHR ''-''"
  then have "dropWhile (\<lambda>c. c = CHR ''-'') s = s" by (cases s) auto
  moreover have "dropWhile (\<lambda>c. c = CHR ''-'') (rev s) = rev s"
    using a by (cases s rule: rev_cases) auto
  ultimately show ?thesis by (simp add: strip_dashes_def)
qed

lemma slug_text_fixed:
  assumes t: "dns_label t" and nd: "no_double (CHR ''-'') t"
  shows "collapse (\<lambda>c. c = CHR ''-'') (CHR ''-'') (strip_dashes (collapse (\<lambda>c. \<not> low_alnum c) (CHR ''-'')
    (concat (map nfkd_base (js_lower (js_trim t)))))) = t"
proof -
  have all: "\<forall>c \<in> set t. slug_char c" using t by (auto simp: dns_label_def slug_char_def list_all_iff)
  have trim: "js_trim t = t" using all slug_char_props(1) by (intro js_trim_no_ws) (auto simp: list_all_iff)
  have lower: "js_lower t = t" using all slug_char_props(2) by (simp add: js_lower_def map_idI)
  have "concat (map nfkd_base t) = t"
    using all by (induction t) (auto simp: slug_char_props(3))
  moreover have "collapse (\<lambda>c. \<not> low_alnum c) (CHR ''-'') t = t"
    using all low_alnum_not_dash by (intro collapse_fixed [OF nd]) (auto simp: slug_char_def)
  moreover have "strip_dashes t = t"
    using t low_alnum_not_dash by (intro strip_dashes_fixed) (auto simp: dns_label_def)
  moreover have "collapse (\<lambda>c. c = CHR ''-'') (CHR ''-'') t = t" by (rule collapse_fixed [OF nd]) simp
  ultimately show ?thesis by (simp add: trim lower)
qed

lemma slug_Inr:
  assumes "normalizeTenantSlug v = Inr t"
  shows "dns_label t" "2 \<le> length t" "length t \<le> 63" "t \<notin> set reserved_tenant_slugs" "no_double (CHR ''-'') t"
proof -
  have t: "t = collapse (\<lambda>c. c = CHR ''-'') (CHR ''-'') (strip_dashes (collapse (\<lambda>c. \<not> low_alnum c) (CHR ''-'')
      (concat (map nfkd_base (js_lower (js_trim v))))))"
    "dns_label t" "2 \<le> length t" "length t \<le> 63" "t \<notin> set reserved_tenant_slugs"
    using assms by (auto simp: normalizeTenantSlug_def Let_def split: if_splits)
  show "no_double (CHR ''-'') t" by (subst t(1)) (rule collapse_no_double)
qed (use assms in \<open>auto simp: normalizeTenantSlug_def Let_def split: if_splits\<close>)

section \<open>Lemmas: hostnames\<close>

lemma hostname_Inr:
  assumes "canonicalHostname parse_url allow v = Inr h"
  shows "dns_name h" "allow \<or> \<not> platform_namespace h"
    "\<exists>url. parse_url (''https://'' @ drop_final_dot (js_trim v)) = Some url \<and> h = drop_final_dot (js_lower (url_hostname url))"
  using assms by (auto simp: canonicalHostname_def Let_def split: if_splits option.splits)

section \<open>Properties\<close>

text \<open>A slug is a DNS label that no other spelling changes: the normalised slug of any input
  has 2 to 63 characters, only lower-case letters, digits and single dashes inside, is not reserved,
  and normalising it again gives the same slug.\<close>

theorem slug_canonical:
  assumes "normalizeTenantSlug v = Inr t"
  shows "normalizeTenantSlug t = Inr t \<and> dns_label t \<and> 2 \<le> length t \<and> length t \<le> 63 \<and>
    t \<notin> set reserved_tenant_slugs \<and> no_double (CHR ''-'') t"
  using slug_Inr [OF assms] slug_text_fixed [OF slug_Inr(1) [OF assms] slug_Inr(5) [OF assms]]
  by (simp add: normalizeTenantSlug_def Let_def)

lemma slug_canonical_witness: "normalizeTenantSlug ''  Karlskrona - Kommun! '' = Inr ''karlskrona-kommun''"
proof -
  have "normalizeTenantSlug ''Karlskrona Kommun'' = Inr ''karlskrona-kommun''" by code_simp
  from slug_canonical [OF this] show ?thesis by code_simp
qed

text \<open>No domain becomes active without a certificate step, and a removed domain stays
  removed; but the table of transitions lets a domain that was never challenged become active: by
  way of the state failed it skips the creation of the challenge and the verification of DNS.\<close>

theorem domain_activation_gates:
  "(history domain_transitions (Requested # hs) \<and> last (Requested # hs) = Active_domain \<longrightarrow>
     Certificate_pending \<in> set hs) \<and>
   assertDomainTransition Removed t \<noteq> Inr () \<and>
   (\<exists>skip. history domain_transitions (Requested # skip) \<and> last (Requested # skip) = Active_domain \<and>
     Dns_verified \<notin> set skip \<and> Dns_challenge_created \<notin> set skip \<and> Dns_verification_pending \<notin> set skip)"
proof (intro conjI impI)
  assume "history domain_transitions (Requested # hs) \<and> last (Requested # hs) = Active_domain"
  moreover have "Active_domain \<in> set (domain_transitions s) \<Longrightarrow> s = Certificate_pending" for s
    by (cases s) simp_all
  ultimately show "Certificate_pending \<in> set hs"
    by (intro domain.history_gate [of "\<lambda>s. s \<notin> {Certificate_pending, Active_domain}" Certificate_pending Requested]) auto
next
  show "assertDomainTransition Removed t \<noteq> Inr ()" by (rule domain.terminal) simp
  show "\<exists>skip. history domain_transitions (Requested # skip) \<and> last (Requested # skip) = Active_domain \<and>
     Dns_verified \<notin> set skip \<and> Dns_challenge_created \<notin> set skip \<and> Dns_verification_pending \<notin> set skip"
    by (rule exI [of _ "[Failed, Certificate_pending, Active_domain]"]) simp
qed

lemma domain_activation_gates_witness: "Certificate_pending \<in> set [Failed, Certificate_pending, Active_domain]"
  using domain_activation_gates [of "[Failed, Certificate_pending, Active_domain]" Requested] by simp


lemma js_trim_ends: "s \<noteq> [] \<Longrightarrow> \<not> js_ws (hd s) \<Longrightarrow> \<not> js_ws (last s) \<Longrightarrow> js_trim s = s"
proof -
  assume a: "s \<noteq> []" "\<not> js_ws (hd s)" "\<not> js_ws (last s)"
  then have "dropWhile js_ws s = s" by (cases s) auto
  moreover have "dropWhile js_ws (rev s) = rev s" using a by (cases s rule: rev_cases) auto
  ultimately show ?thesis by (simp add: js_trim_def)
qed

definition quoted :: "string \<Rightarrow> string" where
  "quoted v = char_of (34 :: nat) # v @ [char_of (34 :: nat)]"

lemma unquote_published:
  assumes v: "v = ''ks-verification='' @ t @ ''.'' @ toHex bs"
  shows "drop_quotes (js_trim v) = v" "drop_quotes (js_trim (quoted v)) = v"
proof -
  have "last v = CHR ''.'' \<or> last v \<in> set (toHex bs)"
    by (cases "toHex bs" rule: rev_cases) (simp_all add: v)
  then have l: "last v = CHR ''.'' \<or> is_lower_hex (last v)"
    using toHex_digits [of bs] by (auto simp: list_all_iff)
  then have "code (last v) = 46 \<or> (48 \<le> code (last v) \<and> code (last v) \<le> 57) \<or> (97 \<le> code (last v) \<and> code (last v) \<le> 102)"
    by (auto simp: is_lower_hex_def is_digit_def code_def)
  then have ends: "\<not> js_ws (last v)" "last v \<noteq> char_of (34 :: nat)"
    by (auto simp: js_ws_def code_def)
  have h: "v \<noteq> []" "hd v = CHR ''k''" by (simp_all add: v)
  have "code (CHR ''k'') \<noteq> code (char_of (34 :: nat))" by (simp add: code_def)
  then have k: "CHR ''k'' \<noteq> char_of (34 :: nat)" by metis
  have "js_trim v = v" using ends h by (intro js_trim_ends) (auto simp: js_ws_def code_def)
  then show "drop_quotes (js_trim v) = v" using ends(2) h k by (cases v) (auto simp: drop_quotes_def Let_def)
  have "js_trim (quoted v) = quoted v"
    by (intro js_trim_ends) (auto simp: quoted_def js_ws_def code_def)
  then show "drop_quotes (js_trim (quoted v)) = v" by (simp add: drop_quotes_def quoted_def)
qed

text \<open>The DNS challenge proves exactly what was published: the check succeeds if and only if
  some observed TXT value, trimmed and unquoted, has together with the tenant and the canonical
  hostname the digest of the challenge; and the published value passes, quoted or not.\<close>

theorem domain_challenge_exact:
  assumes "\<And>m. length (sha256 m) = 32"
    and "createDomainVerificationChallenge parse_url sha256 random host tenantId expiresAt prefix now = Inr challenge"
    and "canonicalHostname parse_url True host = Inr hostname"
  shows "(verifyDomainChallengeValue parse_url sha256 tenantId host (dc_recordValueHash challenge) observed = Inr True \<longleftrightarrow>
      (\<exists>raw \<in> set observed.
         sha256 (text_encode (tenantId @ '':'' @ hostname @ '':'' @ drop_quotes (js_trim raw))) =
         sha256 (text_encode (tenantId @ '':'' @ hostname @ '':'' @ dc_recordValue challenge)))) \<and>
    verifyDomainChallengeValue parse_url sha256 tenantId host (dc_recordValueHash challenge)
      [dc_recordValue challenge] = Inr True \<and>
    verifyDomainChallengeValue parse_url sha256 tenantId host (dc_recordValueHash challenge)
      [quoted (dc_recordValue challenge)] = Inr True"
proof -
  obtain bs where v: "dc_recordValue challenge = ''ks-verification='' @ tenantId @ ''.'' @ toHex bs"
    and hash: "dc_recordValueHash challenge = challenge_digest sha256 tenantId hostname (dc_recordValue challenge)"
    using assms(2,3)
    by (auto simp: createDomainVerificationChallenge_def bindR_Inr_iff randomToken_def Let_def split: if_splits option.splits)
  have eq: "constantTimeHexEqual (challenge_digest sha256 tenantId hostname a) (challenge_digest sha256 tenantId hostname b) \<longleftrightarrow>
      sha256 (text_encode (tenantId @ '':'' @ hostname @ '':'' @ a)) = sha256 (text_encode (tenantId @ '':'' @ hostname @ '':'' @ b))" for a b
    by (subst constantTimeHexEqual_iff) (simp_all add: challenge_digest_def sha256Hex_def input_bytes_def length_toHex assms(1))
  have "verifyDomainChallengeValue parse_url sha256 tenantId host (dc_recordValueHash challenge) obs = Inr True \<longleftrightarrow>
      (\<exists>raw \<in> set obs. sha256 (text_encode (tenantId @ '':'' @ hostname @ '':'' @ drop_quotes (js_trim raw))) =
         sha256 (text_encode (tenantId @ '':'' @ hostname @ '':'' @ dc_recordValue challenge)))" for obs
    by (simp add: verifyDomainChallengeValue_def assms(3) hash eq list_ex_iff)
  then show ?thesis using unquote_published [OF v] by simp
qed

definition sample_parse_url :: "string \<Rightarrow> url_parts option" where
  "sample_parse_url s = Some \<lparr>url_protocol = ''https:'', url_username = [], url_password = [],
     url_hostname = drop 8 s, url_port = [], url_pathname = ''/'', url_search = [], url_hash = []\<rparr>"

lemma domain_challenge_exact_witness:
  "\<exists>challenge. createDomainVerificationChallenge sample_parse_url sample_digest (\<lambda>n. replicate n 7) ''sign.kommun.se''
       ''00000000-0000-0000-0000-000000000001'' ''2025-01-31T00:00:00.000Z'' None 1735689600000 = Inr challenge \<and>
     verifyDomainChallengeValue sample_parse_url sample_digest ''00000000-0000-0000-0000-000000000001'' ''sign.kommun.se''
       (dc_recordValueHash challenge) [quoted (dc_recordValue challenge)] = Inr True"
proof -
  let ?create = "createDomainVerificationChallenge sample_parse_url sample_digest (\<lambda>n. replicate n 7) ''sign.kommun.se''
       ''00000000-0000-0000-0000-000000000001'' ''2025-01-31T00:00:00.000Z'' None 1735689600000"
  have host: "canonicalHostname sample_parse_url True ''sign.kommun.se'' = Inr ''sign.kommun.se''" by code_simp
  have uuid: "is_uuid_text ''00000000-0000-0000-0000-000000000001''" by code_simp
  have "is_ok ?create"
    by (simp add: createDomainVerificationChallenge_def host uuid parse_samples randomToken_def is_ok_def Let_def)
  then obtain challenge where create: "?create = Inr challenge" by (auto simp: is_ok_iff)
  have len: "length (sample_digest m) = 32" for m by (simp add: sample_digest_def)
  show ?thesis using domain_challenge_exact [OF len create host] create by blast
qed

end
