(* ===== verification/Tenant_Gateway.thy ===== *)
theory Tenant_Gateway
  imports Custom_Domains
begin

text \<open>
  From the host of a request to the tenant (\<open>packages/tenant-gateway/src/index.ts\<close>): which
  header is believed, the resolver with its cache, public URLs and credential origins. The domain
  repository of a step, the URL parser and the two readings of the clock are arguments; the state
  of a resolver is its cache and the routing events it has recorded.
\<close>

section \<open>Data\<close>

datatype tenant_environment = Test_environment | Production_environment

datatype public_url_purpose = Tenant_login | Signer_invitation | Verification | Onboarding_purpose | Support

record resolved_domain =
  rd_domainId :: string
  rd_tenantId :: string
  rd_environmentId :: string
  rd_environment :: tenant_environment
  rd_dataPlaneId :: string
  rd_hostname :: string
  rd_primaryHostname :: string
  rd_defaultHostname :: string
  rd_brandingVersion :: "int option"
  rd_status :: string

datatype proxy_provider = Vercel | Cloudflare | Railway | No_provider

record resolver_options =
  ro_trustProxy :: bool
  ro_provider :: proxy_provider
  ro_requireVerified :: bool
  ro_cacheTtlMs :: "int option"

datatype routing_event_type =
    Resolution_succeeded | Unknown_host_rejected | Inactive_host_rejected | Misdirected_request_event | Cache_invalidated

record routing_event =
  re_hostname :: string
  re_type :: routing_event_type
  re_requestId :: "string option"
  re_domain :: "(string \<times> string \<times> string) option"

datatype resolution_error =
    Tenant_domain_not_found | Misdirected_request | Unverified_forwarded_host | Host_header_invalid

definition resolution_status :: "resolution_error \<Rightarrow> nat" where
  "resolution_status e = (case e of
      Tenant_domain_not_found \<Rightarrow> 404 | Misdirected_request \<Rightarrow> 421
    | Unverified_forwarded_host \<Rightarrow> 400 | Host_header_invalid \<Rightarrow> 400)"

text \<open>\<open>headers.get\<close> with the lower-case name, and the URL of the request.\<close>

record http_request =
  rq_header :: "string \<Rightarrow> string option"
  rq_url :: string

section \<open>The hostname of a request\<close>

definition isTrustedProxyRequest :: "http_request \<Rightarrow> proxy_provider \<Rightarrow> bool" where
  "isTrustedProxyRequest request provider = (let h = rq_header request in case provider of
      No_provider \<Rightarrow> False
    | Vercel \<Rightarrow> \<not> falsy (h ''x-vercel-id'')
    | Cloudflare \<Rightarrow> \<not> falsy (h ''cf-ray'')
    | Railway \<Rightarrow> \<not> falsy (h ''x-railway-request-id'') \<and> \<not> falsy (h ''x-railway-edge'') \<and>
        \<not> falsy (h ''x-real-ip'') \<and> h ''x-forwarded-proto'' = Some ''https'')"

text \<open>\<open>replace(/:\d+$/, '')\<close>.\<close>

definition drop_port :: "string \<Rightarrow> string" where
  "drop_port s = (let r = rev s; ds = takeWhile is_digit r; rest = dropWhile is_digit r
     in if ds \<noteq> [] \<and> rest \<noteq> [] \<and> hd rest = CHR '':'' then rev (tl rest) else s)"

definition stripPort :: "string \<Rightarrow> (resolution_error, string) result" where
  "stripPort v = (let trimmed = js_lower (js_trim v)
     in if starts_with trimmed ''['' then Inl Host_header_invalid else Inr (drop_port trimmed))"

definition url_host :: "url_parts \<Rightarrow> string" where
  "url_host u = url_hostname u @ (if url_port u = [] then [] else '':'' @ url_port u)"

definition resolveRequestHostname ::
  "(string \<Rightarrow> url_parts option) \<Rightarrow> http_request \<Rightarrow> resolver_options \<Rightarrow> (resolution_error, string) result" where
  "resolveRequestHostname parse_url request options =
     (let directHost = rq_header request ''host'';
          forwardedHost = rq_header request ''x-forwarded-host'';
          selected = (if ro_trustProxy options \<and> \<not> falsy forwardedHost
            then if ro_requireVerified options \<and> \<not> isTrustedProxyRequest request (ro_provider options)
                 then Inl Unverified_forwarded_host
                 else Inr (Some (js_trim (takeWhile (\<lambda>c. c \<noteq> CHR '','') (the forwardedHost))))
            else Inr directHost)
      in bindR selected (\<lambda>sel.
         bindR (if falsy sel
                then (case parse_url (rq_url request) of Some u \<Rightarrow> Inr (url_host u) | None \<Rightarrow> Inl Host_header_invalid)
                else Inr (the sel)) (\<lambda>chosen.
         bindR (stripPort chosen) (\<lambda>hostWithoutPort.
         mapErr (\<lambda>_. Host_header_invalid) (canonicalHostname parse_url True hostWithoutPort)))))"

section \<open>The resolver\<close>

record resolver_state =
  rs_cache :: "string \<Rightarrow> (int \<times> resolved_domain) option"
  rs_events :: "routing_event list"

definition cache_ttl :: "resolver_options \<Rightarrow> int" where
  "cache_ttl options = min (max (case ro_cacheTtlMs options of Some t \<Rightarrow> t | None \<Rightarrow> 30000) 1000) 300000"

definition domain_ids :: "resolved_domain \<Rightarrow> string \<times> string \<times> string" where
  "domain_ids d = (rd_tenantId d, rd_environmentId d, rd_domainId d)"

definition record_event :: "routing_event \<Rightarrow> resolver_state \<Rightarrow> resolver_state" where
  "record_event e s = s\<lparr>rs_events := rs_events s @ [e]\<rparr>"

text \<open>An empty request identifier is left out of the event.\<close>

definition request_id :: "string option \<Rightarrow> string option" where
  "request_id r = (if falsy r then None else r)"

text \<open>The part of \<open>resolve\<close> behind the cache.\<close>

definition lookup_domain ::
  "(string \<Rightarrow> resolved_domain option) \<Rightarrow> resolver_options \<Rightarrow> int \<Rightarrow> string option \<Rightarrow> string \<Rightarrow> resolver_state
     \<Rightarrow> resolver_state \<times> (resolution_error, resolved_domain) result" where
  "lookup_domain findActiveByHostname options now requestId hostname s =
     (case findActiveByHostname hostname of
        None \<Rightarrow> (record_event \<lparr>re_hostname = hostname, re_type = Unknown_host_rejected,
                   re_requestId = request_id requestId, re_domain = None\<rparr> s, Inl Tenant_domain_not_found)
      | Some resolved \<Rightarrow>
          if rd_hostname resolved \<noteq> hostname \<or> rd_status resolved \<noteq> ''active''
          then (record_event \<lparr>re_hostname = hostname, re_type = Misdirected_request_event,
                  re_requestId = request_id requestId, re_domain = Some (domain_ids resolved)\<rparr> s, Inl Misdirected_request)
          else (record_event \<lparr>re_hostname = hostname, re_type = Resolution_succeeded,
                  re_requestId = request_id requestId, re_domain = Some (domain_ids resolved)\<rparr>
                  (s\<lparr>rs_cache := (rs_cache s)(hostname \<mapsto> (now + cache_ttl options, resolved))\<rparr>), Inr resolved))"

definition resolve ::
  "(string \<Rightarrow> url_parts option) \<Rightarrow> (string \<Rightarrow> resolved_domain option) \<Rightarrow> resolver_options \<Rightarrow> int \<Rightarrow> int
     \<Rightarrow> http_request \<Rightarrow> string option \<Rightarrow> resolver_state \<Rightarrow> resolver_state \<times> (resolution_error, resolved_domain) result" where
  "resolve parse_url findActiveByHostname options now now' request requestId s =
     (case resolveRequestHostname parse_url request options of
        Inl e \<Rightarrow> (s, Inl e)
      | Inr hostname \<Rightarrow>
         (case rs_cache s hostname of
            Some (expiresAt, cached) \<Rightarrow>
              if expiresAt > now then (s, Inr cached)
              else lookup_domain findActiveByHostname options now' requestId hostname
                     (s\<lparr>rs_cache := (rs_cache s)(hostname := None)\<rparr>)
          | None \<Rightarrow> lookup_domain findActiveByHostname options now' requestId hostname s))"

definition invalidate ::
  "(string \<Rightarrow> url_parts option) \<Rightarrow> string \<Rightarrow> resolver_state \<Rightarrow> resolver_state \<times> (domain_error, unit) result" where
  "invalidate parse_url hostname s =
     (case canonicalHostname parse_url True hostname of
        Inl e \<Rightarrow> (s, Inl e)
      | Inr normalized \<Rightarrow>
         (record_event \<lparr>re_hostname = normalized, re_type = Cache_invalidated, re_requestId = None, re_domain = None\<rparr>
            (s\<lparr>rs_cache := (rs_cache s)(normalized := None)\<rparr>), Inr ()))"

definition clear :: "resolver_state \<Rightarrow> resolver_state" where
  "clear s = s\<lparr>rs_cache := (\<lambda>_. None)\<rparr>"

section \<open>Contexts, public URLs and credential origins\<close>

datatype context_source = Verified_domain | Membership | Api_client | Deployment

record tenant_context =
  tc_tenantId :: string
  tc_source :: context_source
  tc_subjectId :: string
  tc_requestId :: string
  tc_authMethod :: string

definition createTenantContextFromDomain :: "resolved_domain \<Rightarrow> string \<Rightarrow> string \<Rightarrow> string \<Rightarrow> tenant_context" where
  "createTenantContextFromDomain domain subjectId requestId authMethod =
     \<lparr>tc_tenantId = rd_tenantId domain, tc_source = Verified_domain, tc_subjectId = subjectId,
      tc_requestId = requestId, tc_authMethod = authMethod\<rparr>"

definition invitation_token :: "string option \<Rightarrow> bool" where
  "invitation_token t = (case t of None \<Rightarrow> False
     | Some s \<Rightarrow> 32 \<le> length s \<and> length s \<le> 512 \<and> list_all (\<lambda>c. is_alnum c \<or> c \<in> set ''_-'') s)"

datatype public_url_error = Invalid_url | Signer_invitation_token_invalid

text \<open>\<open>encodeURIComponent\<close> leaves the characters of a token as they are.\<close>

definition resolveTenantPublicUrl ::
  "(string \<Rightarrow> url_parts option) \<Rightarrow> string \<Rightarrow> string \<Rightarrow> public_url_purpose \<Rightarrow> string option
     \<Rightarrow> (public_url_error, url_parts) result" where
  "resolveTenantPublicUrl parse_url primaryHostname defaultHostname purpose token =
     (case parse_url (''https://'' @ (if primaryHostname \<noteq> [] then primaryHostname else defaultHostname)) of
        None \<Rightarrow> Inl Invalid_url
      | Some base \<Rightarrow> (case purpose of
            Tenant_login \<Rightarrow> Inr (base\<lparr>url_pathname := ''/''\<rparr>)
          | Signer_invitation \<Rightarrow>
              if \<not> invitation_token token then Inl Signer_invitation_token_invalid
              else Inr (base\<lparr>url_pathname := ''/sign/'' @ the token\<rparr>)
          | Verification \<Rightarrow> Inr (base\<lparr>url_pathname := ''/verify''\<rparr>)
          | Onboarding_purpose \<Rightarrow> Inr (base\<lparr>url_pathname := ''/app/onboarding''\<rparr>)
          | Support \<Rightarrow> Inr (base\<lparr>url_pathname := ''/support''\<rparr>)))"

definition isAllowedCredentialOrigin :: "(string \<Rightarrow> url_parts option) \<Rightarrow> string \<Rightarrow> string set \<Rightarrow> bool" where
  "isAllowedCredentialOrigin parse_url origin allowedHostnames =
     (case parse_url origin of
        None \<Rightarrow> False
      | Some parsed \<Rightarrow>
          if url_protocol parsed \<noteq> ''https:'' \<or> url_username parsed \<noteq> [] \<or> url_password parsed \<noteq> [] \<or> url_port parsed \<noteq> []
          then False
          else (case canonicalHostname parse_url True (url_hostname parsed) of
                  Inl _ \<Rightarrow> False
                | Inr hostname \<Rightarrow> hostname \<in> allowedHostnames))"

section \<open>The life of a resolver\<close>

text \<open>
  \<open>gateway_run t s\<close>: a resolver reaches state \<open>s\<close> with its last cache write at time \<open>t\<close> or
  before. Every step may see another state of the domain repository and other options than the one
  before.
\<close>

inductive gateway_run :: "int \<Rightarrow> resolver_state \<Rightarrow> bool" where
  start: "gateway_run t \<lparr>rs_cache = (\<lambda>_. None), rs_events = []\<rparr>"
| resolves: "gateway_run t s \<Longrightarrow> t \<le> now' \<Longrightarrow>
    resolve parse_url repository options now now' request requestId s = (s', result) \<Longrightarrow> gateway_run now' s'"
| invalidates: "gateway_run t s \<Longrightarrow> invalidate parse_url hostname s = (s', result') \<Longrightarrow> gateway_run t s'"
| clears: "gateway_run t s \<Longrightarrow> gateway_run t (clear s)"

definition cache_sound :: "int \<Rightarrow> resolver_state \<Rightarrow> bool" where
  "cache_sound t s \<longleftrightarrow> (\<forall>h expiresAt d. rs_cache s h = Some (expiresAt, d) \<longrightarrow>
     rd_hostname d = h \<and> rd_status d = ''active'' \<and> expiresAt \<le> t + 300000)"

lemma cache_ttl_bounds: "1000 \<le> cache_ttl options \<and> cache_ttl options \<le> 300000"
  by (simp add: cache_ttl_def)

lemma record_event_cache [simp]: "rs_cache (record_event e s) = rs_cache s"
  by (simp add: record_event_def)

lemma lookup_sound:
  assumes "lookup_domain repository options now requestId h s = (s', result)" "cache_sound now s"
  shows "cache_sound now s'" "\<And>d. result = Inr d \<Longrightarrow> repository h = Some d \<and> rd_hostname d = h \<and> rd_status d = ''active''"
  using assms cache_ttl_bounds [of options]
  by (auto simp: lookup_domain_def cache_sound_def split: option.splits if_splits)

lemma forget_sound: "cache_sound t s \<Longrightarrow> cache_sound t (s\<lparr>rs_cache := (rs_cache s)(h := None)\<rparr>)"
  by (simp add: cache_sound_def)

lemma cache_sound_later: "cache_sound t s \<Longrightarrow> t \<le> u \<Longrightarrow> cache_sound u s"
  by (fastforce simp: cache_sound_def)

lemma resolve_sound:
  assumes r: "resolve parse_url repository options now now' request requestId s = (s', result)"
    and s: "cache_sound t s" "t \<le> now'"
  shows "cache_sound now' s' \<and> (\<forall>d. result = Inr d \<longrightarrow>
    resolveRequestHostname parse_url request options = Inr (rd_hostname d) \<and> rd_status d = ''active'')"
proof (cases "resolveRequestHostname parse_url request options")
  case (Inl e)
  then show ?thesis using r cache_sound_later [OF s] by (auto simp: resolve_def)
next
  case (Inr h)
  show ?thesis
  proof (cases "\<exists>e d. rs_cache s h = Some (e, d) \<and> e > now")
    case True
    then obtain e d where hit: "rs_cache s h = Some (e, d)" "e > now" by blast
    then have "s' = s" "result = Inr d" using r Inr by (auto simp: resolve_def)
    moreover have "rd_hostname d = h" "rd_status d = ''active''" using s(1) hit(1) by (auto simp: cache_sound_def)
    ultimately show ?thesis using Inr cache_sound_later [OF s] by simp
  next
    case False
    then obtain s1 where "lookup_domain repository options now' requestId h s1 = (s', result)" "cache_sound now' s1"
      using r cache_sound_later [OF s] forget_sound [OF cache_sound_later [OF s], of h] Inr
      by (auto simp: resolve_def split: option.splits if_splits)
    from lookup_sound [OF this] show ?thesis using Inr by auto
  qed
qed

lemma run_cache_sound: "gateway_run t s \<Longrightarrow> cache_sound t s"
proof (induction rule: gateway_run.induct)
  case (start t)
  then show ?case by (simp add: cache_sound_def)
next
  case (resolves t s now' parse_url repository options now request requestId s' result)
  then show ?case using resolve_sound by blast
next
  case (invalidates t s parse_url hostname s' result')
  then show ?case
    using forget_sound [of t s]
    by (cases "canonicalHostname parse_url True hostname") (auto simp: invalidate_def cache_sound_def)
next
  case (clears t s)
  then show ?case by (simp add: cache_sound_def clear_def)
qed

section \<open>Properties\<close>

text \<open>C27. A request is only ever served as the tenant of its own host. Whatever has been
  resolved, cached and invalidated before, under whatever changes of the domain repository, a
  resolved domain is active and its hostname is the canonical hostname of the request; and from five
  minutes after the last cache write on, the answer comes from the repository alone.\<close>

theorem resolve_own_host:
  assumes "gateway_run t s" "t \<le> now'"
    and "resolve parse_url repository options now now' request requestId s = (s', Inr d)"
  shows "resolveRequestHostname parse_url request options = Inr (rd_hostname d) \<and> rd_status d = ''active'' \<and>
    (t + 300000 \<le> now \<longrightarrow> repository (rd_hostname d) = Some d)"
proof -
  note sound = run_cache_sound [OF assms(1)]
  have own: "resolveRequestHostname parse_url request options = Inr (rd_hostname d)" "rd_status d = ''active''"
    using resolve_sound [OF assms(3) sound assms(2)] by auto
  have "repository (rd_hostname d) = Some d" if "t + 300000 \<le> now"
  proof -
    have stale: "\<not> e > now" if "rs_cache s h = Some (e, x)" for h e x
      using sound that \<open>t + 300000 \<le> now\<close> unfolding cache_sound_def by force
    obtain s1 where "lookup_domain repository options now' requestId (rd_hostname d) s1 = (s', Inr d)"
      using assms(3) own(1) stale by (auto simp: resolve_def split: option.splits if_splits)
    then show ?thesis by (auto simp: lookup_domain_def split: option.splits if_splits)
  qed
  with own show ?thesis by blast
qed

text \<open>C26. A forwarded host is believed only from the trusted proxy: without trust in a proxy the
  header has no influence at all, and where verification is required a request that carries it
  without the marks of the configured proxy is refused, for the provider \<open>none\<close> always.\<close>

theorem forwarded_host_guarded:
  "(\<not> ro_trustProxy options \<longrightarrow>
     resolveRequestHostname parse_url (request\<lparr>rq_header := (rq_header request)(''x-forwarded-host'' := v)\<rparr>) options =
     resolveRequestHostname parse_url request options) \<and>
   (ro_trustProxy options \<and> ro_requireVerified options \<and> \<not> falsy (rq_header request ''x-forwarded-host'') \<and>
      (ro_provider options = No_provider \<or> \<not> isTrustedProxyRequest request (ro_provider options)) \<longrightarrow>
     resolveRequestHostname parse_url request options = Inl Unverified_forwarded_host)"
  by (auto simp: resolveRequestHostname_def Let_def isTrustedProxyRequest_def)

definition sample_request :: http_request where
  "sample_request = \<lparr>rq_header = [''host'' \<mapsto> ''Sign.Kommun.se:443''], rq_url = ''https://sign.kommun.se/''\<rparr>"

definition sample_domain :: resolved_domain where
  "sample_domain = \<lparr>rd_domainId = ''d1'', rd_tenantId = ''t1'', rd_environmentId = ''e1'',
     rd_environment = Production_environment, rd_dataPlaneId = ''p1'', rd_hostname = ''sign.kommun.se'',
     rd_primaryHostname = ''sign.kommun.se'', rd_defaultHostname = ''kommun.kommunsign.se'',
     rd_brandingVersion = None, rd_status = ''active''\<rparr>"

definition sample_options :: resolver_options where
  "sample_options = \<lparr>ro_trustProxy = True, ro_provider = No_provider, ro_requireVerified = True, ro_cacheTtlMs = None\<rparr>"

lemma forwarded_host_guarded_witness:
  "resolveRequestHostname sample_parse_url (sample_request\<lparr>rq_header := [''x-forwarded-host'' \<mapsto> ''evil.se'']\<rparr>) sample_options
     = Inl Unverified_forwarded_host"
  using forwarded_host_guarded [of sample_options sample_parse_url "sample_request\<lparr>rq_header := [''x-forwarded-host'' \<mapsto> ''evil.se'']\<rparr>"]
  by (simp add: sample_options_def)

lemma resolve_own_host_witness:
  "resolveRequestHostname sample_parse_url sample_request sample_options = Inr ''sign.kommun.se''"
proof -
  let ?s = "\<lparr>rs_cache = (\<lambda>_. None), rs_events = []\<rparr>"
  have host: "resolveRequestHostname sample_parse_url sample_request sample_options = Inr ''sign.kommun.se''"
    by code_simp
  have "\<exists>s'. resolve sample_parse_url (\<lambda>_. Some sample_domain) sample_options 5 6 sample_request None ?s = (s', Inr sample_domain)"
    by (simp add: resolve_def host lookup_domain_def sample_domain_def)
  then show ?thesis
    using resolve_own_host [OF gateway_run.start, of 0 6 sample_parse_url "\<lambda>_. Some sample_domain" sample_options 5 sample_request None]
    by (auto simp: sample_domain_def)
qed

end
