(* ===== verification/Evidence_Zip.thy ===== *)
theory Evidence_Zip
  imports Crypto_Encoding Canonical_Json "HOL-Library.AList"
begin

text \<open>
  Evidence packages: the manifest of an evidence package (\<open>packages/evidence/src/index.ts\<close>) and
  the deterministic ZIP archive it travels in (\<open>packages/evidence/src/zip.ts\<close>), with CRC-32, the
  parser and the verification of a package.

  The collation of \<open>localeCompare(..., 'en')\<close> is a sort key, SHA-256, \<open>JSON.parse\<close> and the fatal
  UTF-8 decoder of the platform are arguments. NFC leaves text in Latin-1 as it is. An error is
  its message, because the verification reports messages.
\<close>

unbundle bit_operations_syntax

section \<open>Little-endian fields and CRC-32\<close>

definition le16 :: "nat \<Rightarrow> byte list" where
  "le16 n = [of_nat n, of_nat (n div 256)]"

definition le32 :: "nat \<Rightarrow> byte list" where
  "le32 n = [of_nat n, of_nat (n div 256), of_nat (n div 65536), of_nat (n div 16777216)]"

definition get16 :: "byte list \<Rightarrow> nat \<Rightarrow> nat" where
  "get16 bs i = unat (bs ! i) + 256 * unat (bs ! (i + 1))"

definition get32 :: "byte list \<Rightarrow> nat \<Rightarrow> nat" where
  "get32 bs i = unat (bs ! i) + 256 * unat (bs ! (i + 1)) + 65536 * unat (bs ! (i + 2)) + 16777216 * unat (bs ! (i + 3))"

text \<open>\<open>subarray\<close> and \<open>slice\<close>.\<close>

definition sub :: "byte list \<Rightarrow> nat \<Rightarrow> nat \<Rightarrow> byte list" where
  "sub bs start n = take n (drop start bs)"

definition crc_bit :: "32 word \<Rightarrow> 32 word" where
  "crc_bit crc = drop_bit 1 crc XOR (if bit crc 0 then 0xedb88320 else 0)"

definition crc_byte :: "byte \<Rightarrow> 32 word \<Rightarrow> 32 word" where
  "crc_byte b crc = (crc_bit ^^ 8) (crc XOR ucast b)"

definition crc32 :: "byte list \<Rightarrow> nat" where
  "crc32 bs = unat (fold crc_byte bs 0xffffffff XOR 0xffffffff)"

section \<open>Paths\<close>

record zip_file =
  zf_path :: string
  zf_bytes :: "byte list"

type_synonym 'a zip_result = "(string, 'a) result"

fun split_text :: "char \<Rightarrow> string \<Rightarrow> string list" where
  "split_text d [] = [[]]"
| "split_text d (c # cs) =
     (if c = d then [] # split_text d cs
      else case split_text d cs of l # ls \<Rightarrow> (c # l) # ls | [] \<Rightarrow> [[c]])"

definition validatePath :: "string \<Rightarrow> string zip_result" where
  "validatePath input =
     (if input = [] \<or> length input > 512 \<or> hd input = CHR ''/'' \<or> last input = CHR ''/'' \<or>
         CHR 0x5C \<in> set input \<or> CHR 0x00 \<in> set input
      then Inl ''EVIDENCE_ZIP_PATH_INVALID''
      else if list_ex (\<lambda>s. s = [] \<or> s = ''.'' \<or> s = ''..'') (split_text (CHR ''/'') input)
      then Inl ''EVIDENCE_ZIP_PATH_INVALID''
      else Inr input)"

definition assertUniquePaths :: "string list \<Rightarrow> unit zip_result" where
  "assertUniquePaths paths = (if has_duplicates paths then Inl ''EVIDENCE_ZIP_DUPLICATE_PATH'' else Inr ())"

section \<open>Writing an archive\<close>

definition max_archive_bytes :: nat where "max_archive_bytes = 250 * 1024 * 1024"
definition max_file_count :: nat where "max_file_count = 2000"
definition max_file_bytes :: nat where "max_file_bytes = 100 * 1024 * 1024"

definition local_header :: "byte list \<Rightarrow> nat \<Rightarrow> nat \<Rightarrow> byte list" where
  "local_header name crc len =
     le32 0x04034b50 @ le16 20 @ le16 0x0800 @ le16 0 @ le16 0 @ le16 0x0021 @ le32 crc @ le32 len @
     le32 len @ le16 (length name) @ le16 0 @ name"

definition central_header :: "byte list \<Rightarrow> nat \<Rightarrow> nat \<Rightarrow> nat \<Rightarrow> byte list" where
  "central_header name crc len offset =
     le32 0x02014b50 @ le16 0x0314 @ le16 20 @ le16 0x0800 @ le16 0 @ le16 0 @ le16 0x0021 @ le32 crc @
     le32 len @ le32 len @ le16 (length name) @ le16 0 @ le16 0 @ le16 0 @ le16 0 @
     le32 (33188 * 65536) @ le32 offset @ name"

definition end_record :: "nat \<Rightarrow> nat \<Rightarrow> nat \<Rightarrow> byte list" where
  "end_record n len offset =
     le32 0x06054b50 @ le16 0 @ le16 0 @ le16 n @ le16 n @ le32 len @ le32 offset @ le16 0"

text \<open>The loop over the files: the local parts, the central parts and the running offset.\<close>

fun zip_parts :: "nat \<Rightarrow> zip_file list \<Rightarrow> byte list \<times> byte list" where
  "zip_parts offset [] = ([], [])"
| "zip_parts offset (f # fs) =
     (let name = text_encode (zf_path f); crc = crc32 (zf_bytes f); len = length (zf_bytes f);
          entry = local_header name crc len @ zf_bytes f;
          (locals, centrals) = zip_parts (offset + length entry) fs
      in (entry @ locals, central_header name crc len offset @ centrals))"

definition ordered_files :: "(string \<Rightarrow> 'k::linorder) \<Rightarrow> zip_file list \<Rightarrow> zip_file list zip_result" where
  "ordered_files collate files =
     bindR (traverse (\<lambda>f. bindR (validatePath (zf_path f)) (\<lambda>p. Inr (f\<lparr>zf_path := p\<rparr>))) files)
       (\<lambda>fs. Inr (sort_key (\<lambda>f. collate (zf_path f)) fs))"

definition createEvidenceZip :: "(string \<Rightarrow> 'k::linorder) \<Rightarrow> zip_file list \<Rightarrow> byte list zip_result" where
  "createEvidenceZip collate files =
     (if files = [] \<or> length files > max_file_count then Inl ''EVIDENCE_ZIP_FILE_COUNT_INVALID''
      else bindR (ordered_files collate files) (\<lambda>ordered.
        bindR (assertUniquePaths (map zf_path ordered)) (\<lambda>_.
          if list_ex (\<lambda>f. length (zf_bytes f) > max_file_bytes) ordered then Inl ''EVIDENCE_ZIP_FILE_TOO_LARGE''
          else
            let (locals, centrals) = zip_parts 0 ordered;
                archive = locals @ centrals @ end_record (length ordered) (length centrals) (length locals)
            in if length archive > max_archive_bytes then Inl ''EVIDENCE_ZIP_TOO_LARGE'' else Inr archive)))"

section \<open>Reading an archive\<close>

definition readUint32 :: "byte list \<Rightarrow> nat \<Rightarrow> nat option" where
  "readUint32 bytes offset = (if offset + 4 > length bytes then None else Some (get32 bytes offset))"

definition findEndOfCentralDirectory :: "byte list \<Rightarrow> nat zip_result" where
  "findEndOfCentralDirectory bytes =
     (let last_start = length bytes - 22; minimum = length bytes - 22 - 65535
      in case find (\<lambda>offset. readUint32 bytes offset = Some 0x06054b50) (rev [minimum..<Suc last_start]) of
           Some offset \<Rightarrow> Inr offset
         | None \<Rightarrow> Inl ''EVIDENCE_ZIP_END_NOT_FOUND'')"

definition decode_or :: "(byte list \<Rightarrow> string option) \<Rightarrow> byte list \<Rightarrow> string zip_result" where
  "decode_or decode bs = (case decode bs of Some s \<Rightarrow> Inr s
     | None \<Rightarrow> Inl ''The encoded data was not valid for encoding utf-8'')"

text \<open>The local header a central entry points to, and the bytes behind it.\<close>

definition parse_local ::
  "(byte list \<Rightarrow> string option) \<Rightarrow> byte list \<Rightarrow> nat \<Rightarrow> nat \<Rightarrow> nat \<Rightarrow> nat \<Rightarrow> nat \<Rightarrow> nat \<Rightarrow> nat \<Rightarrow> string \<Rightarrow> zip_file zip_result" where
  "parse_local decode bytes centralOffset localOffset flags method expectedCrc compressedSize uncompressedSize path =
     (if localOffset + 30 > centralOffset then Inl ''EVIDENCE_ZIP_LOCAL_ENTRY_INVALID''
      else let view = sub bytes localOffset 30 in
        if get32 view 0 \<noteq> 0x04034b50 then Inl ''EVIDENCE_ZIP_LOCAL_SIGNATURE_INVALID''
        else if get16 view 6 \<noteq> flags \<or> get16 view 8 \<noteq> method then Inl ''EVIDENCE_ZIP_HEADER_MISMATCH''
        else if get32 view 14 \<noteq> expectedCrc \<or> get32 view 18 \<noteq> compressedSize \<or> get32 view 22 \<noteq> uncompressedSize
        then Inl ''EVIDENCE_ZIP_HEADER_MISMATCH''
        else
          let localNameLength = get16 view 26; localExtraLength = get16 view 28; localNameStart = localOffset + 30
          in bindR (decode_or decode (sub bytes localNameStart localNameLength)) (\<lambda>localName.
            if localName \<noteq> path then Inl ''EVIDENCE_ZIP_NAME_MISMATCH''
            else
              let dataStart = localNameStart + localNameLength + localExtraLength; dataEnd = dataStart + compressedSize
              in if dataEnd > centralOffset then Inl ''EVIDENCE_ZIP_FILE_TRUNCATED''
                 else
                   let fileBytes = sub bytes dataStart compressedSize
                   in if crc32 fileBytes \<noteq> expectedCrc then Inl (''CRC mismatch: '' @ path)
                      else Inr \<lparr>zf_path = path, zf_bytes = fileBytes\<rparr>))"

text \<open>One turn of the loop over the central directory: the file and the next cursor.\<close>

definition parse_entry ::
  "(byte list \<Rightarrow> string option) \<Rightarrow> byte list \<Rightarrow> nat \<Rightarrow> nat \<Rightarrow> nat \<Rightarrow> (zip_file \<times> nat) zip_result" where
  "parse_entry decode bytes centralOffset endOffset cursor =
     (if cursor + 46 > endOffset then Inl ''EVIDENCE_ZIP_CENTRAL_ENTRY_TRUNCATED''
      else let view = sub bytes cursor 46 in
        if get32 view 0 \<noteq> 0x02014b50 then Inl ''EVIDENCE_ZIP_CENTRAL_SIGNATURE_INVALID''
        else
          let flags = get16 view 8; method = get16 view 10; expectedCrc = get32 view 16;
              compressedSize = get32 view 20; uncompressedSize = get32 view 24; nameLength = get16 view 28;
              extraLength = get16 view 30; fileCommentLength = get16 view 32; disk = get16 view 34;
              localOffset = get32 view 42
          in if bit flags 0 then Inl ''EVIDENCE_ZIP_ENCRYPTED_UNSUPPORTED''
             else if bit flags 3 then Inl ''EVIDENCE_ZIP_DATA_DESCRIPTOR_UNSUPPORTED''
             else if method \<noteq> 0 \<or> compressedSize \<noteq> uncompressedSize then Inl ''EVIDENCE_ZIP_COMPRESSION_UNSUPPORTED''
             else if uncompressedSize > max_file_bytes then Inl ''EVIDENCE_ZIP_FILE_TOO_LARGE''
             else if disk \<noteq> 0 then Inl ''EVIDENCE_ZIP_MULTIDISK_UNSUPPORTED''
             else
               let centralEnd = cursor + 46 + nameLength + extraLength + fileCommentLength
               in if centralEnd > endOffset then Inl ''EVIDENCE_ZIP_CENTRAL_ENTRY_TRUNCATED''
                  else bindR (decode_or decode (sub bytes (cursor + 46) nameLength)) (\<lambda>text.
                    bindR (validatePath text) (\<lambda>path.
                    bindR (parse_local decode bytes centralOffset localOffset flags method expectedCrc
                             compressedSize uncompressedSize path) (\<lambda>file. Inr (file, centralEnd)))))"

fun parse_entries ::
  "(byte list \<Rightarrow> string option) \<Rightarrow> byte list \<Rightarrow> nat \<Rightarrow> nat \<Rightarrow> nat \<Rightarrow> nat \<Rightarrow> (zip_file list \<times> nat) zip_result" where
  "parse_entries decode bytes centralOffset endOffset 0 cursor = Inr ([], cursor)"
| "parse_entries decode bytes centralOffset endOffset (Suc n) cursor =
     bindR (parse_entry decode bytes centralOffset endOffset cursor) (\<lambda>(file, cursor').
       bindR (parse_entries decode bytes centralOffset endOffset n cursor') (\<lambda>(files, final).
         Inr (file # files, final)))"

definition parseEvidenceZip :: "(byte list \<Rightarrow> string option) \<Rightarrow> byte list \<Rightarrow> zip_file list zip_result" where
  "parseEvidenceZip decode bytes =
     (if length bytes < 22 \<or> length bytes > max_archive_bytes then Inl ''EVIDENCE_ZIP_SIZE_INVALID''
      else bindR (findEndOfCentralDirectory bytes) (\<lambda>endOffset.
        let view = sub bytes endOffset 22
        in if get16 view 4 \<noteq> 0 \<or> get16 view 6 \<noteq> 0 then Inl ''EVIDENCE_ZIP_MULTIDISK_UNSUPPORTED''
           else
             let entryCount = get16 view 10; centralSize = get32 view 12; centralOffset = get32 view 16;
                 commentLength = get16 view 20
             in if entryCount = 0 \<or> entryCount > max_file_count then Inl ''EVIDENCE_ZIP_FILE_COUNT_INVALID''
                else if endOffset + 22 + commentLength \<noteq> length bytes then Inl ''EVIDENCE_ZIP_TRAILING_DATA''
                else if centralOffset + centralSize \<noteq> endOffset then Inl ''EVIDENCE_ZIP_CENTRAL_DIRECTORY_INVALID''
                else bindR (parse_entries decode bytes centralOffset endOffset entryCount centralOffset) (\<lambda>(files, cursor).
                  if cursor \<noteq> endOffset then Inl ''EVIDENCE_ZIP_CENTRAL_DIRECTORY_INVALID''
                  else bindR (assertUniquePaths (map zf_path files)) (\<lambda>_. Inr files))))"


section \<open>The manifest\<close>

text \<open>
  The digest of an entry is whatever JSON value the manifest holds; only a string can be equal to
  a digest.
\<close>

record manifest_entry =
  me_path :: string
  me_sha256 :: json
  me_bytes :: int
  me_mediaType :: string

record evidence_manifest =
  em_createdAt :: string
  em_signatureCaseId :: string
  em_entries :: "manifest_entry list"
  em_metadata :: "json option"

record evidence_file =
  ef_path :: string
  ef_bytes :: "byte list"
  ef_mediaType :: string

definition createEvidenceManifest ::
  "(byte list \<Rightarrow> byte list) \<Rightarrow> (string \<Rightarrow> 'k::linorder) \<Rightarrow> string \<Rightarrow> evidence_file list \<Rightarrow> json \<Rightarrow> string \<Rightarrow> evidence_manifest" where
  "createEvidenceManifest sha256 collate signatureCaseId files metadata createdAt =
     \<lparr>em_createdAt = createdAt, em_signatureCaseId = signatureCaseId,
      em_entries = sort_key (\<lambda>e. collate (me_path e))
        (map (\<lambda>f. \<lparr>me_path = ef_path f, me_sha256 = JStr (sha256Hex sha256 (RawBytes (ef_bytes f))),
            me_bytes = int (length (ef_bytes f)), me_mediaType = ef_mediaType f\<rparr>) files),
      em_metadata = Some metadata\<rparr>"

definition entry_json :: "manifest_entry \<Rightarrow> json" where
  "entry_json e = JObj [(''path'', Some (JStr (me_path e))), (''sha256'', Some (me_sha256 e)),
     (''bytes'', Some (JNum (JInt (me_bytes e)))), (''mediaType'', Some (JStr (me_mediaType e)))]"

definition manifest_value :: "evidence_manifest \<Rightarrow> json" where
  "manifest_value m = JObj [(''schema'', Some (JStr ''kommunsign.evidence-package.v1'')),
     (''createdAt'', Some (JStr (em_createdAt m))), (''signatureCaseId'', Some (JStr (em_signatureCaseId m))),
     (''entries'', Some (JArr (map entry_json (em_entries m)))), (''metadata'', em_metadata m)]"

definition evidenceManifestSha256 :: "(byte list \<Rightarrow> byte list) \<Rightarrow> evidence_manifest \<Rightarrow> (json_error, string) result" where
  "evidenceManifestSha256 sha256 m =
     bindR (canonicalJson (manifest_value m)) (\<lambda>text. Inr (sha256Hex sha256 (TextInput text)))"

text \<open>A map built from the files keeps the last one of a path.\<close>

definition check_entry :: "(byte list \<Rightarrow> byte list) \<Rightarrow> evidence_file list \<Rightarrow> manifest_entry \<Rightarrow> string list" where
  "check_entry sha256 files e =
     (case find (\<lambda>f. ef_path f = me_path e) (rev files) of
        None \<Rightarrow> [''Missing file: '' @ me_path e]
      | Some f \<Rightarrow>
          (if int (length (ef_bytes f)) \<noteq> me_bytes e then [''Size mismatch: '' @ me_path e] else []) @
          (if JStr (sha256Hex sha256 (RawBytes (ef_bytes f))) \<noteq> me_sha256 e then [''Hash mismatch: '' @ me_path e] else []))"

definition verifyEvidenceFiles :: "(byte list \<Rightarrow> byte list) \<Rightarrow> evidence_manifest \<Rightarrow> evidence_file list \<Rightarrow> string list" where
  "verifyEvidenceFiles sha256 m files =
     concat (map (check_entry sha256 files) (em_entries m)) @
     concat (map (\<lambda>f. if \<not> list_ex (\<lambda>e. me_path e = ef_path f) (em_entries m)
                      then [''Unexpected file: '' @ ef_path f] else []) files)"

section \<open>Verifying a package\<close>

text \<open>
  \<open>String(value)\<close>, as far as it can match 64 hexadecimal digits: a string, or an array of one
  such value. Every other value is written in some way that cannot match.
\<close>

fun string_of_json :: "json \<Rightarrow> string" where
  "string_of_json (JStr s) = s"
| "string_of_json (JArr [j]) = string_of_json j"
| "string_of_json _ = []"

definition json_member :: "string \<Rightarrow> json \<Rightarrow> json option" where
  "json_member k j = (case j of JObj ms \<Rightarrow> (case map_of ms k of Some (Some v) \<Rightarrow> Some v | _ \<Rightarrow> None) | _ \<Rightarrow> None)"

definition parse_manifest_entry :: "json \<Rightarrow> manifest_entry zip_result" where
  "parse_manifest_entry j =
     (case (json_member ''path'' j, json_member ''sha256'' j, json_member ''bytes'' j, json_member ''mediaType'' j) of
        (Some (JStr path), Some sha, Some (JNum (JInt n)), Some (JStr media)) \<Rightarrow>
          bindR (validatePath path) (\<lambda>p.
            if p \<noteq> path \<or> \<not> is_sha256_hex (string_of_json sha) \<or> \<bar>n\<bar> > max_safe_integer \<or> n < 0
            then Inl ''EVIDENCE_MANIFEST_ENTRY_INVALID''
            else Inr \<lparr>me_path = path, me_sha256 = sha, me_bytes = n, me_mediaType = media\<rparr>)
      | (Some (JStr path), _, _, _) \<Rightarrow> bindR (validatePath path) (\<lambda>_. Inl ''EVIDENCE_MANIFEST_ENTRY_INVALID'')
      | _ \<Rightarrow> Inl ''EVIDENCE_MANIFEST_ENTRY_INVALID'')"

definition parseManifest ::
  "(byte list \<Rightarrow> string option) \<Rightarrow> (string \<Rightarrow> json option) \<Rightarrow> byte list \<Rightarrow> evidence_manifest zip_result" where
  "parseManifest decode json_parse bytes =
     (case Option.bind (decode bytes) json_parse of
        None \<Rightarrow> Inl ''EVIDENCE_MANIFEST_INVALID_JSON''
      | Some candidate \<Rightarrow>
         (case (json_member ''schema'' candidate, json_member ''signatureCaseId'' candidate,
                json_member ''createdAt'' candidate, json_member ''entries'' candidate) of
            (Some (JStr schema), Some (JStr caseId), Some (JStr createdAt), Some (JArr entries)) \<Rightarrow>
              if schema \<noteq> ''kommunsign.evidence-package.v1'' then Inl ''EVIDENCE_MANIFEST_INVALID''
              else bindR (traverse parse_manifest_entry entries) (\<lambda>es.
                bindR (assertUniquePaths (map me_path es)) (\<lambda>_.
                  Inr \<lparr>em_createdAt = createdAt, em_signatureCaseId = caseId, em_entries = es,
                       em_metadata = json_member ''metadata'' candidate\<rparr>))
          | _ \<Rightarrow> Inl ''EVIDENCE_MANIFEST_INVALID''))"

text \<open>\<open>/^([0-9a-f]{64})  (.+)$/\<close>; a dot matches neither a line feed nor a carriage return.\<close>

definition checksum_line :: "string \<Rightarrow> (string \<times> string) option" where
  "checksum_line line =
     (let digest = take 64 line; path = drop 66 line
      in if is_sha256_hex digest \<and> take 2 (drop 64 line) = ''  '' \<and> path \<noteq> [] \<and>
            CHR 0x0A \<notin> set path \<and> CHR 0x0D \<notin> set path
         then Some (path, digest) else None)"

text \<open>The loop over the lines: the failures so far and the map from paths to checksums.\<close>

fun checksum_lines :: "string list \<Rightarrow> string list \<Rightarrow> (string \<times> string) list \<Rightarrow> (string list \<times> (string \<times> string) list) zip_result" where
  "checksum_lines [] failures actual = Inr (failures, actual)"
| "checksum_lines (line # ls) failures actual =
     (if line = [] then checksum_lines ls failures actual
      else case checksum_line line of
        None \<Rightarrow> checksum_lines ls (failures @ [''CHECKSUM_FILE_INVALID_LINE'']) actual
      | Some (raw, digest) \<Rightarrow> bindR (validatePath raw) (\<lambda>path.
          checksum_lines ls
            (if path \<in> fst ` set actual then failures @ [''Duplicate checksum: '' @ path] else failures)
            (AList.update path digest actual)))"

definition verifyChecksumFile ::
  "(byte list \<Rightarrow> string option) \<Rightarrow> evidence_manifest \<Rightarrow> byte list \<Rightarrow> (string list) zip_result" where
  "verifyChecksumFile decode m bytes =
     (case decode bytes of
        None \<Rightarrow> Inr [''CHECKSUM_FILE_INVALID_ENCODING'']
      | Some text \<Rightarrow> bindR (checksum_lines (split_text (CHR 0x0A) text) [] []) (\<lambda>(failures, actual).
          Inr (failures @
            concat (map (\<lambda>e. case map_of actual (me_path e) of
                None \<Rightarrow> [''Missing checksum: '' @ me_path e]
              | Some checksum \<Rightarrow> if JStr checksum \<noteq> me_sha256 e then [''Checksum mismatch: '' @ me_path e] else [])
              (em_entries m)) @
            concat (map (\<lambda>(path, _). if \<not> list_ex (\<lambda>e. me_path e = path) (em_entries m)
                then [''Unexpected checksum: '' @ path] else []) actual))))"

definition mediaTypeFor :: "string \<Rightarrow> string" where
  "mediaTypeFor path =
     (if ends_with ''.json'' path then ''application/json''
      else if ends_with ''.pdf'' path then ''application/pdf''
      else if ends_with ''.xml'' path then ''application/xml''
      else if ends_with ''.der'' path then ''application/ocsp-response''
      else if ends_with ''.txt'' path \<or> ends_with ''.sha256'' path then ''text/plain; charset=utf-8''
      else ''application/octet-stream'')"

definition is_metadata_path :: "string \<Rightarrow> bool" where
  "is_metadata_path p \<longleftrightarrow> p = ''manifest.json'' \<or> p = ''checksums.sha256''"

definition evidence_files_of :: "zip_file list \<Rightarrow> evidence_file list" where
  "evidence_files_of files =
     map (\<lambda>f. \<lparr>ef_path = zf_path f, ef_bytes = zf_bytes f, ef_mediaType = mediaTypeFor (zf_path f)\<rparr>)
       (filter (\<lambda>f. \<not> is_metadata_path (zf_path f)) files)"

record zip_verification =
  zv_verified :: bool
  zv_packageSha256 :: string
  zv_failures :: "string list"
  zv_manifest :: "evidence_manifest option"

text \<open>The body of the \<open>try\<close> block: the failures collected and the manifest, if it was read.\<close>

definition package_failures ::
  "(byte list \<Rightarrow> byte list) \<Rightarrow> (byte list \<Rightarrow> string option) \<Rightarrow> (string \<Rightarrow> json option) \<Rightarrow> byte list
     \<Rightarrow> string list \<times> evidence_manifest option" where
  "package_failures sha256 decode json_parse bytes =
     (case parseEvidenceZip decode bytes of
        Inl e \<Rightarrow> ([e], None)
      | Inr files \<Rightarrow> (case find (\<lambda>f. zf_path f = ''manifest.json'') files of
          None \<Rightarrow> ([''Missing file: manifest.json''], None)
        | Some manifestFile \<Rightarrow> (case parseManifest decode json_parse (zf_bytes manifestFile) of
            Inl e \<Rightarrow> ([e], None)
          | Inr m \<Rightarrow>
             (let checksumFile = find (\<lambda>f. zf_path f = ''checksums.sha256'') files;
                  before = (if checksumFile = None then [''Missing file: checksums.sha256''] else []) @
                    verifyEvidenceFiles sha256 m (evidence_files_of files);
                  self = (if list_ex (\<lambda>e. is_metadata_path (me_path e)) (em_entries m)
                    then [''Manifest must not self-reference package metadata files''] else [])
              in case checksumFile of
                   None \<Rightarrow> (before @ self, Some m)
                 | Some c \<Rightarrow> (case verifyChecksumFile decode m (zf_bytes c) of
                     Inl e \<Rightarrow> (before @ [e], Some m)
                   | Inr checks \<Rightarrow> (before @ checks @ self, Some m))))))"

definition verifyEvidenceZip ::
  "(byte list \<Rightarrow> byte list) \<Rightarrow> (byte list \<Rightarrow> string option) \<Rightarrow> (string \<Rightarrow> json option) \<Rightarrow> byte list \<Rightarrow> zip_verification" where
  "verifyEvidenceZip sha256 decode json_parse bytes =
     (let (failures, manifest) = package_failures sha256 decode json_parse bytes
      in \<lparr>zv_verified = (failures = []), zv_packageSha256 = sha256Hex sha256 (RawBytes bytes),
          zv_failures = failures, zv_manifest = manifest\<rparr>)"

section \<open>Lemmas: fields\<close>

named_theorems zip_fields \<open>the fields of the records of an archive\<close>

lemma length_le [simp]: "length (le16 n) = 2" "length (le32 n) = 4"
  by (simp_all add: le16_def le32_def)

lemma unat_byte_mod: "unat (of_nat n :: byte) = n mod 256"
  by (simp add: unat_of_nat)

lemma mod_digits: "n mod 256 + 256 * (n div 256 mod 256) = n mod (65536 :: nat)"
  by (rule trans [OF add.commute mod_mult2_eq [of n 256 256, simplified, symmetric]])

lemma nat_digits32:
  fixes n :: nat
  assumes "n < 2 ^ 32"
  shows "n mod 256 + 256 * (n div 256 mod 256) + 65536 * (n div 65536 mod 256) + 16777216 * (n div 16777216 mod 256) = n"
proof -
  have "n div 65536 < 65536" using assms by (simp add: less_mult_imp_div_less)
  then have hi: "n div 65536 mod 256 + 256 * (n div 65536 div 256 mod 256) = n div 65536"
    using mod_digits [of "n div 65536"] by (simp only: mod_less)
  have "n div 65536 div 256 = n div 16777216" by (simp add: div_mult2_eq [symmetric])
  from hi [unfolded this] have "65536 * (n div 65536 mod 256) + 16777216 * (n div 16777216 mod 256) = 65536 * (n div 65536)"
    by linarith
  then show ?thesis using mod_digits [of n] mult_div_mod_eq [of 65536 n] by linarith
qed

text \<open>Reading the first field, and skipping it.\<close>

lemma get_first [zip_fields]:
  "n < 65536 \<Longrightarrow> get16 (le16 n @ r) 0 = n" "n < 65536 \<Longrightarrow> get16 (le16 n) 0 = n"
  "n < 2 ^ 32 \<Longrightarrow> get32 (le32 n @ r) 0 = n"
  using mod_digits [of n] nat_digits32 [of n]
  by (simp_all add: get16_def get32_def le16_def le32_def unat_byte_mod)

lemma get_skip [zip_fields]:
  "2 \<le> i \<Longrightarrow> get16 (le16 n @ r) i = get16 r (i - 2)" "4 \<le> i \<Longrightarrow> get16 (le32 n @ r) i = get16 r (i - 4)"
  "2 \<le> i \<Longrightarrow> get32 (le16 n @ r) i = get32 r (i - 2)" "4 \<le> i \<Longrightarrow> get32 (le32 n @ r) i = get32 r (i - 4)"
proof -
  have "get16 (x @ r) (length x + k) = get16 r k" "get32 (x @ r) (length x + k) = get32 r k" for x k
    by (simp_all add: get16_def get32_def nth_append)
  from this [of "le16 n" "i - 2"] this [of "le32 n" "i - 4"] show
    "2 \<le> i \<Longrightarrow> get16 (le16 n @ r) i = get16 r (i - 2)" "4 \<le> i \<Longrightarrow> get16 (le32 n @ r) i = get16 r (i - 4)"
    "2 \<le> i \<Longrightarrow> get32 (le16 n @ r) i = get32 r (i - 2)" "4 \<le> i \<Longrightarrow> get32 (le32 n @ r) i = get32 r (i - 4)"
    by (simp_all only: length_le le_add_diff_inverse)
qed

lemma length_local [simp]: "length (local_header name crc len) = 30 + length name"
  by (simp add: local_header_def)

lemma length_central [simp]: "length (central_header name crc len offset) = 46 + length name"
  by (simp add: central_header_def)

lemma length_end [simp]: "length (end_record n len offset) = 22"
  by (simp add: end_record_def)

lemma local_fields:
  assumes "crc < 2 ^ 32" "len < 2 ^ 32" "length name < 65536"
  shows "get32 (local_header name crc len) 0 = 0x04034b50" "get16 (local_header name crc len) 6 = 0x0800"
    "get16 (local_header name crc len) 8 = 0" "get32 (local_header name crc len) 14 = crc"
    "get32 (local_header name crc len) 18 = len" "get32 (local_header name crc len) 22 = len"
    "get16 (local_header name crc len) 26 = length name" "get16 (local_header name crc len) 28 = 0"
  using assms by (simp_all add: local_header_def zip_fields)

lemma central_fields:
  assumes "crc < 2 ^ 32" "len < 2 ^ 32" "offset < 2 ^ 32" "length name < 65536"
  shows "get32 (central_header name crc len offset) 0 = 0x02014b50" "get16 (central_header name crc len offset) 8 = 0x0800"
    "get16 (central_header name crc len offset) 10 = 0" "get32 (central_header name crc len offset) 16 = crc"
    "get32 (central_header name crc len offset) 20 = len" "get32 (central_header name crc len offset) 24 = len"
    "get16 (central_header name crc len offset) 28 = length name" "get16 (central_header name crc len offset) 30 = 0"
    "get16 (central_header name crc len offset) 32 = 0" "get16 (central_header name crc len offset) 34 = 0"
    "get32 (central_header name crc len offset) 42 = offset"
  using assms by (simp_all add: central_header_def zip_fields)

lemma end_fields:
  assumes "n < 65536" "len < 2 ^ 32" "offset < 2 ^ 32"
  shows "get32 (end_record n len offset) 0 = 0x06054b50" "get16 (end_record n len offset) 4 = 0"
    "get16 (end_record n len offset) 6 = 0" "get16 (end_record n len offset) 10 = n"
    "get32 (end_record n len offset) 12 = len" "get32 (end_record n len offset) 16 = offset"
    "get16 (end_record n len offset) 20 = 0"
  using assms by (simp_all add: end_record_def zip_fields)

lemma sub_middle: "sub (a @ b @ c) (length a) (length b) = b"
  by (simp add: sub_def)

lemma get_view:
  "i + 2 \<le> n \<Longrightarrow> i + 2 \<le> length h \<Longrightarrow> get16 (sub (a @ h @ c) (length a) n) i = get16 h i"
  "i + 4 \<le> n \<Longrightarrow> i + 4 \<le> length h \<Longrightarrow> get32 (sub (a @ h @ c) (length a) n) i = get32 h i"
  by (simp_all add: sub_def get16_def get32_def nth_append)

lemma crc32_less: "crc32 bs < 2 ^ 32"
  using unsigned_less [of "fold crc_byte bs 0xffffffff XOR 0xffffffff"] by (simp add: crc32_def)


section \<open>Lemmas: reading back what was written\<close>

definition good_file :: "(byte list \<Rightarrow> string option) \<Rightarrow> zip_file \<Rightarrow> bool" where
  "good_file decode f \<longleftrightarrow> validatePath (zf_path f) = Inr (zf_path f) \<and> length (zf_bytes f) \<le> max_file_bytes \<and>
     decode (text_encode (zf_path f)) = Some (zf_path f)"

lemma length_utf8_char: "length (utf8_char c) \<le> 2"
  by (simp add: utf8_char_def Let_def)

lemma length_text_encode: "length (text_encode s) \<le> 2 * length s"
proof (induction s)
  case (Cons c s)
  then show ?case using length_utf8_char [of c] by (simp add: text_encode_def)
qed (simp add: text_encode_def)

lemma good_bounds:
  assumes "good_file decode f"
  shows "length (text_encode (zf_path f)) < 65536" "length (zf_bytes f) < 2 ^ 32"
proof -
  have "length (zf_path f) \<le> 512"
    using assms by (auto simp: good_file_def validatePath_def split: if_splits)
  then show "length (text_encode (zf_path f)) < 65536" using length_text_encode [of "zf_path f"] by simp
  show "length (zf_bytes f) < 2 ^ 32" using assms by (simp add: good_file_def max_file_bytes_def)
qed

lemma sub_at:
  "sub (a @ b @ c) (length a) n = take n (b @ c)"
  by (simp add: sub_def)

lemma parse_local_written:
  fixes f :: zip_file
  defines "name \<equiv> text_encode (zf_path f)"
  defines "hdr \<equiv> local_header name (crc32 (zf_bytes f)) (length (zf_bytes f))"
  assumes f: "good_file decode f" and off: "length (pre @ hdr @ zf_bytes f) \<le> centralOffset"
  shows "parse_local decode (pre @ hdr @ zf_bytes f @ rest) centralOffset (length pre) 0x0800 0 (crc32 (zf_bytes f))
    (length (zf_bytes f)) (length (zf_bytes f)) (zf_path f) = Inr f"
proof -
  define bytes where "bytes = pre @ hdr @ zf_bytes f @ rest"
  note b = good_bounds [OF f] crc32_less [of "zf_bytes f"]
  note fields = local_fields [OF b(3,2,1), folded name_def, folded hdr_def]
  have len: "length hdr = 30 + length name" by (simp add: hdr_def)
  have view: "i + 2 \<le> 30 \<Longrightarrow> get16 (sub bytes (length pre) 30) i = get16 hdr i"
    "i + 4 \<le> 30 \<Longrightarrow> get32 (sub bytes (length pre) 30) i = get32 hdr i" for i
    unfolding bytes_def using len by (simp_all add: get_view)
  have hdr: "hdr = take 30 hdr @ name" by (simp add: hdr_def local_header_def)
  have nm: "sub bytes (length pre + 30) (length name) = name"
    using sub_middle [of "pre @ take 30 hdr" name "zf_bytes f @ rest"] len
    unfolding bytes_def by (subst hdr) simp
  have data: "sub bytes (length pre + 30 + length name) (length (zf_bytes f)) = zf_bytes f"
    using sub_middle [of "pre @ hdr" "zf_bytes f" rest] len by (simp add: bytes_def add.assoc)
  have dec: "decode name = Some (zf_path f)" using f by (simp add: good_file_def name_def)
  show ?thesis
    unfolding bytes_def [symmetric] using off len
    by (simp add: parse_local_def Let_def view fields nm data decode_or_def dec)
qed


lemma parse_entry_written:
  fixes f :: zip_file
  defines "name \<equiv> text_encode (zf_path f)"
  defines "lhdr \<equiv> local_header name (crc32 (zf_bytes f)) (length (zf_bytes f))"
  assumes f: "good_file decode f"
    and bytes: "bytes = pre @ lhdr @ zf_bytes f @ rest" "bytes = front @ chdr @ tail"
    and chdr: "chdr = central_header name (crc32 (zf_bytes f)) (length (zf_bytes f)) (length pre)"
    and off: "length (pre @ lhdr @ zf_bytes f) \<le> centralOffset" "length pre < 2 ^ 32" "length (front @ chdr) \<le> endOffset"
  shows "parse_entry decode bytes centralOffset endOffset (length front) = Inr (f, length (front @ chdr))"
proof -
  note b = good_bounds [OF f] crc32_less [of "zf_bytes f"]
  note fields = central_fields [OF b(3,2) off(2) b(1), folded name_def, folded chdr]
  have len: "length chdr = 46 + length name" by (simp add: chdr)
  have view: "i + 2 \<le> 46 \<Longrightarrow> get16 (sub bytes (length front) 46) i = get16 chdr i"
    "i + 4 \<le> 46 \<Longrightarrow> get32 (sub bytes (length front) 46) i = get32 chdr i" for i
    unfolding bytes(2) using len by (simp_all add: get_view)
  have c: "chdr = take 46 chdr @ name" by (simp add: chdr central_header_def)
  have nm: "sub bytes (length front + 46) (length name) = name"
    using sub_middle [of "front @ take 46 chdr" name tail] len
    unfolding bytes(2) by (subst c) simp
  have dec: "decode name = Some (zf_path f)" "validatePath (zf_path f) = Inr (zf_path f)"
    "length (zf_bytes f) \<le> max_file_bytes"
    using f by (simp_all add: good_file_def name_def)
  have local: "parse_local decode bytes centralOffset (length pre) 2048 0 (crc32 (zf_bytes f))
      (length (zf_bytes f)) (length (zf_bytes f)) (zf_path f) = Inr f"
    using parse_local_written [OF f, of pre centralOffset rest] off(1)
    unfolding bytes(1) lhdr_def name_def by simp
  show ?thesis
    using off(3) len dec
    by (simp add: parse_entry_def Let_def view fields nm decode_or_def local bit_nat_iff)
qed

lemma parse_entries_written:
  assumes "zip_parts (length pre) fs = (locals, centrals)" "\<forall>f \<in> set fs. good_file decode f"
    and "bytes = pre @ locals @ mid @ centrals @ tail"
    and "centralOffset = length (pre @ locals)" "length (pre @ locals) < 2 ^ 32"
    and "length (pre @ locals @ mid @ centrals) \<le> endOffset"
  shows "parse_entries decode bytes centralOffset endOffset (length fs) (length (pre @ locals @ mid)) =
    Inr (fs, length (pre @ locals @ mid @ centrals))"
  using assms
proof (induction fs arbitrary: pre mid locals centrals)
  case Nil
  then show ?case by simp
next
  case (Cons f fs)
  define name where "name = text_encode (zf_path f)"
  define lhdr where "lhdr = local_header name (crc32 (zf_bytes f)) (length (zf_bytes f))"
  define chdr where "chdr = central_header name (crc32 (zf_bytes f)) (length (zf_bytes f)) (length pre)"
  let ?pre = "pre @ lhdr @ zf_bytes f" and ?mid = "mid @ chdr"
  obtain ls cs where rest: "zip_parts (length ?pre) fs = (ls, cs)" by force
  have parts: "locals = lhdr @ zf_bytes f @ ls" "centrals = chdr @ cs"
    using Cons.prems(1) rest by (simp_all add: Let_def lhdr_def chdr_def name_def)
  have b1: "bytes = pre @ lhdr @ zf_bytes f @ (ls @ mid @ chdr @ cs @ tail)"
    and b2: "bytes = (pre @ locals @ mid) @ chdr @ (cs @ tail)"
    and b3: "bytes = ?pre @ ls @ ?mid @ cs @ tail"
    using Cons.prems(3) parts by simp_all
  have entry: "parse_entry decode bytes centralOffset endOffset (length (pre @ locals @ mid)) =
      Inr (f, length ((pre @ locals @ mid) @ chdr))"
    using Cons.prems(2,4,5,6) parts
    by (intro parse_entry_written [OF _ b1 [unfolded lhdr_def name_def] b2 chdr_def [unfolded name_def]])
      (auto simp: lhdr_def name_def)
  have "parse_entries decode bytes centralOffset endOffset (length fs) (length (?pre @ ls @ ?mid)) =
      Inr (fs, length (?pre @ ls @ ?mid @ cs))"
    using Cons.prems(2,4,5,6) parts by (intro Cons.IH [OF rest _ b3]) auto
  then show ?case using entry parts by (simp add: add.assoc)
qed

lemma ordered_Inr:
  assumes "ordered_files collate files = Inr ordered"
  shows "ordered = sort_key (\<lambda>f. collate (zf_path f)) files"
    "\<forall>f \<in> set files. validatePath (zf_path f) = Inr (zf_path f)"
proof -
  obtain fs where fs: "list_all2 (\<lambda>f g. bindR (validatePath (zf_path f)) (\<lambda>p. Inr (f\<lparr>zf_path := p\<rparr>)) = Inr g) files fs"
    "ordered = sort_key (\<lambda>f. collate (zf_path f)) fs"
    using assms by (auto simp: ordered_files_def bindR_Inr_iff traverse_Inr_iff)
  have valid: "validatePath p = Inr q \<Longrightarrow> q = p" for p q by (auto simp: validatePath_def split: if_splits)
  have "list_all2 (\<lambda>f g. g = f \<and> validatePath (zf_path f) = Inr (zf_path f)) files fs"
    using fs(1) by (rule list_all2_mono) (auto simp: bindR_Inr_iff dest: valid)
  then have "fs = files \<and> (\<forall>f \<in> set files. validatePath (zf_path f) = Inr (zf_path f))"
    by (induction rule: list_all2_induct) auto
  then show "ordered = sort_key (\<lambda>f. collate (zf_path f)) files"
    "\<forall>f \<in> set files. validatePath (zf_path f) = Inr (zf_path f)" using fs(2) by auto
qed

lemma find_end_written:
  assumes "n < 65536" "len < 2 ^ 32" "off < 2 ^ 32"
  shows "findEndOfCentralDirectory (front @ end_record n len off) = Inr (length front)"
proof -
  have "get32 (front @ end_record n len off) (length front) = get32 (end_record n len off) 0"
    by (simp add: get32_def nth_append numeral_2_eq_2 numeral_3_eq_3)
  then show ?thesis
    using end_fields(1) [OF assms]
    by (simp add: findEndOfCentralDirectory_def readUint32_def upt_Suc_append)
qed

section \<open>Properties of the archive\<close>

text \<open>C7. What is packed comes back: parsing an archive that \<open>createEvidenceZip\<close> built gives
  exactly the files that went in, path by path and byte by byte, in the order of the collation.\<close>

theorem evidence_zip_roundtrip:
  assumes "createEvidenceZip collate files = Inr archive"
    and "\<And>s. decode (text_encode s) = Some s"
  shows "parseEvidenceZip decode archive = Inr (sort_key (\<lambda>f. collate (zf_path f)) files)"
proof -
  obtain ordered where o: "ordered_files collate files = Inr ordered" "\<not> has_duplicates (map zf_path ordered)"
    "\<forall>f \<in> set ordered. length (zf_bytes f) \<le> max_file_bytes" "files \<noteq> []" "length files \<le> max_file_count"
    using assms(1)
    by (auto simp: createEvidenceZip_def bindR_Inr_iff assertUniquePaths_def list_ex_iff split: if_splits prod.splits)
      (meson not_le)
  obtain locals centrals where parts: "zip_parts 0 ordered = (locals, centrals)" by force
  define front where "front = locals @ centrals"
  have a: "archive = front @ end_record (length ordered) (length centrals) (length locals)"
    "length archive \<le> max_archive_bytes"
    using assms(1) o parts
    by (auto simp: createEvidenceZip_def assertUniquePaths_def list_ex_iff front_def not_le [symmetric] split: if_splits)
  note ord = ordered_Inr [OF o(1)]
  have n: "length ordered = length files" using ord(1) by simp
  have small: "length ordered < 65536" "length centrals < 2 ^ 32" "length locals < 2 ^ 32" "length ordered > 0"
    using o(4,5) a n by (simp_all add: front_def max_archive_bytes_def max_file_count_def)
  have good: "\<forall>f \<in> set ordered. good_file decode f"
    using o(3) ord assms(2) by (simp add: good_file_def)
  have entries: "parse_entries decode archive (length locals) (length front) (length ordered) (length locals) =
      Inr (ordered, length front)"
    using parse_entries_written [of "[]" ordered locals centrals decode archive "[]"
        "end_record (length ordered) (length centrals) (length locals)"] parts good small a(1)
    by (simp add: front_def)
  have view: "get16 (sub archive (length front) 22) i = get16 (end_record (length ordered) (length centrals) (length locals)) i"
    "get32 (sub archive (length front) 22) j = get32 (end_record (length ordered) (length centrals) (length locals)) j"
    if "i + 2 \<le> 22" "j + 4 \<le> 22" for i j
    using that get_view [of _ 22 "end_record (length ordered) (length centrals) (length locals)" front "[]"]
    unfolding a(1) by simp_all
  have find: "findEndOfCentralDirectory archive = Inr (length front)"
    unfolding a(1) by (rule find_end_written [OF small(1-3)])
  have len: "length archive = length front + 22" "length locals + length centrals = length front"
    by (simp_all add: a(1) front_def)
  have "length ordered \<le> max_file_count" using o(5) n by simp
  then show ?thesis
    using a(2) len small(4) o(2)
    by (simp add: parseEvidenceZip_def find Let_def view [where j = 0] view [where i = 0] end_fields [OF small(1-3)]
        entries assertUniquePaths_def ord(1) [symmetric])
qed


text \<open>A decoder for the texts within Latin-1.\<close>

fun latin1_decode :: "byte list \<Rightarrow> string option" where
  "latin1_decode [] = Some []"
| "latin1_decode (b # bs) =
     (if unat b < 128 then map_option (Cons (char_of (unat b))) (latin1_decode bs)
      else case bs of [] \<Rightarrow> None
        | c # cs \<Rightarrow>
            if (b = 194 \<or> b = 195) \<and> 128 \<le> unat c \<and> unat c < 192
            then map_option (Cons (char_of (64 * (unat b - 192) + (unat c - 128)))) (latin1_decode cs)
            else None)"

lemma latin1_decode_encode: "latin1_decode (text_encode s) = Some s"
proof (induction s)
  case (Cons c s)
  define n where "n = code c"
  have n: "n < 256" "char_of n = c" by (simp_all add: n_def code_less, simp add: code_def)
  show ?case
  proof (cases "n < 128")
    case True
    then show ?thesis using Cons n by (simp add: text_encode_def utf8_char_def n_def [symmetric] unat_of_nat)
  next
    case False
    then have "n div 64 = 2 \<or> n div 64 = 3" using n(1) by (auto simp: less_mult_imp_div_less)
    then have lead: "(of_nat (192 + n div 64) :: byte) = 194 \<or> (of_nat (192 + n div 64) :: byte) = 195"
      "unat (of_nat (192 + n div 64) :: byte) = 192 + n div 64" by (auto simp: unat_of_nat)
    have m: "n mod 64 < 64" by simp
    then have trail: "unat (of_nat (128 + n mod 64) :: byte) = 128 + n mod 64" unfolding unat_byte_mod by (intro mod_less) linarith
    have "text_encode (c # s) = of_nat (192 + n div 64) # of_nat (128 + n mod 64) # text_encode s"
      using False by (simp add: text_encode_def utf8_char_def Let_def n_def [symmetric])
    then show ?thesis using Cons lead trail n m by simp
  qed
qed (simp add: text_encode_def)

definition sample_files :: "zip_file list" where
  "sample_files = [\<lparr>zf_path = ''b.pdf'', zf_bytes = [37, 80]\<rparr>, \<lparr>zf_path = ''a.txt'', zf_bytes = []\<rparr>]"

lemma evidence_zip_roundtrip_witness:
  "\<exists>archive. createEvidenceZip (map code) sample_files = Inr archive \<and>
     parseEvidenceZip latin1_decode archive = Inr (rev sample_files)"
proof -
  have v: "validatePath ''a.txt'' = Inr ''a.txt''" "validatePath ''b.pdf'' = Inr ''b.pdf''" by code_simp+
  have "is_ok (createEvidenceZip (map code) sample_files)"
    by (simp add: createEvidenceZip_def sample_files_def ordered_files_def v assertUniquePaths_def max_file_count_def
        max_file_bytes_def max_archive_bytes_def Let_def is_ok_def text_encode_def utf8_char_def code_def)
  then obtain archive where a: "createEvidenceZip (map code) sample_files = Inr archive" by (auto simp: is_ok_iff)
  have "sort_key (\<lambda>f. map code (zf_path f)) sample_files = rev sample_files" by code_simp
  then show ?thesis using evidence_zip_roundtrip [OF a latin1_decode_encode] a by auto
qed


section \<open>Lemmas: verification\<close>

lemma parse_unique: "parseEvidenceZip decode bytes = Inr files \<Longrightarrow> distinct (map zf_path files)"
  by (auto simp: parseEvidenceZip_def bindR_Inr_iff assertUniquePaths_def Let_def split: if_splits)

lemma check_entry_Nil:
  "check_entry sha256 files e = [] \<Longrightarrow> \<exists>f \<in> set files. ef_path f = me_path e \<and>
     int (length (ef_bytes f)) = me_bytes e \<and> me_sha256 e = JStr (sha256Hex sha256 (RawBytes (ef_bytes f)))"
  by (auto simp: check_entry_def find_Some_iff split: option.splits if_splits) (metis nth_mem length_rev set_rev)

lemma verify_files_Nil:
  assumes "verifyEvidenceFiles sha256 m files = []"
  shows "\<forall>e \<in> set (em_entries m). \<exists>f \<in> set files. ef_path f = me_path e \<and>
      int (length (ef_bytes f)) = me_bytes e \<and> me_sha256 e = JStr (sha256Hex sha256 (RawBytes (ef_bytes f)))"
    "\<forall>f \<in> set files. \<exists>e \<in> set (em_entries m). me_path e = ef_path f"
  using assms check_entry_Nil [of sha256 files]
  by (auto simp: verifyEvidenceFiles_def list_ex_iff simp del: if_image_distrib split: if_splits)

lemma evidence_files_set:
  "f \<in> set (evidence_files_of files) \<longleftrightarrow> (\<exists>z \<in> set files. \<not> is_metadata_path (zf_path z) \<and>
     f = \<lparr>ef_path = zf_path z, ef_bytes = zf_bytes z, ef_mediaType = mediaTypeFor (zf_path z)\<rparr>)"
  by (auto simp: evidence_files_of_def)

lemma no_failures:
  assumes "package_failures sha256 decode json_parse bytes = ([], manifest)"
  obtains files mf m where "parseEvidenceZip decode bytes = Inr files" "manifest = Some m"
    "find (\<lambda>f. zf_path f = ''manifest.json'') files = Some mf" "parseManifest decode json_parse (zf_bytes mf) = Inr m"
    "verifyEvidenceFiles sha256 m (evidence_files_of files) = []"
    "\<forall>e \<in> set (em_entries m). \<not> is_metadata_path (me_path e)"
  using assms
  by (auto simp: package_failures_def Let_def list_ex_iff split: sum.splits option.splits if_splits)

text \<open>C8. A verified package is complete and unaltered: its archive parses, its own manifest
  accounts for every file besides the manifest and the checksums, and every entry of the manifest is
  a file of the package with exactly the recorded number of bytes and SHA-256 digest. No path occurs
  twice.\<close>

theorem verified_package_complete:
  assumes "zv_verified (verifyEvidenceZip sha256 decode json_parse bytes)"
  shows "\<exists>files mf m. parseEvidenceZip decode bytes = Inr files \<and> distinct (map zf_path files) \<and>
    mf \<in> set files \<and> zf_path mf = ''manifest.json'' \<and> parseManifest decode json_parse (zf_bytes mf) = Inr m \<and>
    zv_manifest (verifyEvidenceZip sha256 decode json_parse bytes) = Some m \<and>
    (\<forall>e \<in> set (em_entries m). \<exists>f \<in> set files. zf_path f = me_path e \<and>
       int (length (zf_bytes f)) = me_bytes e \<and> me_sha256 e = JStr (sha256Hex sha256 (RawBytes (zf_bytes f)))) \<and>
    (\<forall>f \<in> set files. is_metadata_path (zf_path f) \<or> (\<exists>e \<in> set (em_entries m). me_path e = zf_path f))"
proof -
  obtain manifest where nf: "package_failures sha256 decode json_parse bytes = ([], manifest)"
    and mani: "zv_manifest (verifyEvidenceZip sha256 decode json_parse bytes) = manifest"
    using assms by (auto simp: verifyEvidenceZip_def split: prod.splits)
  obtain files mf m where p: "parseEvidenceZip decode bytes = Inr files" "manifest = Some m"
    "find (\<lambda>f. zf_path f = ''manifest.json'') files = Some mf" "parseManifest decode json_parse (zf_bytes mf) = Inr m"
    "verifyEvidenceFiles sha256 m (evidence_files_of files) = []"
    "\<forall>e \<in> set (em_entries m). \<not> is_metadata_path (me_path e)"
    by (rule no_failures [OF nf])
  have mf: "mf \<in> set files" "zf_path mf = ''manifest.json''"
    using p(3) by (auto simp: find_Some_iff)
  note v = verify_files_Nil [OF p(5)]
  have "\<forall>e \<in> set (em_entries m). \<exists>f \<in> set files. zf_path f = me_path e \<and>
       int (length (zf_bytes f)) = me_bytes e \<and> me_sha256 e = JStr (sha256Hex sha256 (RawBytes (zf_bytes f)))"
    using v(1) unfolding Bex_def evidence_files_set by fastforce
  moreover have "\<forall>f \<in> set files. is_metadata_path (zf_path f) \<or> (\<exists>e \<in> set (em_entries m). me_path e = zf_path f)"
    using v(2) unfolding Ball_def evidence_files_set by fastforce
  ultimately show ?thesis using p(1,2,4) mf parse_unique [OF p(1)] mani by blast
qed


definition sample_sum :: "byte list \<Rightarrow> byte list" where
  "sample_sum m = replicate 31 0 @ [fold (+) m 0]"

definition sample_hex :: string where
  "sample_hex = ''0000000000000000000000000000000000000000000000000000000000000075''"

lemma sample_hex: "sha256Hex sample_sum (RawBytes [37, 80]) = sample_hex"
proof -
  have "concat (map byte_hex (replicate 31 0)) = take 62 sample_hex" by code_simp
  moreover have "byte_hex 117 = drop 62 sample_hex" by code_simp
  ultimately show ?thesis
    by (simp add: sha256Hex_def input_bytes_def sample_sum_def toHex_def del: map_replicate take_replicate)
qed

definition sample_entry_json :: json where
  "sample_entry_json = JObj [(''path'', Some (JStr ''a.pdf'')),
     (''sha256'', Some (JStr (sample_hex))),
     (''bytes'', Some (JNum (JInt 2))), (''mediaType'', Some (JStr ''application/pdf''))]"


definition sample_manifest_json :: json where
  "sample_manifest_json = JObj [(''schema'', Some (JStr ''kommunsign.evidence-package.v1'')),
     (''createdAt'', Some (JStr ''2025-01-01T00:00:00.000Z'')), (''signatureCaseId'', Some (JStr ''case-1'')),
     (''entries'', Some (JArr [sample_entry_json])), (''metadata'', Some JNull)]"

definition sample_checksums :: "byte list" where
  "sample_checksums = text_encode (sample_hex @ ''  a.pdf'')"

definition sample_package :: "zip_file list" where
  "sample_package = [\<lparr>zf_path = ''a.pdf'', zf_bytes = [37, 80]\<rparr>,
     \<lparr>zf_path = ''checksums.sha256'', zf_bytes = sample_checksums\<rparr>,
     \<lparr>zf_path = ''manifest.json'', zf_bytes = [123, 125]\<rparr>]"

lemma sample_package_builds: "is_ok (createEvidenceZip (map code) sample_package)"
proof -
  have v: "validatePath ''a.pdf'' = Inr ''a.pdf''" "validatePath ''checksums.sha256'' = Inr ''checksums.sha256''"
    "validatePath ''manifest.json'' = Inr ''manifest.json''" by code_simp+
  have "length sample_checksums \<le> 1000"
    using length_text_encode [of "sample_hex @ ''  a.pdf''"]
    by (simp add: sample_checksums_def sha256Hex_def length_toHex sample_sum_def sample_hex_def)
  then show ?thesis
    by (simp add: createEvidenceZip_def sample_package_def ordered_files_def v assertUniquePaths_def max_file_count_def
        max_file_bytes_def max_archive_bytes_def Let_def is_ok_def text_encode_def utf8_char_def code_def)
qed

lemma verified_package_complete_witness:
  "\<exists>archive files. createEvidenceZip (map code) sample_package = Inr archive \<and>
     parseEvidenceZip latin1_decode archive = Inr files \<and> distinct (map zf_path files) \<and>
     zv_verified (verifyEvidenceZip sample_sum latin1_decode (\<lambda>_. Some sample_manifest_json) archive)"
proof -
  obtain archive where a: "createEvidenceZip (map code) sample_package = Inr archive"
    using sample_package_builds by (auto simp: is_ok_iff)
  have "sort_key (\<lambda>f. map code (zf_path f)) sample_package = sample_package" by code_simp
  then have parse: "parseEvidenceZip latin1_decode archive = Inr sample_package"
    using evidence_zip_roundtrip [OF a latin1_decode_encode] by simp
  define m where "m = \<lparr>em_createdAt = ''2025-01-01T00:00:00.000Z'', em_signatureCaseId = ''case-1'',
     em_entries = [\<lparr>me_path = ''a.pdf'', me_sha256 = JStr (sample_hex),
       me_bytes = 2, me_mediaType = ''application/pdf''\<rparr>], em_metadata = Some JNull\<rparr>"
  have m: "parseManifest latin1_decode (\<lambda>_. Some sample_manifest_json) [123, 125] = Inr m"
    unfolding m_def by code_simp
  have ok: "verifyEvidenceFiles sample_sum m (evidence_files_of sample_package) = []"
    "verifyChecksumFile latin1_decode m sample_checksums = Inr []"
    "\<not> list_ex (\<lambda>e. is_metadata_path (me_path e)) (em_entries m)"
    unfolding m_def
      apply (simp add: verifyEvidenceFiles_def check_entry_def evidence_files_of_def sample_package_def is_metadata_path_def sample_hex)
     apply code_simp
    apply (simp add: is_metadata_path_def)
    done
  have finds: "find (\<lambda>f. zf_path f = ''manifest.json'') sample_package =
      Some \<lparr>zf_path = ''manifest.json'', zf_bytes = [123, 125]\<rparr>"
    "find (\<lambda>f. zf_path f = ''checksums.sha256'') sample_package =
      Some \<lparr>zf_path = ''checksums.sha256'', zf_bytes = sample_checksums\<rparr>"
    by (simp_all add: sample_package_def)
  have "zv_verified (verifyEvidenceZip sample_sum latin1_decode (\<lambda>_. Some sample_manifest_json) archive)"
    unfolding verifyEvidenceZip_def package_failures_def parse sum.case finds option.case zip_file.select_convs m Let_def ok
    using ok(3) by simp
  with a verified_package_complete [OF this] show ?thesis by blast
qed

end
