(* ===== verification/Archive.thy ===== *)
theory Archive
  imports Evidence_Zip Signing_Manifest
begin

text \<open>
  Packages for long-term preservation (\<open>packages/archive/src/index.ts\<close>): when a case may be
  exported, the package with its manifest, and the verification of a delivered package without the
  system that produced it. The collation of \<open>localeCompare(..., 'en')\<close> is a sort key; SHA-256 is an argument.
\<close>

section \<open>Cases\<close>

datatype archive_error =
    ARCHIVE_DOCUMENT_MISSING | ARCHIVE_SIGNATURE_EVIDENCE_MISSING | ARCHIVE_IDENTITY_EVIDENCE_MISSING
  | ARCHIVE_AUDIT_TRAIL_MISSING | ARCHIVE_CHECKSUM_MISMATCH | ARCHIVE_UNEXPECTED_FILE | ARCHIVE_MANIFEST_MISMATCH
  | ARCHIVE_TENANT_MISMATCH | ARCHIVE_CASE_NOT_CLOSED | ARCHIVE_PROFILE_NOT_VERIFIED | ARCHIVE_PATH_INVALID
  | ARCHIVE_SERIALISATION json_error

type_synonym 'a archive_result = "(archive_error, 'a) result"

datatype pdf_profile = PDFA_2b | PDFA_3b

record archive_document =
  ad_documentId :: string
  ad_documentVersionId :: string
  ad_displayName :: string
  ad_sha256 :: string
  ad_byteSize :: int
  ad_verifiedProfile :: "pdf_profile option"
  ad_isSignedArtifact :: bool

record archive_signature =
  as_signerId :: string
  as_signedAt :: string
  as_padesLevel :: "string option"
  as_artifactSha :: "string option"
  as_reportSha :: "string option"
  as_timestampSha :: "string option"

record archive_identity =
  ai_signerId :: string
  ai_provider :: string
  ai_assuranceLevel :: string
  ai_maskedIdentifier :: string
  ai_verifiedAt :: string
  ai_evidenceSha :: string

datatype decision_mode = DIGITAL_APPROVAL | ELECTRONIC_SIGNATURE

record archive_case =
  ac_tenantId :: string
  ac_signatureCaseId :: string
  ac_reference :: string
  ac_title :: string
  ac_decisionMode :: decision_mode
  ac_status :: string
  ac_createdAt :: string
  ac_closedAt :: "string option"
  ac_documents :: "archive_document list"
  ac_signatures :: "archive_signature list"
  ac_identities :: "archive_identity list"
  ac_auditTrailSha :: "string option"

section \<open>Completeness\<close>

fun check_profiles :: "archive_document list \<Rightarrow> unit archive_result" where
  "check_profiles [] = Inr ()"
| "check_profiles (d # ds) =
     (if ad_verifiedProfile d = None then Inl ARCHIVE_PROFILE_NOT_VERIFIED else check_profiles ds)"

fun check_signature_evidence :: "archive_signature list \<Rightarrow> unit archive_result" where
  "check_signature_evidence [] = Inr ()"
| "check_signature_evidence (s # ss) =
     (if falsy (as_artifactSha s) \<or> falsy (as_reportSha s) then Inl ARCHIVE_SIGNATURE_EVIDENCE_MISSING
      else check_signature_evidence ss)"

fun check_identities :: "string set \<Rightarrow> archive_signature list \<Rightarrow> unit archive_result" where
  "check_identities signers [] = Inr ()"
| "check_identities signers (s # ss) =
     (if as_signerId s \<notin> signers then Inl ARCHIVE_IDENTITY_EVIDENCE_MISSING else check_identities signers ss)"

definition assertArchivable :: "archive_case \<Rightarrow> unit archive_result" where
  "assertArchivable c =
     (if ac_closedAt c = None then Inl ARCHIVE_CASE_NOT_CLOSED
      else if ac_documents c = [] then Inl ARCHIVE_DOCUMENT_MISSING
      else bindR (check_profiles (ac_documents c)) (\<lambda>_.
        bindR (if ac_decisionMode c = ELECTRONIC_SIGNATURE
               then (if ac_signatures c = [] then Inl ARCHIVE_SIGNATURE_EVIDENCE_MISSING
                     else check_signature_evidence (ac_signatures c))
               else Inr ()) (\<lambda>_.
        bindR (check_identities (set (map ai_signerId (ac_identities c))) (ac_signatures c)) (\<lambda>_.
        if ac_auditTrailSha c = None then Inl ARCHIVE_AUDIT_TRAIL_MISSING else Inr ()))))"

section \<open>Building a package\<close>

datatype archive_category = Content | Metadata | Evidence

record archive_entry =
  ae_path :: string
  ae_sha256 :: string
  ae_bytes :: int
  ae_mediaType :: string
  ae_category :: archive_category

record archive_manifest =
  am_schema :: string
  am_profileVersion :: int
  am_regulation :: string
  am_tenantId :: string
  am_signatureCaseId :: string
  am_reference :: string
  am_title :: string
  am_decisionMode :: decision_mode
  am_createdAt :: string
  am_closedAt :: string
  am_entries :: "archive_entry list"
  am_signatures :: "archive_signature list"
  am_identities :: "archive_identity list"
  am_auditTrailSha :: string

record archive_package =
  ap_manifest :: archive_manifest
  ap_files :: "evidence_file list"
  ap_manifestSha :: string

definition archive_package_schema :: string where
  "archive_package_schema = ''kommunsign.fgs-package.v1''"

definition name_char :: "char \<Rightarrow> bool" where
  "name_char c \<longleftrightarrow> is_alnum c \<or> c \<in> set ''._-''"

text \<open>\<open>/^[A-Za-z0-9][A-Za-z0-9._-]{0,120}$/\<close>\<close>

definition file_name :: "string \<Rightarrow> bool" where
  "file_name s \<longleftrightarrow> s \<noteq> [] \<and> is_alnum (hd s) \<and> list_all name_char (tl s) \<and> length (tl s) \<le> 120"

definition path_pattern :: "string \<Rightarrow> bool" where
  "path_pattern p \<longleftrightarrow>
     list_ex (\<lambda>d. starts_with d p \<and> file_name (drop (length d) p)) [''content/'', ''metadata/'', ''evidence/'']"

definition assertPath :: "string \<Rightarrow> string archive_result" where
  "assertPath p = (if \<not> path_pattern p \<or> contains_str ''..'' p then Inl ARCHIVE_PATH_INVALID else Inr p)"

definition path_category :: "string \<Rightarrow> archive_category" where
  "path_category p =
     (if starts_with ''content/'' p then Content else if starts_with ''metadata/'' p then Metadata else Evidence)"

definition archive_entry_of :: "(byte list \<Rightarrow> byte list) \<Rightarrow> evidence_file \<Rightarrow> archive_entry archive_result" where
  "archive_entry_of sha256 f =
     bindR (assertPath (ef_path f)) (\<lambda>p.
       Inr \<lparr>ae_path = p, ae_sha256 = sha256Hex sha256 (RawBytes (ef_bytes f)), ae_bytes = int (length (ef_bytes f)),
            ae_mediaType = ef_mediaType f, ae_category = path_category p\<rparr>)"

definition category_text :: "archive_category \<Rightarrow> string" where
  "category_text c = (case c of Content \<Rightarrow> ''content'' | Metadata \<Rightarrow> ''metadata'' | Evidence \<Rightarrow> ''evidence'')"

definition mode_text :: "decision_mode \<Rightarrow> string" where
  "mode_text m = (case m of DIGITAL_APPROVAL \<Rightarrow> ''DIGITAL_APPROVAL'' | ELECTRONIC_SIGNATURE \<Rightarrow> ''ELECTRONIC_SIGNATURE'')"

definition archive_entry_json :: "archive_entry \<Rightarrow> json" where
  "archive_entry_json e = JObj [(''path'', Some (JStr (ae_path e))), (''sha256'', Some (JStr (ae_sha256 e))),
     (''bytes'', Some (JNum (JInt (ae_bytes e)))), (''mediaType'', Some (JStr (ae_mediaType e))),
     (''category'', Some (JStr (category_text (ae_category e))))]"

definition signature_json :: "archive_signature \<Rightarrow> json" where
  "signature_json s = JObj [(''signerId'', Some (JStr (as_signerId s))), (''signedAt'', Some (JStr (as_signedAt s))),
     (''padesLevel'', Some (nullable (as_padesLevel s))), (''signatureArtifactSha256'', Some (nullable (as_artifactSha s))),
     (''validationReportSha256'', Some (nullable (as_reportSha s))), (''timestampTokenSha256'', Some (nullable (as_timestampSha s)))]"

definition identity_json :: "archive_identity \<Rightarrow> json" where
  "identity_json i = JObj [(''signerId'', Some (JStr (ai_signerId i))), (''provider'', Some (JStr (ai_provider i))),
     (''assuranceLevel'', Some (JStr (ai_assuranceLevel i))), (''maskedIdentifier'', Some (JStr (ai_maskedIdentifier i))),
     (''verifiedAt'', Some (JStr (ai_verifiedAt i))), (''evidenceSha256'', Some (JStr (ai_evidenceSha i)))]"

definition archive_manifest_json :: "archive_manifest \<Rightarrow> json" where
  "archive_manifest_json m = JObj [(''schema'', Some (JStr (am_schema m))),
     (''profileVersion'', Some (JNum (JInt (am_profileVersion m)))), (''regulation'', Some (JStr (am_regulation m))),
     (''tenantId'', Some (JStr (am_tenantId m))), (''signatureCaseId'', Some (JStr (am_signatureCaseId m))),
     (''reference'', Some (JStr (am_reference m))), (''title'', Some (JStr (am_title m))),
     (''decisionMode'', Some (JStr (mode_text (am_decisionMode m)))), (''createdAt'', Some (JStr (am_createdAt m))),
     (''closedAt'', Some (JStr (am_closedAt m))), (''entries'', Some (JArr (map archive_entry_json (am_entries m)))),
     (''signatures'', Some (JArr (map signature_json (am_signatures m)))),
     (''identities'', Some (JArr (map identity_json (am_identities m)))),
     (''auditTrailSha256'', Some (JStr (am_auditTrailSha m)))]"

definition manifest_digest :: "(byte list \<Rightarrow> byte list) \<Rightarrow> archive_manifest \<Rightarrow> string archive_result" where
  "manifest_digest sha256 m =
     bindR (mapErr ARCHIVE_SERIALISATION (canonicalJson (archive_manifest_json m))) (\<lambda>s. Inr (sha256Hex sha256 (TextInput s)))"

definition buildArchivePackage ::
  "(byte list \<Rightarrow> byte list) \<Rightarrow> (string \<Rightarrow> 'k::linorder) \<Rightarrow> archive_case \<Rightarrow> evidence_file list \<Rightarrow> archive_package archive_result" where
  "buildArchivePackage sha256 collate c files =
     bindR (assertArchivable c) (\<lambda>_.
     bindR (traverse (archive_entry_of sha256) files) (\<lambda>unsorted.
       let entries = sort_key (\<lambda>e. collate (ae_path e)) unsorted
       in if has_duplicates (map ae_path entries) then Inl ARCHIVE_PATH_INVALID
          else if \<not> list_ex (\<lambda>e. ae_category e = Content) entries then Inl ARCHIVE_DOCUMENT_MISSING
          else
            let manifest = \<lparr>am_schema = archive_package_schema, am_profileVersion = 1, am_regulation = ''RA-FS 2009:2'',
                  am_tenantId = ac_tenantId c, am_signatureCaseId = ac_signatureCaseId c, am_reference = ac_reference c,
                  am_title = ac_title c, am_decisionMode = ac_decisionMode c, am_createdAt = ac_createdAt c,
                  am_closedAt = the (ac_closedAt c), am_entries = entries,
                  am_signatures = sort_key (\<lambda>s. collate (as_signerId s)) (ac_signatures c),
                  am_identities = sort_key (\<lambda>i. collate (ai_signerId i)) (ac_identities c),
                  am_auditTrailSha = the (ac_auditTrailSha c)\<rparr>
            in bindR (manifest_digest sha256 manifest) (\<lambda>digest.
                 Inr \<lparr>ap_manifest = manifest, ap_files = sort_key (\<lambda>f. collate (ef_path f)) files, ap_manifestSha = digest\<rparr>)))"

section \<open>Verifying a delivered package\<close>

definition check_archive_entry :: "(byte list \<Rightarrow> byte list) \<Rightarrow> evidence_file list \<Rightarrow> archive_entry \<Rightarrow> string list" where
  "check_archive_entry sha256 files e =
     (case find (\<lambda>f. ef_path f = ae_path e) (rev files) of
        None \<Rightarrow> [''Missing file: '' @ ae_path e]
      | Some f \<Rightarrow>
          (if int (length (ef_bytes f)) \<noteq> ae_bytes e then [''Size mismatch: '' @ ae_path e] else []) @
          (if sha256Hex sha256 (RawBytes (ef_bytes f)) \<noteq> ae_sha256 e then [''Hash mismatch: '' @ ae_path e] else []))"

text \<open>The failures; an empty list is a verified package.\<close>

definition verifyArchivePackage ::
  "(byte list \<Rightarrow> byte list) \<Rightarrow> archive_manifest \<Rightarrow> evidence_file list \<Rightarrow> string \<Rightarrow> string list archive_result" where
  "verifyArchivePackage sha256 m files expected =
     bindR (manifest_digest sha256 m) (\<lambda>actual.
       if actual \<noteq> expected then Inr [''Manifest hash does not match the delivered manifest hash'']
       else if am_schema m \<noteq> archive_package_schema then Inr [''Unknown package schema '' @ am_schema m]
       else Inr (concat (map (check_archive_entry sha256 files) (am_entries m)) @
                 concat (map (\<lambda>f. if \<not> list_ex (\<lambda>e. ae_path e = ef_path f) (am_entries m)
                                  then [''Unexpected file: '' @ ef_path f] else []) files)))"

section \<open>Descriptive metadata\<close>

definition profile_text :: "pdf_profile option \<Rightarrow> string" where
  "profile_text p = (case p of None \<Rightarrow> [] | Some PDFA_2b \<Rightarrow> ''PDF/A-2b'' | Some PDFA_3b \<Rightarrow> ''PDF/A-3b'')"

definition buildDescriptiveMetadata :: "archive_case \<Rightarrow> json" where
  "buildDescriptiveMetadata c =
     JObj [(''schema'', Some (JStr ''kommunsign.fgs-metadata.v1'')), (''regulation'', Some (JStr ''RA-FS 2009:2'')),
       (''reference'', Some (JStr (ac_reference c))), (''title'', Some (JStr (ac_title c))),
       (''decisionMode'', Some (JStr (mode_text (ac_decisionMode c)))), (''createdAt'', Some (JStr (ac_createdAt c))),
       (''closedAt'', Some (JStr (case ac_closedAt c of None \<Rightarrow> [] | Some t \<Rightarrow> t))),
       (''documents'', Some (JArr (map (\<lambda>d. JObj [(''displayName'', Some (JStr (ad_displayName d))),
          (''sha256'', Some (JStr (ad_sha256 d))), (''bytes'', Some (JNum (JInt (ad_byteSize d)))),
          (''format'', Some (JStr (profile_text (ad_verifiedProfile d)))),
          (''role'', Some (JStr (if ad_isSignedArtifact d then ''signed'' else ''original'')))]) (ac_documents c)))),
       (''signatories'', Some (JArr (map (\<lambda>i. JObj [(''identifier'', Some (JStr (ai_maskedIdentifier i))),
          (''provider'', Some (JStr (ai_provider i))), (''assuranceLevel'', Some (JStr (ai_assuranceLevel i))),
          (''verifiedAt'', Some (JStr (ai_verifiedAt i)))]) (ac_identities c))))]"

section \<open>Lemmas\<close>

lemma check_profiles_iff: "check_profiles ds = Inr () \<longleftrightarrow> list_all (\<lambda>d. ad_verifiedProfile d \<noteq> None) ds"
  by (induction ds) auto

lemma check_signature_evidence_iff:
  "check_signature_evidence ss = Inr () \<longleftrightarrow> list_all (\<lambda>s. \<not> falsy (as_artifactSha s) \<and> \<not> falsy (as_reportSha s)) ss"
  by (induction ss) auto

lemma check_identities_iff: "check_identities A ss = Inr () \<longleftrightarrow> list_all (\<lambda>s. as_signerId s \<in> A) ss"
  by (induction ss) auto

lemma archivable_iff:
  "assertArchivable c = Inr () \<longleftrightarrow>
     ac_closedAt c \<noteq> None \<and> ac_documents c \<noteq> [] \<and> list_all (\<lambda>d. ad_verifiedProfile d \<noteq> None) (ac_documents c) \<and>
     (ac_decisionMode c = ELECTRONIC_SIGNATURE \<longrightarrow> ac_signatures c \<noteq> [] \<and>
        list_all (\<lambda>s. \<not> falsy (as_artifactSha s) \<and> \<not> falsy (as_reportSha s)) (ac_signatures c)) \<and>
     list_all (\<lambda>s. as_signerId s \<in> set (map ai_signerId (ac_identities c))) (ac_signatures c) \<and> ac_auditTrailSha c \<noteq> None"
  unfolding assertArchivable_def
  by (simp add: bindR_Inr_iff check_profiles_iff check_signature_evidence_iff check_identities_iff)

lemma entry_of_Inr:
  "archive_entry_of sha256 f = Inr e \<longleftrightarrow> path_pattern (ef_path f) \<and> \<not> contains_str ''..'' (ef_path f) \<and>
    e = \<lparr>ae_path = ef_path f, ae_sha256 = sha256Hex sha256 (RawBytes (ef_bytes f)), ae_bytes = int (length (ef_bytes f)),
         ae_mediaType = ef_mediaType f, ae_category = path_category (ef_path f)\<rparr>"
  by (auto simp: archive_entry_of_def assertPath_def bindR_Inr_iff)

definition file_entry :: "(byte list \<Rightarrow> byte list) \<Rightarrow> evidence_file \<Rightarrow> archive_entry" where
  "file_entry sha256 f = \<lparr>ae_path = ef_path f, ae_sha256 = sha256Hex sha256 (RawBytes (ef_bytes f)),
     ae_bytes = int (length (ef_bytes f)), ae_mediaType = ef_mediaType f, ae_category = path_category (ef_path f)\<rparr>"

lemma entries_Inr:
  "traverse (archive_entry_of sha256) files = Inr es \<longleftrightarrow>
    list_all (\<lambda>f. path_pattern (ef_path f) \<and> \<not> contains_str ''..'' (ef_path f)) files \<and> es = map (file_entry sha256) files"
  by (induction files arbitrary: es) (auto simp: bindR_Inr_iff entry_of_Inr file_entry_def)

text \<open>What a package that was built is.\<close>

lemma built_package:
  assumes "buildArchivePackage sha256 collate c files = Inr p"
  shows "assertArchivable c = Inr ()" "list_all (\<lambda>f. path_pattern (ef_path f) \<and> \<not> contains_str ''..'' (ef_path f)) files"
    "am_entries (ap_manifest p) = sort_key (\<lambda>e. collate (ae_path e)) (map (file_entry sha256) files)"
    "distinct (map ef_path files)" "list_ex (\<lambda>f. path_category (ef_path f) = Content) files"
    "ap_files p = sort_key (\<lambda>f. collate (ef_path f)) files" "am_schema (ap_manifest p) = archive_package_schema"
    "manifest_digest sha256 (ap_manifest p) = Inr (ap_manifestSha p)"
    "am_signatures (ap_manifest p) = sort_key (\<lambda>s. collate (as_signerId s)) (ac_signatures c)"
    "am_identities (ap_manifest p) = sort_key (\<lambda>i. collate (ai_signerId i)) (ac_identities c)"
proof -
  let ?es = "sort_key (\<lambda>e. collate (ae_path e)) (map (file_entry sha256) files)"
  have ok: "assertArchivable c = Inr () \<and> list_all (\<lambda>f. path_pattern (ef_path f) \<and> \<not> contains_str ''..'' (ef_path f)) files \<and>
    \<not> has_duplicates (map ae_path ?es) \<and> list_ex (\<lambda>e. ae_category e = Content) ?es \<and> am_entries (ap_manifest p) = ?es \<and>
    ap_files p = sort_key (\<lambda>f. collate (ef_path f)) files \<and> am_schema (ap_manifest p) = archive_package_schema \<and>
    manifest_digest sha256 (ap_manifest p) = Inr (ap_manifestSha p) \<and>
    am_signatures (ap_manifest p) = sort_key (\<lambda>s. collate (as_signerId s)) (ac_signatures c) \<and>
    am_identities (ap_manifest p) = sort_key (\<lambda>i. collate (ai_signerId i)) (ac_identities c)"
    using assms unfolding buildArchivePackage_def
    by (auto simp: bindR_Inr_iff entries_Inr Let_def simp del: has_duplicates_iff split: if_splits)
  have "mset (map ae_path ?es) = mset (map ef_path files)"
    by (simp add: multiset.map_comp comp_def file_entry_def)
  then show "distinct (map ef_path files)" using ok mset_eq_imp_distinct_iff by fastforce
  show "list_ex (\<lambda>f. path_category (ef_path f) = Content) files"
    using ok by (simp add: list_ex_iff file_entry_def)
  show "assertArchivable c = Inr ()" "list_all (\<lambda>f. path_pattern (ef_path f) \<and> \<not> contains_str ''..'' (ef_path f)) files"
    "am_entries (ap_manifest p) = ?es"
    "ap_files p = sort_key (\<lambda>f. collate (ef_path f)) files" "am_schema (ap_manifest p) = archive_package_schema"
    "manifest_digest sha256 (ap_manifest p) = Inr (ap_manifestSha p)"
    "am_signatures (ap_manifest p) = sort_key (\<lambda>s. collate (as_signerId s)) (ac_signatures c)"
    "am_identities (ap_manifest p) = sort_key (\<lambda>i. collate (ai_signerId i)) (ac_identities c)"
    using ok by simp_all
qed

section \<open>Verification\<close>

lemma find_Some_set: "find P xs = Some x \<Longrightarrow> x \<in> set xs \<and> P x"
  by (induction xs) (auto split: if_splits)

lemma find_rev_distinct:
  assumes "distinct (map ef_path files)" "f \<in> set files"
  shows "find (\<lambda>g. ef_path g = ef_path f) (rev files) = Some f"
proof -
  have "\<exists>g. find (\<lambda>g. ef_path g = ef_path f) (rev files) = Some g"
    using assms(2) by (auto simp: find_None_iff simp flip: not_None_eq)
  then obtain g where g: "find (\<lambda>g. ef_path g = ef_path f) (rev files) = Some g" by blast
  then have "g \<in> set files" "ef_path g = ef_path f" using find_Some_set by fastforce+
  then have "g = f" using assms by (auto simp: distinct_map dest: inj_onD)
  with g show ?thesis by simp
qed

lemma check_archive_Nil:
  "check_archive_entry sha256 files e = [] \<longleftrightarrow> (\<exists>f. find (\<lambda>f. ef_path f = ae_path e) (rev files) = Some f \<and>
     int (length (ef_bytes f)) = ae_bytes e \<and> sha256Hex sha256 (RawBytes (ef_bytes f)) = ae_sha256 e)"
  by (auto simp: check_archive_entry_def split: option.splits)

lemma verify_archive_Nil:
  "verifyArchivePackage sha256 m files expected = Inr [] \<longleftrightarrow>
    manifest_digest sha256 m = Inr expected \<and> am_schema m = archive_package_schema \<and>
    (\<forall>e\<in>set (am_entries m). check_archive_entry sha256 files e = []) \<and>
    (\<forall>f\<in>set files. \<exists>e\<in>set (am_entries m). ae_path e = ef_path f)"
  by (auto simp: verifyArchivePackage_def bindR_Inr_iff list_ex_iff simp del: if_image_distrib split: if_splits)

text \<open>The manifest determines its bytes and the bytes determine the manifest.\<close>

lemma mode_text_inj [simp]: "mode_text a = mode_text b \<longleftrightarrow> a = b"
  by (cases a; cases b) (simp_all add: mode_text_def)

lemma category_text_inj [simp]: "category_text a = category_text b \<longleftrightarrow> a = b"
  by (cases a; cases b) (simp_all add: category_text_def)

lemma entry_json_inj:
  assumes "norm_json (archive_entry_json d) = norm_json (archive_entry_json e)"
  shows "d = e"
proof -
  note m = norm_obj_member [OF assms [unfolded archive_entry_json_def]]
  show ?thesis
    using m [of "''path''"] m [of "''sha256''"] m [of "''bytes''"] m [of "''mediaType''"] m [of "''category''"]
    by (cases d; cases e) auto
qed

lemma signature_json_inj:
  assumes "norm_json (signature_json d) = norm_json (signature_json e)"
  shows "d = e"
proof -
  note m = norm_obj_member [OF assms [unfolded signature_json_def]]
  show ?thesis
    using m [of "''signerId''"] m [of "''signedAt''"] m [of "''padesLevel''"] m [of "''signatureArtifactSha256''"]
      m [of "''validationReportSha256''"] m [of "''timestampTokenSha256''"]
    by (cases d; cases e) auto
qed

lemma identity_json_inj:
  assumes "norm_json (identity_json d) = norm_json (identity_json e)"
  shows "d = e"
proof -
  note m = norm_obj_member [OF assms [unfolded identity_json_def]]
  show ?thesis
    using m [of "''signerId''"] m [of "''provider''"] m [of "''assuranceLevel''"] m [of "''maskedIdentifier''"]
      m [of "''verifiedAt''"] m [of "''evidenceSha256''"]
    by (cases d; cases e) auto
qed

lemma map_norm_inj:
  assumes "map norm_json (map f xs) = map norm_json (map f ys)" "\<And>x y. norm_json (f x) = norm_json (f y) \<Longrightarrow> x = y"
  shows "xs = ys"
  using assms by (auto simp: list_eq_iff_nth_eq)

lemma archive_manifest_json_inj:
  assumes "norm_json (archive_manifest_json m) = norm_json (archive_manifest_json n)"
  shows "m = n"
proof -
  note k = norm_obj_member [OF assms [unfolded archive_manifest_json_def]]
  have "map norm_json (map archive_entry_json (am_entries m)) = map norm_json (map archive_entry_json (am_entries n))"
    "map norm_json (map signature_json (am_signatures m)) = map norm_json (map signature_json (am_signatures n))"
    "map norm_json (map identity_json (am_identities m)) = map norm_json (map identity_json (am_identities n))"
    using k [of "''entries''"] k [of "''signatures''"] k [of "''identities''"] by auto
  then have "am_entries m = am_entries n" "am_signatures m = am_signatures n" "am_identities m = am_identities n"
    using map_norm_inj entry_json_inj signature_json_inj identity_json_inj by metis+
  then show ?thesis
    using k [of "''schema''"] k [of "''profileVersion''"] k [of "''regulation''"] k [of "''tenantId''"]
      k [of "''signatureCaseId''"] k [of "''reference''"] k [of "''title''"] k [of "''decisionMode''"]
      k [of "''createdAt''"] k [of "''closedAt''"] k [of "''auditTrailSha256''"]
    by (cases m; cases n) auto
qed

lemma archive_manifest_wf: "wf_json (archive_manifest_json m)"
  by (auto simp: archive_manifest_json_def archive_entry_json_def signature_json_def identity_json_def nullable_def
    list_all_iff split: option.splits)

lemma archive_manifest_text: "\<exists>t. canonicalJson (archive_manifest_json m) = Inr t"
  unfolding canonicalJson_def encode_total
  by (auto simp: archive_manifest_json_def archive_entry_json_def signature_json_def identity_json_def nullable_def
    list_all_iff split: option.splits)

text \<open>The text a manifest is hashed from.\<close>

definition manifest_text :: "archive_manifest \<Rightarrow> string" where
  "manifest_text m = (case canonicalJson (archive_manifest_json m) of Inr t \<Rightarrow> t | Inl _ \<Rightarrow> [])"

lemma manifest_text: "canonicalJson (archive_manifest_json m) = Inr (manifest_text m)"
  using archive_manifest_text [of m] by (auto simp: manifest_text_def)

lemma manifest_text_inj: "manifest_text m = manifest_text n \<Longrightarrow> m = n"
  using encode_same_iff [OF archive_manifest_wf archive_manifest_wf] manifest_text archive_manifest_json_inj
  unfolding canonicalJson_def by metis

lemma manifest_digest_eq: "manifest_digest sha256 m = Inr (sha256Hex sha256 (TextInput (manifest_text m)))"
  by (simp add: manifest_digest_def manifest_text)

lemma sha256Hex_inj: "sha256Hex h a = sha256Hex h b \<longleftrightarrow> h (input_bytes a) = h (input_bytes b)"
  by (simp add: sha256Hex_def)

section \<open>Properties\<close>

text \<open>
  A case is exported exactly when it is closed, has documents that all carry a verified profile,
  has an audit trail, and every signature is traced to an identity; an electronic signature case also needs
  signatures, each with an artifact and a validation report. An identity without a signature is not asked about.
\<close>

theorem archivable_exact:
  "assertArchivable c = Inr () \<longleftrightarrow>
     (\<exists>closed audit. ac_closedAt c = Some closed \<and> ac_auditTrailSha c = Some audit) \<and> ac_documents c \<noteq> [] \<and>
     list_all (\<lambda>d. ad_verifiedProfile d \<noteq> None) (ac_documents c) \<and>
     list_all (\<lambda>s. list_ex (\<lambda>i. ai_signerId i = as_signerId s) (ac_identities c)) (ac_signatures c) \<and>
     (ac_decisionMode c = DIGITAL_APPROVAL \<or> ac_signatures c \<noteq> [] \<and>
        list_all (\<lambda>s. \<not> falsy (as_artifactSha s) \<and> \<not> falsy (as_reportSha s)) (ac_signatures c))"
proof -
  have traced: "x \<in> set (map ai_signerId is) \<longleftrightarrow> list_ex (\<lambda>i. ai_signerId i = x) is" for x "is"
    by (auto simp: list_ex_iff)
  show ?thesis unfolding archivable_iff traced by (cases "ac_decisionMode c") auto
qed

text \<open>An entry finds its file, and all entries find theirs, exactly when paths and bytes agree.\<close>

definition content_of :: "evidence_file list \<Rightarrow> (string \<times> byte list) set" where
  "content_of fs = set (map (\<lambda>f. (ef_path f, ef_bytes f)) fs)"

lemma content_ofD: "(q, b) \<in> content_of fs \<Longrightarrow> \<exists>f\<in>set fs. ef_path f = q \<and> ef_bytes f = b"
  by (auto simp: content_of_def)

lemma content_ofI: "f \<in> set fs \<Longrightarrow> (ef_path f, ef_bytes f) \<in> content_of fs"
  by (auto simp: content_of_def)

lemma entry_found_iff:
  assumes dist: "distinct (map ef_path fs)" and inj: "inj_on sha256 (ef_bytes ` (set fs \<union> set files))"
    and f: "f \<in> set files"
  shows "check_archive_entry sha256 fs (file_entry sha256 f) = [] \<longleftrightarrow> (ef_path f, ef_bytes f) \<in> content_of fs"
proof
  assume "check_archive_entry sha256 fs (file_entry sha256 f) = []"
  then obtain g where g: "find (\<lambda>g. ef_path g = ef_path f) (rev fs) = Some g" "sha256 (ef_bytes g) = sha256 (ef_bytes f)"
    by (auto simp: check_archive_Nil file_entry_def sha256Hex_inj input_bytes_def)
  then have "g \<in> set fs" "ef_path g = ef_path f" using find_Some_set by fastforce+
  moreover have "ef_bytes g = ef_bytes f" using inj_onD [OF inj g(2)] f \<open>g \<in> set fs\<close> by simp
  ultimately show "(ef_path f, ef_bytes f) \<in> content_of fs" using content_ofI [of g fs] by simp
next
  assume "(ef_path f, ef_bytes f) \<in> content_of fs"
  then obtain g where g: "g \<in> set fs" "ef_path g = ef_path f" "ef_bytes g = ef_bytes f" using content_ofD by blast
  then show "check_archive_entry sha256 fs (file_entry sha256 f) = []"
    using find_rev_distinct [OF dist g(1)] by (auto simp: check_archive_Nil file_entry_def)
qed

lemma all_found_iff:
  assumes dist: "distinct (map ef_path fs)" and inj: "inj_on sha256 (ef_bytes ` (set fs \<union> set files))"
    and entries: "set es = file_entry sha256 ` set files"
  shows "(\<forall>e\<in>set es. check_archive_entry sha256 fs e = []) \<and> (\<forall>f\<in>set fs. \<exists>e\<in>set es. ae_path e = ef_path f)
    \<longleftrightarrow> content_of fs = content_of files"
proof -
  have "(\<forall>e\<in>set es. check_archive_entry sha256 fs e = []) \<longleftrightarrow> content_of files \<subseteq> content_of fs"
    using entry_found_iff [OF dist inj] by (auto simp: entries dest!: content_ofD intro: content_ofI)
  moreover have "(\<forall>f\<in>set fs. \<exists>e\<in>set es. ae_path e = ef_path f) \<longleftrightarrow> fst ` content_of fs \<subseteq> fst ` content_of files"
  proof -
    have "fst ` content_of xs = ef_path ` set xs" for xs by (simp add: content_of_def image_image)
    moreover have "(\<exists>e\<in>set es. ae_path e = ef_path f) \<longleftrightarrow> ef_path f \<in> ef_path ` set files" for f :: evidence_file
      unfolding entries by (auto simp: file_entry_def intro: rev_image_eqI)
    ultimately show ?thesis by (simp only: image_subset_iff)
  qed
  moreover have "content_of fs \<subseteq> content_of files"
    if sub: "content_of files \<subseteq> content_of fs" and paths: "fst ` content_of fs \<subseteq> fst ` content_of files"
  proof
    fix x assume x: "x \<in> content_of fs"
    then have "fst x \<in> fst ` content_of files" using paths by blast
    then obtain y where y: "y \<in> content_of files" "fst y = fst x" by auto
    then have "y \<in> content_of fs" using sub by blast
    obtain g where g: "g \<in> set fs" "ef_path g = fst x" "ef_bytes g = snd x"
      using content_ofD [of "fst x" "snd x" fs] x by auto
    obtain h where h: "h \<in> set fs" "ef_path h = fst y" "ef_bytes h = snd y"
      using content_ofD [of "fst y" "snd y" fs] \<open>y \<in> content_of fs\<close> by auto
    have "g = h" using dist y(2) g(1,2) h(1,2) inj_onD [of ef_path "set fs" g h] by (simp add: distinct_map)
    then have "x = y" using g h by (simp add: prod_eq_iff)
    then show "x \<in> content_of files" using y(1) by simp
  qed
  ultimately show ?thesis by blast
qed

lemma built_verifies:
  assumes "buildArchivePackage sha256 collate c files = Inr p"
  shows "verifyArchivePackage sha256 (ap_manifest p) (ap_files p) (ap_manifestSha p) = Inr []"
proof -
  note b = built_package [OF assms]
  have fs: "set (ap_files p) = set files" "distinct (map ef_path (ap_files p))"
    using b(4,6) by (simp_all add: distinct_map)
  have "check_archive_entry sha256 (ap_files p) (file_entry sha256 f) = []" if "f \<in> set files" for f
    using find_rev_distinct [OF fs(2)] that by (auto simp: check_archive_Nil file_entry_def fs(1))
  then show ?thesis using b(3,7,8) by (auto simp: verify_archive_Nil fs(1) file_entry_def)
qed

definition sample_archive_case :: archive_case where
  "sample_archive_case = \<lparr>ac_tenantId = ''t'', ac_signatureCaseId = ''c'', ac_reference = ''r'', ac_title = ''a'',
     ac_decisionMode = DIGITAL_APPROVAL, ac_status = ''closed'', ac_createdAt = ''d'', ac_closedAt = Some ''e'',
     ac_documents = [\<lparr>ad_documentId = ''d'', ad_documentVersionId = ''v'', ad_displayName = ''n'', ad_sha256 = ''h'',
       ad_byteSize = 1, ad_verifiedProfile = Some PDFA_2b, ad_isSignedArtifact = True\<rparr>],
     ac_signatures = [], ac_identities = [], ac_auditTrailSha = Some ''h''\<rparr>"

definition sample_content :: evidence_file where
  "sample_content = \<lparr>ef_path = ''content/a'', ef_bytes = [1], ef_mediaType = ''m''\<rparr>"

definition sample_metadata :: evidence_file where
  "sample_metadata = \<lparr>ef_path = ''metadata/b'', ef_bytes = [2], ef_mediaType = ''m''\<rparr>"

lemma sample_paths:
  "path_pattern (ef_path f) \<and> \<not> contains_str ''..'' (ef_path f)" if "f \<in> {sample_content, sample_metadata}"
  using that by (elim insertE emptyE)
    (simp_all add: sample_content_def sample_metadata_def path_pattern_def starts_with_def file_name_def is_alnum_def
      is_alpha_def code_def)

lemma sample_archive_builds:
  assumes "files = [sample_content, sample_metadata] \<or> files = [sample_metadata, sample_content]"
  shows "\<exists>p. buildArchivePackage (\<lambda>b. b) (\<lambda>s. s) sample_archive_case files = Inr p"
proof -
  have ok: "assertArchivable sample_archive_case = Inr ()" by (simp add: archivable_iff sample_archive_case_def)
  have t: "traverse (archive_entry_of (\<lambda>b. b)) files = Inr (map (file_entry (\<lambda>b. b)) files)"
    using assms sample_paths by (auto simp: entries_Inr)
  have "distinct (map ef_path files)" "list_ex (\<lambda>f. path_category (ef_path f) = Content) files"
    using assms by (auto simp: sample_content_def sample_metadata_def path_category_def starts_with_def)
  then have "distinct (map ae_path (map (file_entry (\<lambda>b. b)) files))"
    "list_ex (\<lambda>e. ae_category e = Content) (map (file_entry (\<lambda>b. b)) files)"
    by (simp_all add: comp_def file_entry_def list_ex_iff)
  then have "distinct (map ae_path (sort_key f (map (file_entry (\<lambda>b. b)) files)))"
    "list_ex (\<lambda>e. ae_category e = Content) (sort_key f (map (file_entry (\<lambda>b. b)) files))" for f :: "archive_entry \<Rightarrow> string"
    by (simp_all only: distinct_map distinct_sort set_sort list_ex_iff simp_thms)
  then show ?thesis unfolding buildArchivePackage_def by (simp add: ok t manifest_digest_eq Let_def)
qed



text \<open>
  The verification looks each path up once and takes the last file of that path: a file put in front of
  a verified delivery under a path it already has is accepted, whatever it contains.
\<close>

theorem shadowed_file_not_checked:
  assumes "verifyArchivePackage sha256 m files expected = Inr []" and "g \<in> set files"
  shows "verifyArchivePackage sha256 m (\<lparr>ef_path = ef_path g, ef_bytes = forged, ef_mediaType = media\<rparr> # files) expected = Inr []"
proof -
  let ?f = "\<lparr>ef_path = ef_path g, ef_bytes = forged, ef_mediaType = media\<rparr>"
  have "find P (xs @ [y]) = Some x" if "find P xs = Some x" for P and x y :: evidence_file and xs
    using that by (induction xs) (auto split: if_splits)
  then have "check_archive_entry sha256 (?f # files) e = []" if "check_archive_entry sha256 files e = []" for e
    using that unfolding check_archive_Nil rev.simps by blast
  then show ?thesis using assms unfolding verify_archive_Nil by auto
qed

theorem shadowed_file_not_checked_witness:
  "\<exists>p :: archive_package. verifyArchivePackage (\<lambda>b. b) (ap_manifest p)
     (\<lparr>ef_path = ''content/a'', ef_bytes = [6, 6, 6], ef_mediaType = ''m''\<rparr> # ap_files p) (ap_manifestSha p) = Inr []"
proof -
  obtain p where p: "buildArchivePackage (\<lambda>b. b) (\<lambda>s. s) sample_archive_case [sample_content, sample_metadata] = Inr p"
    using sample_archive_builds by blast
  have "sample_content \<in> set (ap_files p)" using built_package(6) [OF p] by simp
  from shadowed_file_not_checked [OF built_verifies [OF p] this, of "[6, 6, 6]" "''m''"]
  show ?thesis by (intro exI [of _ p]) (simp add: sample_content_def)
qed

text \<open>
  Two exports of the same case agree in every byte although its files were listed in another
  order, as long as the collation tells all their paths apart.
\<close>

theorem archive_order_independent:
  assumes "buildArchivePackage sha256 collate c files = Inr p" and "mset files = mset files'"
    and "inj_on collate (ef_path ` set files)"
  shows "buildArchivePackage sha256 collate c files' = Inr p"
proof -
  note b = built_package [OF assms(1)]
  have sets: "set files' = set files" using assms(2) by (metis set_mset_mset)
  have ok: "list_all (\<lambda>f. path_pattern (ef_path f) \<and> \<not> contains_str ''..'' (ef_path f)) files'"
    using b(2) by (simp add: list_all_iff sets)
  have inj: "inj_on ef_path (set files)" using b(4) by (simp add: distinct_map)
  have es: "sort_key (\<lambda>e. collate (ae_path e)) (map (file_entry sha256) files') =
      sort_key (\<lambda>e. collate (ae_path e)) (map (file_entry sha256) files)"
  proof (rule sort_key_mset_cong [symmetric])
    show "mset (map (file_entry sha256) files) = mset (map (file_entry sha256) files')" using assms(2) by simp
    have "inj_on (\<lambda>f. collate (ef_path f)) (set files)" using inj assms(3) by (auto simp: inj_on_def)
    then show "inj_on (\<lambda>e. collate (ae_path e)) (set (map (file_entry sha256) files))"
      by (auto simp: inj_on_def file_entry_def)
  qed
  have fs: "sort_key (\<lambda>f. collate (ef_path f)) files' = sort_key (\<lambda>f. collate (ef_path f)) files"
    using assms(2,3) inj by (intro sort_key_mset_cong [symmetric]) (auto simp: inj_on_def)
  have "traverse (archive_entry_of sha256) files' = Inr (map (file_entry sha256) files')"
    "traverse (archive_entry_of sha256) files = Inr (map (file_entry sha256) files)"
    using ok b(2) by (simp_all add: entries_Inr)
  then show ?thesis using assms(1) b(1) unfolding buildArchivePackage_def by (simp only: bindR_simps es fs)
qed

theorem archive_order_independent_witness:
  "\<exists>p. buildArchivePackage (\<lambda>b. b) (\<lambda>s. s) sample_archive_case [sample_content, sample_metadata] = Inr p \<and>
    buildArchivePackage (\<lambda>b. b) (\<lambda>s. s) sample_archive_case [sample_metadata, sample_content] = Inr p"
proof -
  obtain p where p: "buildArchivePackage (\<lambda>b. b) (\<lambda>s. s) sample_archive_case [sample_content, sample_metadata] = Inr p"
    using sample_archive_builds by blast
  have "buildArchivePackage (\<lambda>b. b) (\<lambda>s. s) sample_archive_case [sample_metadata, sample_content] = Inr p"
    by (rule archive_order_independent [OF p]) (simp_all add: add_mset_commute)
  with p show ?thesis by blast
qed

end
