(* ===== verification/Fgs.thy ===== *)
theory Fgs
  imports Archive
begin

text \<open>
  The METS descriptor of a preservation package (\<open>packages/archive/src/fgs.ts\<close>): the escaping of
  text, the identifiers of files and the descriptor line by line. A reader of attribute values,
  which is not part of the code, states what the escaping achieves.
\<close>

section \<open>Escaping\<close>

text \<open>\<open>/[\0-\x08\x0b\x0c\x0e-\x1f\x7f]/\<close>\<close>

definition xml_control :: "char \<Rightarrow> bool" where
  "xml_control c \<longleftrightarrow> (let n = code c in n \<le> 8 \<or> n = 11 \<or> n = 12 \<or> (14 \<le> n \<and> n \<le> 31) \<or> n = 127)"

text \<open>One code unit through the replacements in their order; an ampersand is replaced first, so the
  ampersands of the other replacements stay.\<close>

definition escape_char :: "char \<Rightarrow> string" where
  "escape_char c =
     (if c = CHR ''&'' then ''&amp;'' else if c = CHR ''<'' then ''&lt;'' else if c = CHR ''>'' then ''&gt;''
      else if xml_control c then [] else [c])"

definition escapeXml :: "string \<Rightarrow> string" where
  "escapeXml v = concat (map escape_char v)"

definition xml_attribute :: "string \<Rightarrow> string" where
  "xml_attribute v = concat (map (\<lambda>c. if c = CHR 0x22 then ''&quot;'' else [c]) (escapeXml v))"

definition xml_text :: "string \<Rightarrow> string" where
  "xml_text v = escapeXml v"

section \<open>Identifiers\<close>

definition deterministicIdentifier :: "(byte list \<Rightarrow> byte list) \<Rightarrow> string \<Rightarrow> string \<Rightarrow> string" where
  "deterministicIdentifier sha256 path sha =
     (let digest = sha256Hex sha256 (RawBytes (text_encode (path @ CHR '' '' # sha)));
          hex = ((take 32 digest)[12 := CHR ''5''])[16 := CHR ''8'']
      in take 8 hex @ ''-'' @ take 4 (drop 8 hex) @ ''-'' @ take 4 (drop 12 hex) @ ''-'' @ take 4 (drop 16 hex) @ ''-'' @
         take 12 (drop 20 hex))"

section \<open>The descriptor\<close>

record fgs_agents =
  fa_archivist :: string
  fa_creator :: string
  fa_submitter :: string
  fa_software :: string
  fa_softwareVersion :: string

record fgs_file =
  ff_id :: string
  ff_href :: string
  ff_mediaType :: string
  ff_bytes :: int
  ff_sha256 :: string
  ff_use :: string

record fgs_package =
  fp_descriptor :: evidence_file
  fp_descriptorSha :: string

definition requireAgent :: "string \<Rightarrow> unit archive_result" where
  "requireAgent v = (if v = [] \<or> js_trim v = [] then Inl ARCHIVE_PROFILE_NOT_VERIFIED else Inr ())"

definition quoted_attribute :: "string \<Rightarrow> string \<Rightarrow> string" where
  "quoted_attribute name v = name @ ''='' @ [CHR 0x22] @ xml_attribute v @ [CHR 0x22]"

text \<open>An attribute whose text the code writes as it is.\<close>

definition fixed_attribute :: "string \<Rightarrow> string \<Rightarrow> string" where
  "fixed_attribute name v = name @ ''='' @ [CHR 0x22] @ v @ [CHR 0x22]"

definition agent_line :: "string \<Rightarrow> string \<Rightarrow> string \<Rightarrow> string" where
  "agent_line role kind name =
     ''    <mets:agent '' @ quoted_attribute ''ROLE'' role @ '' '' @ quoted_attribute ''TYPE'' kind @ ''><mets:name>'' @
     xml_text name @ ''</mets:name></mets:agent>''"

definition agent_other_line :: "string \<Rightarrow> string \<Rightarrow> string \<Rightarrow> string \<Rightarrow> string" where
  "agent_other_line role otherRole kind name =
     ''    <mets:agent '' @ quoted_attribute ''ROLE'' role @ '' '' @ quoted_attribute ''OTHERROLE'' otherRole @ '' '' @
     quoted_attribute ''TYPE'' kind @ ''><mets:name>'' @ xml_text name @ ''</mets:name></mets:agent>''"

definition fgs_file_of :: "(byte list \<Rightarrow> byte list) \<Rightarrow> archive_entry \<Rightarrow> fgs_file" where
  "fgs_file_of sha256 e =
     \<lparr>ff_id = ''ID'' @ deterministicIdentifier sha256 (ae_path e) (ae_sha256 e), ff_href = ''file:///'' @ ae_path e,
      ff_mediaType = ae_mediaType e, ff_bytes = ae_bytes e, ff_sha256 = ae_sha256 e,
      ff_use = (case ae_category e of Content \<Rightarrow> ''Datafile'' | Metadata \<Rightarrow> ''Metadata'' | Evidence \<Rightarrow> ''Evidence'')\<rparr>"

definition file_lines :: "string \<Rightarrow> fgs_file \<Rightarrow> string list" where
  "file_lines created f =
     [''      <mets:file '' @ quoted_attribute ''ID'' (ff_id f) @ '' '' @ quoted_attribute ''MIMETYPE'' (ff_mediaType f) @ '' '' @
        fixed_attribute ''SIZE'' (int_str (ff_bytes f)) @ '' '' @ quoted_attribute ''CREATED'' created @ '' '' @
        quoted_attribute ''USE'' (ff_use f) @ '' '' @ quoted_attribute ''CHECKSUM'' (ff_sha256 f) @ '' '' @
        fixed_attribute ''CHECKSUMTYPE'' ''SHA-256'' @ ''>'',
      ''        <mets:FLocat '' @ fixed_attribute ''LOCTYPE'' ''URL'' @ '' '' @ quoted_attribute ''xlink:href'' (ff_href f) @ '' '' @
        fixed_attribute ''xlink:type'' ''simple'' @ ''/>'',
      ''      </mets:file>'']"

definition fgs_profile_uri :: string where
  "fgs_profile_uri = ''http://xml.ra.se/e-arkiv/METS/CommonSpecificationSwedenPackageProfile.xml''"

definition schema_location :: string where
  "schema_location = ''http://www.loc.gov/METS/ http://xml.ra.se/e-arkiv/METS/CSPackageMETS.xsd'' @ '' '' @
     ''ExtensionMETS http://xml.ra.se/e-arkiv/METS/CSPackageExtensionMETS.xsd''"

definition root_line :: "archive_manifest \<Rightarrow> string" where
  "root_line m =
     ''<mets:mets '' @ fixed_attribute ''xmlns:mets'' ''http://www.loc.gov/METS/'' @ '' '' @
     fixed_attribute ''xmlns:ext'' ''ExtensionMETS'' @ '' '' @ fixed_attribute ''xmlns:xlink'' ''http://www.w3.org/1999/xlink'' @
     '' '' @ fixed_attribute ''xmlns:xsi'' ''http://www.w3.org/2001/XMLSchema-instance'' @ '' '' @
     fixed_attribute ''xsi:schemaLocation'' schema_location @ '' '' @
     fixed_attribute ''OBJID'' (''UUID:'' @ xml_attribute (am_signatureCaseId m)) @ '' '' @
     quoted_attribute ''LABEL'' (am_title m) @ '' '' @ fixed_attribute ''TYPE'' ''Archival information'' @ '' '' @
     fixed_attribute ''PROFILE'' fgs_profile_uri @ ''>''"

definition header_lines :: "archive_manifest \<Rightarrow> fgs_agents \<Rightarrow> string list" where
  "header_lines m a =
     [''  <mets:metsHdr '' @ quoted_attribute ''CREATEDATE'' (am_closedAt m) @ '' '' @ fixed_attribute ''RECORDSTATUS'' ''NEW'' @
        '' '' @ fixed_attribute ''ext:OAISSTATUS'' ''SIP'' @ ''>'',
      agent_line ''ARCHIVIST'' ''ORGANIZATION'' (fa_archivist a),
      agent_line ''CREATOR'' ''ORGANIZATION'' (fa_creator a),
      agent_other_line ''OTHER'' ''SUBMITTER'' ''ORGANIZATION'' (fa_submitter a),
      ''    <mets:agent '' @ fixed_attribute ''ROLE'' ''CREATOR'' @ '' '' @ fixed_attribute ''TYPE'' ''OTHER'' @ '' '' @
        fixed_attribute ''OTHERTYPE'' ''SOFTWARE'' @ ''><mets:name>'' @ xml_text (fa_software a) @ ''</mets:name><mets:note>'' @
        xml_text (fa_softwareVersion a) @ ''</mets:note></mets:agent>'',
      ''    <mets:altRecordID '' @ fixed_attribute ''TYPE'' ''REFERENCECODE'' @ ''>'' @ xml_text (am_reference m) @
        ''</mets:altRecordID>'',
      ''    <mets:metsDocumentID>sip.xml</mets:metsDocumentID>'',
      ''  </mets:metsHdr>'']"

definition provenance_lines :: "archive_package \<Rightarrow> string list" where
  "provenance_lines p = (let m = ap_manifest p in
     [''  <mets:amdSec '' @ fixed_attribute ''ID'' ''IDamdSec'' @ ''>'',
      ''    <mets:digiprovMD '' @ fixed_attribute ''ID'' ''IDprovenance'' @ ''>'',
      ''      <mets:mdWrap '' @ fixed_attribute ''MDTYPE'' ''OTHER'' @ '' '' @ fixed_attribute ''OTHERMDTYPE'' ''COMMENT'' @ ''>'',
      ''        <mets:xmlData>'',
      ''          <ext:provenance '' @ fixed_attribute ''xmlns:ext'' ''ExtensionMETS'' @ '' '' @
        quoted_attribute ''manifestSchema'' (am_schema m) @ '' '' @ quoted_attribute ''manifestSha256'' (ap_manifestSha p) @ '' '' @
        quoted_attribute ''regulation'' (am_regulation m) @ '' '' @ quoted_attribute ''auditTrailSha256'' (am_auditTrailSha m) @
        '' '' @ quoted_attribute ''decisionMode'' (mode_text (am_decisionMode m)) @ '' '' @
        quoted_attribute ''reference'' (am_reference m) @ ''/>'',
      ''        </mets:xmlData>'', ''      </mets:mdWrap>'', ''    </mets:digiprovMD>'', ''  </mets:amdSec>''])"

definition descriptor_lines :: "archive_package \<Rightarrow> fgs_agents \<Rightarrow> fgs_file list \<Rightarrow> string list" where
  "descriptor_lines p a files = (let m = ap_manifest p in
     [''<?xml '' @ fixed_attribute ''version'' ''1.0'' @ '' '' @ fixed_attribute ''encoding'' ''UTF-8'' @ ''?>'', root_line m] @
     header_lines m a @ provenance_lines p @ [''  <mets:fileSec>'', ''    <mets:fileGrp>''] @
     concat (map (file_lines (am_closedAt m)) files) @ [''    </mets:fileGrp>'', ''  </mets:fileSec>''] @
     [''  <mets:structMap '' @ fixed_attribute ''LABEL'' ''Profilestructmap'' @ ''>'', ''    <mets:div>''] @
     map (\<lambda>f. ''      <mets:fptr '' @ quoted_attribute ''FILEID'' (ff_id f) @ ''/>'') files @
     [''    </mets:div>'', ''  </mets:structMap>'', ''</mets:mets>'', []])"

fun join_lines :: "string list \<Rightarrow> string" where
  "join_lines [] = []"
| "join_lines [l] = l"
| "join_lines (l # m # ls) = l @ CHR 0x0A # join_lines (m # ls)"

definition buildFgsPackage :: "(byte list \<Rightarrow> byte list) \<Rightarrow> archive_package \<Rightarrow> fgs_agents \<Rightarrow> fgs_package archive_result" where
  "buildFgsPackage sha256 p a =
     (if am_entries (ap_manifest p) = [] then Inl ARCHIVE_DOCUMENT_MISSING
      else bindR (requireAgent (fa_archivist a)) (\<lambda>_.
        bindR (requireAgent (fa_creator a)) (\<lambda>_.
        bindR (requireAgent (fa_submitter a)) (\<lambda>_.
        bindR (requireAgent (fa_software a)) (\<lambda>_.
          let files = map (fgs_file_of sha256) (am_entries (ap_manifest p));
              bytes = text_encode (join_lines (descriptor_lines p a files))
          in Inr \<lparr>fp_descriptor = \<lparr>ef_path = ''sip.xml'', ef_bytes = bytes, ef_mediaType = ''text/xml''\<rparr>,
                  fp_descriptorSha = sha256Hex sha256 (RawBytes bytes)\<rparr>)))))"

section \<open>Lemmas\<close>

text \<open>A reader of attribute values and of text: it resolves the predefined entities.\<close>

definition entities :: "(string \<times> char) list" where
  "entities = [(''amp;'', CHR ''&''), (''lt;'', CHR ''<''), (''gt;'', CHR ''>''), (''quot;'', CHR 0x22)]"

fun unescape :: "nat \<Rightarrow> string \<Rightarrow> string option" where
  "unescape 0 s = (if s = [] then Some [] else None)"
| "unescape (Suc n) [] = Some []"
| "unescape (Suc n) (c # s) =
     (if c = CHR ''<'' \<or> c = CHR 0x22 then None
      else if c \<noteq> CHR ''&'' then map_option ((#) c) (unescape n s)
      else case find (\<lambda>(e, d). starts_with e s) entities of
        None \<Rightarrow> None
      | Some (e, d) \<Rightarrow> map_option ((#) d) (unescape n (drop (length e) s)))"

definition attribute_char :: "char \<Rightarrow> string" where
  "attribute_char c = (if c = CHR 0x22 then ''&quot;'' else escape_char c)"

lemma xml_attribute_Cons [simp]: "xml_attribute (c # v) = attribute_char c @ xml_attribute v"
proof -
  have "\<not> xml_control CHR 0x22" by (simp add: xml_control_def code_def)
  then have "concat (map (\<lambda>c. if c = CHR 0x22 then ''&quot;'' else [c]) (escape_char c)) = attribute_char c"
    by (simp add: escape_char_def attribute_char_def)
  then show ?thesis by (simp add: xml_attribute_def escapeXml_def)
qed

lemma xml_attribute_Nil [simp]: "xml_attribute [] = []"
  by (simp add: xml_attribute_def escapeXml_def)

lemma attribute_char_cases:
  obtains e where "(e, c) \<in> set entities" "attribute_char c = CHR ''&'' # e" "\<not> xml_control c"
  | "attribute_char c = []" "xml_control c"
  | "attribute_char c = [c]" "\<not> xml_control c" "c \<noteq> CHR ''<''" "c \<noteq> CHR 0x22" "c \<noteq> CHR ''&''"
proof -
  have n: "\<not> xml_control CHR ''&''" "\<not> xml_control CHR ''<''" "\<not> xml_control CHR ''>''" "\<not> xml_control CHR 0x22"
    by (simp_all add: xml_control_def code_def)
  consider "c = CHR ''&''" | "c = CHR ''<''" | "c = CHR ''>''" | "c = CHR 0x22"
    | "c \<noteq> CHR ''&''" "c \<noteq> CHR ''<''" "c \<noteq> CHR ''>''" "c \<noteq> CHR 0x22" by blast
  then show thesis
  proof cases
    case 1
    then show thesis using that(1) [of "''amp;''"] n by (simp add: attribute_char_def escape_char_def entities_def)
  next
    case 2
    then show thesis using that(1) [of "''lt;''"] n by (simp add: attribute_char_def escape_char_def entities_def)
  next
    case 3
    then show thesis using that(1) [of "''gt;''"] n by (simp add: attribute_char_def escape_char_def entities_def)
  next
    case 4
    then show thesis using that(1) [of "''quot;''"] n by (simp add: attribute_char_def escape_char_def entities_def)
  next
    case 5
    then show thesis using that(2,3) by (cases "xml_control c") (simp_all add: attribute_char_def escape_char_def)
  qed
qed

lemma find_entity: "(e, c) \<in> set entities \<Longrightarrow> find (\<lambda>(e, d). starts_with e (e' @ r)) entities = Some (e', c)" if "e' = e" for e e'
  unfolding that by (auto simp: entities_def starts_with_def)

lemma unescape_attribute:
  "length (xml_attribute v) \<le> n \<Longrightarrow> unescape n (xml_attribute v) = Some (filter (\<lambda>c. \<not> xml_control c) v)"
proof (induction v arbitrary: n)
  case Nil
  then show ?case by (cases n) simp_all
next
  case (Cons c v)
  show ?case
  proof (cases c rule: attribute_char_cases)
    case (1 e)
    then obtain m where m: "n = Suc m" "length (xml_attribute v) \<le> m"
      using Cons.prems by (cases n) auto
    then show ?thesis
      using Cons.IH [OF m(2)] 1 by (simp add: find_entity [OF refl 1(1)])
  next
    case 2
    then show ?thesis using Cons by simp
  next
    case 3
    then obtain m where m: "n = Suc m" "length (xml_attribute v) \<le> m"
      using Cons.prems by (cases n) auto
    then show ?thesis using Cons.IH [OF m(2)] 3 by simp
  qed
qed

section \<open>Properties\<close>

text \<open>
  The value of an attribute of the descriptor reads back as the operator's text without its control characters, and
  nothing in it ends the attribute or opens a tag.
\<close>

theorem attribute_reads_back:
  "unescape (length (xml_attribute v)) (xml_attribute v) = Some (filter (\<lambda>c. \<not> xml_control c) v) \<and>
    CHR 0x22 \<notin> set (xml_attribute v) \<and> CHR ''<'' \<notin> set (xml_attribute v) \<and> CHR ''>'' \<notin> set (xml_attribute v)"
proof -
  have "CHR 0x22 \<notin> set (attribute_char c) \<and> CHR ''<'' \<notin> set (attribute_char c) \<and> CHR ''>'' \<notin> set (attribute_char c)" for c
    by (simp add: attribute_char_def escape_char_def)
  then have "CHR 0x22 \<notin> set (xml_attribute v) \<and> CHR ''<'' \<notin> set (xml_attribute v) \<and> CHR ''>'' \<notin> set (xml_attribute v)"
    by (induction v) auto
  with unescape_attribute [of v "length (xml_attribute v)"] show ?thesis by simp
qed

end
