(* ===== verification/Js_Number.thy ===== *)
theory Js_Number
  imports Prelude Js_Float
begin

text \<open>
  \<open>Number(text)\<close>: the conversion of a string to a double, with the white space, the radix
  prefixes, the exponent and the rounding of ECMAScript's \<open>StringToNumber\<close>. A literal denotes an
  exact rational; the number is its rounding, an integer, a fraction or an infinity.
\<close>

definition num_of_rat :: "bool \<Rightarrow> rat \<Rightarrow> jsnum" where
  "num_of_rat negative x =
     (let y = fl x; z = (if negative then - y else y)
      in if 2 ^ 1024 \<le> y then (if negative then NNegInf else NInf)
         else if of_int \<lfloor>z\<rfloor> = z then NInt \<lfloor>z\<rfloor>
         else NFrac \<lfloor>z\<rfloor>)"

definition strip_sign :: "string \<Rightarrow> bool \<times> string" where
  "strip_sign s = (case s of
      [] \<Rightarrow> (False, [])
    | c # cs \<Rightarrow> if c = CHR ''-'' then (True, cs) else if c = CHR ''+'' then (False, cs) else (False, s))"

definition parse_exponent :: "string \<Rightarrow> int option" where
  "parse_exponent s = (case s of
      [] \<Rightarrow> Some 0
    | c # cs \<Rightarrow>
        (if c = CHR ''e'' \<or> c = CHR ''E'' then
           (let (negative, ds) = strip_sign cs
            in if ds \<noteq> [] \<and> list_all is_digit ds
               then Some (if negative then - int (num_of ds) else int (num_of ds)) else None)
         else None))"

definition parse_decimal :: "string \<Rightarrow> rat option" where
  "parse_decimal s =
     (let whole = takeWhile is_digit s; r = dropWhile is_digit s;
          (part, rest) = (if r \<noteq> [] \<and> hd r = CHR ''.''
             then (takeWhile is_digit (tl r), dropWhile is_digit (tl r)) else ([], r))
      in if whole = [] \<and> part = [] then None
         else case parse_exponent rest of
           None \<Rightarrow> None
         | Some e \<Rightarrow> Some (of_nat (num_of (whole @ part)) * 10 powi (e - int (length part))))"

definition radix_digit :: "char \<Rightarrow> nat" where
  "radix_digit c = (if is_digit c then digit_val c else code (lower_char c) - 87)"

definition radix_literal :: "nat \<Rightarrow> string \<Rightarrow> jsnum" where
  "radix_literal base ds =
     (if ds \<noteq> [] \<and> list_all (\<lambda>c. is_hex c \<and> radix_digit c < base) ds
      then num_of_rat False (of_nat (foldl (\<lambda>a c. base * a + radix_digit c) 0 ds)) else NNaN)"

definition js_number :: "string \<Rightarrow> jsnum" where
  "js_number s =
     (let t = js_trim s; prefix = js_lower (take 2 t)
      in if t = [] then NInt 0
         else if prefix = ''0x'' then radix_literal 16 (drop 2 t)
         else if prefix = ''0o'' then radix_literal 8 (drop 2 t)
         else if prefix = ''0b'' then radix_literal 2 (drop 2 t)
         else
           (let (negative, u) = strip_sign t
            in if u = ''Infinity'' then (if negative then NNegInf else NInf)
               else case parse_decimal u of None \<Rightarrow> NNaN | Some x \<Rightarrow> num_of_rat negative x))"

section \<open>The text of an integer\<close>

lemma fl_zero [simp]: "fl 0 = 0"
  using fl_of_int [of 0] by simp

lemma digit_not_ws: "is_digit c \<Longrightarrow> \<not> js_ws c"
  by (auto simp: is_digit_def js_ws_def Let_def)

lemma trim_digits:
  assumes "list_all is_digit s"
  shows "js_trim s = s"
proof -
  have "dropWhile js_ws u = u" if "set u = set s" for u
    using assms that hd_in_set [of u] by (auto simp: dropWhile_eq_self_iff list_all_iff digit_not_ws)
  from this [of s] this [of "rev s"] show ?thesis by (simp add: js_trim_def)
qed

lemma takeWhile_digits:
  "list_all is_digit s \<Longrightarrow> takeWhile is_digit s = s"
  "list_all is_digit s \<Longrightarrow> dropWhile is_digit s = []"
  by (auto simp: takeWhile_eq_all_conv dropWhile_eq_Nil_conv list_all_iff)

lemma digits_no_prefix:
  assumes "list_all is_digit s" and "\<not> is_digit c"
  shows "js_lower (take 2 s) \<noteq> [CHR ''0'', c]"
proof
  assume e: "js_lower (take 2 s) = [CHR ''0'', c]"
  then obtain a b r where s: "s = a # b # r"
    by (cases s; cases "tl s") (auto simp: js_lower_def)
  with assms e have "is_digit b" "lower_char b = c" by (auto simp: js_lower_def)
  then have "c = b" by (auto simp: is_digit_def lower_char_def Let_def)
  with \<open>is_digit b\<close> assms(2) show False by simp
qed

text \<open>A digit string denotes its value, exactly while that is a safe integer.\<close>

lemma js_number_digits:
  assumes d: "list_all is_digit s" and ne: "s \<noteq> []" and small: "num_of s < 2 ^ 53"
  shows "js_number s = NInt (int (num_of s))"
proof -
  have p: "js_lower (take 2 s) \<noteq> ''0x''" "js_lower (take 2 s) \<noteq> ''0o''" "js_lower (take 2 s) \<noteq> ''0b''"
    by (rule digits_no_prefix [OF d]; simp add: is_digit_def code_def)+
  have h: "is_digit (hd s)" using d ne by (cases s) auto
  then have "hd s \<noteq> CHR ''-''" "hd s \<noteq> CHR ''+''" "hd s \<noteq> CHR ''I''"
    by (auto simp: is_digit_def code_def)
  then have sg: "strip_sign s = (False, s)" and ni: "s \<noteq> ''Infinity''"
    using ne by (auto simp: strip_sign_def split: list.splits)
  have pd: "parse_decimal s = Some (of_nat (num_of s))"
    by (simp add: parse_decimal_def Let_def parse_exponent_def takeWhile_digits [OF d] ne)
  have "fl (of_int (int (num_of s))) = of_int (int (num_of s))"
    using small by (intro fl_of_int) auto
  then have f: "fl (of_nat (num_of s)) = of_nat (num_of s)" by simp
  have "(of_nat (num_of s) :: rat) < of_nat (2 ^ 53)" using small by (simp only: of_nat_less_iff)
  also have "(of_nat (2 ^ 53) :: rat) \<le> 2 ^ 1024" by simp
  finally have "num_of_rat False (of_nat (num_of s)) = NInt (int (num_of s))"
    by (simp add: num_of_rat_def f Let_def)
  then show ?thesis
    using p ne sg ni by (simp add: js_number_def trim_digits [OF d] pd Let_def)
qed

lemma js_number_int_str: "0 \<le> n \<Longrightarrow> n \<le> max_safe_integer \<Longrightarrow> js_number (int_str n) = NInt n"
  using js_number_digits [OF nat_str_digits nat_str_nonempty, of "nat n"]
  by (simp add: int_str_def max_safe_integer_def nat_less_iff)

end
