(* ===== verification/Webhooks.thy ===== *)
theory Webhooks
  imports Crypto_Encoding Canonical_Json Custom_Domains Jobs Js_Number
begin

text \<open>
  Signed webhooks (\<open>packages/webhooks/src/index.ts\<close>): the signature over time stamp and body, its
  verification by a receiver, and the guards against private addresses. HMAC, the URL parser, its
  host setter and its serialiser are arguments.
\<close>

section \<open>Signing and verifying\<close>

record signed_webhook =
  sw_body :: string
  sw_timestamp :: string
  sw_signature :: string

text \<open>What the signature is computed over.\<close>

definition signed_text :: "string \<Rightarrow> string \<Rightarrow> string" where
  "signed_text timestamp body = timestamp @ CHR ''.'' # body"

definition signWebhook ::
  "(byte list \<Rightarrow> byte list \<Rightarrow> byte list) \<Rightarrow> json \<Rightarrow> string \<Rightarrow> string \<Rightarrow> (json_error, signed_webhook) result" where
  "signWebhook hmac payload secret timestamp =
     bindR (canonicalJson payload) (\<lambda>body.
       Inr \<lparr>sw_body = body, sw_timestamp = timestamp,
            sw_signature = ''sha256='' @ hmacSha256Hex hmac (TextInput secret) (TextInput (signed_text timestamp body))\<rparr>)"

definition verifyWebhook ::
  "(byte list \<Rightarrow> byte list \<Rightarrow> byte list) \<Rightarrow> signed_webhook \<Rightarrow> string \<Rightarrow> int \<Rightarrow> int \<Rightarrow> bool" where
  "verifyWebhook hmac message secret nowEpochSeconds maximumAgeSeconds =
     (let timestamp = js_number (sw_timestamp message)
      in if \<not> is_safe_integer timestamp \<or> \<bar>js_add nowEpochSeconds (- num_int timestamp)\<bar> > maximumAgeSeconds
         then False
         else verifyHmacSha256Hex hmac (TextInput secret)
                (TextInput (signed_text (sw_timestamp message) (sw_body message))) (sw_signature message))"

section \<open>Forbidden addresses\<close>

type_synonym ipv4 = "nat \<times> nat \<times> nat \<times> nat"

definition octet_text :: "string \<Rightarrow> bool" where
  "octet_text p \<longleftrightarrow> 1 \<le> length p \<and> length p \<le> 3 \<and> list_all is_digit p"

definition parseIpv4 :: "string \<Rightarrow> ipv4 option" where
  "parseIpv4 v =
     (let parts = split_on (CHR ''.'') v
      in if length parts \<noteq> 4 \<or> list_ex (\<lambda>p. \<not> octet_text p) parts then None
         else let ns = map num_of parts
              in if list_ex (\<lambda>n. n > 255) ns then None else Some (ns ! 0, ns ! 1, ns ! 2, ns ! 3))"

definition strip_brackets :: "string \<Rightarrow> string" where
  "strip_brackets v =
     (let w = (if v \<noteq> [] \<and> hd v = CHR ''['' then tl v else v)
      in if w \<noteq> [] \<and> last w = CHR '']'' then butlast w else w)"

definition isForbiddenIpLiteral :: "string \<Rightarrow> bool" where
  "isForbiddenIpLiteral v =
     (case parseIpv4 v of
        Some (a, b, _, _) \<Rightarrow>
          a = 0 \<or> a = 10 \<or> a = 127 \<or> a \<ge> 224 \<or> (a = 100 \<and> b \<ge> 64 \<and> b \<le> 127) \<or> (a = 169 \<and> b = 254)
          \<or> (a = 172 \<and> b \<ge> 16 \<and> b \<le> 31) \<or> (a = 192 \<and> b = 168) \<or> (a = 198 \<and> (b = 18 \<or> b = 19))
      | None \<Rightarrow>
          (if CHR '':'' \<in> set v then
             (let normalized = strip_brackets v
              in normalized = ''::'' \<or> normalized = ''::1''
                 \<or> list_ex (\<lambda>p. starts_with p normalized) [''fc'', ''fd'', ''fe8'', ''fe9'', ''fea'', ''feb'', ''ff''])
           else False))"

definition assertSafeWebhookUrl ::
  "(string \<Rightarrow> url_parts option) \<Rightarrow> (string \<Rightarrow> url_parts \<Rightarrow> url_parts) \<Rightarrow> (url_parts \<Rightarrow> string) \<Rightarrow> string \<Rightarrow> url_parts outcome" where
  "assertSafeWebhookUrl parse_url set_hostname href v =
     (case parse_url v of
        None \<Rightarrow> Inl (JsError ''TypeError'' ''Invalid URL'')
      | Some parsed \<Rightarrow>
          (if url_protocol parsed \<noteq> ''https:'' then throw ''WEBHOOK_URL_MUST_USE_HTTPS''
           else if url_username parsed \<noteq> [] \<or> url_password parsed \<noteq> [] then throw ''WEBHOOK_URL_CREDENTIALS_FORBIDDEN''
           else if url_port parsed \<noteq> [] \<and> url_port parsed \<noteq> ''443'' then throw ''WEBHOOK_URL_PORT_FORBIDDEN''
           else
             (let hostname = drop_final_dot (js_lower (url_hostname parsed))
              in if hostname = ''localhost'' \<or> ends_with ''.localhost'' hostname \<or> ends_with ''.local'' hostname
                 then throw ''WEBHOOK_URL_PRIVATE_HOST_FORBIDDEN''
                 else if isForbiddenIpLiteral hostname then throw ''WEBHOOK_URL_PRIVATE_IP_FORBIDDEN''
                 else
                   (let url = (set_hostname hostname parsed)\<lparr>url_hash := []\<rparr>
                    in if length (href url) > 2048 then throw ''WEBHOOK_URL_TOO_LONG'' else Inr url))))"

fun check_addresses :: "string list \<Rightarrow> unit outcome" where
  "check_addresses [] = Inr ()"
| "check_addresses (a # as) =
     (if isForbiddenIpLiteral (js_lower a) then throw ''WEBHOOK_DNS_RESOLVED_PRIVATE_IP'' else check_addresses as)"

definition assertResolvedWebhookAddresses :: "string list \<Rightarrow> unit outcome" where
  "assertResolvedWebhookAddresses addresses =
     (if addresses = [] then throw ''WEBHOOK_DNS_RESOLUTION_EMPTY'' else check_addresses addresses)"

section \<open>Lemmas\<close>

lemma throw_not_ok [simp]: "throw m \<noteq> Inr a" "Inr a \<noteq> throw m"
  by (simp_all add: throw_def)

lemma resolved_addresses_iff:
  "assertResolvedWebhookAddresses as = Inr () \<longleftrightarrow> as \<noteq> [] \<and> (\<forall>a\<in>set as. \<not> isForbiddenIpLiteral (js_lower a))"
proof -
  have "check_addresses as = Inr () \<longleftrightarrow> (\<forall>a\<in>set as. \<not> isForbiddenIpLiteral (js_lower a))"
    by (induction as) auto
  then show ?thesis by (simp add: assertResolvedWebhookAddresses_def)
qed

lemma sha256_prefix_not_ws: "\<not> js_ws CHR ''s''" "is_lower_hex c \<Longrightarrow> \<not> js_ws c"
  by (auto simp: js_ws_def code_def is_lower_hex_def is_digit_def Let_def)

lemma normalize_prefixed:
  assumes "list_all is_lower_hex h"
  shows "normalizeSignature (''sha256='' @ h) = h"
proof -
  have "list_all (\<lambda>c. \<not> js_ws c) (''sha256='' @ h)"
    using assms by (auto simp: list_all_iff sha256_prefix_not_ws) (auto simp: js_ws_def code_def Let_def)
  then have "js_trim (''sha256='' @ h) = ''sha256='' @ h" by (rule js_trim_no_ws)
  then show ?thesis by (simp add: normalizeSignature_def starts_with_def)
qed

lemma verify_signed:
  assumes len: "\<And>k m. length (hmac k m) = 32"
    and sign: "signWebhook hmac payload secret timestamp = Inr w"
  shows "verifyHmacSha256Hex hmac (TextInput secret) (TextInput (signed_text (sw_timestamp w) (sw_body w))) (sw_signature w)"
proof -
  let ?h = "hmac (input_bytes (TextInput secret)) (input_bytes (TextInput (signed_text (sw_timestamp w) (sw_body w))))"
  have s: "sw_signature w = ''sha256='' @ toHex ?h"
    using sign by (auto simp: signWebhook_def bindR_Inr_iff hmacSha256Hex_def)
  have "length ?h = 32" using len .
  then have "fromHex (toHex ?h) = Inr ?h" by (intro fromHex_toHex) auto
  moreover have "length (sw_signature w) < 2 ^ 32" using \<open>length ?h = 32\<close> by (simp add: s)
  moreover have "normalizeSignature (sw_signature w) = toHex ?h"
    unfolding s by (rule normalize_prefixed [OF toHex_digits])
  ultimately show ?thesis
    using verifyHmac_iff [of hmac "sw_signature w" "TextInput secret", OF len] by simp
qed

text \<open>The time stamp is a numeral, so no other division of the signed text into time stamp and body passes.\<close>

definition numeral_char :: "char \<Rightarrow> bool" where
  "numeral_char c \<longleftrightarrow> is_alnum c \<or> js_ws c \<or> c \<in> set ''+-.''"

lemma brace_not_numeral: "\<not> numeral_char CHR ''{''"
  by (simp add: numeral_char_def is_alnum_def is_alpha_def is_digit_def js_ws_def code_def Let_def)

lemma trim_chars: "set s \<subseteq> {c. js_ws c} \<union> set (js_trim s)"
proof -
  have 1: "set s \<subseteq> {c. js_ws c} \<union> set (dropWhile js_ws s)" for s
    by (metis (no_types, lifting) UnCI UnE mem_Collect_eq set_append set_takeWhileD subsetI takeWhile_dropWhile_id)
  show ?thesis using 1 [of s] 1 [of "rev (dropWhile js_ws s)"] by (auto simp: js_trim_def)
qed

lemma takeWhile_chars: "set s \<subseteq> {c. P c} \<union> set (dropWhile P s)"
  by (metis (no_types, lifting) UnCI UnE mem_Collect_eq set_append set_takeWhileD subsetI takeWhile_dropWhile_id)

lemma digit_alnum: "is_digit c \<Longrightarrow> is_alnum c"
  by (simp add: is_alnum_def)

lemma strip_sign_chars: "strip_sign s = (n, u) \<Longrightarrow> set s \<subseteq> set u \<union> set ''+-''"
  by (auto simp: strip_sign_def split: list.splits if_splits)

lemma exponent_chars:
  assumes "parse_exponent s = Some e"
  shows "set s \<subseteq> {c. numeral_char c}"
proof (cases s)
  case (Cons c cs)
  obtain n ds where ds: "strip_sign cs = (n, ds)" by (cases "strip_sign cs")
  have c: "c = CHR ''e'' \<or> c = CHR ''E''" and d: "list_all is_digit ds"
    using assms Cons ds by (simp_all add: parse_exponent_def split: if_splits)
  have "numeral_char c"
    using c by (elim disjE) (simp_all add: numeral_char_def is_alnum_def is_alpha_def code_def)
  moreover have "set ds \<subseteq> {c. numeral_char c}" "set ''+-'' \<subseteq> {c. numeral_char c}"
    using d by (auto simp: list_all_iff numeral_char_def digit_alnum)
  ultimately show ?thesis using strip_sign_chars [OF ds] Cons by auto
qed simp

lemma decimal_chars:
  assumes "parse_decimal s = Some x"
  shows "set s \<subseteq> {c. numeral_char c}"
proof -
  let ?r = "dropWhile is_digit s"
  have num: "is_digit c \<Longrightarrow> numeral_char c" "numeral_char CHR ''.''" for c
    by (auto simp: numeral_char_def digit_alnum)
  have "set ?r \<subseteq> {c. numeral_char c}"
  proof (cases "?r \<noteq> [] \<and> hd ?r = CHR ''.''")
    case True
    then obtain t where t: "?r = CHR ''.'' # t" by (cases ?r) auto
    with assms obtain e where "parse_exponent (dropWhile is_digit t) = Some e"
      by (auto simp: parse_decimal_def Let_def split: if_splits option.splits)
    from exponent_chars [OF this] show ?thesis
      unfolding t using num takeWhile_chars [of t is_digit] by auto
  next
    case False
    with assms obtain e where "parse_exponent ?r = Some e"
      by (auto simp: parse_decimal_def Let_def split: if_splits option.splits)
    then show ?thesis by (rule exponent_chars)
  qed
  then show ?thesis using num takeWhile_chars [of s is_digit] by auto
qed

lemma radix_chars: "radix_literal b ds \<noteq> NNaN \<Longrightarrow> set ds \<subseteq> {c. is_alnum c}"
  by (auto simp: radix_literal_def list_all_iff is_hex_def is_lower_hex_def is_alnum_def is_alpha_def split: if_splits)

lemma lower_pair_chars:
  assumes "js_lower (take 2 t) = [CHR ''0'', x]" "is_alnum x"
  shows "set (take 2 t) \<subseteq> {c. is_alnum c}"
proof -
  have low: "is_alnum c" if "is_alnum (lower_char c)" for c
    using that code_less [of c]
    by (auto simp: lower_char_def is_alnum_def is_alpha_def is_digit_def code_char_of Let_def split: if_splits)
  have "set (js_lower (take 2 t)) \<subseteq> {c. is_alnum c}"
    using assms by (simp add: is_alnum_def is_digit_def code_def)
  then show ?thesis by (auto simp: js_lower_def intro: low)
qed

lemma number_chars:
  assumes "js_number s \<noteq> NNaN"
  shows "set s \<subseteq> {c. numeral_char c}"
proof -
  let ?t = "js_trim s"
  have al: "is_alnum c \<Longrightarrow> numeral_char c" for c by (simp add: numeral_char_def)
  have radix: "set ?t \<subseteq> {c. numeral_char c}"
    if "js_lower (take 2 ?t) = [CHR ''0'', x]" "is_alnum x" "radix_literal b (drop 2 ?t) \<noteq> NNaN" for x b
    using lower_pair_chars [OF that(1,2)] radix_chars [OF that(3)] set_append [of "take 2 ?t" "drop 2 ?t"] al by auto
  have x: "is_alnum CHR ''x''" "is_alnum CHR ''o''" "is_alnum CHR ''b''"
    by (simp_all add: is_alnum_def is_alpha_def code_def)
  have "set ?t \<subseteq> {c. numeral_char c}"
  proof -
    consider "?t = []" | x where "js_lower (take 2 ?t) = [CHR ''0'', x]" "x \<in> set ''xob''"
      | "?t \<noteq> []" "\<forall>x \<in> set ''xob''. js_lower (take 2 ?t) \<noteq> [CHR ''0'', x]"
      by blast
    then show ?thesis
    proof cases
      case 1
      then show ?thesis by simp
    next
      case (2 x)
      then have "?t \<noteq> []" by (auto simp: js_lower_def)
      have "x = CHR ''x'' \<or> x = CHR ''o'' \<or> x = CHR ''b''" using 2(2) by simp
      with 2(1) \<open>?t \<noteq> []\<close> have "js_number s = radix_literal 16 (drop 2 ?t) \<or> js_number s = radix_literal 8 (drop 2 ?t) \<or>
          js_number s = radix_literal 2 (drop 2 ?t)"
        by (elim disjE) (simp_all add: js_number_def Let_def)
      with assms obtain b where r: "radix_literal b (drop 2 ?t) \<noteq> NNaN" by metis
      have "is_alnum x" using 2(2) x by auto
      from radix [OF 2(1) this r] show ?thesis .
    next
      case 3
      obtain n u where u: "strip_sign ?t = (n, u)" by (cases "strip_sign ?t")
      have "set u \<subseteq> {c. numeral_char c}"
      proof (cases "u = ''Infinity''")
        case True
        then show ?thesis by (simp add: numeral_char_def is_alnum_def is_alpha_def code_def)
      next
        case False
        with 3 u assms obtain v where "parse_decimal u = Some v"
          by (auto simp: js_number_def Let_def split: option.splits)
        then show ?thesis by (rule decimal_chars)
      qed
      then show ?thesis using strip_sign_chars [OF u] by (auto simp: numeral_char_def)
    qed
  qed
  then show ?thesis using trim_chars [of s] by (auto simp: numeral_char_def)
qed

lemma signed_text_split:
  assumes eq: "signed_text t b = signed_text t0 (CHR ''{'' # r0)"
    and t: "js_number t \<noteq> NNaN" and t0: "list_all is_digit t0"
  shows "t = t0 \<and> b = CHR ''{'' # r0"
proof -
  have dot: "\<not> is_digit CHR ''.''" by (simp add: is_digit_def code_def)
  from eq have "t @ CHR ''.'' # b = t0 @ CHR ''.'' # CHR ''{'' # r0" by (simp add: signed_text_def)
  then obtain us where "t = t0 @ us \<and> us @ CHR ''.'' # b = CHR ''.'' # CHR ''{'' # r0 \<or>
      t @ us = t0 \<and> CHR ''.'' # b = us @ CHR ''.'' # CHR ''{'' # r0"
    unfolding append_eq_append_conv2 by (elim exE) (rule that)
  then consider "t = t0 @ us" "us @ CHR ''.'' # b = CHR ''.'' # CHR ''{'' # r0"
    | "t0 = t @ us" "us @ CHR ''.'' # CHR ''{'' # r0 = CHR ''.'' # b"
    by (elim disjE conjE) simp_all
  then show ?thesis
  proof cases
    case 1
    show ?thesis
    proof (cases us)
      case Nil
      with 1 show ?thesis by simp
    next
      case (Cons c vs)
      with 1(2) have v: "c = CHR ''.''" "vs @ CHR ''.'' # b = CHR ''{'' # r0" by simp_all
      then obtain ws where "vs = CHR ''{'' # ws" by (cases vs) auto
      with 1(1) Cons number_chars [OF t] brace_not_numeral show ?thesis by auto
    qed
  next
    case 2
    then show ?thesis using t0 dot by (cases us) auto
  qed
qed

text \<open>The body of an object begins with a brace.\<close>

lemma canonical_object_head:
  assumes "canonicalJson (JObj ms) = Inr s"
  shows "\<exists>r. s = CHR ''{'' # r"
  using assms by (auto simp: canonicalJson_def bindR_Inr_iff)

section \<open>Properties\<close>

text \<open>
  A message signed for an object is accepted by a receiver with the same secret while its time
  stamp is inside the window, and rejected outside it. Whoever moves the boundary between time
  stamp and body of a signed text gets nothing accepted: of all pairs with the same signed text
  only the original pair has a time stamp that is a number.
\<close>

theorem webhook_signature_window:
  assumes len: "\<And>k m. length (hmac k m) = 32"
    and sign: "signWebhook hmac (JObj ms) secret (int_str ts) = Inr w"
    and ts: "0 \<le> ts" "ts \<le> max_safe_integer"
  shows "(verifyWebhook hmac w secret now age \<longleftrightarrow> \<bar>js_add now (- ts)\<bar> \<le> age) \<and>
    (verifyWebhook hmac v secret now age \<and>
     signed_text (sw_timestamp v) (sw_body v) = signed_text (sw_timestamp w) (sw_body w) \<longrightarrow>
       sw_timestamp v = sw_timestamp w \<and> sw_body v = sw_body w)"
proof (rule conjI)
  have w: "sw_timestamp w = int_str ts" "canonicalJson (JObj ms) = Inr (sw_body w)"
    using sign by (auto simp: signWebhook_def bindR_Inr_iff)
  have num: "js_number (int_str ts) = NInt ts" using ts by (rule js_number_int_str)
  show "verifyWebhook hmac w secret now age \<longleftrightarrow> \<bar>js_add now (- ts)\<bar> \<le> age"
    using verify_signed [OF len sign] ts by (simp add: verifyWebhook_def w num Let_def not_less)
  obtain r where r: "sw_body w = CHR ''{'' # r" using canonical_object_head [OF w(2)] by blast
  have digits: "list_all is_digit (int_str ts)" using ts by (simp add: int_str_def nat_str_digits)
  have "js_number (sw_timestamp v) \<noteq> NNaN" if "verifyWebhook hmac v secret now age"
    using that by (auto simp: verifyWebhook_def Let_def)
  then show "verifyWebhook hmac v secret now age \<and>
      signed_text (sw_timestamp v) (sw_body v) = signed_text (sw_timestamp w) (sw_body w) \<longrightarrow>
      sw_timestamp v = sw_timestamp w \<and> sw_body v = sw_body w"
    using signed_text_split [OF _ _ digits] unfolding w(1) r by blast
qed

definition sample_hmac :: "byte list \<Rightarrow> byte list \<Rightarrow> byte list" where
  "sample_hmac k m = replicate 31 7 @ [fold (+) (k @ m) 0]"

theorem webhook_signature_window_witness:
  "\<exists>w. signWebhook sample_hmac (JObj [(''id'', Some (JStr ''e1''))]) ''secret'' (int_str 1700000000) = Inr w \<and>
     verifyWebhook sample_hmac w ''secret'' 1700000300 300 \<and> \<not> verifyWebhook sample_hmac w ''secret'' 1700000301 300"
proof -
  let ?j = "JObj [(''id'', Some (JStr ''e1''))]"
  obtain w where w: "signWebhook sample_hmac ?j ''secret'' (int_str 1700000000) = Inr w"
    by (simp add: signWebhook_def canonicalJson_def)
  have "verifyWebhook sample_hmac w ''secret'' now 300 \<longleftrightarrow> \<bar>js_add now (- 1700000000)\<bar> \<le> 300" for now
    by (rule webhook_signature_window [OF _ w, THEN conjunct1]) (simp_all add: sample_hmac_def max_safe_integer_def)
  then show ?thesis using w by (intro exI [of _ w]) (simp add: js_add_exact)
qed

text \<open>The blocks the guard keeps out, as prefixes of 32-bit addresses.\<close>

definition ipv4_word :: "ipv4 \<Rightarrow> 32 word" where
  "ipv4_word q = (case q of (a, b, c, d) \<Rightarrow> of_nat (16777216 * a + 65536 * b + 256 * c + d))"

definition in_block :: "32 word \<Rightarrow> ipv4 \<times> nat \<Rightarrow> bool" where
  "in_block w blk = (case blk of (base, len) \<Rightarrow> drop_bit (32 - len) w = drop_bit (32 - len) (ipv4_word base))"

definition private_blocks :: "(ipv4 \<times> nat) list" where
  "private_blocks =
     [((0, 0, 0, 0), 8), ((10, 0, 0, 0), 8), ((127, 0, 0, 0), 8), ((224, 0, 0, 0), 3), ((100, 64, 0, 0), 10),
      ((169, 254, 0, 0), 16), ((172, 16, 0, 0), 12), ((192, 168, 0, 0), 16), ((198, 18, 0, 0), 15)]"

lemma parse_ipv4_bound:
  assumes "parseIpv4 v = Some (a, b, c, d)"
  shows "a < 256" "b < 256" "c < 256" "d < 256"
proof -
  let ?p = "split_on (CHR ''.'') v"
  have p: "length ?p = 4" "\<forall>x\<in>set ?p. num_of x \<le> 255"
    "a = num_of (?p ! 0)" "b = num_of (?p ! 1)" "c = num_of (?p ! 2)" "d = num_of (?p ! 3)"
    using assms by (auto simp: parseIpv4_def Let_def list_ex_iff not_less split: if_splits)
  have "num_of (?p ! i) < 256" if "i < 4" for i
    using p(2) nth_mem [of i ?p] that by (simp add: p(1) less_Suc_eq_le [of _ 255, simplified])
  then show "a < 256" "b < 256" "c < 256" "d < 256" using p(3-6) by simp_all
qed

lemma prefix_word:
  assumes "x < 2 ^ 32" "y < 2 ^ 32"
  shows "drop_bit n (of_nat x :: 32 word) = drop_bit n (of_nat y) \<longleftrightarrow> x div 2 ^ n = y div 2 ^ n"
proof -
  have "unat (drop_bit n (of_nat z :: 32 word)) = z div 2 ^ n" if "z < 2 ^ 32" for z
    unfolding unat_drop_bit_eq using that by (simp add: unat_of_nat take_bit_nat_eq_self drop_bit_eq_div)
  then show ?thesis using assms by (metis unsigned_word_eqI)
qed

lemma two_digits:
  fixes a b :: nat
  assumes "b < n" "b' < n"
  shows "n * a + b = n * a' + b' \<longleftrightarrow> a = a' \<and> b = b'"
proof
  assume e: "n * a + b = n * a' + b'"
  then have "(n * a + b) div n = (n * a' + b') div n" by simp
  with assms have "a = a'" by simp
  with e show "a = a' \<and> b = b'" by simp
qed simp

text \<open>What the leading bits of an address say of its octets.\<close>

lemma address_prefix:
  fixes a b c d :: nat
  assumes "b < 256" "c < 256" "d < 256"
  defines "x \<equiv> 16777216 * a + 65536 * b + 256 * c + d"
  shows "x div 536870912 = a div 32" "x div 16777216 = a" "x div 4194304 = 4 * a + b div 64"
    "x div 1048576 = 16 * a + b div 16" "x div 131072 = 128 * a + b div 2" "x div 65536 = 256 * a + b"
proof -
  show top: "x div 65536 = 256 * a + b"
    unfolding x_def using assms(1-3) by (intro div_nat_eqI) (simp_all add: algebra_simps)
  have rest: "(n * m * a + b) div n = m * a + b div n" if "n > 0" for n m :: nat
    using div_mult_self3 [of n b "m * a"] that by (simp add: mult.assoc add.commute)
  have step: "x div (65536 * k) = (256 * a + b) div k" for k
    by (simp only: div_mult2_eq top)
  show "x div 4194304 = 4 * a + b div 64" "x div 1048576 = 16 * a + b div 16" "x div 131072 = 128 * a + b div 2"
    using step [of 64] step [of 16] step [of 2] rest [of 64 4] rest [of 16 16] rest [of 2 128] by simp_all
  show high: "x div 16777216 = a"
    using step [of 256] rest [of 256 1] assms(1) by simp
  show "x div 536870912 = a div 32"
    using div_mult2_eq [of x 16777216 32] high by simp
qed

lemma in_block_iff:
  assumes "a < 256" "b < 256" "c < 256" "d < 256" "a' < 256" "b' < 256"
  shows "in_block (ipv4_word (a, b, c, d)) ((a', b', 0, 0), len) \<longleftrightarrow>
    (16777216 * a + 65536 * b + 256 * c + d) div 2 ^ (32 - len) = (16777216 * a' + 65536 * b') div 2 ^ (32 - len)"
  unfolding in_block_def ipv4_word_def split using assms by (subst prefix_word) simp_all

lemma forbidden_ipv4_blocks:
  assumes "parseIpv4 v = Some q"
  shows "isForbiddenIpLiteral v \<longleftrightarrow> list_ex (in_block (ipv4_word q)) private_blocks"
proof -
  obtain a b c d where q: "q = (a, b, c, d)" by (cases q)
  note bound = parse_ipv4_bound [OF assms [unfolded q]]
  note prefix = address_prefix [OF bound(2-4), of a]
  have "list_ex (in_block (ipv4_word q)) private_blocks \<longleftrightarrow>
      a = 0 \<or> a = 10 \<or> a = 127 \<or> a div 32 = 7 \<or> 4 * a + b div 64 = 401 \<or> 256 * a + b = 43518 \<or>
      16 * a + b div 16 = 2753 \<or> 256 * a + b = 49320 \<or> 128 * a + b div 2 = 25353"
    unfolding private_blocks_def q by (simp add: in_block_iff bound prefix)
  also have "\<dots> \<longleftrightarrow> isForbiddenIpLiteral v"
  proof -
    have octets: "4 * a + b div 64 = 401 \<longleftrightarrow> a = 100 \<and> b div 64 = 1" "256 * a + b = 43518 \<longleftrightarrow> a = 169 \<and> b = 254"
      "16 * a + b div 16 = 2753 \<longleftrightarrow> a = 172 \<and> b div 16 = 1" "256 * a + b = 49320 \<longleftrightarrow> a = 192 \<and> b = 168"
      "128 * a + b div 2 = 25353 \<longleftrightarrow> a = 198 \<and> b div 2 = 9"
      using two_digits [of "b div 64" 4 1 a 100] two_digits [of b 256 254 a 169] two_digits [of "b div 16" 16 1 a 172]
        two_digits [of b 256 168 a 192] two_digits [of "b div 2" 128 9 a 198] bound(2)
      by (simp_all add: less_mult_imp_div_less)
    have ranges: "a div 32 = 7 \<longleftrightarrow> a \<ge> 224" "b div 64 = 1 \<longleftrightarrow> b \<ge> 64 \<and> b \<le> 127" "b div 16 = 1 \<longleftrightarrow> b \<ge> 16 \<and> b \<le> 31"
      "b div 2 = 9 \<longleftrightarrow> b = 18 \<or> b = 19"
      using bound(1) by linarith+
    show ?thesis unfolding isForbiddenIpLiteral_def assms q octets ranges option.case split by (rule refl)
  qed
  finally show ?thesis by (rule sym)
qed

text \<open>
  On IPv4 answers of the resolver the guard is exact: it lets a delivery pass if and only if there
  is an answer and no answer lies in one of the private, loopback, link-local, shared, benchmark or
  multicast blocks.
\<close>

theorem resolved_ipv4_exact:
  assumes "\<forall>a\<in>set as. parseIpv4 (js_lower a) \<noteq> None"
  shows "assertResolvedWebhookAddresses as = Inr () \<longleftrightarrow>
    as \<noteq> [] \<and> list_all (\<lambda>a. \<not> list_ex (in_block (ipv4_word (the (parseIpv4 (js_lower a))))) private_blocks) as"
proof -
  have "isForbiddenIpLiteral (js_lower a) \<longleftrightarrow>
      list_ex (in_block (ipv4_word (the (parseIpv4 (js_lower a))))) private_blocks" if "a \<in> set as" for a
    using assms that by (intro forbidden_ipv4_blocks) auto
  then show ?thesis by (auto simp: resolved_addresses_iff list_all_iff)
qed

lemma parse_public: "parseIpv4 ''8.8.4.4'' = Some (8, 8, 4, 4)"
  by (simp add: parseIpv4_def octet_text_def is_digit_def code_def num_of_def digit_val_def Let_def)

lemma public_answer: "assertResolvedWebhookAddresses [''8.8.4.4''] = Inr ()"
proof -
  have "js_lower ''8.8.4.4'' = ''8.8.4.4''" by (simp add: js_lower_def lower_char_def code_def)
  then have "\<not> isForbiddenIpLiteral (js_lower ''8.8.4.4'')"
    by (simp only: isForbiddenIpLiteral_def parse_public option.case split) simp
  then show ?thesis unfolding resolved_addresses_iff by simp
qed

theorem resolved_ipv4_exact_witness: "assertResolvedWebhookAddresses [''8.8.4.4''] = Inr ()"
proof -
  have "js_lower ''8.8.4.4'' = ''8.8.4.4''" by (simp add: js_lower_def lower_char_def code_def)
  then have p: "parseIpv4 (js_lower ''8.8.4.4'') = Some (8, 8, 4, 4)" by (simp only: parse_public)
  show ?thesis
    by (subst resolved_ipv4_exact)
       (simp_all add: p [simplified] private_blocks_def in_block_def ipv4_word_def drop_bit_eq_div)
qed

lemma split_on_head: "c \<noteq> d \<Longrightarrow> \<exists>l ls. split_on d (c # cs) = (c # l) # ls"
  by (cases "split_on d cs") simp_all

text \<open>
  An IPv4 address written as an IPv4-mapped IPv6 address passes the guard whatever the address is:
  the loopback and private blocks are reachable by a name that resolves to such an answer.
\<close>

theorem mapped_address_not_guarded:
  "assertResolvedWebhookAddresses [''::ffff:'' @ a] = Inr ()"
proof -
  obtain p ps where p: "split_on (CHR ''.'') (''::ffff:'' @ js_lower a) = (CHR '':'' # p) # ps"
    using split_on_head [of "CHR '':''" "CHR ''.''" "'':ffff:'' @ js_lower a"] by auto
  have "parseIpv4 (''::ffff:'' @ js_lower a) = None"
    unfolding parseIpv4_def p by (simp add: octet_text_def is_digit_def code_def)
  moreover have "\<exists>r. strip_brackets (''::ffff:'' @ js_lower a) = ''::ffff'' @ r"
    by (auto simp: strip_brackets_def butlast_append Let_def)
  moreover have "js_lower (''::ffff:'' @ a) = ''::ffff:'' @ js_lower a"
    by (simp add: js_lower_def lower_char_def code_def)
  ultimately have "\<not> isForbiddenIpLiteral (js_lower (''::ffff:'' @ a))"
    by (auto simp: isForbiddenIpLiteral_def starts_with_def)
  then show ?thesis unfolding resolved_addresses_iff by simp
qed

end
