(* ===== verification/Webhook_Delivery.thy ===== *)
theory Webhook_Delivery
  imports Webhooks
begin

text \<open>
  Delivery of outbox events to webhook endpoints (\<open>apps/workers/src/webhook-handlers.ts\<close>) with the
  state and transition triggers of \<open>app.webhook_deliveries\<close> (migration 0022).

  The state is what one tenant sees of the tables, an SQL transaction is one atomic update of it.
  A throw keeps the updates of the transactions before it, so the state is returned next to the
  outcome. The remote side of one attempt (DNS, HTTP, decryption of secrets, the clock) is a record of functions;
  \<open>wh_sent\<close> records the requests that left, with the answers, and is read by no definition. The
  \<open>Date\<close> of an event is its time value, \<open>None\<close> an invalid date.
\<close>

section \<open>Tables\<close>

datatype delivery_status = Delivery_pending | Delivering | Delivered | Delivery_failed | Delivery_dead_letter

record delivery =
  wd_status :: delivery_status
  wd_attempt :: int
  wd_next_attempt :: int
  wd_response :: "int option"
  wd_body_sha :: "string option"
  wd_delivered_at :: "int option"

record webhook_endpoint =
  we_id :: string
  we_url :: string
  we_active :: bool
  we_secret :: "byte list option"
  we_events :: "string list"
  we_created :: int

record outbox_event =
  ev_id :: string
  ev_aggregate_type :: string
  ev_aggregate_id :: string
  ev_type :: string
  ev_payload :: json
  ev_payload_sha :: string
  ev_occurred :: "int option"
  ev_published :: "int option"

record webhook_request =
  rq_url :: url_parts
  rq_event_type :: string
  rq_event_id :: string
  rq_delivery_id :: string
  rq_message :: signed_webhook

record http_answer =
  ha_status :: int
  ha_body :: "byte list option"

record sent_request =
  sr_endpoint :: string
  sr_event :: string
  sr_request :: webhook_request
  sr_answer :: "http_answer option"

record webhook_state =
  wh_events :: "outbox_event list"
  wh_endpoints :: "webhook_endpoint list"
  wh_deliveries :: "string \<times> string \<Rightarrow> delivery option"
  wh_audit :: "(string \<times> string \<times> int option) list"
  wh_sent :: "sent_request list"

record webhook_world =
  ww_parse_url :: "string \<Rightarrow> url_parts option"
  ww_set_hostname :: "string \<Rightarrow> url_parts \<Rightarrow> url_parts"
  ww_href :: "url_parts \<Rightarrow> string"
  ww_hmac :: "byte list \<Rightarrow> byte list \<Rightarrow> byte list"
  ww_sha256 :: "byte list \<Rightarrow> byte list"
  ww_resolve :: "string \<Rightarrow> string list outcome"
  ww_decrypt :: "byte list \<Rightarrow> string outcome"
  ww_http :: "webhook_request \<Rightarrow> http_answer option"
  ww_now :: int

section \<open>Triggers\<close>

fun delivery_successors :: "delivery_status \<Rightarrow> delivery_status list" where
  "delivery_successors Delivery_pending = [Delivering, Delivery_failed, Delivery_dead_letter]"
| "delivery_successors Delivering = [Delivered, Delivery_failed, Delivery_dead_letter]"
| "delivery_successors Delivery_failed = [Delivery_pending, Delivering, Delivery_dead_letter]"
| "delivery_successors Delivery_dead_letter = [Delivery_pending]"
| "delivery_successors Delivered = []"

definition transition_allowed :: "delivery_status \<Rightarrow> delivery_status \<Rightarrow> bool" where
  "transition_allowed old new \<longleftrightarrow> new = old \<or> new \<in> set (delivery_successors old)"

definition delivery_state_ok :: "delivery option \<Rightarrow> delivery \<Rightarrow> bool" where
  "delivery_state_ok old new \<longleftrightarrow>
     \<not> (wd_status new = Delivered \<and> (wd_response new = None \<or> wd_delivered_at new = None)) \<and>
     \<not> (wd_status new \<noteq> Delivered \<and> wd_delivered_at new \<noteq> None) \<and>
     \<not> (case old of Some d \<Rightarrow> wd_status d = Delivered \<and> wd_status new \<noteq> Delivered | None \<Rightarrow> False)"

text \<open>An update of one row: no row is no error, and the triggers may refuse it.\<close>

definition update_delivery ::
  "string \<times> string \<Rightarrow> (delivery \<Rightarrow> delivery) \<Rightarrow> webhook_state \<Rightarrow> webhook_state outcome" where
  "update_delivery k f s =
     (case wh_deliveries s k of
        None \<Rightarrow> Inr s
      | Some d \<Rightarrow>
          (if delivery_state_ok (Some d) (f d) \<and> transition_allowed (wd_status d) (wd_status (f d))
           then Inr (s\<lparr>wh_deliveries := (wh_deliveries s)(k \<mapsto> f d)\<rparr>)
           else Inl (JsError ''error'' ''invalid webhook delivery transition'')))"

section \<open>Helpers\<close>

text \<open>\<open>toUpperCase().replace(/[^A-Z0-9_:-]/g, '_').slice(0, 120)\<close>, or \<open>WEBHOOK_ERROR\<close>.\<close>

definition safeCode :: "string \<Rightarrow> string" where
  "safeCode v =
     (let t = take 120 (concat (map (\<lambda>c. if c \<in> set '':-'' then [c] else upper_safe c) v))
      in if t = [] then ''WEBHOOK_ERROR'' else t)"

definition permanent :: "string \<Rightarrow> 'a outcome" where
  "permanent msg = Inl (JsError ''PermanentWorkerError'' (safeCode msg))"

definition error_text :: "cause \<Rightarrow> string" where
  "error_text c = (case c of JsError _ m \<Rightarrow> m | NonError \<Rightarrow> ''WEBHOOK_URL_REJECTED'')"

text \<open>\<open>/^[0-9a-f]{8}-[0-9a-f]{4}-[1-8][0-9a-f]{3}-[89ab][0-9a-f]{3}-[0-9a-f]{12}$/i\<close>\<close>

definition is_versioned_uuid :: "string \<Rightarrow> bool" where
  "is_versioned_uuid s \<longleftrightarrow>
     (case split_on (CHR ''-'') (js_lower s) of
        [a, b, c, d, e] \<Rightarrow>
          length a = 8 \<and> length b = 4 \<and> length c = 4 \<and> length d = 4 \<and> length e = 12 \<and>
          list_all is_lower_hex (a @ b @ c @ d @ e) \<and>
          hd c \<in> set ''12345678'' \<and> hd d \<in> set ''89ab''
      | _ \<Rightarrow> False)"

definition uuidPayload :: "json \<Rightarrow> string outcome" where
  "uuidPayload payload =
     (case payload of
        JObj ms \<Rightarrow>
          (case map_of ms ''outboxEventId'' of
             Some (Some (JStr v)) \<Rightarrow>
               (if is_versioned_uuid v then Inr v else permanent ''WORKER_PAYLOAD_OUTBOXEVENTID_INVALID'')
           | _ \<Rightarrow> permanent ''WORKER_PAYLOAD_OUTBOXEVENTID_INVALID'')
      | _ \<Rightarrow> permanent ''WORKER_PAYLOAD_OUTBOXEVENTID_INVALID'')"

section \<open>One delivery\<close>

record delivery_result =
  dr_delivered :: bool
  dr_response :: "int option"
  dr_body_sha :: "string option"
  dr_code :: string

definition event_envelope :: "outbox_event \<Rightarrow> string \<Rightarrow> json" where
  "event_envelope e occurredAt =
     JObj [(''id'', Some (JStr (ev_id e))), (''type'', Some (JStr (ev_type e))), (''occurredAt'', Some (JStr occurredAt)),
       (''aggregate'', Some (JObj [(''type'', Some (JStr (ev_aggregate_type e))), (''id'', Some (JStr (ev_aggregate_id e)))])),
       (''payloadSha256'', Some (JStr (ev_payload_sha e))), (''data'', Some (ev_payload e))]"

text \<open>The guards of the \<open>try\<close> block: the URL and the addresses it resolves to.\<close>

definition guarded_url :: "webhook_world \<Rightarrow> string \<Rightarrow> url_parts outcome" where
  "guarded_url w u =
     bindR (assertSafeWebhookUrl (ww_parse_url w) (ww_set_hostname w) (ww_href w) u) (\<lambda>url.
     bindR (ww_resolve w (url_hostname url)) (\<lambda>addresses.
     bindR (assertResolvedWebhookAddresses addresses) (\<lambda>_. Inr url)))"

text \<open>The classification of an answer; \<open>None\<close> is a request that threw.\<close>

definition answer_result :: "webhook_world \<Rightarrow> http_answer option \<Rightarrow> delivery_result" where
  "answer_result w answer =
     (case answer of
        None \<Rightarrow> \<lparr>dr_delivered = False, dr_response = None, dr_body_sha = None, dr_code = ''WEBHOOK_TRANSPORT_FAILED''\<rparr>
      | Some a \<Rightarrow>
          (let truncated = take 8192 (case ha_body a of Some bs \<Rightarrow> bs | None \<Rightarrow> []);
               sha = (if truncated = [] then None else Some (sha256Hex (ww_sha256 w) (RawBytes truncated)));
               status = ha_status a
           in if 300 \<le> status \<and> status < 400
              then \<lparr>dr_delivered = False, dr_response = Some status, dr_body_sha = sha, dr_code = ''WEBHOOK_REDIRECT_NOT_FOLLOWED''\<rparr>
              else if 200 \<le> status \<and> status < 300
              then \<lparr>dr_delivered = True, dr_response = Some status, dr_body_sha = sha, dr_code = ''OK''\<rparr>
              else \<lparr>dr_delivered = False, dr_response = Some status, dr_body_sha = sha,
                    dr_code = ''WEBHOOK_HTTP_'' @ int_str status\<rparr>))"

definition json_cause :: "json_error \<Rightarrow> cause" where
  "json_cause e = (case e of NonFiniteNumber \<Rightarrow> JsError ''TypeError'' ''Canonical JSON rejects non-finite numbers''
     | UndefinedAtKey k \<Rightarrow> JsError ''TypeError'' (''Canonical JSON rejects undefined at key: '' @ k))"

definition deliver ::
  "webhook_world \<Rightarrow> webhook_endpoint \<Rightarrow> outbox_event \<Rightarrow> (sent_request option \<times> delivery_result) outcome" where
  "deliver w endpoint event =
     (case guarded_url w (we_url endpoint) of
        Inl c \<Rightarrow> Inr (None, \<lparr>dr_delivered = False, dr_response = None, dr_body_sha = None, dr_code = safeCode (error_text c)\<rparr>)
      | Inr url \<Rightarrow>
          bindR (case we_secret endpoint of None \<Rightarrow> permanent ''WEBHOOK_SECRET_MISSING'' | Some c \<Rightarrow> ww_decrypt w c) (\<lambda>secret.
          bindR (case Option.bind (ev_occurred event) to_iso of None \<Rightarrow> Inl (JsError ''RangeError'' ''Invalid time value'') | Some t \<Rightarrow> Inr t) (\<lambda>occurredAt.
          bindR (mapErr json_cause (signWebhook (ww_hmac w) (event_envelope event occurredAt) secret (int_str (ww_now w div 1000)))) (\<lambda>message.
            let request = \<lparr>rq_url = url, rq_event_type = ev_type event, rq_event_id = ev_id event,
                  rq_delivery_id = we_id endpoint @ CHR '':'' # ev_id event, rq_message = message\<rparr>;
                answer = ww_http w request
            in Inr (Some \<lparr>sr_endpoint = we_id endpoint, sr_event = ev_id event, sr_request = request, sr_answer = answer\<rparr>,
                    answer_result w answer)))))"

section \<open>The transactions around it\<close>

datatype claim_state = Claimed | Terminal

definition claimDelivery ::
  "int \<Rightarrow> string \<Rightarrow> string \<Rightarrow> int \<Rightarrow> webhook_state \<Rightarrow> (webhook_state \<times> claim_state) outcome" where
  "claimDelivery now endpointId eventId attempt s =
     (let k = (endpointId, eventId);
          s1 = (if wh_deliveries s k = None
                then s\<lparr>wh_deliveries := (wh_deliveries s)(k \<mapsto>
                  \<lparr>wd_status = Delivery_pending, wd_attempt = 0, wd_next_attempt = now, wd_response = None,
                   wd_body_sha = None, wd_delivered_at = None\<rparr>)\<rparr>
                else s)
      in case wh_deliveries s1 k of
           None \<Rightarrow> permanent ''WEBHOOK_DELIVERY_NOT_FOUND''
         | Some d \<Rightarrow>
             (if wd_status d = Delivered \<or> wd_status d = Delivery_dead_letter then Inr (s1, Terminal)
              else bindR (update_delivery k (\<lambda>d. d\<lparr>wd_status := Delivering, wd_attempt := attempt\<rparr>) s1)
                     (\<lambda>s2. Inr (s2, Claimed))))"

definition with_audit :: "string \<Rightarrow> string \<Rightarrow> delivery_result \<Rightarrow> webhook_state \<Rightarrow> webhook_state" where
  "with_audit event_type endpointId r s = s\<lparr>wh_audit := wh_audit s @ [(event_type, endpointId, dr_response r)]\<rparr>"

definition recordFailure :: "int \<Rightarrow> string \<Rightarrow> string \<Rightarrow> delivery_result \<Rightarrow> webhook_state \<Rightarrow> webhook_state outcome" where
  "recordFailure now endpointId eventId r s =
     bindR (update_delivery (endpointId, eventId)
       (\<lambda>d. d\<lparr>wd_status := Delivery_failed, wd_response := dr_response r, wd_body_sha := dr_body_sha r, wd_next_attempt := now\<rparr>) s)
       (\<lambda>s'. Inr (with_audit ''webhook.delivery_failed'' endpointId r s'))"

definition recordDeadLetter :: "string \<Rightarrow> string \<Rightarrow> delivery_result \<Rightarrow> webhook_state \<Rightarrow> webhook_state outcome" where
  "recordDeadLetter endpointId eventId r s =
     bindR (update_delivery (endpointId, eventId)
       (\<lambda>d. d\<lparr>wd_status := Delivery_dead_letter, wd_response := dr_response r, wd_body_sha := dr_body_sha r\<rparr>) s)
       (\<lambda>s'. Inr (with_audit ''webhook.dead_lettered'' endpointId r s'))"

definition recordDelivered :: "int \<Rightarrow> string \<Rightarrow> string \<Rightarrow> delivery_result \<Rightarrow> webhook_state \<Rightarrow> webhook_state outcome" where
  "recordDelivered now endpointId eventId r s =
     bindR (update_delivery (endpointId, eventId)
       (\<lambda>d. d\<lparr>wd_status := Delivered, wd_response := dr_response r, wd_body_sha := dr_body_sha r, wd_delivered_at := Some now\<rparr>) s)
       (\<lambda>s'. Inr (with_audit ''webhook.delivered'' endpointId r s'))"

definition live_status :: "delivery_status \<Rightarrow> bool" where
  "live_status st \<longleftrightarrow> st \<in> set [Delivery_pending, Delivering, Delivery_failed]"

text \<open>The endpoints of the tenant's table bound the rows of \<open>app.webhook_deliveries\<close> by its foreign key.\<close>

definition has_live_delivery :: "string \<Rightarrow> webhook_state \<Rightarrow> bool" where
  "has_live_delivery eventId s \<longleftrightarrow>
     list_ex (\<lambda>e. case wh_deliveries s (we_id e, eventId) of None \<Rightarrow> False | Some d \<Rightarrow> live_status (wd_status d)) (wh_endpoints s)"

definition markPublished :: "int \<Rightarrow> string \<Rightarrow> webhook_state \<Rightarrow> webhook_state" where
  "markPublished now eventId s =
     (if has_live_delivery eventId s then s
      else s\<lparr>wh_events := map (\<lambda>e. if ev_id e = eventId \<and> ev_published e = None then e\<lparr>ev_published := Some now\<rparr> else e) (wh_events s)\<rparr>)"

section \<open>The handler\<close>

text \<open>The rows the handler loads.\<close>

definition subscribed :: "outbox_event \<Rightarrow> webhook_endpoint \<Rightarrow> bool" where
  "subscribed event e \<longleftrightarrow> we_active e \<and> we_secret e \<noteq> None \<and> ev_type event \<in> set (we_events e)"

definition load_endpoints :: "outbox_event \<Rightarrow> webhook_state \<Rightarrow> webhook_endpoint list" where
  "load_endpoints event s = sort_key (\<lambda>e. (we_created e, we_id e)) (filter (subscribed event) (wh_endpoints s))"

text \<open>What an attempt leaves on record.\<close>

definition record_result ::
  "webhook_world \<Rightarrow> bool \<Rightarrow> string \<Rightarrow> string \<Rightarrow> delivery_result \<Rightarrow> webhook_state \<Rightarrow> webhook_state outcome" where
  "record_result w finalAttempt endpointId eventId r s =
     (if dr_delivered r then recordDelivered (ww_now w) endpointId eventId r s
      else if finalAttempt then recordDeadLetter endpointId eventId r s
      else recordFailure (ww_now w) endpointId eventId r s)"

text \<open>One turn of the loop: the state and whether the delivery stays outstanding.\<close>

definition deliver_one ::
  "webhook_world \<Rightarrow> bool \<Rightarrow> int \<Rightarrow> outbox_event \<Rightarrow> webhook_endpoint \<Rightarrow> webhook_state \<Rightarrow> webhook_state \<times> bool outcome" where
  "deliver_one w finalAttempt attempts event endpoint s =
     (case claimDelivery (ww_now w) (we_id endpoint) (ev_id event) attempts s of
        Inl c \<Rightarrow> (s, Inl c)
      | Inr (s1, Terminal) \<Rightarrow> (s1, Inr False)
      | Inr (s1, Claimed) \<Rightarrow>
          (case deliver w endpoint event of
             Inl c \<Rightarrow> (s1, Inl c)
           | Inr (sent, result) \<Rightarrow>
               (let s2 = s1\<lparr>wh_sent := wh_sent s1 @ (case sent of None \<Rightarrow> [] | Some r \<Rightarrow> [r])\<rparr>
                in case record_result w finalAttempt (we_id endpoint) (ev_id event) result s2 of
                     Inl c \<Rightarrow> (s2, Inl c)
                   | Inr s3 \<Rightarrow> (s3, Inr (\<not> dr_delivered result \<and> \<not> finalAttempt)))))"

fun deliver_all ::
  "webhook_world \<Rightarrow> bool \<Rightarrow> int \<Rightarrow> outbox_event \<Rightarrow> webhook_endpoint list \<Rightarrow> nat \<Rightarrow> webhook_state \<Rightarrow> webhook_state \<times> nat outcome" where
  "deliver_all w finalAttempt attempts event [] outstanding s = (s, Inr outstanding)"
| "deliver_all w finalAttempt attempts event (e # es) outstanding s =
     (case deliver_one w finalAttempt attempts event e s of
        (s', Inl c) \<Rightarrow> (s', Inl c)
      | (s', Inr waiting) \<Rightarrow>
          deliver_all w finalAttempt attempts event es (if waiting then Suc outstanding else outstanding) s')"

definition handleWebhookDeliver :: "webhook_world \<Rightarrow> durable_job \<Rightarrow> webhook_state \<Rightarrow> webhook_state \<times> unit outcome" where
  "handleWebhookDeliver w job s =
     (case uuidPayload (job_payload job) of
        Inl c \<Rightarrow> (s, Inl c)
      | Inr eventId \<Rightarrow>
          (case find (\<lambda>e. ev_id e = js_lower eventId) (wh_events s) of
             None \<Rightarrow> (s, permanent ''OUTBOX_EVENT_NOT_FOUND'')
           | Some event \<Rightarrow>
               (let endpoints = load_endpoints event s
                in if endpoints = [] then (markPublished (ww_now w) (ev_id event) s, Inr ())
                   else
                     (case deliver_all w (job_attempts job \<ge> job_maximum job) (job_attempts job) event endpoints 0 s of
                        (s', Inl c) \<Rightarrow> (s', Inl c)
                      | (s', Inr outstanding) \<Rightarrow>
                          (if outstanding > 0 then (s', throw (''WEBHOOK_DELIVERY_INCOMPLETE_'' @ nat_str outstanding))
                           else (markPublished (ww_now w) (ev_id event) s', Inr ()))))))"

section \<open>What one turn of the loop does\<close>

definition rows_ok :: "webhook_state \<Rightarrow> bool" where
  "rows_ok s \<longleftrightarrow> (\<forall>k d. wh_deliveries s k = Some d \<longrightarrow> delivery_state_ok None d)"

definition status_of :: "webhook_state \<Rightarrow> string \<times> string \<Rightarrow> delivery_status option" where
  "status_of s k = map_option wd_status (wh_deliveries s k)"

definition settled :: "webhook_state \<Rightarrow> string \<times> string \<Rightarrow> bool" where
  "settled s k \<longleftrightarrow> status_of s k = Some Delivered \<or> status_of s k = Some Delivery_dead_letter"

lemma rows_okD: "rows_ok s \<Longrightarrow> wh_deliveries s k = Some d \<Longrightarrow> wd_delivered_at d = None \<or> wd_status d = Delivered"
  unfolding rows_ok_def delivery_state_ok_def by blast

lemma rows_ok_update: "rows_ok s \<Longrightarrow> delivery_state_ok None d \<Longrightarrow> wh_deliveries s' = (wh_deliveries s)(k \<mapsto> d) \<Longrightarrow> rows_ok s'"
  by (simp add: rows_ok_def)

lemma answer_delivered: "dr_delivered (answer_result w a) \<Longrightarrow> dr_response (answer_result w a) \<noteq> None"
  by (auto simp: answer_result_def Let_def split: option.splits if_splits)

lemma deliver_result_ok:
  assumes "deliver w e event = Inr (sent, r)"
  shows "dr_delivered r \<longrightarrow> sent \<noteq> None \<and> dr_response r \<noteq> None"
  using assms answer_delivered by (auto simp: deliver_def bindR_Inr_iff Let_def split: sum.splits)

lemma claim_settled: "settled s (e, ev) \<Longrightarrow> claimDelivery now e ev n s = Inr (s, Terminal)"
  by (auto simp: settled_def status_of_def claimDelivery_def Let_def)

lemma claim_unsettled:
  assumes "rows_ok s" "\<not> settled s (e, ev)"
  shows "\<exists>d. claimDelivery now e ev n s = Inr (s\<lparr>wh_deliveries := (wh_deliveries s)((e, ev) \<mapsto> d)\<rparr>, Claimed) \<and>
    wd_status d = Delivering \<and> wd_delivered_at d = None"
proof (cases "wh_deliveries s (e, ev)")
  case None
  let ?d = "\<lparr>wd_status = Delivering, wd_attempt = n, wd_next_attempt = now, wd_response = None,
    wd_body_sha = None, wd_delivered_at = None\<rparr>"
  show ?thesis
    by (rule exI [of _ ?d])
       (simp add: None claimDelivery_def update_delivery_def delivery_state_ok_def transition_allowed_def)
next
  case (Some d)
  then have st: "wd_status d \<noteq> Delivered" "wd_status d \<noteq> Delivery_dead_letter"
    using assms(2) by (auto simp: settled_def status_of_def)
  then have n: "wd_delivered_at d = None" using rows_okD [OF assms(1) Some] by blast
  have "transition_allowed (wd_status d) Delivering"
    using st by (cases "wd_status d") (simp_all add: transition_allowed_def)
  then show ?thesis
    by (intro exI [of _ "d\<lparr>wd_status := Delivering, wd_attempt := n\<rparr>"])
       (simp add: Some st n claimDelivery_def update_delivery_def delivery_state_ok_def)
qed

text \<open>The statuses a turn can leave the row in.\<close>

definition final_status :: "bool \<Rightarrow> delivery_result \<Rightarrow> delivery_status" where
  "final_status finalAttempt r =
     (if dr_delivered r then Delivered else if finalAttempt then Delivery_dead_letter else Delivery_failed)"

definition sent_list :: "sent_request option \<Rightarrow> sent_request list" where
  "sent_list sent = (case sent of None \<Rightarrow> [] | Some r \<Rightarrow> [r])"

lemmas record_defs = record_result_def recordDelivered_def recordDeadLetter_def recordFailure_def update_delivery_def
  delivery_state_ok_def transition_allowed_def with_audit_def final_status_def

lemma record_outcome:
  assumes "wh_deliveries s (e, ev) = Some d" "wd_status d = Delivering" "wd_delivered_at d = None"
    and "dr_delivered r \<Longrightarrow> dr_response r \<noteq> None"
  shows "\<exists>d' a. record_result w fin e ev r s = Inr (s\<lparr>wh_deliveries := (wh_deliveries s)((e, ev) \<mapsto> d'), wh_audit := a\<rparr>) \<and>
    wd_status d' = final_status fin r \<and> delivery_state_ok None d'"
proof -
  consider "dr_delivered r" | "\<not> dr_delivered r" fin | "\<not> dr_delivered r" "\<not> fin" by blast
  then show ?thesis
  proof cases
    case 1
    then obtain y where "dr_response r = Some y" using assms(4) by blast
    with 1 show ?thesis
      by (intro exI [of _ "d\<lparr>wd_status := Delivered, wd_response := dr_response r, wd_body_sha := dr_body_sha r,
            wd_delivered_at := Some (ww_now w)\<rparr>"] exI) (simp add: record_defs assms(1-3))
  next
    case 2
    then show ?thesis
      by (intro exI [of _ "d\<lparr>wd_status := Delivery_dead_letter, wd_response := dr_response r, wd_body_sha := dr_body_sha r\<rparr>"] exI)
         (simp add: record_defs assms(1-3))
  next
    case 3
    then show ?thesis
      by (intro exI [of _ "d\<lparr>wd_status := Delivery_failed, wd_response := dr_response r, wd_body_sha := dr_body_sha r,
            wd_next_attempt := ww_now w\<rparr>"] exI) (simp add: record_defs assms(1-3))
  qed
qed

text \<open>A turn as a step: it passes a settled row over, stops at a throw, or leaves the status of its attempt.\<close>

inductive turn ::
  "webhook_world \<Rightarrow> bool \<Rightarrow> outbox_event \<Rightarrow> webhook_endpoint \<Rightarrow> webhook_state \<Rightarrow> bool outcome \<Rightarrow> webhook_state \<Rightarrow> bool"
  for w fin event e where
  Skip: "settled s (we_id e, ev_id event) \<Longrightarrow> turn w fin event e s (Inr False) s"
| Stop: "\<not> settled s (we_id e, ev_id event) \<Longrightarrow> deliver w e event = Inl c \<Longrightarrow> wd_status d = Delivering \<Longrightarrow>
    delivery_state_ok None d \<Longrightarrow>
    turn w fin event e s (Inl c) (s\<lparr>wh_deliveries := (wh_deliveries s)((we_id e, ev_id event) \<mapsto> d)\<rparr>)"
| Attempt: "\<not> settled s (we_id e, ev_id event) \<Longrightarrow> deliver w e event = Inr (sent, r) \<Longrightarrow>
    wd_status d = final_status fin r \<Longrightarrow> delivery_state_ok None d \<Longrightarrow>
    turn w fin event e s (Inr (\<not> dr_delivered r \<and> \<not> fin))
      (s\<lparr>wh_deliveries := (wh_deliveries s)((we_id e, ev_id event) \<mapsto> d), wh_audit := a, wh_sent := wh_sent s @ sent_list sent\<rparr>)"

inductive_cases turnE: "turn w fin event e s out s'"

lemma deliver_one_turn:
  assumes ok: "rows_ok s" and one: "deliver_one w fin n event e s = (s', out)"
  shows "turn w fin event e s out s'"
proof (cases "settled s (we_id e, ev_id event)")
  case True
  then show ?thesis using one claim_settled [OF True] by (auto simp: deliver_one_def intro: Skip)
next
  case False
  define k where "k = (we_id e, ev_id event)"
  obtain d where d: "claimDelivery (ww_now w) (we_id e) (ev_id event) n s =
      Inr (s\<lparr>wh_deliveries := (wh_deliveries s)(k \<mapsto> d)\<rparr>, Claimed)" "wd_status d = Delivering" "wd_delivered_at d = None"
    using claim_unsettled [OF ok False] unfolding k_def by blast
  show ?thesis
  proof (cases "deliver w e event")
    case (Inl c)
    with one [symmetric] d have "s' = s\<lparr>wh_deliveries := (wh_deliveries s)(k \<mapsto> d)\<rparr> \<and> out = Inl c"
      by (simp add: deliver_one_def)
    moreover have "delivery_state_ok None d" using d by (simp add: delivery_state_ok_def)
    ultimately show ?thesis using Stop [OF False Inl d(2)] by (simp add: k_def)
  next
    case (Inr p)
    obtain sent r where p: "p = (sent, r)" by (cases p)
    have resp: "dr_delivered r \<Longrightarrow> dr_response r \<noteq> None" using deliver_result_ok [OF Inr [unfolded p]] by blast
    let ?s2 = "s\<lparr>wh_deliveries := (wh_deliveries s)(k \<mapsto> d), wh_sent := wh_sent s @ sent_list sent\<rparr>"
    obtain d' a where r: "record_result w fin (we_id e) (ev_id event) r ?s2 =
        Inr (?s2\<lparr>wh_deliveries := (wh_deliveries ?s2)(k \<mapsto> d'), wh_audit := a\<rparr>)"
      "wd_status d' = final_status fin r" "delivery_state_ok None d'"
      using record_outcome [of ?s2 "we_id e" "ev_id event" d r w fin] d(2,3) resp by (auto simp: k_def)
    have "(s', out) = (?s2\<lparr>wh_deliveries := (wh_deliveries ?s2)(k \<mapsto> d'), wh_audit := a\<rparr>, Inr (\<not> dr_delivered r \<and> \<not> fin))"
      using one [symmetric] r(1) by (simp add: deliver_one_def d(1) Inr p sent_list_def)
    then have "s' = s\<lparr>wh_deliveries := (wh_deliveries s)(k \<mapsto> d'), wh_audit := a, wh_sent := wh_sent s @ sent_list sent\<rparr>"
      "out = Inr (\<not> dr_delivered r \<and> \<not> fin)" by simp_all
    then show ?thesis using Attempt [OF False Inr [unfolded p] r(2,3)] by (simp add: k_def)
  qed
qed

section \<open>Invariants of the loop\<close>

definition request_key :: "sent_request \<Rightarrow> string \<times> string" where
  "request_key r = (sr_endpoint r, sr_event r)"

definition accepted :: "sent_request \<Rightarrow> bool" where
  "accepted r \<longleftrightarrow> (case sr_answer r of None \<Rightarrow> False | Some a \<Rightarrow> 200 \<le> ha_status a \<and> ha_status a < 300)"

text \<open>After an accepted request for an endpoint and event there is no further one.\<close>

fun quiet_after :: "sent_request list \<Rightarrow> bool" where
  "quiet_after [] = True"
| "quiet_after (q # qs) = ((accepted q \<longrightarrow> list_all (\<lambda>q'. request_key q' \<noteq> request_key q) qs) \<and> quiet_after qs)"

lemma quiet_after_snoc:
  "quiet_after (qs @ [q]) \<longleftrightarrow> quiet_after qs \<and> (\<forall>x\<in>set qs. accepted x \<longrightarrow> request_key x \<noteq> request_key q)"
  by (induction qs) auto

definition sends_sound :: "webhook_state \<Rightarrow> bool" where
  "sends_sound s \<longleftrightarrow> rows_ok s \<and> quiet_after (wh_sent s) \<and>
     (\<forall>r\<in>set (wh_sent s). accepted r \<longrightarrow> status_of s (request_key r) = Some Delivered)"

lemma deliver_SomeD:
  assumes "deliver w e event = Inr (Some q, r)"
  obtains url c secret t m where "guarded_url w (we_url e) = Inr url" "we_secret e = Some c" "ww_decrypt w c = Inr secret"
    "signWebhook (ww_hmac w) (event_envelope event t) secret (int_str (ww_now w div 1000)) = Inr m"
    "sr_endpoint q = we_id e" "sr_event q = ev_id event" "rq_url (sr_request q) = url" "rq_message (sr_request q) = m"
    "r = answer_result w (sr_answer q)"
proof (cases "guarded_url w (we_url e)")
  case url: (Inr url)
  show ?thesis
  proof (cases "we_secret e")
    case None
    with assms url show ?thesis by (simp add: deliver_def permanent_def)
  next
    case c: (Some c)
    obtain secret t m where "ww_decrypt w c = Inr secret" "Option.bind (ev_occurred event) to_iso = Some t"
      "mapErr json_cause (signWebhook (ww_hmac w) (event_envelope event t) secret (int_str (ww_now w div 1000))) = Inr m"
      using assms url c
      by (cases "Option.bind (ev_occurred event) to_iso") (auto simp: deliver_def bindR_Inr_iff simp del: mapErr_Inr_iff)
    with assms url c show ?thesis by (intro that [of url c secret t m]) (auto simp: deliver_def Let_def)
  qed
qed (use assms in \<open>simp add: deliver_def\<close>)

lemma answer_accepted: "dr_delivered (answer_result w (sr_answer q)) \<longleftrightarrow> accepted q"
  by (cases "sr_answer q") (auto simp: answer_result_def accepted_def Let_def)

lemma deliver_sent:
  assumes "deliver w e event = Inr (Some q, r)"
  shows "request_key q = (we_id e, ev_id event)" "accepted q \<longleftrightarrow> dr_delivered r"
  using assms by (auto simp: request_key_def answer_accepted elim!: deliver_SomeD)

lemma settled_other:
  "settled s k \<Longrightarrow> \<not> settled s k' \<Longrightarrow> wh_deliveries s' = (wh_deliveries s)(k' \<mapsto> d) \<Longrightarrow> settled s' k"
  by (cases "k = k'") (simp_all add: settled_def status_of_def)

lemma turn_tables:
  assumes "turn w fin event e s out s'"
  shows "wh_endpoints s' = wh_endpoints s" "wh_events s' = wh_events s"
    "k \<noteq> (we_id e, ev_id event) \<Longrightarrow> wh_deliveries s' k = wh_deliveries s k"
    "settled s k \<Longrightarrow> settled s' k" "rows_ok s \<Longrightarrow> rows_ok s'"
proof -
  have "wh_endpoints s' = wh_endpoints s \<and> wh_events s' = wh_events s \<and>
      (s' = s \<or> (\<not> settled s (we_id e, ev_id event) \<and>
        (\<exists>d. delivery_state_ok None d \<and> wh_deliveries s' = (wh_deliveries s)((we_id e, ev_id event) \<mapsto> d))))"
    using assms
  proof cases
    case (Stop c d)
    then have "wh_deliveries s' = (wh_deliveries s)((we_id e, ev_id event) \<mapsto> d)" by simp
    with Stop show ?thesis by auto
  next
    case (Attempt sent r d a)
    then have "wh_deliveries s' = (wh_deliveries s)((we_id e, ev_id event) \<mapsto> d)" by simp
    with Attempt show ?thesis by auto
  qed simp
  then have same: "wh_endpoints s' = wh_endpoints s" "wh_events s' = wh_events s"
    and change: "s' = s \<or> (\<not> settled s (we_id e, ev_id event) \<and>
        (\<exists>d. delivery_state_ok None d \<and> wh_deliveries s' = (wh_deliveries s)((we_id e, ev_id event) \<mapsto> d)))"
    by blast+
  show "wh_endpoints s' = wh_endpoints s" "wh_events s' = wh_events s" by (rule same)+
  show "wh_deliveries s' k = wh_deliveries s k" if "k \<noteq> (we_id e, ev_id event)"
    using change that by auto
  show "settled s' k" if "settled s k"
    using change that settled_other [OF that] by blast
  show "rows_ok s'" if "rows_ok s"
    using change that rows_ok_update [OF that] by blast
qed

lemma turn_sound:
  assumes "turn w fin event e s out s'" "sends_sound s"
  shows "sends_sound s'"
  using assms(1)
proof cases
  case Skip
  then show ?thesis using assms(2) by simp
next
  case (Stop c d)
  then have "status_of s' k = status_of s k" if "status_of s k = Some Delivered" for k
    using that by (auto simp: status_of_def settled_def)
  then show ?thesis using Stop assms(2) turn_tables(5) [OF assms(1)] by (simp add: sends_sound_def)
next
  case (Attempt sent r d a)
  let ?k = "(we_id e, ev_id event)"
  have old: "request_key q \<noteq> ?k" if "q \<in> set (wh_sent s)" "accepted q" for q
    using that Attempt(3) assms(2) by (auto simp: sends_sound_def settled_def)
  have rows: "rows_ok s'" using turn_tables(5) [OF assms(1)] assms(2) by (simp add: sends_sound_def)
  have kept: "status_of s' k = status_of s k" if "k \<noteq> ?k" for k
    using that Attempt(2) by (simp add: status_of_def)
  have sent: "wh_sent s' = wh_sent s @ sent_list sent" using Attempt(2) by simp
  have before: "quiet_after (wh_sent s)"
    "status_of s' (request_key q) = Some Delivered" if "q \<in> set (wh_sent s)" "accepted q" for q
    using assms(2) that kept [OF old [OF that]] by (simp_all add: sends_sound_def)
  show ?thesis
  proof (cases sent)
    case None
    then show ?thesis using rows before assms(2) by (auto simp: sends_sound_def sent sent_list_def)
  next
    case (Some q)
    note q = deliver_sent [OF Attempt(4) [unfolded Some]]
    have "accepted q \<Longrightarrow> status_of s' ?k = Some Delivered"
      using q(2) Attempt(2,5) by (simp add: status_of_def final_status_def)
    then show ?thesis
      using rows before old assms(2) q(1)
      by (auto simp: sends_sound_def sent sent_list_def quiet_after_snoc Some)
  qed
qed

section \<open>The whole loop\<close>

lemma deliver_all_keeps:
  assumes "\<And>s out s' e. e \<in> set es \<Longrightarrow> turn w fin event e s out s' \<Longrightarrow> P s \<Longrightarrow> P s'"
    and "rows_ok s" "P s" "deliver_all w fin n event es m s = (s', out)"
  shows "P s' \<and> rows_ok s'"
  using assms
proof (induction es arbitrary: m s)
  case (Cons e es)
  obtain s1 o1 where one: "deliver_one w fin n event e s = (s1, o1)" by (cases "deliver_one w fin n event e s")
  have t: "turn w fin event e s o1 s1" using deliver_one_turn [OF Cons.prems(2) one] .
  have ok: "rows_ok s1" "P s1" using turn_tables(5) [OF t Cons.prems(2)] Cons.prems(1) [OF _ t Cons.prems(3)] by simp_all
  show ?case
  proof (cases o1)
    case (Inl c)
    then show ?thesis using ok one Cons.prems(4) by simp
  next
    case (Inr b)
    then have rest: "deliver_all w fin n event es (if b then Suc m else m) s1 = (s', out)"
      using Cons.prems(4) one by simp
    show ?thesis by (rule Cons.IH [OF _ ok rest]) (rule Cons.prems(1), simp_all)
  qed
qed simp

lemma deliver_all_sound: "sends_sound s \<Longrightarrow> deliver_all w fin n event es m s = (s', out) \<Longrightarrow> sends_sound s'"
  using deliver_all_keeps [of es w fin event sends_sound s n m s' out] turn_sound by (auto simp: sends_sound_def)

lemma deliver_all_tables:
  assumes "rows_ok s" "deliver_all w fin n event es m s = (s', out)"
  shows "wh_endpoints s' = wh_endpoints s" "wh_events s' = wh_events s" "rows_ok s'"
    "settled s k \<Longrightarrow> settled s' k" "k \<notin> (\<lambda>e. (we_id e, ev_id event)) ` set es \<Longrightarrow> wh_deliveries s' k = wh_deliveries s k"
proof -
  note keeps = deliver_all_keeps [OF _ assms(1) _ assms(2)]
  show "wh_endpoints s' = wh_endpoints s" "rows_ok s'"
    using keeps [of "\<lambda>t. wh_endpoints t = wh_endpoints s"] by (simp_all add: turn_tables(1))
  show "wh_events s' = wh_events s"
    using keeps [of "\<lambda>t. wh_events t = wh_events s"] by (simp add: turn_tables(2))
  show "settled s' k" if "settled s k"
    using keeps [of "\<lambda>t. settled t k"] that by (simp add: turn_tables(4))
  show "wh_deliveries s' k = wh_deliveries s k" if "k \<notin> (\<lambda>e. (we_id e, ev_id event)) ` set es"
  proof -
    have "wh_deliveries t' k = wh_deliveries t k" if "e \<in> set es" "turn w fin event e t o1 t'" for e t o1 t'
      using turn_tables(3) [OF that(2)] that(1) \<open>k \<notin> _\<close> by blast
    then show ?thesis using keeps [of "\<lambda>t. wh_deliveries t k = wh_deliveries s k"] by simp
  qed
qed

text \<open>When nothing throws, the loop counts exactly the endpoints whose delivery is not settled.\<close>

lemma turn_outcome:
  assumes "turn w fin event e s out s'" "is_ok (deliver w e event)"
  shows "out = Inr (\<not> settled s' (we_id e, ev_id event)) \<and> (fin \<longrightarrow> settled s' (we_id e, ev_id event))"
  using assms by cases (auto simp: is_ok_iff settled_def status_of_def final_status_def)

lemma deliver_all_outcome:
  assumes "rows_ok s" "distinct (map we_id es)" "\<forall>e\<in>set es. is_ok (deliver w e event)"
    and "deliver_all w fin n event es m s = (s', out)"
  shows "out = Inr (m + length (filter (\<lambda>e. \<not> settled s' (we_id e, ev_id event)) es)) \<and>
    (fin \<longrightarrow> (\<forall>e\<in>set es. settled s' (we_id e, ev_id event)))"
  using assms
proof (induction es arbitrary: m s)
  case (Cons e es)
  let ?k = "(we_id e, ev_id event)"
  obtain s1 o1 where one: "deliver_one w fin n event e s = (s1, o1)" by (cases "deliver_one w fin n event e s")
  have t: "turn w fin event e s o1 s1" using deliver_one_turn [OF Cons.prems(1) one] .
  have o1: "o1 = Inr (\<not> settled s1 ?k)" "fin \<longrightarrow> settled s1 ?k" using turn_outcome [OF t] Cons.prems(3) by simp_all
  have ok: "rows_ok s1" using turn_tables(5) [OF t Cons.prems(1)] .
  have rest: "deliver_all w fin n event es (if \<not> settled s1 ?k then Suc m else m) s1 = (s', out)"
    using Cons.prems(4) one o1 by simp
  have "?k \<notin> (\<lambda>e. (we_id e, ev_id event)) ` set es" using Cons.prems(2) by auto
  then have "settled s' ?k \<longleftrightarrow> settled s1 ?k"
    using deliver_all_tables(5) [OF ok rest, of ?k] by (simp add: settled_def status_of_def)
  with Cons.IH [OF ok _ _ rest] Cons.prems(2,3) o1(2) show ?case by auto
qed simp

section \<open>The handler\<close>

definition event_row :: "durable_job \<Rightarrow> webhook_state \<Rightarrow> outbox_event option" where
  "event_row job s =
     (case uuidPayload (job_payload job) of Inl _ \<Rightarrow> None
      | Inr i \<Rightarrow> find (\<lambda>e. ev_id e = js_lower i) (wh_events s))"

lemma markPublished_fields [simp]:
  "wh_endpoints (markPublished now ev s) = wh_endpoints s" "wh_deliveries (markPublished now ev s) = wh_deliveries s"
  "wh_sent (markPublished now ev s) = wh_sent s"
  by (simp_all add: markPublished_def)

lemma markPublished_keeps [simp]:
  "settled (markPublished now ev s) k = settled s k" "rows_ok (markPublished now ev s) = rows_ok s"
  "sends_sound (markPublished now ev s) = sends_sound s"
  by (simp_all add: settled_def rows_ok_def sends_sound_def status_of_def)

lemma handler_none: "event_row job s = None \<Longrightarrow> \<exists>c. handleWebhookDeliver w job s = (s, Inl c)"
  by (auto simp: event_row_def handleWebhookDeliver_def permanent_def split: sum.splits option.splits)

lemma handler_some:
  assumes "event_row job s = Some event"
  shows "handleWebhookDeliver w job s =
    (let endpoints = load_endpoints event s
     in if endpoints = [] then (markPublished (ww_now w) (ev_id event) s, Inr ())
        else case deliver_all w (job_attempts job \<ge> job_maximum job) (job_attempts job) event endpoints 0 s of
          (s', Inl c) \<Rightarrow> (s', Inl c)
        | (s', Inr outstanding) \<Rightarrow>
            (if outstanding > 0 then (s', throw (''WEBHOOK_DELIVERY_INCOMPLETE_'' @ nat_str outstanding))
             else (markPublished (ww_now w) (ev_id event) s', Inr ())))"
  using assms by (auto simp: event_row_def handleWebhookDeliver_def split: sum.splits)

lemma handler_cases:
  assumes "handleWebhookDeliver w job s = (s', out)"
  obtains (same) "s' = s"
  | (loop) event t o1 where "event_row job s = Some event"
      "deliver_all w (job_attempts job \<ge> job_maximum job) (job_attempts job) event (load_endpoints event s) 0 s = (t, o1)"
      "s' = t \<or> s' = markPublished (ww_now w) (ev_id event) t"
proof (cases "event_row job s")
  case None
  then show ?thesis using handler_none [OF None, of w] assms same by auto
next
  case (Some event)
  obtain t o1 where t: "deliver_all w (job_attempts job \<ge> job_maximum job) (job_attempts job) event (load_endpoints event s) 0 s = (t, o1)"
    by fastforce
  have "s' = t \<or> s' = markPublished (ww_now w) (ev_id event) t"
    using assms t unfolding handler_some [OF Some]
    by (cases "load_endpoints event s = []"; cases o1) (auto split: if_splits)
  with Some t show ?thesis by (rule loop)
qed

fun run_deliveries :: "(webhook_world \<times> durable_job) list \<Rightarrow> webhook_state \<Rightarrow> webhook_state" where
  "run_deliveries [] s = s"
| "run_deliveries ((w, job) # runs) s = run_deliveries runs (fst (handleWebhookDeliver w job s))"

lemma handler_sound:
  assumes "sends_sound s" "handleWebhookDeliver w job s = (s', out)"
  shows "sends_sound s'"
  using assms(2)
proof (cases rule: handler_cases)
  case (loop event t o1)
  then show ?thesis using deliver_all_sound [OF assms(1) loop(2)] by auto
qed (use assms(1) in simp)

lemma runs_sound: "sends_sound s \<Longrightarrow> sends_sound (run_deliveries runs s)"
  by (induction runs s rule: run_deliveries.induct) (simp_all add: handler_sound [OF _ surjective_pairing])

section \<open>A sample tenant\<close>

definition sample_url :: url_parts where
  "sample_url = \<lparr>url_protocol = ''https:'', url_username = [], url_password = [], url_hostname = ''a.se'',
     url_port = [], url_pathname = ''/k'', url_search = [], url_hash = []\<rparr>"

definition sample_world :: "int \<Rightarrow> webhook_world" where
  "sample_world status = \<lparr>ww_parse_url = (\<lambda>_. Some sample_url), ww_set_hostname = (\<lambda>_ u. u), ww_href = url_hostname,
     ww_hmac = sample_hmac, ww_sha256 = (\<lambda>_. replicate 32 0), ww_resolve = (\<lambda>_. Inr [''8.8.4.4'']),
     ww_decrypt = (\<lambda>_. Inr ''s''), ww_http = (\<lambda>_. Some \<lparr>ha_status = status, ha_body = None\<rparr>), ww_now = 1700000000000\<rparr>"

definition sample_endpoint :: webhook_endpoint where
  "sample_endpoint = \<lparr>we_id = ''p'', we_url = ''u'', we_active = True, we_secret = Some [1], we_events = [''t''], we_created = 1\<rparr>"

definition sample_uuid :: string where
  "sample_uuid = ''00000000-0000-4000-8000-000000000000''"

definition sample_event :: outbox_event where
  "sample_event = \<lparr>ev_id = sample_uuid, ev_aggregate_type = ''c'', ev_aggregate_id = ''i'', ev_type = ''t'',
     ev_payload = JObj [], ev_payload_sha = ''h'', ev_occurred = Some 0, ev_published = None\<rparr>"

definition sample_state :: webhook_state where
  "sample_state = \<lparr>wh_events = [sample_event], wh_endpoints = [sample_endpoint], wh_deliveries = (\<lambda>_. None),
     wh_audit = [], wh_sent = []\<rparr>"

definition sample_job :: "int \<Rightarrow> durable_job" where
  "sample_job attempts = \<lparr>job_id = ''j'', job_tenant = ''t'', job_type = WEBHOOK_DELIVER,
     job_payload = JObj [(''outboxEventId'', Some (JStr sample_uuid))], job_key = ''k'', job_available = [],
     job_attempts = attempts, job_maximum = 10\<rparr>"

lemma sample_uuid_ok: "is_versioned_uuid sample_uuid" "js_lower sample_uuid = sample_uuid"
  by (simp_all add: is_versioned_uuid_def sample_uuid_def js_lower_def lower_char_def is_lower_hex_def is_digit_def code_def Let_def)

lemma sample_event_row: "event_row (sample_job n) sample_state = Some sample_event"
  by (simp add: event_row_def uuidPayload_def sample_job_def sample_uuid_ok sample_state_def sample_event_def)

lemma sample_load: "load_endpoints sample_event sample_state = [sample_endpoint]"
  by (simp add: load_endpoints_def sample_state_def subscribed_def sample_endpoint_def sample_event_def)

lemma sample_guard: "guarded_url (sample_world status) u = Inr sample_url"
proof -
  have "parseIpv4 ''a.se'' = None" by (simp add: parseIpv4_def)
  moreover have "js_lower ''a.se'' = ''a.se''" by (simp add: js_lower_def lower_char_def code_def)
  ultimately have "assertSafeWebhookUrl (\<lambda>_. Some sample_url) (\<lambda>_ u. u) url_hostname u = Inr sample_url"
    by (simp add: assertSafeWebhookUrl_def sample_url_def drop_final_dot_def isForbiddenIpLiteral_def ends_with_def
      starts_with_def Let_def)
  then show ?thesis by (simp add: guarded_url_def sample_world_def public_answer)
qed

lemma sample_deliver:
  "\<exists>q. deliver (sample_world status) sample_endpoint sample_event =
    Inr (Some q, answer_result (sample_world status) (Some \<lparr>ha_status = status, ha_body = None\<rparr>)) \<and>
    sr_answer q = Some \<lparr>ha_status = status, ha_body = None\<rparr>"
proof -
  have "\<exists>t. to_iso 0 = Some t"
    unfolding to_iso_def valid_time_def max_time_def Let_def by (cases "date_of_day (0 div ms_per_day)") simp
  then obtain t where t: "to_iso 0 = Some t" by blast
  have "\<exists>m. canonicalJson (event_envelope sample_event t) = Inr m"
    by (simp add: canonicalJson_def event_envelope_def sample_event_def)
  then obtain b where b: "canonicalJson (event_envelope sample_event t) = Inr b" by blast
  have "\<exists>m. mapErr json_cause (signWebhook sample_hmac (event_envelope sample_event t) ''s'' ts) = Inr m" for ts
    by (simp add: signWebhook_def b)
  then obtain m where m: "mapErr json_cause (signWebhook sample_hmac (event_envelope sample_event t) ''s'' ts) = Inr (m ts)" for ts
    by metis
  have o: "Option.bind (ev_occurred sample_event) to_iso = Some t" by (simp add: sample_event_def t)
  have w: "ww_hmac (sample_world status) = sample_hmac" "ww_decrypt (sample_world status) c = Inr ''s''"
    "ww_http (sample_world status) r = Some \<lparr>ha_status = status, ha_body = None\<rparr>" for c r
    by (simp_all add: sample_world_def)
  have "we_secret sample_endpoint = Some [1]" by (simp add: sample_endpoint_def)
  then show ?thesis by (simp add: deliver_def sample_guard o w m Let_def)
qed


lemma set_load [simp]: "set (load_endpoints event s) = {e \<in> set (wh_endpoints s). subscribed event e}"
  by (auto simp: load_endpoints_def)

lemma distinct_load: "distinct (map we_id (wh_endpoints s)) \<Longrightarrow> distinct (map we_id (load_endpoints event s))"
  by (simp add: load_endpoints_def distinct_map inj_on_def)

definition published :: "string \<Rightarrow> webhook_state \<Rightarrow> bool" where
  "published eventId s \<longleftrightarrow> list_all (\<lambda>e. ev_id e = eventId \<longrightarrow> ev_published e \<noteq> None) (wh_events s)"

lemma published_mark: "\<not> has_live_delivery ev s \<Longrightarrow> published ev (markPublished now ev s)"
  by (simp add: published_def markPublished_def list.pred_map comp_def) (simp add: list.pred_True)

lemma mark_live: "has_live_delivery ev s \<Longrightarrow> markPublished now ev s = s"
  by (simp add: markPublished_def)

lemma settled_not_live: "settled s (e, ev) \<Longrightarrow> wh_deliveries s (e, ev) = Some d \<Longrightarrow> \<not> live_status (wd_status d)"
  by (auto simp: settled_def status_of_def live_status_def)

lemma sample_answer:
  "dr_delivered (answer_result w (Some \<lparr>ha_status = st, ha_body = None\<rparr>)) \<longleftrightarrow> 200 \<le> st \<and> st < 300"
  by (simp add: answer_result_def Let_def)

lemma sample_loop:
  "\<exists>q t b. deliver_all (sample_world st) fin n sample_event [sample_endpoint] m sample_state =
      (t, Inr (if 200 \<le> st \<and> st < 300 \<or> fin then m else Suc m)) \<and>
    wh_sent t = [q] \<and> sr_answer q = Some \<lparr>ha_status = st, ha_body = None\<rparr>"
proof -
  obtain q where q: "deliver (sample_world st) sample_endpoint sample_event =
      Inr (Some q, answer_result (sample_world st) (Some \<lparr>ha_status = st, ha_body = None\<rparr>))"
    "sr_answer q = Some \<lparr>ha_status = st, ha_body = None\<rparr>"
    using sample_deliver by blast
  have ok: "rows_ok sample_state" by (simp add: rows_ok_def sample_state_def)
  have new: "\<not> settled sample_state k" for k by (simp add: settled_def status_of_def sample_state_def)
  obtain t o1 where one: "deliver_one (sample_world st) fin n sample_event sample_endpoint sample_state = (t, o1)"
    by fastforce
  from deliver_one_turn [OF ok one] have "o1 = Inr (\<not> (200 \<le> st \<and> st < 300) \<and> \<not> fin) \<and> wh_sent t = [q]"
    by cases (use new q(1) sample_answer in \<open>auto simp: sample_state_def sent_list_def\<close>)
  with one q(2) show ?thesis by auto
qed




text \<open>
  A secret that cannot be decrypted stops the handler for all endpoints: nothing is sent to this
  endpoint or the ones after it, its row stays in the state delivering and the event stays
  unpublished, on the last attempt as on every other.
\<close>

theorem broken_secret_blocks_endpoints:
  assumes "\<forall>k d. wh_deliveries s k = Some d \<longrightarrow> delivery_state_ok None d"
    and "event_row job s = Some event" "load_endpoints event s = e # es" "\<not> settled s (we_id e, ev_id event)"
    and "guarded_url w (we_url e) = Inr url" "we_secret e = Some c" "ww_decrypt w c = Inl err"
    and "handleWebhookDeliver w job s = (s', out)"
  shows "out = Inl err \<and> wh_sent s' = wh_sent s \<and> wh_events s' = wh_events s \<and>
    status_of s' (we_id e, ev_id event) = Some Delivering"
proof -
  have d: "deliver w e event = Inl err" using assms(5-7) by (simp add: deliver_def)
  obtain s1 o1 where one: "deliver_one w (job_attempts job \<ge> job_maximum job) (job_attempts job) event e s = (s1, o1)"
    by fastforce
  have "rows_ok s" using assms(1) by (simp add: rows_ok_def)
  from deliver_one_turn [OF this one] have "o1 = Inl err \<and> wh_sent s1 = wh_sent s \<and> wh_events s1 = wh_events s \<and>
      status_of s1 (we_id e, ev_id event) = Some Delivering"
    by cases (use assms(4) d in \<open>simp_all add: status_of_def\<close>)
  then show ?thesis using assms(8) one unfolding handler_some [OF assms(2)] by (simp add: assms(3))
qed

lemma broken_secret_blocks_endpoints_witness:
  "snd (handleWebhookDeliver ((sample_world 200)\<lparr>ww_decrypt := \<lambda>_. throw ''DECRYPTION_FAILED''\<rparr>) (sample_job 10) sample_state)
    = throw ''DECRYPTION_FAILED''"
proof -
  let ?w = "(sample_world 200)\<lparr>ww_decrypt := \<lambda>_. throw ''DECRYPTION_FAILED''\<rparr>"
  obtain s' out where run: "handleWebhookDeliver ?w (sample_job 10) sample_state = (s', out)" by fastforce
  have g: "guarded_url ?w (we_url sample_endpoint) = Inr sample_url"
    using sample_guard [of 200] by (simp add: guarded_url_def)
  have "out = Inl (JsError ''Error'' ''DECRYPTION_FAILED'') \<and> wh_sent s' = wh_sent sample_state \<and>
      wh_events s' = wh_events sample_state \<and> status_of s' (we_id sample_endpoint, ev_id sample_event) = Some Delivering"
    by (rule broken_secret_blocks_endpoints [OF _ sample_event_row sample_load _ g _ _ run])
       (simp_all add: sample_state_def settled_def status_of_def sample_endpoint_def throw_def)
  then have "out = throw ''DECRYPTION_FAILED''" by (simp add: throw_def)
  then show ?thesis unfolding run by simp
qed

text \<open>
  The live delivery of an endpoint that no longer subscribes keeps the event unpublished although
  the handler succeeds, and no job is left that would come back to it.
\<close>

theorem unsubscribed_row_blocks_publication:
  assumes "\<forall>k d. wh_deliveries s k = Some d \<longrightarrow> delivery_state_ok None d"
    and "distinct (map we_id (wh_endpoints s))" "event_row job s = Some event"
    and "e \<in> set (wh_endpoints s)" "\<not> subscribed event e"
    and "wh_deliveries s (we_id e, ev_id event) = Some d" "live_status (wd_status d)"
    and "handleWebhookDeliver w job s = (s', Inr ())"
  shows "wh_events s' = wh_events s"
proof -
  have ok: "rows_ok s" using assms(1) by (simp add: rows_ok_def)
  from assms(8) show ?thesis
  proof (cases rule: handler_cases)
    case (loop event' t o1)
    note tables = deliver_all_tables [OF ok loop(2)]
    have ev: "event' = event" using loop(1) assms(3) by simp
    have "e' = e" if "e' \<in> set (wh_endpoints s)" "we_id e' = we_id e" for e'
      using assms(2,4) that by (auto simp: distinct_map dest: inj_onD)
    then have "(we_id e, ev_id event) \<notin> (\<lambda>e. (we_id e, ev_id event)) ` set (load_endpoints event s)"
      using assms(5) by auto
    then have "wh_deliveries t (we_id e, ev_id event) = Some d" using tables(5) assms(6) ev by simp
    then have "has_live_delivery (ev_id event) t"
      using assms(4,7) tables(1) by (auto simp: has_live_delivery_def list_ex_iff intro!: bexI [of _ e])
    then show ?thesis using loop(3) tables(2) ev by (auto simp: mark_live)
  qed simp
qed

lemma unsubscribed_row_blocks_publication_witness:
  "wh_events (fst (handleWebhookDeliver (sample_world 200) (sample_job 2)
     (sample_state\<lparr>wh_endpoints := [sample_endpoint\<lparr>we_active := False\<rparr>],
        wh_deliveries := (\<lambda>_. Some \<lparr>wd_status = Delivery_failed, wd_attempt = 1, wd_next_attempt = 0, wd_response = Some 500,
          wd_body_sha = None, wd_delivered_at = None\<rparr>)\<rparr>))) = [sample_event]"
proof -
  let ?d = "\<lparr>wd_status = Delivery_failed, wd_attempt = 1, wd_next_attempt = 0, wd_response = Some 500,
    wd_body_sha = None, wd_delivered_at = None\<rparr>"
  let ?e = "sample_endpoint\<lparr>we_active := False\<rparr>"
  let ?s = "sample_state\<lparr>wh_endpoints := [?e], wh_deliveries := (\<lambda>_. Some ?d)\<rparr>"
  have row: "event_row (sample_job 2) ?s = Some sample_event"
    using sample_event_row [of 2] by (simp add: event_row_def split: sum.splits)
  have "load_endpoints sample_event ?s = []" by (simp add: load_endpoints_def subscribed_def)
  then obtain s' where run: "handleWebhookDeliver (sample_world 200) (sample_job 2) ?s = (s', Inr ())"
    unfolding handler_some [OF row] by simp
  have "wh_events s' = wh_events ?s"
    by (rule unsubscribed_row_blocks_publication [OF _ _ row _ _ _ _ run, of ?e ?d])
       (simp_all add: delivery_state_ok_def subscribed_def live_status_def)
  then show ?thesis unfolding run by (simp add: sample_state_def)
qed

text \<open>
  Every request the handler sends goes to the guarded URL of an active, subscribed endpoint, after
  addresses none of which is forbidden were resolved for its host, and carries a message which a
  receiver that holds the endpoint's secret accepts within 300 seconds.
\<close>

theorem webhook_requests_guarded:
  assumes rows: "\<forall>k d. wh_deliveries s k = Some d \<longrightarrow> delivery_state_ok None d"
    and hmac: "\<And>k m. length (ww_hmac w k m) = 32" and now: "0 \<le> ww_now w" "ww_now w \<le> max_time"
    and run: "handleWebhookDeliver w job s = (s', out)"
    and q: "q \<in> set (drop (length (wh_sent s)) (wh_sent s'))"
  shows "\<exists>event e c secret addresses. event_row job s = Some event \<and> e \<in> set (wh_endpoints s) \<and> subscribed event e \<and>
    sr_endpoint q = we_id e \<and> sr_event q = ev_id event \<and>
    assertSafeWebhookUrl (ww_parse_url w) (ww_set_hostname w) (ww_href w) (we_url e) = Inr (rq_url (sr_request q)) \<and>
    ww_resolve w (url_hostname (rq_url (sr_request q))) = Inr addresses \<and>
    addresses \<noteq> [] \<and> list_all (\<lambda>a. \<not> isForbiddenIpLiteral (js_lower a)) addresses \<and>
    we_secret e = Some c \<and> ww_decrypt w c = Inr secret \<and>
    verifyWebhook (ww_hmac w) (rq_message (sr_request q)) secret (ww_now w div 1000 + 300) 300"
  using run
proof (cases rule: handler_cases)
  case same
  then show ?thesis using q by simp
next
  case (loop event t o1)
  have ok: "rows_ok s" using rows by (simp add: rows_ok_def)
  let ?from = "\<lambda>q. \<exists>e\<in>set (load_endpoints event s). \<exists>r. deliver w e event = Inr (Some q, r)"
  let ?P = "\<lambda>t. \<exists>qs. wh_sent t = wh_sent s @ qs \<and> list_all ?from qs"
  have step: "?P t \<Longrightarrow> ?P t'" if e: "e \<in> set (load_endpoints event s)"
    and turn: "turn w (job_attempts job \<ge> job_maximum job) event e t o1 t'" for e t o1 t'
  proof -
    assume P: "?P t"
    show ?thesis using turn
    proof cases
      case (Attempt sent r d a)
      obtain qs where qs: "wh_sent t = wh_sent s @ qs" "list_all ?from qs" using P by blast
      have "list_all ?from (qs @ sent_list sent)"
        using qs(2) Attempt(4) e by (auto simp: sent_list_def split: option.splits)
      moreover have "wh_sent t' = wh_sent s @ (qs @ sent_list sent)" using Attempt(2) qs(1) by simp
      ultimately show ?thesis by blast
    qed (use P in simp_all)
  qed
  have "?P t \<and> rows_ok t" by (rule deliver_all_keeps [where P = ?P, OF step ok _ loop(2)]) simp_all
  then obtain qs where qs: "wh_sent t = wh_sent s @ qs" "list_all ?from qs"
    by auto
  have "wh_sent s' = wh_sent t" using loop(3) by auto
  then obtain e r where e: "e \<in> set (wh_endpoints s)" "subscribed event e" and d: "deliver w e event = Inr (Some q, r)"
    using q qs by (auto simp: list_all_iff)
  from d show ?thesis
  proof (rule deliver_SomeD)
    fix url c secret ts m
    assume a: "guarded_url w (we_url e) = Inr url" "we_secret e = Some c" "ww_decrypt w c = Inr secret"
      "signWebhook (ww_hmac w) (event_envelope event ts) secret (int_str (ww_now w div 1000)) = Inr m"
      "sr_endpoint q = we_id e" "sr_event q = ev_id event" "rq_url (sr_request q) = url" "rq_message (sr_request q) = m"
    have small: "0 \<le> ww_now w div 1000" "ww_now w div 1000 \<le> 8640000000000"
      using now zdiv_mono1 [OF now(2), of 1000] by (simp_all add: max_time_def)
    have num: "js_number (int_str (ww_now w div 1000)) = NInt (ww_now w div 1000)"
      using small by (intro js_number_int_str) (simp_all add: max_safe_integer_def)
    have "sw_timestamp m = int_str (ww_now w div 1000)" using a(4) by (auto simp: signWebhook_def bindR_Inr_iff)
    then have "verifyWebhook (ww_hmac w) m secret (ww_now w div 1000 + 300) 300"
      using verify_signed [OF hmac a(4)] small
      by (simp add: verifyWebhook_def num Let_def js_add_exact max_safe_integer_def)
    moreover obtain as where "ww_resolve w (url_hostname url) = Inr as" "assertResolvedWebhookAddresses as = Inr ()"
      "assertSafeWebhookUrl (ww_parse_url w) (ww_set_hostname w) (ww_href w) (we_url e) = Inr url"
      using a(1) by (auto simp: guarded_url_def bindR_Inr_iff)
    ultimately show ?thesis
      using a e loop(1) by (fastforce simp: resolved_addresses_iff list_all_iff)
  qed
qed

lemma webhook_requests_guarded_witness:
  "\<exists>q s' out. handleWebhookDeliver (sample_world 200) (sample_job 1) sample_state = (s', out) \<and> wh_sent s' = [q] \<and>
    assertSafeWebhookUrl (\<lambda>_. Some sample_url) (\<lambda>_ u. u) url_hostname ''u'' = Inr (rq_url (sr_request q))"
proof -
  obtain q t where t: "deliver_all (sample_world 200) False 1 sample_event [sample_endpoint] 0 sample_state = (t, Inr 0)"
    "wh_sent t = [q]"
    using sample_loop [of 200 False 1 0] by auto
  have j: "job_attempts (sample_job 1) = 1" "job_maximum (sample_job 1) = 10" by (simp_all add: sample_job_def)
  obtain s' out where run: "handleWebhookDeliver (sample_world 200) (sample_job 1) sample_state = (s', out)" by fastforce
  have sent: "wh_sent s' = [q]" using t run by (auto simp: handler_some [OF sample_event_row] sample_load j)
  have "\<exists>event e c secret addresses. event_row (sample_job 1) sample_state = Some event \<and> e \<in> set (wh_endpoints sample_state) \<and>
      subscribed event e \<and> sr_endpoint q = we_id e \<and> sr_event q = ev_id event \<and>
      assertSafeWebhookUrl (ww_parse_url (sample_world 200)) (ww_set_hostname (sample_world 200)) (ww_href (sample_world 200))
        (we_url e) = Inr (rq_url (sr_request q)) \<and>
      ww_resolve (sample_world 200) (url_hostname (rq_url (sr_request q))) = Inr addresses \<and>
      addresses \<noteq> [] \<and> list_all (\<lambda>a. \<not> isForbiddenIpLiteral (js_lower a)) addresses \<and>
      we_secret e = Some c \<and> ww_decrypt (sample_world 200) c = Inr secret \<and>
      verifyWebhook (ww_hmac (sample_world 200)) (rq_message (sr_request q)) secret (ww_now (sample_world 200) div 1000 + 300) 300"
    by (rule webhook_requests_guarded [OF _ _ _ _ run])
       (simp_all add: sample_state_def sample_world_def sample_hmac_def max_time_def sent)
  then have "assertSafeWebhookUrl (\<lambda>_. Some sample_url) (\<lambda>_ u. u) url_hostname ''u'' = Inr (rq_url (sr_request q))"
    by (auto simp: sample_state_def sample_world_def sample_endpoint_def)
  with run sent show ?thesis by blast
qed

end
