(* ===== verification/Signing_Tables.thy ===== *)
theory Signing_Tables
  imports Jobs Pades_Gate
begin

text \<open>
  The status columns of the signing tables and the transition triggers that guard them
  (\<open>migrations/data\<close> 0001, 0010, 0013, 0021, 0037), and an SQL update of a table under a trigger:
  one refused row refuses the statement. The locale is the contract of such a table; its lemmas
  say how the rows after a sequence of updates descend from the rows before.
\<close>

section \<open>Statuses\<close>

datatype case_status =
  Case_draft | Case_preparing | Case_ready | Case_sent | Case_in_progress | Case_partially_signed
  | Case_completed | Case_declined | Case_expired | Case_cancelled | Case_failed | Case_archiving
  | Case_archived

datatype signer_status =
  Signer_pending | Signer_invited | Signer_opened | Signer_identity_started
  | Signer_identity_verified | Signer_signing | Signer_signed | Signer_declined | Signer_expired
  | Signer_cancelled | Signer_failed

datatype document_status =
  Doc_uploaded | Doc_quarantined | Doc_scanning | Doc_rejected | Doc_canonicalizing | Doc_ready
  | Doc_locked | Doc_partially_signed | Doc_signed | Doc_validated | Doc_archived

datatype intent_status =
  Intent_prepared | Intent_provider_started | Intent_evidence_collected | Intent_verified
  | Intent_packaged | Intent_cancelled | Intent_expired | Intent_failed

datatype identity_status =
  Identity_pending | Identity_user_action | Identity_collected | Identity_verified
  | Identity_cancelled | Identity_expired | Identity_failed

datatype attempt_status =
  Attempt_prepared | Attempt_identity_verified | Attempt_credential_issued | Attempt_signed
  | Attempt_validated | Attempt_failed | Attempt_cancelled

section \<open>Transition tables\<close>

fun case_moves :: "case_status \<Rightarrow> case_status list" where
  "case_moves Case_draft = [Case_preparing, Case_cancelled]"
| "case_moves Case_preparing = [Case_ready, Case_failed, Case_cancelled]"
| "case_moves Case_ready = [Case_sent, Case_cancelled]"
| "case_moves Case_sent = [Case_in_progress, Case_declined, Case_expired, Case_cancelled, Case_failed]"
| "case_moves Case_in_progress =
     [Case_partially_signed, Case_completed, Case_declined, Case_expired, Case_cancelled, Case_failed]"
| "case_moves Case_partially_signed = [Case_completed, Case_declined, Case_expired, Case_cancelled, Case_failed]"
| "case_moves Case_completed = [Case_archiving]"
| "case_moves Case_declined = [Case_archiving]"
| "case_moves Case_expired = [Case_archiving]"
| "case_moves Case_cancelled = [Case_archiving]"
| "case_moves Case_failed = [Case_archiving]"
| "case_moves Case_archiving = [Case_archived, Case_failed]"
| "case_moves Case_archived = []"

fun signer_moves :: "signer_status \<Rightarrow> signer_status list" where
  "signer_moves Signer_pending = [Signer_invited, Signer_cancelled]"
| "signer_moves Signer_invited =
     [Signer_opened, Signer_identity_started, Signer_declined, Signer_expired, Signer_cancelled, Signer_failed]"
| "signer_moves Signer_opened =
     [Signer_identity_started, Signer_declined, Signer_expired, Signer_cancelled, Signer_failed]"
| "signer_moves Signer_identity_started =
     [Signer_identity_verified, Signer_declined, Signer_expired, Signer_cancelled, Signer_failed]"
| "signer_moves Signer_identity_verified =
     [Signer_signing, Signer_declined, Signer_expired, Signer_cancelled, Signer_failed]"
| "signer_moves Signer_signing =
     [Signer_signed, Signer_declined, Signer_expired, Signer_cancelled, Signer_failed]"
| "signer_moves _ = []"

fun document_moves :: "document_status \<Rightarrow> document_status list" where
  "document_moves Doc_uploaded = [Doc_quarantined, Doc_rejected]"
| "document_moves Doc_quarantined = [Doc_scanning, Doc_rejected]"
| "document_moves Doc_scanning = [Doc_canonicalizing, Doc_rejected]"
| "document_moves Doc_canonicalizing = [Doc_ready, Doc_rejected]"
| "document_moves Doc_ready = [Doc_locked]"
| "document_moves Doc_locked = [Doc_partially_signed, Doc_signed]"
| "document_moves Doc_partially_signed = [Doc_signed]"
| "document_moves Doc_signed = [Doc_validated]"
| "document_moves Doc_validated = [Doc_archived]"
| "document_moves _ = []"

fun intent_moves :: "intent_status \<Rightarrow> intent_status list" where
  "intent_moves Intent_prepared = [Intent_provider_started, Intent_cancelled, Intent_expired, Intent_failed]"
| "intent_moves Intent_provider_started =
     [Intent_evidence_collected, Intent_cancelled, Intent_expired, Intent_failed]"
| "intent_moves Intent_evidence_collected = [Intent_verified, Intent_failed]"
| "intent_moves Intent_verified = [Intent_packaged]"
| "intent_moves _ = []"

fun identity_moves :: "identity_status \<Rightarrow> identity_status list" where
  "identity_moves Identity_pending =
     [Identity_user_action, Identity_collected, Identity_cancelled, Identity_expired, Identity_failed]"
| "identity_moves Identity_user_action =
     [Identity_pending, Identity_collected, Identity_cancelled, Identity_expired, Identity_failed]"
| "identity_moves Identity_collected = [Identity_verified, Identity_failed]"
| "identity_moves _ = []"

fun attempt_moves :: "attempt_status \<Rightarrow> attempt_status list" where
  "attempt_moves Attempt_prepared = [Attempt_identity_verified, Attempt_failed, Attempt_cancelled]"
| "attempt_moves Attempt_identity_verified = [Attempt_credential_issued, Attempt_failed, Attempt_cancelled]"
| "attempt_moves Attempt_credential_issued = [Attempt_signed, Attempt_failed, Attempt_cancelled]"
| "attempt_moves Attempt_signed = [Attempt_validated, Attempt_failed]"
| "attempt_moves _ = []"

text \<open>What a database exception is to the caller, and the check every transition trigger makes.\<close>

definition refused :: "string \<Rightarrow> 'a outcome" where
  "refused msg = Inl (JsError ''PostgresError'' msg)"

definition assert_move :: "('s \<Rightarrow> 's list) \<Rightarrow> string \<Rightarrow> 's \<Rightarrow> 's \<Rightarrow> unit outcome" where
  "assert_move moves msg old new =
     (if new = old \<or> new \<in> set (moves old) then Inr () else refused msg)"

text \<open>Statuses that a client may not write (0009): \<open>signed\<close>, \<open>completed\<close>, \<open>validated\<close>, \<open>archived\<close>.\<close>

datatype actor = Internal_user | External_client | Worker | Trusted_service

definition terminal_guard :: "actor \<Rightarrow> bool \<Rightarrow> unit outcome" where
  "terminal_guard actor terminal =
     (if terminal \<and> actor \<notin> {Worker, Trusted_service}
      then refused ''terminal status requires verified server evidence'' else Inr ())"

section \<open>Updates\<close>

definition update_rows :: "('row \<Rightarrow> 'row \<Rightarrow> unit outcome) \<Rightarrow> ('row \<Rightarrow> bool) \<Rightarrow> ('row \<Rightarrow> 'row) \<Rightarrow> 'row list \<Rightarrow> 'row list outcome" where
  "update_rows trigger p f =
     traverse (\<lambda>r. if p r then bindR (trigger r (f r)) (\<lambda>_. Inr (f r)) else Inr r)"

lemma update_rows_Inr_iff:
  "update_rows trigger p f rows = Inr rows' \<longleftrightarrow>
     (\<forall>r \<in> set rows. p r \<longrightarrow> trigger r (f r) = Inr ()) \<and> rows' = map (\<lambda>r. if p r then f r else r) rows"
  unfolding update_rows_def traverse_Inr_iff
  by (induction rows arbitrary: rows') (auto simp: list_all2_Cons1 bindR_Inr_iff)

lemma update_rows_refused:
  "r \<in> set rows \<Longrightarrow> p r \<Longrightarrow> trigger r (f r) \<noteq> Inr () \<Longrightarrow> \<not> is_ok (update_rows trigger p f rows)"
  by (auto simp: is_ok_iff update_rows_Inr_iff)

text \<open>
  A table whose trigger lets a row keep its status or move along the table, and never change
  its key. Its descendants: the same rows in the same order, each moved along the table.
\<close>

locale guarded_table =
  fixes key :: "'row \<Rightarrow> 'k"
    and status :: "'row \<Rightarrow> 's"
    and moves :: "'s \<Rightarrow> 's list"
    and trigger :: "'context \<Rightarrow> 'row \<Rightarrow> 'row \<Rightarrow> unit outcome"
  assumes trigger_moves: "trigger c r r' = Inr () \<Longrightarrow> status r' = status r \<or> status r' \<in> set (moves (status r))"
begin

definition descends :: "'row \<Rightarrow> 'row \<Rightarrow> bool" where
  "descends r r' \<longleftrightarrow> key r' = key r \<and> (\<lambda>s t. t \<in> set (moves s))\<^sup>*\<^sup>* (status r) (status r')"

lemma descends_refl [simp, intro]: "descends r r"
  by (simp add: descends_def)

lemma descends_trans: "descends r s \<Longrightarrow> descends s t \<Longrightarrow> descends r t"
  by (auto simp: descends_def)

lemma update_descends:
  assumes "update_rows (trigger c) p f rows = Inr rows'" "\<And>r. key (f r) = key r"
  shows "list_all2 descends rows rows'"
proof -
  have "descends r (if p r then f r else r)" if r: "r \<in> set rows" for r
  proof (cases "p r")
    case True
    then have "status (f r) = status r \<or> status (f r) \<in> set (moves (status r))"
      using r assms(1) trigger_moves unfolding update_rows_Inr_iff by blast
    then show ?thesis using True assms(2) by (auto simp: descends_def)
  qed simp
  then show ?thesis using assms(1) unfolding update_rows_Inr_iff
    by (auto simp: list.rel_map list_all2_same)
qed

lemma all_descend_trans:
  "list_all2 descends rs ss \<Longrightarrow> list_all2 descends ss ts \<Longrightarrow> list_all2 descends rs ts"
  by (rule list_all2_trans [of descends descends descends]) (auto intro: descends_trans)

lemma all_descend_refl [simp, intro]: "list_all2 descends rs rs"
  by (simp add: list_all2_same)

text \<open>A set of statuses that the table never leaves holds whatever it has caught.\<close>

lemma descends_closed:
  assumes "descends r r'" "P (status r)" "\<And>s t. P s \<Longrightarrow> t \<in> set (moves s) \<Longrightarrow> P t"
  shows "P (status r')"
proof -
  have "(\<lambda>s t. t \<in> set (moves s))\<^sup>*\<^sup>* (status r) (status r')" using assms(1) by (simp add: descends_def)
  then show ?thesis using assms(2) by (induction rule: rtranclp_induct) (auto intro: assms(3))
qed

lemma descends_terminal: "descends r r' \<Longrightarrow> moves (status r) = [] \<Longrightarrow> status r' = status r"
  using descends_closed [of r r' "\<lambda>s. s = status r"] by auto

lemma descends_keys: "list_all2 descends rs rs' \<Longrightarrow> map key rs' = map key rs"
  by (induction rs rs' rule: list_all2_induct) (auto simp: descends_def)

lemma descends_in:
  "list_all2 descends rs rs' \<Longrightarrow> r \<in> set rs \<Longrightarrow> \<exists>r' \<in> set rs'. descends r r'"
  by (induction rs rs' rule: list_all2_induct) auto

lemma descends_back:
  "list_all2 descends rs rs' \<Longrightarrow> r' \<in> set rs' \<Longrightarrow> \<exists>r \<in> set rs. descends r r'"
  by (induction rs rs' rule: list_all2_induct) auto

end

end
