(* ===== verification/Signing_State.thy ===== *)
theory Signing_State
  imports Signing_Tables Personal_Number Canonical_Json
begin

text \<open>
  The rows that the database holds about one signature case: the tables of \<open>migrations/data\<close> as
  far as the signing flow reads and writes them, their row triggers, and the update statements
  under these triggers. Every statement of the flow names the tenant and either the case or a row
  of it, so one case is all that a transaction sees. Ciphertext stands for its plain text, a
  time stamp is its time value, and the order of a list is the order of creation.
\<close>

section \<open>Rows\<close>

datatype decision_mode = DIGITAL_APPROVAL | ELECTRONIC_SIGNATURE

datatype document_role = Signable | Attachment

text \<open>The policy snapshot of a case, by the three members that the flow reads.\<close>

record policy_snapshot =
  ps_requiredPadesLevel :: "json option"
  ps_allowedValidationResults :: "json option"
  ps_requiresTimestamp :: "json option"

record case_row =
  cs_status :: case_status
  cs_version :: int
  cs_mode :: decision_mode
  cs_policy :: policy_snapshot
  cs_expires :: "int option"
  cs_sent :: "int option"
  cs_completed :: "int option"

record signer_row =
  sg_id :: string
  sg_order :: int
  sg_required :: bool
  sg_status :: signer_status
  sg_version :: int
  sg_email :: "string option"
  sg_mode :: "identifier_binding_mode option"
  sg_expected :: "string option"
  sg_verified :: "string option"
  sg_bounced :: "int option"
  sg_complained :: "int option"

record document_row =
  dc_id :: string
  dc_version :: string
  dc_name :: string
  dc_role :: document_role
  dc_status :: document_status
  dc_mime :: string
  dc_size :: int
  dc_sha :: "string option"
  dc_source :: string
  dc_canonical :: "string option"
  dc_pages :: "int option"
  dc_canonical_pages :: "int option"
  dc_locked :: "int option"

record intent_document =
  id_version :: string
  id_ordinal :: nat
  id_sha :: string
  id_name :: string
  id_size :: int
  id_role :: document_role

record intent_row =
  in_id :: string
  in_signer :: string
  in_group :: int
  in_status :: intent_status
  in_expires :: int
  in_mode :: "identifier_binding_mode option"
  in_documents :: "intent_document list"

record invitation_row =
  iv_id :: string
  iv_signer :: string
  iv_token :: string
  iv_expires :: int
  iv_revoked :: "int option"
  iv_used :: "int option"
  iv_opened :: "int option"

record email_row =
  em_id :: string
  em_signer :: string
  em_template :: string
  em_token :: string
  em_expires :: int

record identity_row =
  it_id :: string
  it_signer :: string
  it_version :: string
  it_intent :: string
  it_reference :: string
  it_state :: string
  it_status :: identity_status
  it_polled :: "int option"
  it_extended :: "int option"
  it_failure :: "string option"
  it_completed :: "int option"
  it_evidence :: "(string \<times> string) option"

record identity_artifact =
  ta_identity :: string
  ta_intent :: string
  ta_pass :: bool

record attempt_row =
  at_id :: string
  at_signer :: string
  at_version :: string
  at_identity :: string
  at_number :: nat
  at_status :: attempt_status
  at_sha :: string

record artifact_row =
  ar_id :: string
  ar_attempt :: string
  ar_format :: pades_level
  ar_key :: string
  ar_sha :: string
  ar_input :: string

record run_row =
  rn_artifact :: string
  rn_indication :: validation_result
  rn_trust_list :: bool
  rn_report :: string

datatype package_status = Package_preparing | Package_ready | Package_failed

record package_row =
  pk_id :: string
  pk_signer :: "string option"
  pk_status :: package_status
  pk_sha :: "string option"

datatype log_entry =
    Audit (log_type: string) (log_subject: string)
  | Outbox (log_type: string) (log_subject: string)

record signing_state =
  ss_case :: case_row
  ss_signers :: "signer_row list"
  ss_documents :: "document_row list"
  ss_reports :: "(string \<times> string \<times> bool) list"
  ss_clean :: "string list"
  ss_intents :: "intent_row list"
  ss_invitations :: "invitation_row list"
  ss_emails :: "email_row list"
  ss_identities :: "identity_row list"
  ss_identity_artifacts :: "identity_artifact list"
  ss_attempts :: "attempt_row list"
  ss_artifacts :: "artifact_row list"
  ss_certificates :: "string list"
  ss_chains :: "string list"
  ss_timestamps :: "(string \<times> string) list"
  ss_revocations :: "string list"
  ss_runs :: "run_row list"
  ss_approvals :: "(string \<times> string) list"
  ss_packages :: "package_row list"
  ss_manifests :: "string list"
  ss_jobs :: "(string \<times> string) list"
  ss_log :: "log_entry list"
  ss_rollout :: bool

text \<open>
  \<open>ss_reports\<close> are the processor reports by document version and type, \<open>ss_clean\<close> the versions
  with a clean scan result. Of the certificate, chain and revocation tables (OCSP and CRL) only the artifact they belong to
  matters here, of a time stamp also its type. The Freja artifact tables, which no code writes, are
  left out.
\<close>

section \<open>Evidence\<close>

function strip_pades :: "string \<Rightarrow> string" where
  "strip_pades s =
     (if s = [] then [] else if take 6 s = ''PAdES-'' then strip_pades (drop 6 s) else hd s # strip_pades (tl s))"
  by pat_completeness auto
termination by (relation "measure length") auto

declare strip_pades.simps [simp del]

definition pades_level_rank :: "string \<Rightarrow> nat option" where
  "pades_level_rank level =
     (let l = strip_pades level
      in if l = ''NONE'' then Some 0 else if l = ''B'' then Some 1 else if l = ''T'' then Some 2
         else if l = ''LT'' then Some 3 else if l = ''LTA'' then Some 4 else None)"

text \<open>The rank that \<open>coalesce(policy->>'requiredPadesLevel','B')\<close> has.\<close>

definition required_rank :: "policy_snapshot \<Rightarrow> nat option" where
  "required_rank p =
     (case ps_requiredPadesLevel p of
        None \<Rightarrow> Some 1 | Some JNull \<Rightarrow> Some 1 | Some (JStr s) \<Rightarrow> pades_level_rank s | Some _ \<Rightarrow> None)"

definition allows_indeterminate :: "policy_snapshot \<Rightarrow> bool" where
  "allows_indeterminate p =
     (case ps_allowedValidationResults p of
        None \<Rightarrow> False
      | Some (JArr vs) \<Rightarrow> JStr ''INDETERMINATE'' \<in> set vs
      | Some (JObj ms) \<Rightarrow> ''INDETERMINATE'' \<in> fst ` set ms
      | Some (JStr s) \<Rightarrow> s = ''INDETERMINATE''
      | Some _ \<Rightarrow> False)"

definition indication_ok :: "policy_snapshot \<Rightarrow> validation_result \<Rightarrow> bool" where
  "indication_ok p i \<longleftrightarrow> i = TOTAL_PASSED \<or> i = INDETERMINATE \<and> allows_indeterminate p"

definition rank_reached :: "policy_snapshot \<Rightarrow> pades_level \<Rightarrow> bool" where
  "rank_reached p l = (case required_rank p of None \<Rightarrow> False | Some r \<Rightarrow> r \<le> Suc (pades_index l))"

text \<open>A validated signature of a signer over a document version that the policy accepts.\<close>

definition validated_signature :: "signing_state \<Rightarrow> string \<Rightarrow> string \<Rightarrow> bool" where
  "validated_signature st signer version \<longleftrightarrow>
     list_ex (\<lambda>attempt. at_signer attempt = signer \<and> at_version attempt = version \<and> at_status attempt = Attempt_validated \<and>
       list_ex (\<lambda>artifact. ar_attempt artifact = at_id attempt \<and>
         rank_reached (cs_policy (ss_case st)) (ar_format artifact) \<and>
         list_ex (\<lambda>run. rn_artifact run = ar_id artifact \<and>
           indication_ok (cs_policy (ss_case st)) (rn_indication run)) (ss_runs st)) (ss_artifacts st)) (ss_attempts st)"

definition consented_intent :: "signing_state \<Rightarrow> string \<Rightarrow> intent_row option" where
  "consented_intent st signer =
     find (\<lambda>i. in_signer i = signer \<and> in_status i \<in> {Intent_verified, Intent_packaged}) (rev (ss_intents st))"

definition signables :: "intent_row \<Rightarrow> intent_document list" where
  "signables i = filter (\<lambda>d. id_role d = Signable) (in_documents i)"

section \<open>Row triggers\<close>

definition bankid_terminal_evidence :: "signing_state \<Rightarrow> signer_row \<Rightarrow> signer_row \<Rightarrow> unit outcome" where
  "bankid_terminal_evidence st old new =
     (if sg_status new = Signer_signed \<and> sg_status old \<noteq> sg_status new \<and>
         \<not> list_ex (\<lambda>i. in_signer i = sg_id new \<and> in_status i \<in> {Intent_verified, Intent_packaged} \<and>
             list_ex (\<lambda>a. ta_intent a = in_id i \<and> ta_pass a) (ss_identity_artifacts st)) (ss_intents st)
      then refused ''signed signer requires verified identity evidence'' else Inr ())"

definition signer_signature_evidence :: "signing_state \<Rightarrow> signer_row \<Rightarrow> signer_row \<Rightarrow> unit outcome" where
  "signer_signature_evidence st old new =
     (if sg_status new \<noteq> Signer_signed \<or> sg_status old = Signer_signed then Inr ()
      else if cs_mode (ss_case st) \<noteq> ELECTRONIC_SIGNATURE then Inr ()
      else case consented_intent st (sg_id new) of
        None \<Rightarrow> refused ''signed signer requires a verified signing intent''
      | Some i \<Rightarrow>
          (if signables i = []
           then refused ''signed signer requires at least one signable document in the signing intent''
           else if \<not> list_all (\<lambda>d. validated_signature st (sg_id new) (id_version d)) (signables i)
           then refused ''signed signer requires a validated cryptographic signature for every signable document in the signing intent''
           else Inr ()))"

definition signer_binding :: "signer_row \<Rightarrow> signer_row \<Rightarrow> unit outcome" where
  "signer_binding old new =
     (if sg_status old \<noteq> Signer_pending \<and>
         (sg_expected new \<noteq> sg_expected old \<or> sg_order new \<noteq> sg_order old \<or> sg_required new \<noteq> sg_required old)
      then refused ''invited signer identity and ordering binding are immutable'' else Inr ())"

definition signer_trigger :: "actor \<times> signing_state \<Rightarrow> signer_row \<Rightarrow> signer_row \<Rightarrow> unit outcome" where
  "signer_trigger c old new =
     bindR (bankid_terminal_evidence (snd c) old new) (\<lambda>_.
     bindR (terminal_guard (fst c) (sg_status new = Signer_signed)) (\<lambda>_.
     bindR (signer_binding old new) (\<lambda>_.
     bindR (signer_signature_evidence (snd c) old new) (\<lambda>_.
       assert_move signer_moves ''invalid signers status transition'' (sg_status old) (sg_status new)))))"

definition package_completion :: "signing_state \<Rightarrow> case_row \<Rightarrow> case_row \<Rightarrow> unit outcome" where
  "package_completion st old new =
     (if cs_status new \<noteq> Case_completed \<or> cs_status old = Case_completed then Inr ()
      else if list_ex (\<lambda>s. sg_required s \<and> sg_status s \<noteq> Signer_signed) (ss_signers st)
      then refused ''completed case requires every required signer signed''
      else if \<not> list_ex (\<lambda>p. pk_signer p = None \<and> pk_status p = Package_ready \<and> pk_sha p \<noteq> None) (ss_packages st)
      then refused ''completed case requires ready evidence package''
      else Inr ())"

definition completion_evidence :: "signing_state \<Rightarrow> case_row \<Rightarrow> case_row \<Rightarrow> unit outcome" where
  "completion_evidence st old new =
     (if cs_status new \<noteq> Case_completed \<or> cs_status old = Case_completed then Inr ()
      else if \<not> list_ex sg_required (ss_signers st)
      then refused ''signature case cannot complete without a required participant''
      else if list_ex (\<lambda>s. sg_required s \<and> sg_status s \<noteq> Signer_signed) (ss_signers st)
      then refused ''signature case completion requires every required participant to be completed''
      else if ss_documents st = []
      then refused ''signature case cannot complete without a document''
      else if cs_mode new = DIGITAL_APPROVAL
      then (if list_ex (\<lambda>s. sg_required s \<and>
                 list_ex (\<lambda>d. (sg_id s, dc_version d) \<notin> set (ss_approvals st)) (ss_documents st)) (ss_signers st)
            then refused ''digital approval completion lacks immutable approval evidence'' else Inr ())
      else (if list_ex (\<lambda>s. sg_required s \<and>
                 list_ex (\<lambda>d. \<not> validated_signature st (sg_id s) (dc_version d)) (ss_documents st)) (ss_signers st)
            then refused ''electronic signature completion lacks validated cryptographic evidence'' else Inr ()))"

definition case_policy_binding :: "case_row \<Rightarrow> case_row \<Rightarrow> unit outcome" where
  "case_policy_binding old new =
     (if cs_status new \<notin> {Case_draft, Case_preparing, Case_ready} \<and>
         (cs_mode new \<noteq> cs_mode old \<or> cs_policy new \<noteq> cs_policy old)
      then refused ''sent signature case policy snapshot and classification are immutable'' else Inr ())"

definition case_trigger :: "actor \<times> signing_state \<Rightarrow> case_row \<Rightarrow> case_row \<Rightarrow> unit outcome" where
  "case_trigger c old new =
     bindR (package_completion (snd c) old new) (\<lambda>_.
     bindR (terminal_guard (fst c) (cs_status new \<in> {Case_completed, Case_archived})) (\<lambda>_.
     bindR (completion_evidence (snd c) old new) (\<lambda>_.
     bindR (case_policy_binding old new) (\<lambda>_.
       assert_move case_moves ''invalid signature_cases status transition'' (cs_status old) (cs_status new)))))"

definition locked_statuses :: "document_status list" where
  "locked_statuses = [Doc_locked, Doc_partially_signed, Doc_signed, Doc_validated, Doc_archived]"

definition document_binding :: "document_row \<Rightarrow> document_row \<Rightarrow> unit outcome" where
  "document_binding old new =
     (if dc_status new \<in> set locked_statuses \<and> (dc_sha new = None \<or> dc_canonical new = None \<or> dc_locked new = None)
      then refused ''locked document version requires canonical object, digest and lock timestamp''
      else if dc_status old \<in> set locked_statuses \<and>
              (dc_id new \<noteq> dc_id old \<or> dc_source new \<noteq> dc_source old \<or> dc_canonical new \<noteq> dc_canonical old \<or> dc_mime new \<noteq> dc_mime old \<or>
               dc_size new \<noteq> dc_size old \<or> dc_sha new \<noteq> dc_sha old \<or> dc_locked new \<noteq> dc_locked old)
      then refused ''locked document version binding is immutable''
      else Inr ())"

definition document_trigger :: "actor \<Rightarrow> document_row \<Rightarrow> document_row \<Rightarrow> unit outcome" where
  "document_trigger a old new =
     bindR (document_binding old new) (\<lambda>_.
     bindR (terminal_guard a (dc_status new \<in> {Doc_signed, Doc_validated, Doc_archived})) (\<lambda>_.
       assert_move document_moves ''invalid document_versions status transition'' (dc_status old) (dc_status new)))"

definition intent_trigger :: "unit \<Rightarrow> intent_row \<Rightarrow> intent_row \<Rightarrow> unit outcome" where
  "intent_trigger u old new =
     (if in_signer new \<noteq> in_signer old \<or> in_group new \<noteq> in_group old \<or> in_mode new \<noteq> in_mode old \<or>
         in_expires new \<noteq> in_expires old
      then refused ''signing intent payload is immutable''
      else assert_move intent_moves ''invalid signing intent state transition'' (in_status old) (in_status new))"

definition identity_trigger :: "signing_state \<Rightarrow> identity_row \<Rightarrow> identity_row \<Rightarrow> unit outcome" where
  "identity_trigger st old new =
     (if it_signer new \<noteq> it_signer old \<or> it_version new \<noteq> it_version old \<or> it_reference new \<noteq> it_reference old \<or>
         it_state new \<noteq> it_state old
      then refused ''identity transaction binding is immutable''
      else bindR (assert_move identity_moves ''invalid identity transaction status transition'' (it_status old) (it_status new)) (\<lambda>_.
        if it_status new \<noteq> it_status old \<and> it_status new = Identity_collected \<and>
           (it_completed new = None \<or> it_evidence new = None)
        then refused ''collected identity transaction requires immutable provider evidence''
        else if it_status new = Identity_verified \<and> it_status old \<noteq> Identity_verified \<and>
                \<not> list_ex (\<lambda>a. ta_identity a = it_id new \<and> ta_pass a) (ss_identity_artifacts st)
        then refused ''identity transaction cannot be verified without a passing verification artifact''
        else Inr ()))"

definition attempt_trigger :: "actor \<Rightarrow> attempt_row \<Rightarrow> attempt_row \<Rightarrow> unit outcome" where
  "attempt_trigger a old new =
     bindR (assert_move attempt_moves ''invalid signature attempt status transition'' (at_status old) (at_status new)) (\<lambda>_.
       terminal_guard a (at_status new \<in> {Attempt_signed, Attempt_validated}))"

definition invitation_trigger :: "invitation_row \<Rightarrow> invitation_row \<Rightarrow> unit outcome" where
  "invitation_trigger old new =
     (if iv_used old \<noteq> None \<and> new \<noteq> old then refused ''consumed invitation is immutable''
      else if iv_revoked old \<noteq> None \<and> new \<noteq> old then refused ''revoked invitation is immutable''
      else Inr ())"

lemma assert_move_Inr: "assert_move moves msg old new = Inr () \<longleftrightarrow> new = old \<or> new \<in> set (moves old)"
  by (simp add: assert_move_def refused_def)

interpretation signers: guarded_table sg_id sg_status signer_moves signer_trigger
  by unfold_locales (auto simp: signer_trigger_def bindR_Inr_iff assert_move_Inr)

interpretation cases: guarded_table "\<lambda>_ :: case_row. ()" cs_status case_moves case_trigger
  by unfold_locales (auto simp: case_trigger_def bindR_Inr_iff assert_move_Inr)

interpretation documents: guarded_table dc_version dc_status document_moves document_trigger
  by unfold_locales (auto simp: document_trigger_def bindR_Inr_iff assert_move_Inr)

interpretation intents: guarded_table in_id in_status intent_moves intent_trigger
  by unfold_locales (auto simp: intent_trigger_def assert_move_Inr refused_def split: if_splits)

interpretation identities: guarded_table it_id it_status identity_moves identity_trigger
  by unfold_locales (auto simp: identity_trigger_def bindR_Inr_iff assert_move_Inr refused_def split: if_splits)

interpretation attempts: guarded_table at_id at_status attempt_moves attempt_trigger
  by unfold_locales (auto simp: attempt_trigger_def bindR_Inr_iff assert_move_Inr)

end
