(* ===== verification/Signing_Case.thy ===== *)
theory Signing_Case
  imports Signing_State
begin

text \<open>
  The life of a signature case outside the signing session: the case repository
  (\<open>data-database.ts\<close>: documents, signers, sending, cancelling, reminding), the invitation page
  (\<open>public-signing-repository.ts\<close>: opening and declining), the invitation of the next group
  (\<open>signing-groups.ts\<close>) with the turn predicate of migration 0036, and the worker's reminder and
  expiry handlers (\<open>production-handlers.ts\<close>).

  Each definition is one transaction: \<open>Inl\<close> rolls it back. Identifiers and tokens that a
  transaction draws at random are a function of the row they are drawn for.
\<close>

section \<open>Statements\<close>

abbreviation permanent_error :: "string \<Rightarrow> 'a outcome" where
  "permanent_error c \<equiv> Inl (JsError ''PermanentWorkerError'' c)"

definition log_entries :: "log_entry list \<Rightarrow> signing_state \<Rightarrow> signing_state" where
  "log_entries es st = st\<lparr>ss_log := ss_log st @ es\<rparr>"

text \<open>\<open>insert into app.durable_jobs ... on conflict do nothing\<close>.\<close>

definition enqueue_job :: "string \<Rightarrow> string \<Rightarrow> signing_state \<Rightarrow> signing_state" where
  "enqueue_job type jobkey st =
     (if (type, jobkey) \<in> set (ss_jobs st) then st else st\<lparr>ss_jobs := ss_jobs st @ [(type, jobkey)]\<rparr>)"

definition update_case :: "actor \<Rightarrow> (case_row \<Rightarrow> bool) \<Rightarrow> (case_row \<Rightarrow> case_row) \<Rightarrow> signing_state \<Rightarrow> signing_state outcome" where
  "update_case a p f st =
     bindR (update_rows (case_trigger (a, st)) p f [ss_case st]) (\<lambda>cs. Inr (st\<lparr>ss_case := hd cs\<rparr>))"

definition update_signers :: "actor \<Rightarrow> (signer_row \<Rightarrow> bool) \<Rightarrow> (signer_row \<Rightarrow> signer_row) \<Rightarrow> signing_state \<Rightarrow> signing_state outcome" where
  "update_signers a p f st =
     bindR (update_rows (signer_trigger (a, st)) p f (ss_signers st)) (\<lambda>rs. Inr (st\<lparr>ss_signers := rs\<rparr>))"

definition update_documents :: "actor \<Rightarrow> (document_row \<Rightarrow> bool) \<Rightarrow> (document_row \<Rightarrow> document_row) \<Rightarrow> signing_state \<Rightarrow> signing_state outcome" where
  "update_documents a p f st =
     bindR (update_rows (document_trigger a) p f (ss_documents st)) (\<lambda>rs. Inr (st\<lparr>ss_documents := rs\<rparr>))"

definition update_invitations :: "(invitation_row \<Rightarrow> bool) \<Rightarrow> (invitation_row \<Rightarrow> invitation_row) \<Rightarrow> signing_state \<Rightarrow> signing_state outcome" where
  "update_invitations p f st =
     bindR (update_rows invitation_trigger p f (ss_invitations st)) (\<lambda>rs. Inr (st\<lparr>ss_invitations := rs\<rparr>))"

definition set_status :: "signer_status \<Rightarrow> signer_row \<Rightarrow> signer_row" where
  "set_status t s = s\<lparr>sg_status := t, sg_version := sg_version s + 1\<rparr>"

definition set_case_status :: "case_status \<Rightarrow> case_row \<Rightarrow> case_row" where
  "set_case_status t c = c\<lparr>cs_status := t, cs_version := cs_version c + 1\<rparr>"

text \<open>A loop of statements inside one transaction.\<close>

fun each_row :: "('a \<Rightarrow> 's \<Rightarrow> ('e, 's) result) \<Rightarrow> 'a list \<Rightarrow> 's \<Rightarrow> ('e, 's) result" where
  "each_row step [] st = Inr st"
| "each_row step (x # xs) st = bindR (step x st) (each_row step xs)"

section \<open>Whose turn it is\<close>

definition signing_turn_blocked :: "signing_state \<Rightarrow> string \<Rightarrow> bool" where
  "signing_turn_blocked st sid \<longleftrightarrow>
     list_ex (\<lambda>target. sg_id target = sid \<and>
       list_ex (\<lambda>lower. sg_order lower < sg_order target \<and> sg_required lower \<and> sg_status lower \<noteq> Signer_signed)
         (ss_signers st)) (ss_signers st)"

record fresh =
  fr_intent :: "string \<Rightarrow> string"
  fr_invitation :: "string \<Rightarrow> string"
  fr_token :: "string \<Rightarrow> string"
  fr_message :: "string \<Rightarrow> string"
  fr_hash :: "string \<Rightarrow> string"

text \<open>An invitation with its e-mail and the job that sends it.\<close>

definition invite :: "fresh \<Rightarrow> string \<Rightarrow> int \<Rightarrow> string \<Rightarrow> signing_state \<Rightarrow> signing_state" where
  "invite fr template expires signer st =
     enqueue_job ''EMAIL_SEND'' (''email:'' @ fr_message fr signer)
       (st\<lparr>ss_invitations := ss_invitations st @
              [\<lparr>iv_id = fr_invitation fr signer, iv_signer = signer, iv_token = fr_hash fr (fr_token fr signer),
                iv_expires = expires, iv_revoked = None, iv_used = None, iv_opened = None\<rparr>],
           ss_emails := ss_emails st @
              [\<lparr>em_id = fr_message fr signer, em_signer = signer, em_template = template,
                em_token = fr_token fr signer, em_expires = expires\<rparr>]\<rparr>)"

definition pending_turn :: "signing_state \<Rightarrow> signer_row list" where
  "pending_turn st = filter (\<lambda>s. sg_status s = Signer_pending \<and> \<not> signing_turn_blocked st (sg_id s)) (ss_signers st)"

definition activate_one :: "actor \<Rightarrow> fresh \<Rightarrow> signer_row \<times> intent_row \<Rightarrow> signing_state \<Rightarrow> signing_state outcome" where
  "activate_one a fr p st =
     bindR (update_signers a (\<lambda>s. sg_id s = sg_id (fst p) \<and> sg_status s = Signer_pending) (set_status Signer_invited)
              (invite fr ''signature_invitation'' (in_expires (snd p)) (sg_id (fst p)) st))
       (\<lambda>st'. Inr (log_entries [Audit ''invitation.created'' (sg_id (fst p))] st'))"

definition activateNextSigningGroup :: "actor \<Rightarrow> fresh \<Rightarrow> signing_state \<Rightarrow> signing_state outcome" where
  "activateNextSigningGroup a fr st =
     (case map sg_order (pending_turn st) of
        [] \<Rightarrow> Inr st
      | orders \<Rightarrow>
          (let group = Min (set orders)
           in if group = 0 then Inr st
              else each_row (activate_one a fr)
                (concat (map (\<lambda>s. map (\<lambda>i. (s, i)) (filter (\<lambda>i. in_signer i = sg_id s) (ss_intents st)))
                  (filter (\<lambda>s. sg_order s = group \<and> sg_status s = Signer_pending) (ss_signers st)))) st))"

section \<open>The case repository\<close>

definition requireCase :: "signing_state \<Rightarrow> case_status list \<Rightarrow> unit outcome" where
  "requireCase st statuses =
     (if cs_status (ss_case st) \<in> set statuses then Inr () else throw ''CASE_STATE_INVALID'')"

definition createCase :: "decision_mode \<times> policy_snapshot \<Rightarrow> decision_mode \<Rightarrow> bool \<Rightarrow> signing_state outcome" where
  "createCase policy mode rollout =
     (if fst policy \<noteq> mode then throw ''SIGNATURE_POLICY_DECISION_MODE_MISMATCH''
      else Inr \<lparr>ss_case = \<lparr>cs_status = Case_draft, cs_version = 1, cs_mode = mode, cs_policy = snd policy,
                   cs_expires = None, cs_sent = None, cs_completed = None\<rparr>,
                ss_signers = [], ss_documents = [], ss_reports = [], ss_clean = [], ss_intents = [], ss_invitations = [], ss_emails = [],
                ss_identities = [], ss_identity_artifacts = [], ss_attempts = [], ss_artifacts = [],
                ss_certificates = [], ss_chains = [], ss_timestamps = [], ss_revocations = [], ss_runs = [], ss_approvals = [], ss_packages = [], ss_manifests = [],
                ss_jobs = [], ss_log = [Outbox ''signature_case.created'' []], ss_rollout = rollout\<rparr>)"

record upload_grant =
  ug_status :: string
  ug_key :: string
  ug_mime :: string
  ug_size :: int
  ug_sha :: string

definition addDocument ::
  "actor \<Rightarrow> upload_grant option \<Rightarrow> string \<times> string \<Rightarrow> string \<Rightarrow> document_role option \<Rightarrow> signing_state \<Rightarrow> signing_state outcome" where
  "addDocument a grant ids name role st =
     bindR (requireCase st [Case_draft, Case_preparing, Case_ready]) (\<lambda>_.
       case grant of
         None \<Rightarrow> throw ''UPLOAD_GRANT_NOT_FOUND''
       | Some g \<Rightarrow>
           (if ug_status g \<noteq> ''uploaded'' then throw ''UPLOAD_NOT_CONFIRMED''
            else
              let st1 = enqueue_job ''DOCUMENT_SCAN'' (''document-scan:'' @ snd ids)
                    (log_entries [Outbox ''document.quarantined'' (fst ids)]
                      (st\<lparr>ss_documents := ss_documents st @
                        [\<lparr>dc_id = fst ids, dc_version = snd ids, dc_name = name,
                          dc_role = (case role of None \<Rightarrow> Signable | Some r \<Rightarrow> r),
                          dc_status = Doc_quarantined, dc_mime = ug_mime g, dc_size = ug_size g,
                          dc_sha = Some (ug_sha g), dc_source = ug_key g, dc_canonical = None, dc_pages = None,
                          dc_canonical_pages = None, dc_locked = None\<rparr>]\<rparr>))
              in if cs_status (ss_case st) = Case_draft
                 then bindR (update_case a (\<lambda>c. cs_status c = Case_draft) (set_case_status Case_preparing) st1)
                        (\<lambda>st2. Inr (log_entries [Outbox ''signature_case.preparing'' []] st2))
                 else Inr st1))"

record signer_input =
  si_binding :: binding_input
  si_email :: string
  si_order :: int
  si_required :: bool

definition binding_error :: "personal_number_error \<Rightarrow> cause" where
  "binding_error e = JsError ''Error''
     (case e of
        PERSONAL_NUMBER_INVALID \<Rightarrow> ''PERSONAL_NUMBER_INVALID''
      | PERSONAL_NUMBER_REQUIRED \<Rightarrow> ''PERSONAL_NUMBER_REQUIRED''
      | PERSONAL_NUMBER_EXCEPTION_NOT_ALLOWED \<Rightarrow> ''PERSONAL_NUMBER_EXCEPTION_NOT_ALLOWED''
      | PERSONAL_NUMBER_EXCEPTION_REASON_REQUIRED \<Rightarrow> ''PERSONAL_NUMBER_EXCEPTION_REASON_REQUIRED''
      | PERSONAL_NUMBER_EXCEPTION_REASON_INVALID \<Rightarrow> ''PERSONAL_NUMBER_EXCEPTION_REASON_INVALID'')"

definition bound_signer :: "signer_input \<Rightarrow> binding_decision \<Rightarrow> signer_row \<Rightarrow> signer_row" where
  "bound_signer inp d s =
     s\<lparr>sg_email := Some (js_lower (js_trim (si_email inp))), sg_expected := bd_normalizedPersonalNumber d,
       sg_mode := Some (bd_mode d), sg_order := si_order inp, sg_required := si_required inp\<rparr>"

text \<open>The table refuses an order that is not positive (\<open>signers_signing_order_positive\<close>).\<close>

definition order_check :: "int \<Rightarrow> unit outcome" where
  "order_check n = (if n > 0 then Inr () else refused ''signers_signing_order_positive'')"

definition addSigner :: "string \<Rightarrow> signer_input \<Rightarrow> signing_state \<Rightarrow> signing_state outcome" where
  "addSigner sid inp st =
     bindR (requireCase st [Case_draft, Case_preparing, Case_ready]) (\<lambda>_.
     bindR (mapErr binding_error (decideIdentifierBinding (si_binding inp))) (\<lambda>d.
     bindR (order_check (si_order inp)) (\<lambda>_.
       Inr (log_entries (Outbox ''signer.added'' sid #
              (if bd_mode d = BANKID_DISCOVERED then [Outbox ''signer.identifier_binding_exception_used'' sid] else []))
            (st\<lparr>ss_signers := ss_signers st @
               [bound_signer inp d
                 \<lparr>sg_id = sid, sg_order = 1, sg_required = True, sg_status = Signer_pending, sg_version = 1,
                  sg_email = None, sg_mode = None, sg_expected = None, sg_verified = None, sg_bounced = None,
                  sg_complained = None\<rparr>]\<rparr>)))))"

definition updateSigner :: "actor \<Rightarrow> string \<Rightarrow> signer_input \<Rightarrow> int option \<Rightarrow> signing_state \<Rightarrow> signing_state outcome" where
  "updateSigner a sid inp expectedVersion st =
     bindR (requireCase st [Case_draft, Case_preparing, Case_ready]) (\<lambda>_.
       case find (\<lambda>s. sg_id s = sid) (ss_signers st) of
         None \<Rightarrow> throw ''NOT_FOUND''
       | Some row \<Rightarrow>
           (if sg_status row \<noteq> Signer_pending then throw ''SIGNER_NOT_EDITABLE''
            else if expectedVersion \<noteq> None \<and> expectedVersion \<noteq> Some (sg_version row)
            then throw ''RESOURCE_VERSION_CONFLICT''
            else bindR (mapErr binding_error (decideIdentifierBinding (si_binding inp))) (\<lambda>d.
                 bindR (order_check (si_order inp)) (\<lambda>_.
                 bindR (update_signers a (\<lambda>s. sg_id s = sid \<and> sg_status s = Signer_pending)
                          (\<lambda>s. (bound_signer inp d s)\<lparr>sg_version := sg_version s + 1\<rparr>) st) (\<lambda>st1.
                   Inr (log_entries [Outbox ''signer.updated'' sid] st1))))))"

definition transitionCase ::
  "actor \<Rightarrow> int \<Rightarrow> case_status \<Rightarrow> string \<Rightarrow> int option \<Rightarrow> (signing_state \<Rightarrow> signing_state outcome) \<Rightarrow>
   signing_state \<Rightarrow> signing_state outcome" where
  "transitionCase a now status event expectedVersion before st =
     (if expectedVersion \<noteq> None \<and> expectedVersion \<noteq> Some (cs_version (ss_case st))
      then throw ''RESOURCE_VERSION_CONFLICT''
      else bindR (before st) (\<lambda>st1.
           bindR (update_case a (\<lambda>c. cs_version c = cs_version (ss_case st))
                    (\<lambda>c. (set_case_status status c)
                       \<lparr>cs_sent := if status = Case_sent \<and> cs_sent c = None then Some now else cs_sent c\<rparr>) st1) (\<lambda>st2.
             Inr (log_entries [Outbox event []] st2))))"

definition snapshots :: "signing_state \<Rightarrow> intent_document list" where
  "snapshots st =
     (let docs = filter (\<lambda>d. dc_role d = Signable) (ss_documents st) @ filter (\<lambda>d. dc_role d \<noteq> Signable) (ss_documents st)
      in map (\<lambda>(n, d). \<lparr>id_version = dc_version d, id_ordinal = n, id_sha = the (dc_sha d), id_name = dc_name d, id_size = dc_size d,
                        id_role = dc_role d\<rparr>) (zip [1..<Suc (length docs)] docs))"

definition sendable :: "signing_state \<Rightarrow> unit outcome" where
  "sendable st =
     (if cs_status (ss_case st) \<noteq> Case_ready then throw ''CASE_NOT_SENDABLE''
      else if \<not> list_ex (\<lambda>d. dc_role d \<noteq> Attachment) (ss_documents st) then throw ''CASE_SEND_REQUIRES_A_SIGNABLE_DOCUMENT''
      else if ss_documents st = [] \<or> length (ss_documents st) > 20 \<or>
              list_ex (\<lambda>d. falsy (dc_sha d) \<or> dc_mime d \<noteq> ''application/pdf'') (ss_documents st)
      then throw ''DOCUMENT_NOT_READY''
      else if list_ex (\<lambda>d. dc_status d \<noteq> Doc_ready) (ss_documents st) then throw ''DOCUMENT_NOT_READY''
      else if \<not> list_ex sg_required (ss_signers st) \<or>
              list_ex (\<lambda>s. sg_email s = None \<or> sg_mode s = None) (ss_signers st)
      then throw ''CASE_SEND_EVIDENCE_INCOMPLETE''
      else Inr ())"

definition send_one :: "actor \<Rightarrow> fresh \<Rightarrow> int \<Rightarrow> int \<Rightarrow> intent_document list \<Rightarrow> signer_row \<Rightarrow> signing_state \<Rightarrow> signing_state outcome" where
  "send_one a fr expires firstGroup docs signer st =
     (let st1 = st\<lparr>ss_intents := ss_intents st @
            [\<lparr>in_id = fr_intent fr (sg_id signer), in_signer = sg_id signer, in_group = sg_order signer,
              in_status = Intent_prepared, in_expires = expires, in_mode = sg_mode signer, in_documents = docs\<rparr>]\<rparr>
      in if sg_order signer = firstGroup
         then bindR (update_signers a (\<lambda>s. sg_id s = sg_id signer) (set_status Signer_invited)
                (invite fr ''signature_invitation'' expires (sg_id signer) st1)) (\<lambda>st2.
                Inr (log_entries [Outbox ''invitation.created'' (fr_invitation fr (sg_id signer))] st2))
         else Inr st1)"

definition before_send :: "actor \<Rightarrow> fresh \<Rightarrow> int \<Rightarrow> signing_state \<Rightarrow> signing_state outcome" where
  "before_send a fr now st =
     bindR (sendable st) (\<lambda>_.
     bindR (update_documents a (\<lambda>d. dc_status d = Doc_ready) (\<lambda>d. d\<lparr>dc_status := Doc_locked, dc_locked := Some now\<rparr>) st) (\<lambda>st1.
     bindR (each_row (send_one a fr (now + 3600000) (Min (set (map sg_order (ss_signers st)))) (snapshots st))
              (sort_key sg_order (sort_key sg_id (ss_signers st))) st1) (\<lambda>st2.
       Inr (log_entries [Outbox ''document.locked'' []] st2))))"

definition sendCase :: "actor \<Rightarrow> fresh \<Rightarrow> int \<Rightarrow> int option \<Rightarrow> signing_state \<Rightarrow> signing_state outcome" where
  "sendCase a fr now expectedVersion =
     transitionCase a now Case_sent ''signature_case.sent'' expectedVersion (before_send a fr now)"

definition cancelCase :: "actor \<Rightarrow> int \<Rightarrow> int option \<Rightarrow> signing_state \<Rightarrow> signing_state outcome" where
  "cancelCase a now expectedVersion =
     transitionCase a now Case_cancelled ''signature_case.cancelled'' expectedVersion Inr"

definition open_statuses :: "case_status list" where
  "open_statuses = [Case_sent, Case_in_progress, Case_partially_signed]"

definition remindCase :: "string \<Rightarrow> signing_state \<Rightarrow> signing_state outcome" where
  "remindCase requestKey st =
     bindR (requireCase st open_statuses) (\<lambda>_.
       Inr (log_entries [Outbox ''reminder.queued'' []] (enqueue_job ''REMINDER_SEND'' (''case-reminder:'' @ requestKey) st)))"

section \<open>The invitation page\<close>

definition resolveInvitation :: "(string \<Rightarrow> bool) \<Rightarrow> fresh \<Rightarrow> int \<Rightarrow> string \<Rightarrow> signing_state \<Rightarrow> (string \<times> string) outcome" where
  "resolveInvitation safe fr now token st =
     (if \<not> safe token then throw ''INVITATION_INVALID''
      else case find (\<lambda>i. iv_token i = fr_hash fr token \<and> iv_revoked i = None \<and> iv_expires i > now \<and> iv_used i = None)
                  (ss_invitations st) of
        None \<Rightarrow> throw ''INVITATION_INVALID''
      | Some i \<Rightarrow> Inr (iv_id i, iv_signer i))"

definition validInvitation :: "int \<Rightarrow> string \<Rightarrow> signing_state \<Rightarrow> invitation_row outcome" where
  "validInvitation now invitation st =
     (case find (\<lambda>i. iv_id i = invitation) (ss_invitations st) of
        None \<Rightarrow> throw ''INVITATION_INVALID''
      | Some i \<Rightarrow>
          (if iv_revoked i \<noteq> None \<or> iv_used i \<noteq> None then throw ''INVITATION_REVOKED''
           else if iv_expires i \<le> now then throw ''INVITATION_EXPIRED'' else Inr i))"

definition markOpened :: "int \<Rightarrow> string \<Rightarrow> signing_state \<Rightarrow> signing_state outcome" where
  "markOpened now invitation st =
     bindR (validInvitation now invitation st) (\<lambda>row.
     bindR (update_invitations (\<lambda>i. iv_id i = invitation)
              (\<lambda>i. i\<lparr>iv_opened := if iv_opened i = None then Some now else iv_opened i\<rparr>) st) (\<lambda>st1.
     bindR (update_signers Trusted_service (\<lambda>s. sg_id s = iv_signer row)
              (\<lambda>s. if sg_status s = Signer_invited then set_status Signer_opened s else s) st1) (\<lambda>st2.
       Inr (log_entries [Outbox ''invitation.opened'' invitation] st2))))"

definition decline :: "int \<Rightarrow> string \<Rightarrow> signing_state \<Rightarrow> signing_state outcome" where
  "decline now invitation st =
     bindR (validInvitation now invitation st) (\<lambda>row.
       case find (\<lambda>s. sg_id s = iv_signer row) (ss_signers st) of
         None \<Rightarrow> throw ''INVITATION_INVALID''
       | Some signer \<Rightarrow>
           bindR (update_signers Trusted_service
                    (\<lambda>s. sg_id s = iv_signer row \<and> sg_status s \<in> {Signer_invited, Signer_opened, Signer_identity_started})
                    (set_status Signer_declined) st) (\<lambda>st1.
           bindR (update_invitations (\<lambda>i. iv_id i = invitation) (\<lambda>i. i\<lparr>iv_used := Some now\<rparr>) st1) (\<lambda>st2.
           bindR (if sg_required signer
                  then update_case Trusted_service (\<lambda>c. cs_status c \<in> set open_statuses) (set_case_status Case_declined) st2
                  else Inr st2) (\<lambda>st3.
             Inr (log_entries [Outbox ''signer.declined'' (iv_signer row)] st3)))))"

section \<open>Reminders and expiry\<close>

definition reminded :: "int \<Rightarrow> signing_state \<Rightarrow> signer_row list" where
  "reminded now st =
     filter (\<lambda>s. sg_status s \<in> {Signer_invited, Signer_opened} \<and> sg_bounced s = None \<and> sg_complained s = None \<and>
       cs_status (ss_case st) \<in> set open_statuses \<and>
       (case cs_expires (ss_case st) of None \<Rightarrow> True | Some e \<Rightarrow> e > now) \<and>
       \<not> signing_turn_blocked st (sg_id s)) (ss_signers st)"

definition remind_one :: "fresh \<Rightarrow> int \<Rightarrow> signer_row \<Rightarrow> signing_state \<Rightarrow> signing_state outcome" where
  "remind_one fr now s st =
     bindR (update_invitations (\<lambda>i. iv_signer i = sg_id s \<and> iv_used i = None \<and> iv_revoked i = None)
              (\<lambda>i. i\<lparr>iv_revoked := Some now\<rparr>) st) (\<lambda>st1.
       Inr (log_entries [Audit ''invitation.revoked'' (sg_id s), Audit ''invitation.created'' (sg_id s)]
         (invite fr ''signature_reminder''
           (case cs_expires (ss_case st) of Some e \<Rightarrow> e | None \<Rightarrow> now + 7 * 86400000) (sg_id s) st1)))"

definition handleReminder :: "fresh \<Rightarrow> int \<Rightarrow> signing_state \<Rightarrow> signing_state outcome" where
  "handleReminder fr now st = each_row (remind_one fr now) (reminded now st) st"

definition closed_statuses :: "case_status list" where
  "closed_statuses = [Case_completed, Case_declined, Case_expired, Case_cancelled, Case_failed, Case_archived]"

definition handleCaseExpire :: "int \<Rightarrow> signing_state \<Rightarrow> signing_state outcome" where
  "handleCaseExpire now st =
     (if cs_status (ss_case st) \<in> set closed_statuses then Inr st
      else if (case cs_expires (ss_case st) of None \<Rightarrow> True | Some e \<Rightarrow> e > now) then throw ''CASE_NOT_EXPIRED_YET''
      else bindR (update_case Worker (\<lambda>c. True) (set_case_status Case_expired) st) (\<lambda>st1.
           bindR (update_signers Worker
                    (\<lambda>s. sg_status s \<notin> {Signer_signed, Signer_declined, Signer_cancelled, Signer_failed})
                    (set_status Signer_expired) st1) (\<lambda>st2.
           bindR (update_invitations (\<lambda>i. iv_used i = None \<and> iv_revoked i = None \<and>
                    list_ex (\<lambda>s. sg_id s = iv_signer i) (ss_signers st2)) (\<lambda>i. i\<lparr>iv_revoked := Some now\<rparr>) st2) (\<lambda>st3.
             Inr (log_entries [Audit ''case.expired'' [], Outbox ''case.expired'' []] st3)))))"

end
