(* ===== verification/Bankid_Signing.thy ===== *)
theory Bankid_Signing
  imports Signing_Case
begin

text \<open>
  The BankID session of a signer: the invitation page that starts, polls, extends and cancels it
  (\<open>public-signing-repository.ts\<close>) and the worker that polls, collects and validates the evidence
  (\<open>production-handlers.ts\<close>). Each definition is one transaction, given what an earlier transaction
  of the same operation has read; the provider, the validation service and the object store are
  arguments. An operation that runs without interference composes its transactions.
\<close>

section \<open>Statements\<close>

definition update_intents :: "(intent_row \<Rightarrow> bool) \<Rightarrow> (intent_row \<Rightarrow> intent_row) \<Rightarrow> signing_state \<Rightarrow> signing_state outcome" where
  "update_intents p f st =
     bindR (update_rows (intent_trigger ()) p f (ss_intents st)) (\<lambda>rs. Inr (st\<lparr>ss_intents := rs\<rparr>))"

definition update_identities :: "(identity_row \<Rightarrow> bool) \<Rightarrow> (identity_row \<Rightarrow> identity_row) \<Rightarrow> signing_state \<Rightarrow> signing_state outcome" where
  "update_identities p f st =
     bindR (update_rows (identity_trigger st) p f (ss_identities st)) (\<lambda>rs. Inr (st\<lparr>ss_identities := rs\<rparr>))"

definition set_intent :: "intent_status \<Rightarrow> intent_row \<Rightarrow> intent_row" where
  "set_intent t i = i\<lparr>in_status := t\<rparr>"

definition set_identity :: "identity_status \<Rightarrow> identity_row \<Rightarrow> identity_row" where
  "set_identity t i = i\<lparr>it_status := t\<rparr>"

definition live_identity :: "identity_row \<Rightarrow> bool" where
  "live_identity i \<longleftrightarrow> it_status i \<in> {Identity_pending, Identity_user_action}"

section \<open>Starting a session\<close>

record start_input =
  sn_identity :: string
  sn_intent :: string
  sn_signer :: string
  sn_version :: string
  sn_state :: string
  sn_expected :: "string option"

definition first_document :: "intent_row \<Rightarrow> string option" where
  "first_document i = map_option id_version (List.find (\<lambda>d. id_role d = Signable) (in_documents i))"

definition prepared_intent :: "signing_state \<Rightarrow> string \<Rightarrow> intent_row option" where
  "prepared_intent st signer =
     find (\<lambda>i. in_signer i = signer \<and> in_status i = Intent_prepared) (rev (ss_intents st))"

definition loadStartInput :: "int \<Rightarrow> string \<times> string \<Rightarrow> string \<times> string \<Rightarrow> signing_state \<Rightarrow> start_input outcome" where
  "loadStartInput now invitation drawn st =
     bindR (validInvitation now (fst invitation) st) (\<lambda>_.
       if \<not> ss_rollout st then throw ''TIC_NOT_CONFIGURED''
       else if signing_turn_blocked st (snd invitation) then throw ''SIGNING_ORDER_BLOCKED''
       else case (prepared_intent st (snd invitation), find (\<lambda>s. sg_id s = snd invitation) (ss_signers st)) of
         (Some i, Some s) \<Rightarrow>
           bindR (if sg_mode s = Some STRICT_PREBOUND
                  then (case sg_expected s of None \<Rightarrow> throw ''PERSONAL_NUMBER_REQUIRED'' | Some e \<Rightarrow> Inr (Some e))
                  else Inr None) (\<lambda>expected.
           case first_document i of
             None \<Rightarrow> refused ''document_version_id''
           | Some v \<Rightarrow>
               Inr \<lparr>sn_identity = fst drawn, sn_intent = in_id i, sn_signer = in_signer i, sn_version = v,
                    sn_state = snd drawn, sn_expected = expected\<rparr>)
       | _ \<Rightarrow> throw ''SIGNING_INTENT_NOT_READY'')"

definition recordStart :: "int \<Rightarrow> start_input \<Rightarrow> string \<Rightarrow> signing_state \<Rightarrow> signing_state outcome" where
  "recordStart now start reference st =
     (case find (\<lambda>i. in_id i = sn_intent start) (ss_intents st) of
        None \<Rightarrow> throw ''TIC_START_RACE_LOST''
      | Some i \<Rightarrow>
          (if in_status i \<noteq> Intent_prepared then throw ''TIC_START_RACE_LOST''
           else
             bindR (update_intents (\<lambda>i. in_id i = sn_intent start) (set_intent Intent_provider_started)
                (st\<lparr>ss_identities := ss_identities st @
                   [\<lparr>it_id = sn_identity start, it_signer = sn_signer start, it_version = sn_version start,
                     it_intent = sn_intent start, it_reference = reference, it_state = sn_state start,
                     it_status = Identity_pending, it_polled = None, it_extended = None, it_failure = None,
                     it_completed = None, it_evidence = None\<rparr>]\<rparr>)) (\<lambda>st1.
             bindR (update_signers Trusted_service
                      (\<lambda>s. sg_id s = sn_signer start \<and> sg_status s \<in> {Signer_invited, Signer_opened})
                      (set_status Signer_identity_started) st1) (\<lambda>st2.
               Inr (log_entries [Outbox ''bankid.session_started'' (sn_identity start)] st2)))))"

text \<open>
  The whole operation: the session opens at the provider between the two transactions and is
  cancelled there when the second fails. The last component is the list of cancelled references.
\<close>

definition startBankId ::
  "bool \<Rightarrow> (start_input \<Rightarrow> string outcome) \<Rightarrow> bool \<Rightarrow> (string \<Rightarrow> bool) \<Rightarrow> fresh \<Rightarrow> int \<Rightarrow> string \<Rightarrow> string \<times> string \<Rightarrow>
   signing_state \<Rightarrow> (signing_state \<times> string) outcome \<times> string list" where
  "startBankId tic provider reviewAcknowledged safe fr now token drawn st =
     (if \<not> tic then (throw ''TIC_NOT_CONFIGURED'', [])
      else if \<not> reviewAcknowledged then (throw ''DOCUMENT_REVIEW_REQUIRED'', [])
      else case bindR (resolveInvitation safe fr now token st) (\<lambda>iv. loadStartInput now iv drawn st) of
        Inl e \<Rightarrow> (Inl e, [])
      | Inr start \<Rightarrow>
          (case provider start of
             Inl e \<Rightarrow> (Inl e, [])
           | Inr reference \<Rightarrow>
               (case recordStart now start reference st of
                  Inl e \<Rightarrow> (Inl e, [reference])
                | Inr st' \<Rightarrow> (Inr (st', reference), []))))"

section \<open>The session page\<close>

datatype provider_status =
  PENDING | USER_ACTION_REQUIRED | COMPLETED | CANCELLED | EXPIRED | FAILED

definition loadSession :: "int \<Rightarrow> string \<times> string \<Rightarrow> string \<Rightarrow> signing_state \<Rightarrow> identity_row outcome" where
  "loadSession now invitation session st =
     bindR (validInvitation now (fst invitation) st) (\<lambda>_.
       case find (\<lambda>i. it_signer i = snd invitation \<and> it_reference i = session) (ss_identities st) of
         None \<Rightarrow> throw ''TIC_SESSION_NOT_FOUND'' | Some i \<Rightarrow> Inr i)"

definition poll_due :: "int \<Rightarrow> identity_row \<Rightarrow> bool" where
  "poll_due now i = (case it_polled i of None \<Rightarrow> True | Some t \<Rightarrow> now - t \<ge> 1900)"

definition page_status :: "identity_status \<Rightarrow> provider_status \<Rightarrow> identity_status" where
  "page_status loaded status =
     (case status of
        USER_ACTION_REQUIRED \<Rightarrow> Identity_pending
      | CANCELLED \<Rightarrow> Identity_cancelled
      | EXPIRED \<Rightarrow> Identity_expired
      | FAILED \<Rightarrow> Identity_failed
      | _ \<Rightarrow> loaded)"

definition recordPageStatus :: "int \<Rightarrow> identity_row \<Rightarrow> provider_status \<Rightarrow> signing_state \<Rightarrow> signing_state outcome" where
  "recordPageStatus now loaded status st =
     bindR (update_identities (\<lambda>i. it_id i = it_id loaded \<and> it_reference i = it_reference loaded)
              (\<lambda>i. (set_identity (page_status (it_status loaded) status) i)\<lparr>it_polled := Some now\<rparr>) st) (\<lambda>st1.
       Inr (if status = COMPLETED
            then log_entries [Outbox ''bankid.session_completed'' (it_id loaded)]
                   (enqueue_job ''TIC_EVIDENCE_COLLECT'' (''tic-collect:'' @ it_id loaded) st1)
            else st1))"

definition bankIdStatus ::
  "bool \<Rightarrow> (string \<Rightarrow> provider_status outcome) \<Rightarrow> int \<Rightarrow> string \<times> string \<Rightarrow> string \<Rightarrow> signing_state \<Rightarrow> signing_state outcome" where
  "bankIdStatus tic provider now invitation session st =
     (if \<not> tic then throw ''TIC_NOT_CONFIGURED''
      else bindR (loadSession now invitation session st) (\<lambda>loaded.
        if \<not> poll_due now loaded then Inr st
        else bindR (provider (it_reference loaded)) (\<lambda>status. recordPageStatus now loaded status st)))"

definition recordExtension :: "int \<Rightarrow> identity_row \<Rightarrow> string \<Rightarrow> signing_state \<Rightarrow> signing_state outcome" where
  "recordExtension now loaded session st =
     update_identities (\<lambda>i. it_id i = it_id loaded \<and> it_reference i = session \<and> it_extended i = None)
       (\<lambda>i. i\<lparr>it_extended := Some now\<rparr>) st"

definition extendBankId ::
  "bool \<Rightarrow> (string \<Rightarrow> unit outcome) \<Rightarrow> int \<Rightarrow> string \<times> string \<Rightarrow> string \<Rightarrow> signing_state \<Rightarrow> signing_state outcome" where
  "extendBankId tic provider now invitation session st =
     (if \<not> tic then throw ''TIC_NOT_CONFIGURED''
      else bindR (loadSession now invitation session st) (\<lambda>loaded.
        if it_extended loaded \<noteq> None then throw ''TIC_SESSION_EXTENSION_ALREADY_USED''
        else bindR (provider session) (\<lambda>_.
          recordExtension now loaded session st)))"

definition recordCancel :: "identity_row \<Rightarrow> signing_state \<Rightarrow> signing_state outcome" where
  "recordCancel loaded st =
     bindR (update_identities (\<lambda>i. it_id i = it_id loaded \<and> live_identity i)
              (\<lambda>i. (set_identity Identity_cancelled i)\<lparr>it_failure := Some ''USER_CANCELLED''\<rparr>) st) (\<lambda>st1.
       update_intents (\<lambda>i. in_id i = it_intent loaded \<and> in_status i = Intent_provider_started)
         (set_intent Intent_cancelled) st1)"

definition cancelBankId ::
  "bool \<Rightarrow> (string \<Rightarrow> unit outcome) \<Rightarrow> int \<Rightarrow> string \<times> string \<Rightarrow> string \<Rightarrow> signing_state \<Rightarrow> signing_state outcome" where
  "cancelBankId tic provider now invitation session st =
     (if \<not> tic then throw ''TIC_NOT_CONFIGURED''
      else bindR (loadSession now invitation session st) (\<lambda>loaded.
        bindR (provider (it_reference loaded)) (\<lambda>_. recordCancel loaded st)))"

section \<open>The worker: polling and collecting\<close>

definition load_identity :: "string \<Rightarrow> signing_state \<Rightarrow> identity_row outcome" where
  "load_identity tid st =
     (case find (\<lambda>i. it_id i = tid) (ss_identities st) of
        None \<Rightarrow> permanent_error ''IDENTITY_TRANSACTION_NOT_FOUND'' | Some i \<Rightarrow> Inr i)"

fun terminal_answer :: "provider_status \<Rightarrow> (identity_status \<times> string) option" where
  "terminal_answer CANCELLED = Some (Identity_cancelled, ''TIC_CANCELLED'')"
| "terminal_answer EXPIRED = Some (Identity_expired, ''TIC_EXPIRED'')"
| "terminal_answer FAILED = Some (Identity_failed, ''TIC_FAILED'')"
| "terminal_answer _ = None"

definition recordPoll :: "int \<Rightarrow> string \<Rightarrow> provider_status \<Rightarrow> signing_state \<Rightarrow> signing_state outcome" where
  "recordPoll now tid status st =
     (if status = COMPLETED then Inr (enqueue_job ''TIC_EVIDENCE_COLLECT'' (''tic-collect:'' @ tid) st)
      else case terminal_answer status of
        Some (t, reason) \<Rightarrow>
          update_identities (\<lambda>i. it_id i = tid \<and> live_identity i)
            (\<lambda>i. (set_identity t i)\<lparr>it_failure := Some reason\<rparr>) st
      | None \<Rightarrow>
          update_identities (\<lambda>i. it_id i = tid \<and> live_identity i)
            (\<lambda>i. (set_identity (if status = USER_ACTION_REQUIRED then Identity_user_action else Identity_pending) i)
                   \<lparr>it_polled := Some now\<rparr>) st)"

definition handleIdentityPoll ::
  "bool \<Rightarrow> (string \<Rightarrow> provider_status outcome) \<Rightarrow> int \<Rightarrow> string \<Rightarrow> signing_state \<Rightarrow> signing_state outcome" where
  "handleIdentityPoll tic provider now tid st =
     (if \<not> tic then permanent_error ''TIC_NOT_CONFIGURED''
      else bindR (load_identity tid st) (\<lambda>row.
        if it_status row \<in> {Identity_collected, Identity_verified, Identity_cancelled, Identity_expired, Identity_failed}
        then Inr st
        else bindR (provider (it_reference row)) (\<lambda>status. recordPoll now tid status st)))"

definition handleSignatureCreateGuard :: "string \<Rightarrow> signing_state \<Rightarrow> signing_state outcome" where
  "handleSignatureCreateGuard intent st =
     (case find (\<lambda>i. in_id i = intent) (ss_intents st) of
        None \<Rightarrow> permanent_error ''SIGNING_INTENT_NOT_FOUND''
      | Some i \<Rightarrow>
          (if in_status i = Intent_provider_started then Inr st
           else if in_status i \<noteq> Intent_prepared then permanent_error ''SIGNATURE_CREATE_STATE_INVALID''
           else permanent_error ''SIGNATURE_CREATE_MUST_USE_PUBLIC_BANKID_START''))"

text \<open>What a readable collect response yields: the key and the digest under which it is stored.\<close>

record collected =
  cl_key :: string
  cl_sha :: string

definition failIdentityTransaction :: "int \<Rightarrow> string \<Rightarrow> string \<Rightarrow> string \<Rightarrow> string \<Rightarrow> signing_state \<Rightarrow> signing_state outcome" where
  "failIdentityTransaction now tid intent signer reason st =
     bindR (update_identities (\<lambda>i. it_id i = tid \<and> live_identity i)
              (\<lambda>i. (set_identity Identity_failed i)
                 \<lparr>it_failure := Some reason, it_completed := if it_completed i = None then Some now else it_completed i\<rparr>) st) (\<lambda>st1.
     bindR (update_intents (\<lambda>i. in_id i = intent \<and> in_status i = Intent_provider_started) (set_intent Intent_failed) st1) (\<lambda>st2.
     bindR (update_signers Worker (\<lambda>s. sg_id s = signer \<and> sg_status s \<notin> {Signer_signed, Signer_declined, Signer_cancelled})
              (set_status Signer_failed) st2) (\<lambda>st3.
       Inr (log_entries [Audit ''bankid.evidence_failed'' tid, Outbox ''bankid.evidence_failed'' tid] st3))))"

definition recordCollected :: "int \<Rightarrow> string \<Rightarrow> string \<Rightarrow> collected \<Rightarrow> signing_state \<Rightarrow> signing_state outcome" where
  "recordCollected now tid intent evidence st =
     bindR (update_identities (\<lambda>i. it_id i = tid \<and> live_identity i)
              (\<lambda>i. (set_identity Identity_collected i)
                 \<lparr>it_completed := if it_completed i = None then Some now else it_completed i,
                  it_evidence := Some (cl_key evidence, cl_sha evidence)\<rparr>) st) (\<lambda>st1.
     bindR (update_intents (\<lambda>i. in_id i = intent \<and> in_status i = Intent_provider_started)
              (set_intent Intent_evidence_collected) st1) (\<lambda>st2.
       Inr (log_entries [Audit ''bankid.evidence_collected'' tid, Outbox ''bankid.evidence_collected'' tid]
              (enqueue_job ''SIGNATURE_VALIDATE'' (''signature-validate:'' @ tid) st2))))"

text \<open>The intent and the signer that the handler's join finds for a transaction.\<close>

definition joined_intent :: "identity_row \<Rightarrow> signing_state \<Rightarrow> intent_row outcome" where
  "joined_intent row st =
     (case find (\<lambda>i. in_id i = it_intent row) (ss_intents st) of
        None \<Rightarrow> permanent_error ''IDENTITY_TRANSACTION_NOT_FOUND'' | Some i \<Rightarrow> Inr i)"

definition handleTicCollect ::
  "bool \<Rightarrow> (string \<Rightarrow> collected outcome) \<Rightarrow> int \<Rightarrow> string \<Rightarrow> signing_state \<Rightarrow> signing_state \<times> unit outcome" where
  "handleTicCollect tic provider now tid st =
     (if \<not> tic then (st, permanent_error ''TIC_NOT_CONFIGURED'')
      else case bindR (load_identity tid st) (\<lambda>row. bindR (joined_intent row st) (\<lambda>i. Inr (row, i))) of
        Inl e \<Rightarrow> (st, Inl e)
      | Inr (row, i) \<Rightarrow>
          (if it_status row \<in> {Identity_collected, Identity_verified} then (st, Inr ())
           else if it_status row \<in> {Identity_cancelled, Identity_expired, Identity_failed}
           then (st, permanent_error ''TIC_SESSION_TERMINAL'')
           else case provider (it_reference row) of
             Inl (JsError n reason) \<Rightarrow>
               (if n \<noteq> ''PermanentWorkerError'' then (st, Inl (JsError n reason))
                else case failIdentityTransaction now tid (in_id i) (in_signer i) reason st of
                  Inl e \<Rightarrow> (st, Inl e) | Inr st' \<Rightarrow> (st', Inl (JsError n reason)))
           | Inl e \<Rightarrow> (st, Inl e)
           | Inr evidence \<Rightarrow>
               (case recordCollected now tid (in_id i) evidence st of
                  Inl e \<Rightarrow> (st, Inl e) | Inr st' \<Rightarrow> (st', Inr ()))))"

section \<open>The worker: validating\<close>

record validation_report =
  vr_pass :: bool
  vr_checks :: "bool list"
  vr_personalNumber :: "string option"
  vr_verifiedAt :: int

text \<open>
  The digests of the canonical documents as the object store returns them now, compared with the
  digests the signer consented to.
\<close>

definition document_checks :: "(string \<Rightarrow> string) \<Rightarrow> intent_row \<Rightarrow> signing_state \<Rightarrow> bool list outcome" where
  "document_checks stored_sha i st =
     traverse (\<lambda>d. case find (\<lambda>v. dc_version v = id_version d) (ss_documents st) of
                 None \<Rightarrow> Inr True
               | Some v \<Rightarrow>
                   (case dc_canonical v of
                      None \<Rightarrow> permanent_error ''DOCUMENT_NOT_READY''
                    | Some k \<Rightarrow> Inr (stored_sha k = id_sha d))) (in_documents i)"

definition evidence_passes :: "validation_report \<Rightarrow> bool list \<Rightarrow> bool" where
  "evidence_passes report checks \<longleftrightarrow>
     vr_pass report \<and> list_all (\<lambda>c. c) (vr_checks report @ checks) \<and> \<not> falsy (vr_personalNumber report)"

definition insert_identity_artifact :: "string \<Rightarrow> string \<Rightarrow> bool \<Rightarrow> signing_state \<Rightarrow> signing_state" where
  "insert_identity_artifact tid intent pass st =
     (if list_ex (\<lambda>a. ta_identity a = tid) (ss_identity_artifacts st) then st
      else st\<lparr>ss_identity_artifacts := ss_identity_artifacts st @
             [\<lparr>ta_identity = tid, ta_intent = intent, ta_pass = pass\<rparr>]\<rparr>)"

definition recordRejected :: "string \<Rightarrow> intent_row \<Rightarrow> signing_state \<Rightarrow> signing_state outcome" where
  "recordRejected tid i st =
     bindR (update_identities (\<lambda>r. it_id r = tid)
              (\<lambda>r. (set_identity Identity_failed r)\<lparr>it_failure := Some ''TIC_EVIDENCE_INVALID''\<rparr>)
              (insert_identity_artifact tid (in_id i) False st)) (\<lambda>st1.
     bindR (update_intents (\<lambda>r. in_id r = in_id i \<and> in_status r = Intent_evidence_collected) (set_intent Intent_failed) st1) (\<lambda>st2.
     bindR (update_signers Worker (\<lambda>s. sg_id s = in_signer i \<and> sg_status s \<notin> {Signer_signed, Signer_declined, Signer_cancelled})
              (set_status Signer_failed) st2) (\<lambda>st3.
       Inr (log_entries [Audit ''bankid.evidence_failed'' tid, Outbox ''bankid.evidence_failed'' tid] st3))))"

definition recordVerified :: "int \<Rightarrow> string \<Rightarrow> intent_row \<Rightarrow> string \<Rightarrow> signing_state \<Rightarrow> signing_state outcome" where
  "recordVerified now tid i personalNumber st =
     bindR (mapErr binding_error (normalizeSwedishPersonalNumber personalNumber now)) (\<lambda>number.
     bindR (update_identities (\<lambda>r. it_id r = tid \<and> it_status r = Identity_collected) (set_identity Identity_verified)
              (insert_identity_artifact tid (in_id i) True st)) (\<lambda>st1.
     bindR (update_intents (\<lambda>r. in_id r = in_id i \<and> in_status r = Intent_evidence_collected) (set_intent Intent_verified) st1) (\<lambda>st2.
     bindR (update_signers Worker (\<lambda>s. sg_id s = in_signer i \<and> sg_status s = Signer_identity_started)
              (\<lambda>s. (set_status Signer_identity_verified s)\<lparr>sg_verified := Some number\<rparr>) st2) (\<lambda>st3.
       Inr (log_entries [Audit ''bankid.evidence_verified'' tid, Audit ''signer.identity_verified'' (in_signer i),
                         Outbox ''signer.identity_verified'' (in_signer i)]
              (enqueue_job ''PADES_CREATE'' (''pades-create:'' @ in_id i) st3))))))"

definition recordValidation :: "int \<Rightarrow> string \<Rightarrow> intent_row \<Rightarrow> validation_report \<Rightarrow> bool list \<Rightarrow> signing_state \<Rightarrow> signing_state outcome" where
  "recordValidation now tid i report checks st =
     (if evidence_passes report checks then recordVerified now tid i (the (vr_personalNumber report)) st
      else recordRejected tid i st)"

definition handleSignatureValidate ::
  "(string \<Rightarrow> string) \<Rightarrow> (identity_row \<Rightarrow> intent_row \<Rightarrow> string option \<Rightarrow> validation_report outcome) \<Rightarrow> int \<Rightarrow> string \<Rightarrow>
   signing_state \<Rightarrow> signing_state outcome" where
  "handleSignatureValidate stored_sha validate now tid st =
     bindR (load_identity tid st) (\<lambda>row.
     bindR (joined_intent row st) (\<lambda>i.
       case find (\<lambda>s. sg_id s = in_signer i) (ss_signers st) of
         None \<Rightarrow> permanent_error ''IDENTITY_TRANSACTION_NOT_FOUND''
       | Some s \<Rightarrow>
           (if it_status row = Identity_verified then Inr st
            else if it_status row \<noteq> Identity_collected then permanent_error ''SIGNATURE_VALIDATE_STATE_INVALID''
            else
              bindR (if in_mode i = Some STRICT_PREBOUND
                     then (case sg_expected s of None \<Rightarrow> permanent_error ''PERSONAL_NUMBER_REQUIRED'' | Some e \<Rightarrow> Inr (Some e))
                     else Inr None) (\<lambda>expected.
              bindR (document_checks stored_sha i st) (\<lambda>checks.
              bindR (validate row i expected) (\<lambda>report.
                recordValidation now tid i report checks st))))))"

end
