(* ===== verification/Pades_Chain.thy ===== *)
theory Pades_Chain
  imports Bankid_Signing Signing_Manifest
begin

text \<open>
  The stages that turn verified identity evidence into an admitted signature
  (\<open>apps/workers/src/pades-handlers.ts\<close>), with the triggers of \<open>signature_attempts\<close> and
  \<open>signature_artifacts\<close> (migrations 0009 and 0021) and the object store (\<open>s3-object-storage.ts\<close>),
  whose objects outlive the transaction that fails after writing them.

  The signing service, the validation service and SHA-256 are arguments. A handler returns the
  state and the store next to its outcome: a throw keeps what earlier transactions wrote.
\<close>

section \<open>The object store\<close>

type_synonym bytes = "byte list"

type_synonym store = "string \<rightharpoonup> bytes"

text \<open>An immutable put: the same bytes again are a completed retry, other bytes are refused.\<close>

definition putObject :: "(bytes \<Rightarrow> string) \<Rightarrow> string \<Rightarrow> bytes \<Rightarrow> store \<Rightarrow> store outcome" where
  "putObject sha k b store =
     (case store k of
        None \<Rightarrow> Inr (store(k \<mapsto> b))
      | Some stored \<Rightarrow> (if sha stored = sha b then Inr store else throw ''STORAGE_OBJECT_ALREADY_EXISTS''))"

definition downloadObject :: "string \<Rightarrow> store \<Rightarrow> bytes outcome" where
  "downloadObject k store = (case store k of None \<Rightarrow> throw ''STORAGE_OBJECT_NOT_FOUND'' | Some b \<Rightarrow> Inr b)"

section \<open>Triggers of attempts and artifacts\<close>

definition attempt_consistency :: "attempt_row \<Rightarrow> signing_state \<Rightarrow> unit outcome" where
  "attempt_consistency new st =
     (case find (\<lambda>i. it_id i = at_identity new) (ss_identities st) of
        None \<Rightarrow> refused ''signature attempt does not match its verified identity transaction''
      | Some i \<Rightarrow>
          (if it_signer i \<noteq> at_signer new \<or> it_version i \<noteq> at_version new
           then refused ''signature attempt does not match its verified identity transaction''
           else case find (\<lambda>d. dc_version d = at_version new) (ss_documents st) of
             None \<Rightarrow> refused ''signature attempt document and signer belong to different signature cases''
           | Some d \<Rightarrow>
               (if dc_sha d = None \<or> dc_sha d \<noteq> Some (at_sha new)
                then refused ''signature attempt digest does not match immutable document digest''
                else if dc_status d \<notin> {Doc_locked, Doc_partially_signed, Doc_signed}
                then refused ''signature attempt requires a locked document version''
                else Inr ())))"

text \<open>The artifacts on a document version.\<close>

definition version_artifacts :: "string \<Rightarrow> signing_state \<Rightarrow> artifact_row list" where
  "version_artifacts v st =
     filter (\<lambda>ar. list_ex (\<lambda>attempt. at_id attempt = ar_attempt ar \<and> at_version attempt = v) (ss_attempts st)) (ss_artifacts st)"

definition revision_chain :: "artifact_row \<Rightarrow> signing_state \<Rightarrow> unit outcome" where
  "revision_chain new st =
     (case find (\<lambda>attempt. at_id attempt = ar_attempt new) (ss_attempts st) of
        None \<Rightarrow> refused ''signature artifact is not attached to a signature attempt''
      | Some attempt \<Rightarrow>
          (let v = at_version attempt;
               canonical = (case find (\<lambda>d. dc_version d = v) (ss_documents st) of None \<Rightarrow> None | Some d \<Rightarrow> dc_sha d);
               existing = filter (\<lambda>ar. ar_id ar \<noteq> ar_id new) (version_artifacts v st)
           in if existing = []
              then (if Some (ar_input new) \<noteq> canonical
                    then refused ''the first signature on a document must be applied to its canonical revision'' else Inr ())
              else if \<not> list_ex (\<lambda>ar. ar_sha ar = ar_input new) (version_artifacts v st)
              then refused ''signature must continue from an existing signed revision of the same document''
              else if list_ex (\<lambda>ar. ar_input ar = ar_input new) existing
              then refused ''two signatures cannot branch from the same document revision''
              else Inr ()))"

definition attained_pades_level :: "string \<Rightarrow> signing_state \<Rightarrow> pades_level option" where
  "attained_pades_level artifact st =
     (if artifact \<notin> set (ss_certificates st) \<or> artifact \<notin> set (ss_chains st) then None
      else if (artifact, ''SIGNATURE'') \<notin> set (ss_timestamps st) then Some B
      else if artifact \<notin> set (ss_revocations st) \<or>
              \<not> list_ex (\<lambda>rn. rn_artifact rn = artifact \<and> rn_trust_list rn) (ss_runs st) then Some T
      else if (artifact, ''ARCHIVE'') \<notin> set (ss_timestamps st) then Some LT
      else Some LTA)"

text \<open>Checked at commit, when the evidence of the transaction is in place.\<close>

definition level_not_overclaimed :: "artifact_row \<Rightarrow> signing_state \<Rightarrow> unit outcome" where
  "level_not_overclaimed new st =
     (case attained_pades_level (ar_id new) st of
        None \<Rightarrow> refused ''signature artifact has no signing certificate and chain, so it supports no PAdES level''
      | Some l \<Rightarrow>
          (if pades_index (ar_format new) > pades_index l
           then refused ''signature artifact claims more than the collected evidence supports'' else Inr ()))"

definition update_attempts :: "actor \<Rightarrow> (attempt_row \<Rightarrow> bool) \<Rightarrow> (attempt_row \<Rightarrow> attempt_row) \<Rightarrow> signing_state \<Rightarrow> signing_state outcome" where
  "update_attempts a p f st =
     bindR (update_rows (attempt_trigger a) p f (ss_attempts st)) (\<lambda>rs. Inr (st\<lparr>ss_attempts := rs\<rparr>))"

definition set_attempt :: "attempt_status \<Rightarrow> attempt_row \<Rightarrow> attempt_row" where
  "set_attempt t r = r\<lparr>at_status := t\<rparr>"

section \<open>Policy\<close>

definition requiredPadesLevel :: "policy_snapshot \<Rightarrow> pades_level option outcome" where
  "requiredPadesLevel p =
     (if ps_requiredPadesLevel p = Some (JStr ''NONE'') then Inr None
      else if ps_requiredPadesLevel p = Some (JStr ''B'') then Inr (Some B)
      else if ps_requiredPadesLevel p = Some (JStr ''T'') then Inr (Some T)
      else if ps_requiredPadesLevel p = Some (JStr ''LT'') then Inr (Some LT)
      else if ps_requiredPadesLevel p = Some (JStr ''LTA'') then Inr (Some LTA)
      else permanent_error ''SIGNATURE_POLICY_REQUIRED_PADES_LEVEL_INVALID'')"

fun accepted_result :: "json \<Rightarrow> validation_result list" where
  "accepted_result (JStr s) =
     (if s = ''TOTAL_PASSED'' then [TOTAL_PASSED] else if s = ''INDETERMINATE'' then [INDETERMINATE] else [])"
| "accepted_result _ = []"

definition allowedValidationResults :: "policy_snapshot \<Rightarrow> validation_result list" where
  "allowedValidationResults p =
     (case ps_allowedValidationResults p of
        Some (JArr vs) \<Rightarrow>
          (let allowed = concat (map accepted_result vs) in if allowed = [] then [TOTAL_PASSED] else allowed)
      | _ \<Rightarrow> [TOTAL_PASSED])"

fun json_truthy :: "json \<Rightarrow> bool" where
  "json_truthy JNull = False"
| "json_truthy (JBool b) = b"
| "json_truthy (JNum n) = (n \<noteq> JInt 0)"
| "json_truthy (JStr s) = (s \<noteq> [])"
| "json_truthy _ = True"

section \<open>Creating a signature\<close>

record sign_request =
  rs_signer :: string
  rs_version :: string
  rs_sha :: string
  rs_input :: string
  rs_level :: pades_level
  rs_bytes :: bytes

datatype sign_failure = SignService_not_configured | SignService_refused string | SignService_failed string

text \<open>An answer of the service; \<open>None\<close> is a field that is not the Base64 text of at least one byte.\<close>

record signed_artifact =
  sa_document :: "bytes option"
  sa_sha :: string
  sa_certificate :: "bytes option"
  sa_chain :: bytes

record pades_world =
  pw_tenant :: string
  pw_case :: string
  pw_sha :: "bytes \<Rightarrow> string"
  pw_signservice :: "(sign_request \<Rightarrow> (sign_failure, signed_artifact) result) option"
  pw_attempt :: "string \<Rightarrow> string"
  pw_artifact :: "string \<Rightarrow> string"

definition isPrefix :: "bytes \<Rightarrow> bytes \<Rightarrow> bool" where
  "isPrefix p w \<longleftrightarrow> length p \<le> length w \<and> take (length p) w = p"

definition case_path :: "pades_world \<Rightarrow> string" where
  "case_path w = pw_tenant w @ ''/cases/'' @ pw_case w"

text \<open>The verified intent with the identity transaction that verified it.\<close>

definition loadIntent :: "string \<Rightarrow> signing_state \<Rightarrow> (intent_row \<times> identity_row) outcome" where
  "loadIntent intent st =
     (case find (\<lambda>i. in_id i = intent) (ss_intents st) of
        None \<Rightarrow> permanent_error ''SIGNING_INTENT_NOT_VERIFIED''
      | Some i \<Rightarrow>
          (case find (\<lambda>t. it_intent t = intent \<and> it_status t = Identity_verified \<and>
                  list_ex (\<lambda>a. ta_identity a = it_id t \<and> ta_pass a) (ss_identity_artifacts st)) (ss_identities st) of
             None \<Rightarrow> permanent_error ''SIGNING_INTENT_NOT_VERIFIED''
           | Some t \<Rightarrow> Inr (i, t)))"

definition manifest_input_of :: "pades_world \<Rightarrow> intent_row \<Rightarrow> manifest_input" where
  "manifest_input_of w i =
     \<lparr>mi_tenantId = pw_tenant w, mi_signatureCaseId = pw_case w, mi_signingIntentId = in_id i, mi_signerId = in_signer i,
      mi_documents = map (\<lambda>d. \<lparr>md_ordinal = int (id_ordinal d), md_documentVersionId = id_version d,
         md_documentSha256 = id_sha d, md_displayName = id_name d, md_mimeType = ''application/pdf'',
         md_profile = ''PDF/A-2b'', md_byteSize = JInt (id_size d)\<rparr>) (in_documents i)\<rparr>"

definition recordManifest :: "pades_world \<Rightarrow> intent_row \<Rightarrow> signing_state \<times> store \<Rightarrow> (signing_state \<times> store) outcome" where
  "recordManifest w i s =
     bindR (mapErr (\<lambda>_. JsError ''SigningManifestError'' ''SIGNING_MANIFEST_INVALID'') (buildSigningIntentManifest (manifest_input_of w i))) (\<lambda>m.
     bindR (mapErr (\<lambda>_. JsError ''TypeError'' ''CANONICAL_JSON'') (signingIntentManifestBytes m)) (\<lambda>b.
     bindR (putObject (pw_sha w) (case_path w @ ''/signers/'' @ in_signer i @ ''/intents/'' @ in_id i @ ''/manifest.json'') b (snd s)) (\<lambda>store.
       Inr ((fst s)\<lparr>ss_manifests := if in_id i \<in> set (ss_manifests (fst s)) then ss_manifests (fst s)
                                  else ss_manifests (fst s) @ [in_id i]\<rparr>, store))))"

definition already_signed :: "string \<Rightarrow> string \<Rightarrow> signing_state \<Rightarrow> bool" where
  "already_signed signer v st \<longleftrightarrow>
     list_ex (\<lambda>ar. list_ex (\<lambda>attempt. at_id attempt = ar_attempt ar \<and> at_signer attempt = signer \<and> at_version attempt = v)
       (ss_attempts st)) (ss_artifacts st)"

text \<open>The newest validated revision: admitted with \<open>TOTAL_PASSED\<close> and continued by no artifact.\<close>

definition latest_artifact :: "string \<Rightarrow> signing_state \<Rightarrow> artifact_row option" where
  "latest_artifact v st =
     find (\<lambda>ar. list_ex (\<lambda>attempt. at_id attempt = ar_attempt ar \<and> at_version attempt = v \<and> at_status attempt = Attempt_validated)
                  (ss_attempts st) \<and>
                list_ex (\<lambda>rn. rn_artifact rn = ar_id ar \<and> rn_indication rn = TOTAL_PASSED) (ss_runs st) \<and>
                \<not> list_ex (\<lambda>successor. ar_input successor = ar_sha ar) (version_artifacts v st)) (ss_artifacts st)"

definition loadLatestRevision :: "pades_world \<Rightarrow> intent_document \<Rightarrow> signing_state \<times> store \<Rightarrow> (bytes \<times> string) outcome" where
  "loadLatestRevision w d s =
     (case latest_artifact (id_version d) (fst s) of
        Some ar \<Rightarrow>
          bindR (downloadObject (ar_key ar) (snd s)) (\<lambda>b.
            if pw_sha w b \<noteq> ar_sha ar then permanent_error ''SIGNED_REVISION_HASH_MISMATCH'' else Inr (b, pw_sha w b))
      | None \<Rightarrow>
          (case find (\<lambda>v. dc_version v = id_version d) (ss_documents (fst s)) of
             None \<Rightarrow> permanent_error ''DOCUMENT_NOT_CANONICALIZED''
           | Some v \<Rightarrow>
               (case dc_canonical v of
                  None \<Rightarrow> permanent_error ''DOCUMENT_NOT_CANONICALIZED''
                | Some k \<Rightarrow>
                    bindR (downloadObject k (snd s)) (\<lambda>b.
                      if pw_sha w b \<noteq> id_sha d then permanent_error ''CANONICAL_DOCUMENT_HASH_MISMATCH''
                      else Inr (b, pw_sha w b)))))"

fun sign_error :: "sign_failure \<Rightarrow> cause" where
  "sign_error SignService_not_configured = JsError ''PermanentWorkerError'' ''SIGNSERVICE_NOT_CONFIGURED''"
| "sign_error (SignService_refused r) = JsError ''PermanentWorkerError'' (''SIGNSERVICE_REFUSED_'' @ r)"
| "sign_error (SignService_failed m) = JsError ''Error'' m"

text \<open>The checks on what the service returns: the signed bytes and the certificate.\<close>

definition accept_signed :: "(bytes \<Rightarrow> string) \<Rightarrow> bytes \<Rightarrow> signed_artifact \<Rightarrow> bytes outcome" where
  "accept_signed sha input sa =
     (case sa_document sa of
        None \<Rightarrow> permanent_error ''SIGNSERVICE_ARTIFACT_INVALID''
      | Some revised \<Rightarrow>
          (if sha revised \<noteq> sa_sha sa then permanent_error ''SIGNSERVICE_ARTIFACT_HASH_MISMATCH''
           else if \<not> isPrefix input revised then permanent_error ''SIGNED_REVISION_NOT_INCREMENTAL''
           else Inr revised))"

definition signature_path :: "pades_world \<Rightarrow> string \<Rightarrow> string \<Rightarrow> string \<Rightarrow> string" where
  "signature_path w document v signer =
     case_path w @ ''/documents/'' @ document @ ''/versions/'' @ v @ ''/signatures/'' @ signer"

definition put_signature :: "pades_world \<Rightarrow> string \<Rightarrow> bytes \<Rightarrow> bytes \<Rightarrow> bytes \<Rightarrow> store \<Rightarrow> store outcome" where
  "put_signature w path revised certificate chain store =
     bindR (putObject (pw_sha w) (path @ ''/signed.pdf'') revised store) (\<lambda>s1.
     bindR (putObject (pw_sha w) (path @ ''/signing-certificate.der'') certificate s1) (\<lambda>s2.
     bindR (putObject (pw_sha w) (path @ ''/certificate-chain.p7b'') chain s2) (\<lambda>s3.
       putObject (pw_sha w) (path @ ''/signature-value.p7s'') revised s3)))"

definition next_attempt :: "string \<Rightarrow> signing_state \<Rightarrow> nat" where
  "next_attempt signer st =
     (case map at_number (filter (\<lambda>r. at_signer r = signer) (ss_attempts st)) of
        [] \<Rightarrow> 1 | ns \<Rightarrow> Suc (Max (set ns)))"

text \<open>The transaction that writes attempt, artifact and evidence.\<close>

definition recordSignature ::
  "string \<Rightarrow> string \<Rightarrow> string \<Rightarrow> identity_row \<Rightarrow> intent_document \<Rightarrow> pades_level \<Rightarrow> string \<Rightarrow> string \<Rightarrow> string \<Rightarrow>
   signing_state \<Rightarrow> signing_state outcome" where
  "recordSignature attemptId artifactId signer t d level path signedSha inputSha st =
     (let attempt = \<lparr>at_id = attemptId, at_signer = signer, at_version = id_version d, at_identity = it_id t,
                     at_number = next_attempt signer st, at_status = Attempt_prepared, at_sha = id_sha d\<rparr>;
          artifact = \<lparr>ar_id = artifactId, ar_attempt = attemptId, ar_format = level, ar_key = path @ ''/signed.pdf'',
                      ar_sha = signedSha, ar_input = inputSha\<rparr>
      in
        bindR (attempt_consistency attempt st) (\<lambda>_.
        bindR (update_attempts Trusted_service (\<lambda>r. at_id r = attemptId) (set_attempt Attempt_identity_verified)
                 (st\<lparr>ss_attempts := ss_attempts st @ [attempt]\<rparr>)) (\<lambda>st1.
        bindR (update_attempts Trusted_service (\<lambda>r. at_id r = attemptId) (set_attempt Attempt_credential_issued) st1) (\<lambda>st2.
        bindR (revision_chain artifact st2) (\<lambda>_.
        bindR (update_attempts Trusted_service (\<lambda>r. at_id r = attemptId) (set_attempt Attempt_signed)
                 (st2\<lparr>ss_artifacts := ss_artifacts st2 @ [artifact],
                      ss_certificates := ss_certificates st2 @ [artifactId],
                      ss_chains := ss_chains st2 @ [artifactId]\<rparr>)) (\<lambda>st3.
        bindR (level_not_overclaimed artifact st3) (\<lambda>_.
          Inr (log_entries [Audit ''signature.pades_created'' artifactId]
                 (enqueue_job ''PADES_VALIDATE'' (''pades-validate:'' @ artifactId) st3)))))))))"

text \<open>One turn of the loop over the signable documents.\<close>

definition create_one ::
  "pades_world \<Rightarrow> (sign_request \<Rightarrow> (sign_failure, signed_artifact) result) \<Rightarrow> intent_row \<Rightarrow> identity_row \<Rightarrow> pades_level \<Rightarrow>
   intent_document \<Rightarrow> signing_state \<times> store \<Rightarrow> (signing_state \<times> store) \<times> unit outcome" where
  "create_one w service i t level d s =
     (if already_signed (in_signer i) (id_version d) (fst s) then (s, Inr ())
      else case loadLatestRevision w d s of
        Inl e \<Rightarrow> (s, Inl e)
      | Inr (input, inputSha) \<Rightarrow>
          (case service \<lparr>rs_signer = in_signer i, rs_version = id_version d, rs_sha = id_sha d, rs_input = inputSha,
                         rs_level = level, rs_bytes = input\<rparr> of
             Inl f \<Rightarrow> (s, Inl (sign_error f))
           | Inr sa \<Rightarrow>
               (case accept_signed (pw_sha w) input sa of
                  Inl e \<Rightarrow> (s, Inl e)
                | Inr revised \<Rightarrow>
                    (let document = (case find (\<lambda>v. dc_version v = id_version d) (ss_documents (fst s)) of
                                       None \<Rightarrow> [] | Some v \<Rightarrow> dc_id v);
                         path = signature_path w document (id_version d) (in_signer i)
                     in case sa_certificate sa of
                          None \<Rightarrow> (s, permanent_error ''SIGNSERVICE_CERTIFICATE_INVALID'')
                        | Some certificate \<Rightarrow>
                            (case put_signature w path revised certificate (sa_chain sa) (snd s) of
                               Inl e \<Rightarrow> (s, Inl e)
                             | Inr store \<Rightarrow>
                                 (case recordSignature (pw_attempt w (id_version d)) (pw_artifact w (id_version d))
                                          (in_signer i) t d level path (pw_sha w revised) inputSha (fst s) of
                                    Inl e \<Rightarrow> ((fst s, store), Inl e)
                                  | Inr st \<Rightarrow> ((st, store), Inr ())))))))"

fun create_all ::
  "pades_world \<Rightarrow> (sign_request \<Rightarrow> (sign_failure, signed_artifact) result) \<Rightarrow> intent_row \<Rightarrow> identity_row \<Rightarrow> pades_level \<Rightarrow>
   intent_document list \<Rightarrow> signing_state \<times> store \<Rightarrow> (signing_state \<times> store) \<times> unit outcome" where
  "create_all w service i t level [] s = (s, Inr ())"
| "create_all w service i t level (d # ds) s =
     (case create_one w service i t level d s of
        (s', Inl e) \<Rightarrow> (s', Inl e)
      | (s', Inr u) \<Rightarrow> create_all w service i t level ds s')"

definition begin_signing :: "string \<Rightarrow> signing_state \<Rightarrow> signing_state outcome" where
  "begin_signing signer st =
     update_signers Worker (\<lambda>s. sg_id s = signer \<and> sg_status s = Signer_identity_verified) (set_status Signer_signing) st"

definition handlePadesCreate ::
  "pades_world \<Rightarrow> string \<Rightarrow> signing_state \<times> store \<Rightarrow> (signing_state \<times> store) \<times> unit outcome" where
  "handlePadesCreate w intent s =
     (case pw_signservice w of
        None \<Rightarrow> (s, permanent_error ''SIGNSERVICE_NOT_CONFIGURED'')
      | Some service \<Rightarrow>
          (case loadIntent intent (fst s) of
             Inl e \<Rightarrow> (s, Inl e)
           | Inr (i, t) \<Rightarrow>
               (if cs_mode (ss_case (fst s)) \<noteq> ELECTRONIC_SIGNATURE
                then (s, permanent_error ''PADES_NOT_APPLICABLE_TO_DECISION_MODE'')
                else if in_status i = Intent_packaged then (s, Inr ())
                else if in_status i \<noteq> Intent_verified then (s, permanent_error ''PADES_CREATE_STATE_INVALID'')
                else if in_documents i = [] then (s, permanent_error ''SIGNING_INTENT_HAS_NO_DOCUMENTS'')
                else case recordManifest w i s of
                  Inl e \<Rightarrow> (s, Inl e)
                | Inr s1 \<Rightarrow>
                    (if signables i = [] then (s1, permanent_error ''SIGNING_INTENT_HAS_NO_SIGNABLE_DOCUMENT'')
                     else case requiredPadesLevel (cs_policy (ss_case (fst s))) of
                       Inl e \<Rightarrow> (s1, Inl e)
                     | Inr None \<Rightarrow> (s1, permanent_error ''ELECTRONIC_SIGNATURE_POLICY_REQUIRES_A_PADES_LEVEL'')
                     | Inr (Some level) \<Rightarrow>
                         (case begin_signing (in_signer i) (fst s1) of
                            Inl e \<Rightarrow> (s1, Inl e)
                          | Inr st2 \<Rightarrow> create_all w service i t level (signables i) (st2, snd s1))))))"

section \<open>Validating a signature\<close>

record pades_report =
  pr_pass :: bool
  pr_indication :: validation_result
  pr_trusted_path :: bool
  pr_timestamp :: bool
  pr_revocation :: bool
  pr_archive_timestamp :: bool
  pr_validatedAt :: string
  pr_bytes :: bytes

definition report_evidence :: "string \<Rightarrow> string \<Rightarrow> pades_report \<Rightarrow> signature_evidence" where
  "report_evidence artifact revision r =
     \<lparr>se_signingCertificateReference = (if pr_trusted_path r then Some (''signature_certificates:'' @ artifact) else None),
      se_certificateChainReference = (if pr_trusted_path r then Some (''certificate_chains:'' @ artifact) else None),
      se_signedRevisionSha256 = Some revision,
      se_signatureTimestampReference = (if pr_timestamp r then Some (''timestamp_tokens:'' @ artifact) else None),
      se_archiveTimestampReference = (if pr_archive_timestamp r then Some (''timestamp_tokens:archive:'' @ artifact) else None),
      se_revocationEvidenceReferences = (if pr_revocation r then [''ocsp_evidence:'' @ artifact] else []),
      se_trustListSnapshotReference = None,
      se_validationResult = Some (pr_indication r), se_validatedAt = Some (pr_validatedAt r)\<rparr>"

definition admission_policy :: "policy_snapshot \<Rightarrow> pades_level option \<Rightarrow> pades_policy" where
  "admission_policy p level =
     \<lparr>pp_requiredPadesLevel = level,
      pp_requiresTimestamp = (case ps_requiresTimestamp p of None \<Rightarrow> False | Some j \<Rightarrow> json_truthy j),
      pp_allowedValidationResults = allowedValidationResults p\<rparr>"

definition reject_signature :: "string \<Rightarrow> string \<Rightarrow> string \<Rightarrow> string \<Rightarrow> signing_state \<Rightarrow> signing_state outcome" where
  "reject_signature attempt artifact signer event st =
     bindR (update_attempts Trusted_service (\<lambda>r. at_id r = attempt) (set_attempt Attempt_failed) st) (\<lambda>st1.
     bindR (update_signers Trusted_service (\<lambda>s. sg_id s = signer \<and> sg_status s = Signer_signing) (set_status Signer_failed) st1) (\<lambda>st2.
       Inr (log_entries [Audit event artifact, Outbox event artifact] st2)))"

definition outstanding :: "string \<Rightarrow> string \<Rightarrow> signing_state \<Rightarrow> bool" where
  "outstanding intent signer st \<longleftrightarrow>
     list_ex (\<lambda>i. in_id i = intent \<and>
       list_ex (\<lambda>d. \<not> list_ex (\<lambda>r. at_signer r = signer \<and> at_version r = id_version d \<and> at_status r = Attempt_validated)
         (ss_attempts st)) (signables i)) (ss_intents st)"

definition complete_signer :: "fresh \<Rightarrow> int \<Rightarrow> string \<Rightarrow> string \<Rightarrow> signing_state \<Rightarrow> signing_state outcome" where
  "complete_signer fr now intent signer st =
     bindR (update_signers Trusted_service (\<lambda>s. sg_id s = signer \<and> sg_status s = Signer_signing) (set_status Signer_signed) st) (\<lambda>st1.
     bindR (update_intents (\<lambda>r. in_id r = intent \<and> in_status r = Intent_verified) (set_intent Intent_packaged) st1) (\<lambda>st2.
     bindR (update_invitations (\<lambda>v. iv_signer v = signer \<and> iv_used v = None) (\<lambda>v. v\<lparr>iv_used := Some now\<rparr>) st2) (\<lambda>st3.
     bindR (activateNextSigningGroup Trusted_service fr
              (log_entries [Audit ''signer.signed'' signer, Outbox ''signer.signed'' signer]
                (enqueue_job ''EVIDENCE_PACKAGE_BUILD'' (''signer-package:'' @ signer) st3))) (\<lambda>st4.
       Inr (if list_ex (\<lambda>s. sg_required s \<and> sg_status s \<noteq> Signer_signed) (ss_signers st4) then st4
            else enqueue_job ''EVIDENCE_PACKAGE_BUILD'' ''case-package'' st4)))))"

definition admit_signature ::
  "fresh \<Rightarrow> int \<Rightarrow> string \<Rightarrow> string \<Rightarrow> string \<Rightarrow> artifact_row \<Rightarrow> signing_state \<Rightarrow> signing_state outcome" where
  "admit_signature fr now intent attempt signer artifact st =
     bindR (update_attempts Trusted_service (\<lambda>r. at_id r = attempt) (set_attempt Attempt_validated) st) (\<lambda>st1.
       let st2 = log_entries [Audit ''signature.pades_admitted'' (ar_id artifact)] st1
       in if outstanding intent signer st2 then Inr st2 else complete_signer fr now intent signer st2)"

definition recordPadesReport ::
  "fresh \<Rightarrow> int \<Rightarrow> string \<Rightarrow> pades_level option \<Rightarrow> string \<Rightarrow> string \<Rightarrow> string \<Rightarrow> artifact_row \<Rightarrow> pades_report \<Rightarrow>
   signing_state \<Rightarrow> signing_state outcome" where
  "recordPadesReport fr now reportSha level intent attempt signer artifact r st =
     (let st1 = st\<lparr>ss_runs := ss_runs st @
            [\<lparr>rn_artifact = ar_id artifact, rn_indication = pr_indication r, rn_trust_list = False, rn_report = reportSha\<rparr>]\<rparr>
      in if \<not> pr_pass r
         then reject_signature attempt (ar_id artifact) signer ''signature.pades_validation_failed'' st1
         else case admitPadesSignature (admission_policy (cs_policy (ss_case st)) level)
                     (report_evidence (ar_id artifact) (ar_sha artifact) r) of
           Inl _ \<Rightarrow> reject_signature attempt (ar_id artifact) signer ''signature.pades_not_admitted'' st1
         | Inr _ \<Rightarrow> admit_signature fr now intent attempt signer artifact st1)"

definition handlePadesValidate ::
  "pades_world \<Rightarrow> fresh \<Rightarrow> int \<Rightarrow> bool \<Rightarrow> (bytes \<Rightarrow> string \<Rightarrow> pades_report outcome) \<Rightarrow> string \<Rightarrow> string \<Rightarrow> string \<Rightarrow> string \<Rightarrow>
   signing_state \<times> store \<Rightarrow> (signing_state \<times> store) \<times> unit outcome" where
  "handlePadesValidate w fr now anchors validate intent artifactId attemptId signedKey s =
     (if \<not> anchors then (s, permanent_error ''SIGNING_TRUST_ANCHORS_NOT_CONFIGURED'')
      else case (find (\<lambda>ar. ar_id ar = artifactId) (ss_artifacts (fst s)), find (\<lambda>i. in_id i = intent) (ss_intents (fst s))) of
        (Some artifact, Some i) \<Rightarrow>
          (case find (\<lambda>r. at_id r = ar_attempt artifact) (ss_attempts (fst s)) of
             None \<Rightarrow> (s, permanent_error ''SIGNATURE_ARTIFACT_NOT_FOUND'')
           | Some attempt \<Rightarrow>
               (if at_status attempt = Attempt_validated then (s, Inr ())
                else if at_status attempt \<noteq> Attempt_signed then (s, permanent_error ''PADES_VALIDATE_STATE_INVALID'')
                else case bindR (downloadObject signedKey (snd s)) (\<lambda>b. validate b (ar_sha artifact)) of
                  Inl e \<Rightarrow> (s, Inl e)
                | Inr r \<Rightarrow>
                    (case putObject (pw_sha w)
                            (case_path w @ ''/signers/'' @ at_signer attempt @ ''/signatures/'' @ artifactId @ ''/validation-report.json'')
                            (pr_bytes r) (snd s) of
                       Inl e \<Rightarrow> (s, Inl e)
                     | Inr store \<Rightarrow>
                         (case bindR (requiredPadesLevel (cs_policy (ss_case (fst s)))) (\<lambda>level.
                                 recordPadesReport fr now (pw_sha w (pr_bytes r)) level intent attemptId (at_signer attempt) artifact r (fst s)) of
                            Inl e \<Rightarrow> ((fst s, store), Inl e)
                          | Inr st \<Rightarrow> ((st, store), Inr ())))))
      | _ \<Rightarrow> (s, permanent_error ''SIGNATURE_ARTIFACT_NOT_FOUND''))"

end
