(* ===== verification/Uploads.thy ===== *)
theory Uploads
  imports Jobs Crypto_Encoding
begin

text \<open>
  Upload rules (\<open>packages/uploads/src/index.ts\<close>): the metadata an uploader may declare, the
  comparison of the stored bytes with the declaration, and the container that the first bytes
  of a file show.
\<close>

section \<open>Metadata\<close>

record upload_metadata =
  um_fileName :: string
  um_mimeType :: string
  um_byteSize :: jsnum
  um_sha256 :: string

definition microsoft_365_source_mime_types :: "string list" where
  "microsoft_365_source_mime_types =
     [''application/vnd.openxmlformats-officedocument.wordprocessingml.document'',
      ''application/vnd.openxmlformats-officedocument.spreadsheetml.sheet'',
      ''application/vnd.openxmlformats-officedocument.presentationml.presentation'']"

text \<open>The office types with the file name extension each one requires.\<close>

definition office_extension_by_mime :: "(string \<times> string) list" where
  "office_extension_by_mime =
     zip (microsoft_365_source_mime_types @
          [''application/vnd.oasis.opendocument.text'', ''application/vnd.oasis.opendocument.spreadsheet'', ''application/rtf''])
         [''.docx'', ''.xlsx'', ''.pptx'', ''.odt'', ''.ods'', ''.rtf'']"

definition office_source_mime_types :: "string list" where
  "office_source_mime_types = map fst office_extension_by_mime"

definition macro_office_extensions :: "string list" where
  "macro_office_extensions = [''.docm'', ''.xlsm'', ''.pptm'', ''.dotm'', ''.xltm'', ''.potm'']"

definition office_source_max_bytes :: int where
  "office_source_max_bytes = 50 * 1024 * 1024"

definition safe_file_name :: "string \<Rightarrow> bool" where
  "safe_file_name s \<longleftrightarrow>
     1 \<le> length s \<and> length s \<le> 200 \<and>
     list_all (\<lambda>c. 32 \<le> code c \<and> code c \<noteq> 127 \<and> c \<noteq> CHR 0x5C \<and> c \<noteq> CHR ''/'') s"

definition validateUploadMetadata :: "string list \<Rightarrow> int \<Rightarrow> upload_metadata \<Rightarrow> upload_metadata outcome" where
  "validateUploadMetadata allowed maximumBytes inp =
     (let fileName = js_trim (um_fileName inp);
          mimeType = js_lower (js_trim (um_mimeType inp));
          sha256 = js_lower (js_trim (um_sha256 inp));
          lowerFileName = js_lower fileName
      in if \<not> safe_file_name fileName \<or> fileName = ''.'' \<or> fileName = ''..'' then throw ''UPLOAD_FILE_NAME_INVALID''
         else if mimeType \<notin> set allowed then throw ''UPLOAD_MIME_TYPE_FORBIDDEN''
         else if \<not> is_safe_integer (um_byteSize inp) \<or> num_less (um_byteSize inp) 1 \<or> num_greater (um_byteSize inp) maximumBytes
         then throw ''UPLOAD_SIZE_FORBIDDEN''
         else if list_ex (\<lambda>e. ends_with e lowerFileName) macro_office_extensions
         then throw ''UPLOAD_OFFICE_MACRO_FORMAT_FORBIDDEN''
         else if mimeType \<in> set office_source_mime_types \<and> num_greater (um_byteSize inp) office_source_max_bytes
         then throw ''UPLOAD_SIZE_FORBIDDEN''
         else if mimeType \<in> set office_source_mime_types \<and>
                 \<not> ends_with (the (map_of office_extension_by_mime mimeType)) lowerFileName
         then throw ''UPLOAD_OFFICE_MIME_EXTENSION_MISMATCH''
         else if \<not> is_sha256_hex sha256 then throw ''UPLOAD_SHA256_INVALID''
         else Inr \<lparr>um_fileName = fileName, um_mimeType = mimeType, um_byteSize = um_byteSize inp, um_sha256 = sha256\<rparr>)"

section \<open>Stored bytes\<close>

definition storedBytesMatchGrant :: "string \<Rightarrow> string \<Rightarrow> jsnum \<Rightarrow> jsnum \<Rightarrow> bool" where
  "storedBytesMatchGrant expectedSha256 actualSha256 expectedByteSize actualByteSize \<longleftrightarrow>
     (let expected = js_lower (js_trim expectedSha256); actual = js_lower (js_trim actualSha256)
      in if \<not> is_sha256_hex expected \<or> \<not> is_sha256_hex actual then False
         else if \<not> is_safe_integer expectedByteSize \<or> \<not> is_safe_integer actualByteSize then False
         else if expectedByteSize \<noteq> actualByteSize then False
         else expected = actual)"

section \<open>Containers\<close>

datatype container = Container_pdf | Container_zip | Container_rtf | Container_unknown

definition detectDocumentMimeType :: "byte list \<Rightarrow> container" where
  "detectDocumentMimeType bs =
     (if take 5 bs = [0x25, 0x50, 0x44, 0x46, 0x2D] then Container_pdf
      else if take 4 bs \<in> {[0x50, 0x4B, 3, 4], [0x50, 0x4B, 5, 6], [0x50, 0x4B, 7, 8]} then Container_zip
      else if take 5 bs = [0x7B, 0x5C, 0x72, 0x74, 0x66] then Container_rtf
      else Container_unknown)"

definition assertMagicBytesMatch :: "string \<Rightarrow> byte list \<Rightarrow> unit outcome" where
  "assertMagicBytesMatch declaredMimeType bs =
     (let declared = js_lower (js_trim declaredMimeType); detected = detectDocumentMimeType bs
      in if declared = ''application/pdf'' \<and> detected \<noteq> Container_pdf then throw ''UPLOAD_MAGIC_BYTES_MISMATCH''
         else if declared = ''application/rtf'' \<and> detected \<noteq> Container_rtf then throw ''UPLOAD_MAGIC_BYTES_MISMATCH''
         else if declared \<in> set microsoft_365_source_mime_types \<and> detected \<noteq> Container_zip
         then throw ''UPLOAD_MAGIC_BYTES_MISMATCH''
         else if declared \<in> {''application/vnd.oasis.opendocument.text'', ''application/vnd.oasis.opendocument.spreadsheet''} \<and>
                 detected \<noteq> Container_zip
         then throw ''UPLOAD_MAGIC_BYTES_MISMATCH''
         else Inr ())"

section \<open>Properties\<close>

lemma throw_neq [simp]: "throw m \<noteq> Inr x" "Inr x \<noteq> throw m"
  by (simp_all add: throw_def)

text \<open>What validation returns, it returns unchanged when it is given it again.\<close>

definition canonical_metadata :: "string list \<Rightarrow> int \<Rightarrow> upload_metadata \<Rightarrow> bool" where
  "canonical_metadata allowed maximum m \<longleftrightarrow>
     js_trim (um_fileName m) = um_fileName m \<and> safe_file_name (um_fileName m) \<and> um_fileName m \<notin> {''.'', ''..''} \<and>
     um_mimeType m \<in> set allowed \<and> is_sha256_hex (um_sha256 m) \<and>
     (\<exists>n. um_byteSize m = NInt n \<and> 1 \<le> n \<and> n \<le> maximum \<and>
       (um_mimeType m \<in> set office_source_mime_types \<longrightarrow> n \<le> office_source_max_bytes)) \<and>
     (\<forall>e. e \<in> set macro_office_extensions \<longrightarrow> \<not> ends_with e (js_lower (um_fileName m))) \<and>
     (\<forall>e. map_of office_extension_by_mime (um_mimeType m) = Some e \<longrightarrow> ends_with e (js_lower (um_fileName m)))"

lemma map_of_zip_the: "m \<in> fst ` set xs \<Longrightarrow> map_of xs m = Some (the (map_of xs m))"
  by (metis option.collapse map_of_eq_None_iff)

text \<open>C0. What \<open>validateUploadMetadata\<close> returns is canonical: a trimmed file name without separators or
  control characters, an allowed type, a whole size within the limit of its type, no macro format, the
  extension its type requires, a lower-case digest.\<close>
theorem validated_upload_canonical:
  assumes "validateUploadMetadata allowed maximum inp = Inr m"
  shows "canonical_metadata allowed maximum m"
proof -
  let ?f = "js_trim (um_fileName inp)" and ?t = "js_lower (js_trim (um_mimeType inp))"
  have r: "m = \<lparr>um_fileName = ?f, um_mimeType = ?t, um_byteSize = um_byteSize inp, um_sha256 = js_lower (js_trim (um_sha256 inp))\<rparr>"
    and f: "safe_file_name ?f" "?f \<noteq> ''.''" "?f \<noteq> ''..''" "?t \<in> set allowed"
    and n: "is_safe_integer (um_byteSize inp)" "\<not> num_less (um_byteSize inp) 1" "\<not> num_greater (um_byteSize inp) maximum"
    and e: "\<not> list_ex (\<lambda>e. ends_with e (js_lower ?f)) macro_office_extensions"
    and o: "?t \<in> set office_source_mime_types \<longrightarrow> \<not> num_greater (um_byteSize inp) office_source_max_bytes"
      "?t \<in> set office_source_mime_types \<longrightarrow> ends_with (the (map_of office_extension_by_mime ?t)) (js_lower ?f)"
    and s: "is_sha256_hex (js_lower (js_trim (um_sha256 inp)))"
    using assms unfolding validateUploadMetadata_def Let_def by (simp_all split: if_splits)
  obtain k where k: "um_byteSize inp = NInt k" using n(1) by (auto simp: safe_integer_iff)
  have x: "ends_with x (js_lower ?f)" if "map_of office_extension_by_mime ?t = Some x" for x
    using o(2) that unfolding office_source_mime_types_def
    by (metis image_eqI fst_conv list.set_map map_of_SomeD option.sel)
  show ?thesis unfolding canonical_metadata_def r
    using f n e o(1) s k x by (auto simp: list_ex_iff not_less)
qed

theorem validated_upload_canonical_witness:
  "canonical_metadata [''application/rtf''] 100
     \<lparr>um_fileName = ''a.RTF'', um_mimeType = ''application/rtf'', um_byteSize = NInt 7, um_sha256 = replicate 64 (CHR ''a'')\<rparr>"
proof (rule validated_upload_canonical)
  show "validateUploadMetadata [''application/rtf''] 100
      \<lparr>um_fileName = '' a.RTF'', um_mimeType = ''Application/RTF '', um_byteSize = NInt 7, um_sha256 = replicate 64 (CHR ''A'')\<rparr>
    = Inr \<lparr>um_fileName = ''a.RTF'', um_mimeType = ''application/rtf'', um_byteSize = NInt 7, um_sha256 = replicate 64 (CHR ''a'')\<rparr>"
    by code_simp
qed

end
