(* ===== verification/Document_Intake.thy ===== *)
theory Document_Intake
  imports Signing_Case Uploads
begin

text \<open>
  The worker's path of a document from quarantine to a canonical PDF/A
  (\<open>handleDocumentScan\<close> and \<open>handleDocumentCanonicalize\<close> in
  \<open>apps/workers/src/production-handlers.ts\<close>). The object store, the malware scanner, qpdf, Gotenberg
  and veraPDF are a record of functions. A throw keeps the transactions before it. Writing the
  reports and the canonical bytes to the store is taken to succeed; what is in them is left out.
\<close>

record inspection =
  ins_passed :: bool
  ins_pages :: int

record intake_world =
  iw_download :: "string \<Rightarrow> byte list outcome"
  iw_sha :: "byte list \<Rightarrow> string"
  iw_clean :: "byte list \<Rightarrow> bool outcome"
  iw_inspect :: "byte list \<Rightarrow> inspection outcome"
  iw_convert :: "byte list \<Rightarrow> byte list outcome"
  iw_compliant :: "byte list \<Rightarrow> bool outcome"
  iw_canonical_key :: "string \<Rightarrow> string"

definition find_document :: "string \<Rightarrow> signing_state \<Rightarrow> document_row outcome" where
  "find_document v st =
     (case find (\<lambda>d. dc_version d = v) (ss_documents st) of
        None \<Rightarrow> permanent_error ''DOCUMENT_VERSION_NOT_FOUND'' | Some d \<Rightarrow> Inr d)"

text \<open>\<open>saveProcessorReport\<close>: the first report of a type wins.\<close>

definition save_report :: "string \<Rightarrow> string \<Rightarrow> bool \<Rightarrow> signing_state \<Rightarrow> signing_state" where
  "save_report v type pass st =
     (if list_ex (\<lambda>(v', t', _). v' = v \<and> t' = type) (ss_reports st) then st
      else st\<lparr>ss_reports := ss_reports st @ [(v, type, pass)]\<rparr>)"

definition rejectDocument :: "string \<Rightarrow> signing_state \<Rightarrow> signing_state outcome" where
  "rejectDocument v st =
     bindR (update_documents Worker
              (\<lambda>d. dc_version d = v \<and> dc_status d \<notin> set (Doc_ready # locked_statuses)) (\<lambda>d. d\<lparr>dc_status := Doc_rejected\<rparr>) st)
       (\<lambda>st1. Inr (log_entries [Audit ''document.scan_failed'' v, Outbox ''document.scan_failed'' v] st1))"

text \<open>A transaction at the end of a handler: a refused one leaves the state of the one before.\<close>

definition finish :: "signing_state \<Rightarrow> signing_state outcome \<Rightarrow> signing_state \<times> unit outcome" where
  "finish st r = (case r of Inl e \<Rightarrow> (st, Inl e) | Inr st' \<Rightarrow> (st', Inr ()))"

definition begin_scan :: "string \<Rightarrow> signing_state \<Rightarrow> (signing_state \<times> document_row option) outcome" where
  "begin_scan v st =
     bindR (find_document v st) (\<lambda>d.
       if dc_status d \<in> set ([Doc_canonicalizing, Doc_ready, Doc_rejected] @ locked_statuses) then Inr (st, None)
       else if dc_status d \<notin> {Doc_uploaded, Doc_quarantined, Doc_scanning} then permanent_error ''DOCUMENT_SCAN_STATE_INVALID''
       else bindR (update_documents Worker (\<lambda>d. dc_version d = v) (\<lambda>d. d\<lparr>dc_status := Doc_scanning\<rparr>) st) (\<lambda>st1.
         Inr (st1, Some d)))"

definition scan_passed :: "string \<Rightarrow> string \<Rightarrow> int \<Rightarrow> signing_state \<Rightarrow> signing_state outcome" where
  "scan_passed v doc pages st =
     bindR (update_documents Worker (\<lambda>d. dc_version d = v \<and> dc_status d = Doc_scanning)
              (\<lambda>d. d\<lparr>dc_status := Doc_canonicalizing, dc_pages := Some pages\<rparr>) (st\<lparr>ss_clean := ss_clean st @ [v]\<rparr>)) (\<lambda>st1.
       Inr (log_entries [Audit ''document.scan_passed'' v, Outbox ''document.scan_passed'' doc]
              (enqueue_job ''DOCUMENT_CANONICALIZE'' (''document-canonicalize:'' @ v) st1)))"

text \<open>The errors of qpdf that reject the document; every other one is thrown on.\<close>

definition permanent_document_codes :: "string list" where
  "permanent_document_codes =
     [''DOCUMENT_TOO_LARGE'', ''DOCUMENT_PAGE_LIMIT_EXCEEDED'', ''DOCUMENT_PDF_POLICY_REJECTED'',
      ''DOCUMENT_SIZE_POLICY_INVALID'', ''DOCUMENT_PAGE_POLICY_INVALID'', ''DOCUMENT_COUNT_POLICY_INVALID'',
      ''DOCUMENT_PAGE_COUNT_CHANGED'', ''PDF_'']"

fun isPermanentDocumentError :: "cause \<Rightarrow> bool" where
  "isPermanentDocumentError NonError = False"
| "isPermanentDocumentError (JsError n m) = list_ex (\<lambda>c. contains_str c m) permanent_document_codes"

definition inspect_and_pass :: "intake_world \<Rightarrow> document_row \<Rightarrow> byte list \<Rightarrow> signing_state \<Rightarrow> signing_state \<times> unit outcome" where
  "inspect_and_pass w d bs st =
     (case iw_inspect w bs of
        Inl e \<Rightarrow> (if isPermanentDocumentError e then finish st (rejectDocument (dc_version d) st) else (st, Inl e))
      | Inr ins \<Rightarrow>
          (let st1 = save_report (dc_version d) ''PDF_POLICY'' (ins_passed ins)
                       (save_report (dc_version d) ''QPDF_CHECK'' (ins_passed ins) st)
           in if \<not> ins_passed ins then finish st1 (rejectDocument (dc_version d) st1)
              else finish st1 (scan_passed (dc_version d) (dc_id d) (ins_pages ins) st1)))"

definition handleDocumentScan :: "intake_world \<Rightarrow> string \<Rightarrow> signing_state \<Rightarrow> signing_state \<times> unit outcome" where
  "handleDocumentScan w v st =
     (case begin_scan v st of
        Inl e \<Rightarrow> (st, Inl e)
      | Inr (st1, None) \<Rightarrow> (st1, Inr ())
      | Inr (st1, Some d) \<Rightarrow>
          (case iw_download w (dc_source d) of
             Inl e \<Rightarrow> (st1, Inl e)
           | Inr bs \<Rightarrow>
               (if int (length bs) \<noteq> dc_size d \<or> dc_mime d \<noteq> ''application/pdf'' then finish st1 (rejectDocument v st1)
                else if \<not> storedBytesMatchGrant (case dc_sha d of None \<Rightarrow> [] | Some h \<Rightarrow> h) (iw_sha w bs)
                             (NInt (dc_size d)) (NInt (int (length bs)))
                then finish st1 (rejectDocument v st1)
                else case iw_clean w bs of
                  Inl e \<Rightarrow> (st1, Inl e)
                | Inr clean \<Rightarrow>
                    (let st2 = save_report v ''MALWARE_SCAN'' clean st1
                     in if \<not> clean then finish st2 (rejectDocument v st2) else inspect_and_pass w d bs st2))))"

section \<open>Canonicalisation\<close>

definition assertExpectedPageCount :: "int option \<Rightarrow> int \<Rightarrow> unit outcome" where
  "assertExpectedPageCount source canonical =
     (let s = (case source of None \<Rightarrow> 0 | Some n \<Rightarrow> n)
      in if \<not> is_safe_integer (NInt s) \<or> \<not> is_safe_integer (NInt canonical) \<or> s < 1 \<or> canonical \<noteq> s
         then Inl (JsError ''DOCUMENT_PAGE_COUNT_CHANGED'' ''DOCUMENT_PAGE_COUNT_CHANGED'') else Inr ())"

text \<open>The last transaction: the version becomes ready, and the case with its last version.\<close>

definition canonicalised :: "string \<Rightarrow> string \<Rightarrow> string \<Rightarrow> string \<Rightarrow> int \<Rightarrow> int \<Rightarrow> signing_state \<Rightarrow> signing_state outcome" where
  "canonicalised v doc canonicalKey sha bytesize pages st =
     bindR (update_documents Worker (\<lambda>d. dc_version d = v \<and> dc_status d = Doc_canonicalizing)
              (\<lambda>d. d\<lparr>dc_status := Doc_ready, dc_canonical := Some canonicalKey, dc_size := bytesize, dc_sha := Some sha,
                    dc_canonical_pages := Some pages\<rparr>) st) (\<lambda>st1.
       let st2 = log_entries [Audit ''document.pdfa_validated'' v, Outbox ''document.pdfa_validated'' doc] st1
       in if cs_status (ss_case st2) = Case_preparing \<and> list_all (\<lambda>d. dc_status d = Doc_ready) (ss_documents st2)
          then bindR (update_case Worker (\<lambda>c. cs_status c = Case_preparing) (set_case_status Case_ready) st2) (\<lambda>st3.
                 Inr (log_entries [Audit ''signature_case.ready'' [], Outbox ''signature_case.ready'' []] st3))
          else Inr st2)"

definition canonicalise :: "intake_world \<Rightarrow> document_row \<Rightarrow> signing_state \<Rightarrow> signing_state \<times> unit outcome" where
  "canonicalise w d st =
     (case bindR (iw_download w (dc_source d)) (iw_convert w) of
        Inl e \<Rightarrow> (st, Inl e)
      | Inr canonical \<Rightarrow>
          (case iw_inspect w canonical of
             Inl e \<Rightarrow> (st, Inl e)
           | Inr ins \<Rightarrow>
               (if \<not> ins_passed ins then finish st (rejectDocument (dc_version d) st)
                else case bindR (assertExpectedPageCount (dc_pages d) (ins_pages ins)) (\<lambda>_. iw_compliant w canonical) of
                  Inl e \<Rightarrow> (st, Inl e)
                | Inr compliant \<Rightarrow>
                    (let st1 = save_report (dc_version d) ''PDFA_VALIDATION'' compliant st
                     in if \<not> compliant then finish st1 (rejectDocument (dc_version d) st1)
                        else let st2 = save_report (dc_version d) ''PDFA_CONVERSION'' True st1
                             in finish st2 (canonicalised (dc_version d) (dc_id d) (iw_canonical_key w (dc_version d))
                                              (iw_sha w canonical) (int (length canonical)) (ins_pages ins) st2)))))"

definition handleDocumentCanonicalize :: "intake_world \<Rightarrow> string \<Rightarrow> signing_state \<Rightarrow> signing_state \<times> unit outcome" where
  "handleDocumentCanonicalize w v st =
     (case find_document v st of
        Inl e \<Rightarrow> (st, Inl e)
      | Inr d \<Rightarrow>
          (if dc_status d \<in> set (Doc_ready # locked_statuses) \<or> dc_status d = Doc_rejected then (st, Inr ())
           else if dc_status d \<noteq> Doc_canonicalizing then (st, permanent_error ''DOCUMENT_CANONICALIZE_STATE_INVALID'')
           else canonicalise w d st))"

end
