(* ===== verification/Signing_Updates.thy ===== *)
theory Signing_Updates
  imports Pades_Chain Document_Intake
begin

text \<open>
  The update statements of the signing tables as equations: when a statement under its trigger
  succeeds and what it leaves, and what a loop of statements inside one transaction keeps.
\<close>

section \<open>Statements\<close>

lemma update_rows_single:
  "update_rows trigger p f [r] = Inr rows' \<longleftrightarrow>
     (p r \<longrightarrow> trigger r (f r) = Inr ()) \<and> rows' = [if p r then f r else r]"
  by (auto simp: update_rows_Inr_iff)

lemma update_case_Inr_iff:
  "update_case a p f st = Inr st' \<longleftrightarrow>
     (p (ss_case st) \<longrightarrow> case_trigger (a, st) (ss_case st) (f (ss_case st)) = Inr ()) \<and>
     st' = st\<lparr>ss_case := if p (ss_case st) then f (ss_case st) else ss_case st\<rparr>"
  by (auto simp: update_case_def bindR_Inr_iff update_rows_single)

lemma update_signers_Inr_iff:
  "update_signers a p f st = Inr st' \<longleftrightarrow>
     (\<forall>s \<in> set (ss_signers st). p s \<longrightarrow> signer_trigger (a, st) s (f s) = Inr ()) \<and>
     st' = st\<lparr>ss_signers := map (\<lambda>s. if p s then f s else s) (ss_signers st)\<rparr>"
  by (auto simp: update_signers_def bindR_Inr_iff update_rows_Inr_iff)

lemma update_documents_Inr_iff:
  "update_documents a p f st = Inr st' \<longleftrightarrow>
     (\<forall>d \<in> set (ss_documents st). p d \<longrightarrow> document_trigger a d (f d) = Inr ()) \<and>
     st' = st\<lparr>ss_documents := map (\<lambda>d. if p d then f d else d) (ss_documents st)\<rparr>"
  by (auto simp: update_documents_def bindR_Inr_iff update_rows_Inr_iff)

lemma update_invitations_Inr_iff:
  "update_invitations p f st = Inr st' \<longleftrightarrow>
     (\<forall>v \<in> set (ss_invitations st). p v \<longrightarrow> invitation_trigger v (f v) = Inr ()) \<and>
     st' = st\<lparr>ss_invitations := map (\<lambda>v. if p v then f v else v) (ss_invitations st)\<rparr>"
  by (auto simp: update_invitations_def bindR_Inr_iff update_rows_Inr_iff)

lemma update_intents_Inr_iff:
  "update_intents p f st = Inr st' \<longleftrightarrow>
     (\<forall>i \<in> set (ss_intents st). p i \<longrightarrow> intent_trigger () i (f i) = Inr ()) \<and>
     st' = st\<lparr>ss_intents := map (\<lambda>i. if p i then f i else i) (ss_intents st)\<rparr>"
  by (auto simp: update_intents_def bindR_Inr_iff update_rows_Inr_iff)

lemma update_identities_Inr_iff:
  "update_identities p f st = Inr st' \<longleftrightarrow>
     (\<forall>i \<in> set (ss_identities st). p i \<longrightarrow> identity_trigger st i (f i) = Inr ()) \<and>
     st' = st\<lparr>ss_identities := map (\<lambda>i. if p i then f i else i) (ss_identities st)\<rparr>"
  by (auto simp: update_identities_def bindR_Inr_iff update_rows_Inr_iff)

lemma update_attempts_Inr_iff:
  "update_attempts a p f st = Inr st' \<longleftrightarrow>
     (\<forall>r \<in> set (ss_attempts st). p r \<longrightarrow> attempt_trigger a r (f r) = Inr ()) \<and>
     st' = st\<lparr>ss_attempts := map (\<lambda>r. if p r then f r else r) (ss_attempts st)\<rparr>"
  by (auto simp: update_attempts_def bindR_Inr_iff update_rows_Inr_iff)

lemmas updates_Inr_iff =
  update_case_Inr_iff update_signers_Inr_iff update_documents_Inr_iff update_invitations_Inr_iff
  update_intents_Inr_iff update_identities_Inr_iff update_attempts_Inr_iff

lemma refused_neq [simp]: "refused m \<noteq> Inr x" "\<not> is_ok (refused m)"
  by (simp_all add: refused_def is_ok_iff)

lemma signer_trigger_Inr_iff:
  "signer_trigger (a, st) old new = Inr () \<longleftrightarrow>
     bankid_terminal_evidence st old new = Inr () \<and> terminal_guard a (sg_status new = Signer_signed) = Inr () \<and>
     signer_binding old new = Inr () \<and> signer_signature_evidence st old new = Inr () \<and>
     (sg_status new = sg_status old \<or> sg_status new \<in> set (signer_moves (sg_status old)))"
  by (auto simp: signer_trigger_def bindR_Inr_iff assert_move_Inr)

lemma case_trigger_Inr_iff:
  "case_trigger (a, st) old new = Inr () \<longleftrightarrow>
     package_completion st old new = Inr () \<and> terminal_guard a (cs_status new \<in> {Case_completed, Case_archived}) = Inr () \<and>
     completion_evidence st old new = Inr () \<and> case_policy_binding old new = Inr () \<and>
     (cs_status new = cs_status old \<or> cs_status new \<in> set (case_moves (cs_status old)))"
  by (auto simp: case_trigger_def bindR_Inr_iff assert_move_Inr)

lemma invitation_trigger_Inr_iff:
  "invitation_trigger old new = Inr () \<longleftrightarrow> new = old \<or> iv_used old = None \<and> iv_revoked old = None"
  by (auto simp: invitation_trigger_def)

section \<open>Loops\<close>

lemma each_row_preserves:
  assumes "each_row step xs st = Inr st'" "P st"
    "\<And>x s s'. x \<in> set xs \<Longrightarrow> step x s = Inr s' \<Longrightarrow> P s \<Longrightarrow> P s'"
  shows "P st'"
  using assms by (induction xs arbitrary: st) (auto simp: bindR_Inr_iff)

section \<open>Fields that the bookkeeping leaves alone\<close>

lemma bookkeeping_fields [simp]:
  "ss_case (log_entries es st) = ss_case st" "ss_case (enqueue_job t k st) = ss_case st"
  "ss_signers (log_entries es st) = ss_signers st" "ss_signers (enqueue_job t k st) = ss_signers st"
  "ss_documents (log_entries es st) = ss_documents st" "ss_documents (enqueue_job t k st) = ss_documents st"
  "ss_intents (log_entries es st) = ss_intents st" "ss_intents (enqueue_job t k st) = ss_intents st"
  "ss_invitations (log_entries es st) = ss_invitations st" "ss_invitations (enqueue_job t k st) = ss_invitations st"
  "ss_identities (log_entries es st) = ss_identities st" "ss_identities (enqueue_job t k st) = ss_identities st"
  "ss_identity_artifacts (log_entries es st) = ss_identity_artifacts st"
  "ss_identity_artifacts (enqueue_job t k st) = ss_identity_artifacts st"
  "ss_attempts (log_entries es st) = ss_attempts st" "ss_attempts (enqueue_job t k st) = ss_attempts st"
  "ss_artifacts (log_entries es st) = ss_artifacts st" "ss_artifacts (enqueue_job t k st) = ss_artifacts st"
  "ss_runs (log_entries es st) = ss_runs st" "ss_runs (enqueue_job t k st) = ss_runs st"
  "ss_timestamps (log_entries es st) = ss_timestamps st" "ss_timestamps (enqueue_job t k st) = ss_timestamps st"
  by (simp_all add: log_entries_def enqueue_job_def)

lemma invite_fields [simp]:
  "ss_case (invite fr t e s st) = ss_case st" "ss_signers (invite fr t e s st) = ss_signers st"
  "ss_documents (invite fr t e s st) = ss_documents st" "ss_intents (invite fr t e s st) = ss_intents st"
  "ss_identities (invite fr t e s st) = ss_identities st" "ss_attempts (invite fr t e s st) = ss_attempts st"
  "ss_identity_artifacts (invite fr t e s st) = ss_identity_artifacts st"
  "ss_artifacts (invite fr t e s st) = ss_artifacts st" "ss_runs (invite fr t e s st) = ss_runs st"
  "ss_timestamps (invite fr t e s st) = ss_timestamps st"
  by (simp_all add: invite_def)

lemma invite_invitations [simp]:
  "ss_invitations (invite fr t e s st) = ss_invitations st @
     [\<lparr>iv_id = fr_invitation fr s, iv_signer = s, iv_token = fr_hash fr (fr_token fr s),
       iv_expires = e, iv_revoked = None, iv_used = None, iv_opened = None\<rparr>]"
  by (simp add: invite_def)

end
