(* ===== verification/Signing_Evolution.thy ===== *)
theory Signing_Evolution
  imports Signing_Updates
begin

text \<open>
  What the transactions of the signing flow leave intact, as relations between the state before and
  after that are reflexive and transitive, so that a transaction has them as soon as its statements do.
  \<open>evolves\<close> holds of all of them: rows are never removed, a row moves along the table of its status,
  the bindings of invited signers, intents and locked documents stay, evidence is only appended.
  \<open>calm\<close> holds of those that invite nobody and complete no signer.
\<close>

section \<open>Tables that grow\<close>

definition grows :: "('row \<Rightarrow> 'row \<Rightarrow> bool) \<Rightarrow> 'row list \<Rightarrow> 'row list \<Rightarrow> bool" where
  "grows R xs ys \<longleftrightarrow> (\<exists>old new. ys = old @ new \<and> list_all2 R xs old)"

lemma grows_all2: "list_all2 R xs ys \<Longrightarrow> grows R xs ys"
  unfolding grows_def by (intro exI [of _ ys] exI [of _ "[]"]) simp

lemma grows_append: "(\<And>x. R x x) \<Longrightarrow> grows R xs (xs @ ys)"
  unfolding grows_def by (intro exI [of _ xs] exI [of _ ys]) (simp add: list_all2_same)

lemma grows_refl: "(\<And>x. R x x) \<Longrightarrow> grows R xs xs"
  using grows_append [of R xs "[]"] by simp

lemma grows_eq [simp]: "grows (=) xs xs" "grows (=) xs (xs @ ys)"
  by (simp_all add: grows_refl grows_append)

lemma grows_trans:
  assumes "\<And>x y z. R x y \<Longrightarrow> R y z \<Longrightarrow> R x z" "grows R xs ys" "grows R ys zs"
  shows "grows R xs zs"
proof -
  obtain o1 n1 where 1: "ys = o1 @ n1" "list_all2 R xs o1" using assms(2) by (auto simp: grows_def)
  obtain o2 n2 where 2: "zs = o2 @ n2" "list_all2 R ys o2" using assms(3) by (auto simp: grows_def)
  obtain a b where ab: "o2 = a @ b" "list_all2 R o1 a"
    using 2(2) unfolding 1(1) by (auto simp: list_all2_append1)
  have "list_all2 R xs a" by (rule list_all2_trans [where ?P1.0 = R, OF _ 1(2) ab(2)]) (rule assms(1))
  then show ?thesis unfolding grows_def 2(1) ab(1) by (intro exI [of _ a] exI [of _ "b @ n2"]) simp
qed

lemma grows_eq_trans: "grows (=) xs ys \<Longrightarrow> grows (=) ys zs \<Longrightarrow> grows (=) xs zs"
  by (rule grows_trans) auto

lemma list_all2_in: "list_all2 R xs ys \<Longrightarrow> x \<in> set xs \<Longrightarrow> \<exists>y \<in> set ys. R x y"
  by (induction rule: list_all2_induct) auto

lemma list_all2_back: "list_all2 R xs ys \<Longrightarrow> y \<in> set ys \<Longrightarrow> \<exists>x \<in> set xs. R x y"
  by (induction rule: list_all2_induct) auto

lemma grows_in:
  assumes "grows R xs ys" "x \<in> set xs"
  shows "\<exists>y \<in> set ys. R x y"
proof -
  obtain old new where ys: "ys = old @ new" and all: "list_all2 R xs old" using assms(1) unfolding grows_def by blast
  obtain y where "y \<in> set old" "R x y" using list_all2_in [OF all assms(2)] by blast
  then show ?thesis unfolding ys by auto
qed

lemma grows_eq_in: "grows (=) xs ys \<Longrightarrow> x \<in> set xs \<Longrightarrow> x \<in> set ys"
  by (drule (1) grows_in) simp

section \<open>Rows\<close>

definition unsent :: "case_status set" where
  "unsent = {Case_draft, Case_preparing, Case_ready}"

definition case_calm :: "case_row \<Rightarrow> case_row \<Rightarrow> bool" where
  "case_calm c c' \<longleftrightarrow> cs_mode c' = cs_mode c \<and> cs_policy c' = cs_policy c \<and>
     (cs_status c \<notin> unsent \<longrightarrow> cs_status c' \<notin> unsent) \<and>
     (cs_status c' = cs_status c \<or>
      cs_status c' \<in> {Case_preparing, Case_ready, Case_declined, Case_expired, Case_cancelled})"

definition signer_calm :: "signer_row \<Rightarrow> signer_row \<Rightarrow> bool" where
  "signer_calm s s' \<longleftrightarrow> signers.descends s s' \<and> sg_order s' = sg_order s \<and> sg_required s' = sg_required s \<and>
     (sg_status s' = Signer_pending \<longleftrightarrow> sg_status s = Signer_pending) \<and>
     (sg_status s' = Signer_signed \<longleftrightarrow> sg_status s = Signer_signed)"

definition document_evolves :: "document_row \<Rightarrow> document_row \<Rightarrow> bool" where
  "document_evolves d d' \<longleftrightarrow> documents.descends d d' \<and>
     (dc_status d \<in> set locked_statuses \<longrightarrow>
        dc_status d' \<in> set locked_statuses \<and> dc_sha d' = dc_sha d \<and> dc_canonical d' = dc_canonical d)"

definition intent_evolves :: "intent_row \<Rightarrow> intent_row \<Rightarrow> bool" where
  "intent_evolves i i' \<longleftrightarrow> intents.descends i i' \<and> in_signer i' = in_signer i \<and> in_documents i' = in_documents i \<and>
     in_expires i' = in_expires i"

definition invitation_evolves :: "invitation_row \<Rightarrow> invitation_row \<Rightarrow> bool" where
  "invitation_evolves v v' \<longleftrightarrow> iv_id v' = iv_id v \<and> iv_signer v' = iv_signer v \<and>
     (iv_used v \<noteq> None \<or> iv_revoked v \<noteq> None \<longrightarrow> v' = v)"

definition identity_evolves :: "identity_row \<Rightarrow> identity_row \<Rightarrow> bool" where
  "identity_evolves i i' \<longleftrightarrow> identities.descends i i' \<and> it_signer i' = it_signer i \<and> it_version i' = it_version i \<and>
     it_intent i' = it_intent i"

definition attempt_evolves :: "attempt_row \<Rightarrow> attempt_row \<Rightarrow> bool" where
  "attempt_evolves r r' \<longleftrightarrow> attempts.descends r r' \<and> at_signer r' = at_signer r \<and> at_version r' = at_version r \<and>
     at_identity r' = at_identity r"

lemmas row_evolves_defs =
  case_calm_def signer_calm_def document_evolves_def intent_evolves_def invitation_evolves_def identity_evolves_def
  attempt_evolves_def

lemma rows_refl [simp]:
  "case_calm c c" "signer_calm s s" "document_evolves d d" "intent_evolves i i" "invitation_evolves v v"
  "identity_evolves t t" "attempt_evolves r r"
  by (simp_all add: row_evolves_defs)

lemma case_calm_trans: "case_calm a b \<Longrightarrow> case_calm b c \<Longrightarrow> case_calm a c"
  unfolding case_calm_def by (elim conjE; simp) metis

lemma signer_calm_trans: "signer_calm a b \<Longrightarrow> signer_calm b c \<Longrightarrow> signer_calm a c"
  unfolding signer_calm_def by (auto intro: signers.descends_trans)

lemma document_evolves_trans: "document_evolves a b \<Longrightarrow> document_evolves b c \<Longrightarrow> document_evolves a c"
  unfolding document_evolves_def by (auto intro: documents.descends_trans)

lemma intent_evolves_trans: "intent_evolves a b \<Longrightarrow> intent_evolves b c \<Longrightarrow> intent_evolves a c"
  unfolding intent_evolves_def by (auto intro: intents.descends_trans)

lemma invitation_evolves_trans: "invitation_evolves a b \<Longrightarrow> invitation_evolves b c \<Longrightarrow> invitation_evolves a c"
  unfolding invitation_evolves_def by auto

lemma identity_evolves_trans: "identity_evolves a b \<Longrightarrow> identity_evolves b c \<Longrightarrow> identity_evolves a c"
  unfolding identity_evolves_def by (auto intro: identities.descends_trans)

lemma attempt_evolves_trans: "attempt_evolves a b \<Longrightarrow> attempt_evolves b c \<Longrightarrow> attempt_evolves a c"
  unfolding attempt_evolves_def by (auto intro: attempts.descends_trans)

section \<open>States\<close>

text \<open>Documents, identity transactions and evidence, which every transaction treats alike.\<close>

definition evidence_grows :: "signing_state \<Rightarrow> signing_state \<Rightarrow> bool" where
  "evidence_grows st st' \<longleftrightarrow>
     grows document_evolves (ss_documents st) (ss_documents st') \<and>
     grows identity_evolves (ss_identities st) (ss_identities st') \<and>
     grows attempt_evolves (ss_attempts st) (ss_attempts st') \<and>
     grows (=) (ss_identity_artifacts st) (ss_identity_artifacts st') \<and>
     grows (=) (ss_artifacts st) (ss_artifacts st') \<and>
     grows (=) (ss_runs st) (ss_runs st') \<and>
     ss_timestamps st' = ss_timestamps st"

definition calm :: "signing_state \<Rightarrow> signing_state \<Rightarrow> bool" where
  "calm st st' \<longleftrightarrow> evidence_grows st st' \<and> case_calm (ss_case st) (ss_case st') \<and>
     list_all2 signer_calm (ss_signers st) (ss_signers st') \<and>
     list_all2 intent_evolves (ss_intents st) (ss_intents st') \<and>
     list_all2 invitation_evolves (ss_invitations st) (ss_invitations st')"

lemma evidence_grows_refl [simp]: "evidence_grows st st"
  by (simp add: evidence_grows_def grows_refl)

lemma calm_refl [simp]: "calm st st"
  by (simp add: calm_def list_all2_same)

lemma evidence_grows_trans: "evidence_grows a b \<Longrightarrow> evidence_grows b c \<Longrightarrow> evidence_grows a c"
  unfolding evidence_grows_def
  by (elim conjE, intro conjI;
      (rule grows_trans [OF document_evolves_trans], assumption+)?,
      (rule grows_trans [OF identity_evolves_trans], assumption+)?,
      (rule grows_trans [OF attempt_evolves_trans], assumption+)?, (rule grows_eq_trans, assumption+)?; simp)

lemma calm_trans: "calm a b \<Longrightarrow> calm b c \<Longrightarrow> calm a c"
  unfolding calm_def
  by (elim conjE, intro conjI)
    (rule evidence_grows_trans, assumption+, rule case_calm_trans, assumption+,
      rule list_all2_trans [OF signer_calm_trans], assumption+,
      rule list_all2_trans [OF intent_evolves_trans], assumption+,
      rule list_all2_trans [OF invitation_evolves_trans], assumption+)

section \<open>Calm statements\<close>

lemma calm_bookkeeping [simp]:
  "calm st (log_entries es st') \<longleftrightarrow> calm st st'" "calm st (enqueue_job t k st') \<longleftrightarrow> calm st st'"
  "calm (log_entries es st) st' \<longleftrightarrow> calm st st'" "calm (enqueue_job t k st) st' \<longleftrightarrow> calm st st'"
  by (simp_all add: calm_def evidence_grows_def)

lemma calm_update_case:
  assumes "update_case a p f st = Inr st'"
    "\<And>c. cs_mode (f c) = cs_mode c \<and> cs_policy (f c) = cs_policy c"
    "\<And>c. p c \<Longrightarrow> cs_status (f c) \<in> {Case_preparing, Case_ready, Case_declined, Case_expired, Case_cancelled}"
  shows "calm st st'"
proof -
  have "case_calm c (f c)" if "p c" "case_trigger (a, st) c (f c) = Inr ()" for c
  proof -
    have "cs_status (f c) = cs_status c \<or> cs_status (f c) \<in> set (case_moves (cs_status c))"
      using that(2) by (simp add: case_trigger_Inr_iff)
    then have "cs_status c \<notin> unsent \<longrightarrow> cs_status (f c) \<notin> unsent"
      by (cases "cs_status c") (auto simp: unsent_def)
    then show ?thesis using assms(2) assms(3) [OF that(1)] by (simp add: case_calm_def)
  qed
  then show ?thesis using assms(1)
    by (cases "p (ss_case st)") (auto simp: update_case_Inr_iff calm_def evidence_grows_def grows_refl list_all2_same)
qed

text \<open>A statement that leaves the waiting signers waiting and completes none.\<close>

lemma calm_update_signers:
  assumes "update_signers a p f st = Inr st'"
    "\<And>s. sg_id (f s) = sg_id s \<and> sg_order (f s) = sg_order s \<and> sg_required (f s) = sg_required s"
    "\<And>s. sg_status (f s) = sg_status s \<or> sg_status (f s) \<notin> {Signer_pending, Signer_invited, Signer_cancelled, Signer_signed}"
  shows "calm st st'"
proof -
  have one: "signer_calm s (f s)" if "signer_trigger (a, st) s (f s) = Inr ()" for s
  proof -
    have move: "sg_status (f s) = sg_status s \<or> sg_status (f s) \<in> set (signer_moves (sg_status s))"
      using that by (simp add: signer_trigger_Inr_iff)
    then have "signers.descends s (f s)" using assms(2) by (auto simp: signers.descends_def)
    moreover have "(sg_status (f s) = Signer_pending \<longleftrightarrow> sg_status s = Signer_pending) \<and>
        (sg_status (f s) = Signer_signed \<longleftrightarrow> sg_status s = Signer_signed)"
      using move assms(3) [of s] by (cases "sg_status s") auto
    ultimately show ?thesis using assms(2) by (simp add: signer_calm_def)
  qed
  have "\<forall>s \<in> set (ss_signers st). p s \<longrightarrow> signer_trigger (a, st) s (f s) = Inr ()"
    and st': "st' = st\<lparr>ss_signers := map (\<lambda>s. if p s then f s else s) (ss_signers st)\<rparr>"
    using assms(1) unfolding update_signers_Inr_iff by blast+
  then have "list_all2 signer_calm (ss_signers st) (map (\<lambda>s. if p s then f s else s) (ss_signers st))"
    by (simp add: list.rel_map list_all2_same one)
  then show ?thesis by (simp add: st' calm_def evidence_grows_def grows_refl list_all2_same)
qed

lemma calm_set_status:
  "update_signers a p (set_status t) st = Inr st' \<Longrightarrow>
     t \<notin> {Signer_pending, Signer_invited, Signer_cancelled, Signer_signed} \<Longrightarrow> calm st st'"
  by (erule calm_update_signers) (simp_all add: set_status_def)

lemma calm_update_documents:
  assumes "update_documents a p f st = Inr st'" "\<And>d. dc_version (f d) = dc_version d"
  shows "calm st st'"
proof -
  have one: "document_evolves d (f d)" if "document_trigger a d (f d) = Inr ()" for d
  proof -
    have move: "dc_status (f d) = dc_status d \<or> dc_status (f d) \<in> set (document_moves (dc_status d))"
      and bind: "document_binding d (f d) = Inr ()"
      using that by (auto simp: document_trigger_def bindR_Inr_iff assert_move_Inr)
    have "documents.descends d (f d)" using move assms(2) by (auto simp: documents.descends_def)
    moreover have "dc_status (f d) \<in> set locked_statuses" if "dc_status d \<in> set locked_statuses"
      using move that by (cases "dc_status d") (auto simp: locked_statuses_def)
    ultimately show ?thesis using bind by (auto simp: document_evolves_def document_binding_def split: if_splits)
  qed
  have "\<forall>d \<in> set (ss_documents st). p d \<longrightarrow> document_trigger a d (f d) = Inr ()"
    and st': "st' = st\<lparr>ss_documents := map (\<lambda>d. if p d then f d else d) (ss_documents st)\<rparr>"
    using assms(1) unfolding update_documents_Inr_iff by blast+
  then have "list_all2 document_evolves (ss_documents st) (map (\<lambda>d. if p d then f d else d) (ss_documents st))"
    by (simp add: list.rel_map list_all2_same one)
  then show ?thesis by (simp add: st' calm_def evidence_grows_def grows_refl grows_all2 list_all2_same)
qed

lemma calm_update_intents:
  assumes "update_intents p (set_intent t) st = Inr st'"
  shows "calm st st'"
proof -
  have one: "intent_evolves i (set_intent t i)" if "intent_trigger () i (set_intent t i) = Inr ()" for i
    using that by (auto simp: intent_evolves_def intents.descends_def set_intent_def intent_trigger_def assert_move_Inr)
  have "\<forall>i \<in> set (ss_intents st). p i \<longrightarrow> intent_trigger () i (set_intent t i) = Inr ()"
    and st': "st' = st\<lparr>ss_intents := map (\<lambda>i. if p i then set_intent t i else i) (ss_intents st)\<rparr>"
    using assms unfolding update_intents_Inr_iff by blast+
  then have "list_all2 intent_evolves (ss_intents st) (map (\<lambda>i. if p i then set_intent t i else i) (ss_intents st))"
    by (simp add: list.rel_map list_all2_same one)
  then show ?thesis by (simp add: st' calm_def evidence_grows_def grows_refl list_all2_same)
qed

lemma calm_update_identities:
  assumes "update_identities p f st = Inr st'" "\<And>i. it_id (f i) = it_id i \<and> it_intent (f i) = it_intent i"
  shows "calm st st'"
proof -
  have one: "identity_evolves i (f i)" if "identity_trigger st i (f i) = Inr ()" for i
    using that assms(2)
    by (auto simp: identity_evolves_def identities.descends_def identity_trigger_def bindR_Inr_iff assert_move_Inr split: if_splits)
  have "\<forall>i \<in> set (ss_identities st). p i \<longrightarrow> identity_trigger st i (f i) = Inr ()"
    and st': "st' = st\<lparr>ss_identities := map (\<lambda>i. if p i then f i else i) (ss_identities st)\<rparr>"
    using assms(1) unfolding update_identities_Inr_iff by blast+
  then have "list_all2 identity_evolves (ss_identities st) (map (\<lambda>i. if p i then f i else i) (ss_identities st))"
    by (simp add: list.rel_map list_all2_same one)
  then show ?thesis by (simp add: st' calm_def evidence_grows_def grows_refl grows_all2 list_all2_same)
qed

lemma calm_update_attempts:
  assumes "update_attempts a p (set_attempt t) st = Inr st'"
  shows "calm st st'"
proof -
  have one: "attempt_evolves r (set_attempt t r)" if "attempt_trigger a r (set_attempt t r) = Inr ()" for r
    using that by (auto simp: attempt_evolves_def attempts.descends_def set_attempt_def attempt_trigger_def bindR_Inr_iff assert_move_Inr)
  have "\<forall>r \<in> set (ss_attempts st). p r \<longrightarrow> attempt_trigger a r (set_attempt t r) = Inr ()"
    and st': "st' = st\<lparr>ss_attempts := map (\<lambda>r. if p r then set_attempt t r else r) (ss_attempts st)\<rparr>"
    using assms unfolding update_attempts_Inr_iff by blast+
  then have "list_all2 attempt_evolves (ss_attempts st) (map (\<lambda>r. if p r then set_attempt t r else r) (ss_attempts st))"
    by (simp add: list.rel_map list_all2_same one)
  then show ?thesis by (simp add: st' calm_def evidence_grows_def grows_refl grows_all2 list_all2_same)
qed

lemma calm_update_invitations:
  assumes "update_invitations p f st = Inr st'" "\<And>v. iv_id (f v) = iv_id v \<and> iv_signer (f v) = iv_signer v"
  shows "calm st st'"
proof -
  have one: "invitation_evolves v (f v)" if "invitation_trigger v (f v) = Inr ()" for v
    using that assms(2) by (auto simp: invitation_evolves_def invitation_trigger_Inr_iff)
  have "\<forall>v \<in> set (ss_invitations st). p v \<longrightarrow> invitation_trigger v (f v) = Inr ()"
    and st': "st' = st\<lparr>ss_invitations := map (\<lambda>v. if p v then f v else v) (ss_invitations st)\<rparr>"
    using assms(1) unfolding update_invitations_Inr_iff by blast+
  then have "list_all2 invitation_evolves (ss_invitations st) (map (\<lambda>v. if p v then f v else v) (ss_invitations st))"
    by (simp add: list.rel_map list_all2_same one)
  then show ?thesis by (simp add: st' calm_def evidence_grows_def grows_refl list_all2_same)
qed

section \<open>Transactions under a frame\<close>

text \<open>
  A relation between the states before and after that every statement of a transaction has, the
  whole transaction has.
\<close>

locale frame =
  fixes R :: "signing_state \<Rightarrow> signing_state \<Rightarrow> bool"
  assumes R_refl: "R st st"
    and R_trans: "R st st1 \<Longrightarrow> R st1 st2 \<Longrightarrow> R st st2"
begin

definition keeps :: "signing_state \<Rightarrow> signing_state outcome \<Rightarrow> bool" where
  "keeps st m \<longleftrightarrow> (\<forall>st'. m = Inr st' \<longrightarrow> R st st')"

lemma keepsI: "(\<And>st'. m = Inr st' \<Longrightarrow> R st st') \<Longrightarrow> keeps st m"
  by (simp add: keeps_def)

lemma keepsD: "keeps st m \<Longrightarrow> m = Inr st' \<Longrightarrow> R st st'"
  by (simp add: keeps_def)

lemma keeps_Inr [simp]: "keeps st (Inr st') \<longleftrightarrow> R st st'"
  by (simp add: keeps_def)

lemma keeps_Inl [simp, intro]: "keeps st (Inl e)"
  by (simp add: keeps_def)

lemma keeps_throw [simp, intro]: "keeps st (throw msg)"
  by (simp add: keeps_def throw_def)

lemma keeps_refused [simp, intro]: "keeps st (refused msg)"
  by (simp add: keeps_def)

lemma keeps_bind: "keeps st m \<Longrightarrow> (\<And>s. m = Inr s \<Longrightarrow> keeps s (k s)) \<Longrightarrow> keeps st (bindR m k)"
  unfolding keeps_def bindR_Inr_iff using R_trans by blast

lemma keeps_read: "(\<And>x. m = Inr x \<Longrightarrow> keeps st (k x)) \<Longrightarrow> keeps st (bindR m k)"
  unfolding keeps_def bindR_Inr_iff by blast

lemma keeps_from: "R st st1 \<Longrightarrow> keeps st1 m \<Longrightarrow> keeps st m"
  unfolding keeps_def using R_trans by blast

lemma keeps_if: "(c \<Longrightarrow> keeps st x) \<Longrightarrow> (\<not> c \<Longrightarrow> keeps st y) \<Longrightarrow> keeps st (if c then x else y)"
  by simp

lemma keeps_option:
  "(v = None \<Longrightarrow> keeps st x) \<Longrightarrow> (\<And>u. v = Some u \<Longrightarrow> keeps st (y u)) \<Longrightarrow> keeps st (case v of None \<Rightarrow> x | Some u \<Rightarrow> y u)"
  by (simp split: option.split)

lemma keeps_let: "keeps st (k v) \<Longrightarrow> keeps st (let x = v in k x)"
  by simp

lemma keeps_each_row: "(\<And>x s. x \<in> set xs \<Longrightarrow> keeps s (step x s)) \<Longrightarrow> keeps st (each_row step xs st)"
  by (induction xs arbitrary: st) (auto simp: R_refl intro: keeps_bind)

lemmas keeps_intros = keeps_bind keeps_read keeps_if keeps_option keeps_let keeps_each_row

end

interpretation calm: frame calm
  by unfold_locales (auto intro: calm_trans)

lemma calm_keeps_status:
  "calm st st1 \<Longrightarrow> t \<notin> {Signer_pending, Signer_invited, Signer_cancelled, Signer_signed} \<Longrightarrow>
     calm.keeps st (update_signers a p (set_status t) st1)"
  by (erule calm.keeps_from, rule calm.keepsI) (rule calm_set_status)

lemma calm_keeps_case:
  "calm st st1 \<Longrightarrow> (\<And>c. cs_mode (f c) = cs_mode c \<and> cs_policy (f c) = cs_policy c) \<Longrightarrow>
   (\<And>c. p c \<Longrightarrow> cs_status (f c) \<in> {Case_preparing, Case_ready, Case_declined, Case_expired, Case_cancelled}) \<Longrightarrow>
     calm.keeps st (update_case a p f st1)"
  by (erule calm.keeps_from, rule calm.keepsI) (rule calm_update_case)

lemma calm_keeps_intents: "calm st st1 \<Longrightarrow> calm.keeps st (update_intents p (set_intent t) st1)"
  by (erule calm.keeps_from, rule calm.keepsI) (rule calm_update_intents)

lemma calm_keeps_attempts: "calm st st1 \<Longrightarrow> calm.keeps st (update_attempts a p (set_attempt t) st1)"
  by (erule calm.keeps_from, rule calm.keepsI) (rule calm_update_attempts)

lemma calm_keeps_signers:
  "calm st st1 \<Longrightarrow> (\<And>s. sg_id (f s) = sg_id s \<and> sg_order (f s) = sg_order s \<and> sg_required (f s) = sg_required s) \<Longrightarrow>
   (\<And>s. sg_status (f s) = sg_status s \<or> sg_status (f s) \<notin> {Signer_pending, Signer_invited, Signer_cancelled, Signer_signed}) \<Longrightarrow>
     calm.keeps st (update_signers a p f st1)"
  by (erule calm.keeps_from, rule calm.keepsI) (rule calm_update_signers)

lemma calm_keeps_identities:
  "calm st st1 \<Longrightarrow> (\<And>i. it_id (f i) = it_id i \<and> it_intent (f i) = it_intent i) \<Longrightarrow> calm.keeps st (update_identities p f st1)"
  by (erule calm.keeps_from, rule calm.keepsI) (rule calm_update_identities)

lemma calm_keeps_documents: "calm st st1 \<Longrightarrow> (\<And>d. dc_version (f d) = dc_version d) \<Longrightarrow> calm.keeps st (update_documents a p f st1)"
  by (erule calm.keeps_from, rule calm.keepsI) (rule calm_update_documents)

lemma calm_keeps_invitations:
  "calm st st1 \<Longrightarrow> (\<And>v. iv_id (f v) = iv_id v \<and> iv_signer (f v) = iv_signer v) \<Longrightarrow> calm.keeps st (update_invitations p f st1)"
  by (erule calm.keeps_from, rule calm.keepsI) (rule calm_update_invitations)

lemmas calm_statements = calm_keeps_status calm_keeps_case calm_keeps_intents calm_keeps_attempts calm_keeps_signers
  calm_keeps_identities calm_keeps_documents calm_keeps_invitations

lemmas calm_intros = calm.keeps_intros calm_statements

lemma calm_rows [simp]:
  "calm st (st\<lparr>ss_documents := ss_documents st @ ds\<rparr>)" "calm st (st\<lparr>ss_identities := ss_identities st @ ts\<rparr>)"
  "calm st (st\<lparr>ss_attempts := ss_attempts st @ rs\<rparr>)" "calm st (st\<lparr>ss_runs := ss_runs st @ ns\<rparr>)"
  "calm st (st\<lparr>ss_identity_artifacts := ss_identity_artifacts st @ js\<rparr>)"
  "calm st (st\<lparr>ss_reports := ps\<rparr>)" "calm st (st\<lparr>ss_clean := cs\<rparr>)" "calm st (st\<lparr>ss_manifests := ms\<rparr>)"
  "calm st (st\<lparr>ss_artifacts := ss_artifacts st @ as, ss_certificates := es, ss_chains := hs\<rparr>)"
  by (simp_all add: calm_def evidence_grows_def grows_refl grows_append list_all2_same)

lemma calm_artifact [simp]: "calm st (insert_identity_artifact tid intent pass st)"
  by (simp add: insert_identity_artifact_def)

section \<open>Calm transactions\<close>

lemma calm_remindCase: "calm.keeps st (remindCase k st)"
  unfolding remindCase_def
  by (intro calm_intros; simp add: set_status_def set_case_status_def)

lemma calm_cancelCase: "calm.keeps st (cancelCase a now v st)"
  unfolding cancelCase_def transitionCase_def
  by (intro calm_intros; simp add: set_status_def set_case_status_def)

lemma calm_markOpened: "calm.keeps st (markOpened now iv st)"
  unfolding markOpened_def
  by (intro calm_intros; simp add: set_status_def set_case_status_def)

lemma calm_decline: "calm.keeps st (decline now iv st)"
  unfolding decline_def
  by (intro calm_intros; simp add: set_status_def set_case_status_def)

lemma calm_handleCaseExpire: "calm.keeps st (handleCaseExpire now st)"
  unfolding handleCaseExpire_def
  by (intro calm_intros; simp add: set_status_def set_case_status_def)

lemma calm_addDocument: "calm.keeps st (addDocument a g ids name role st)"
  unfolding addDocument_def
  by (intro calm_intros; simp add: set_status_def set_case_status_def)

lemma calm_recordStart: "calm.keeps st (recordStart now start ref st)"
  unfolding recordStart_def
  by (intro calm_intros; simp add: set_status_def set_identity_def set_intent_def)

lemma calm_recordPageStatus: "calm.keeps st (recordPageStatus now loaded status st)"
  unfolding recordPageStatus_def
  by (intro calm_intros; simp add: set_status_def set_identity_def set_intent_def)

lemma calm_recordCancel: "calm.keeps st (recordCancel loaded st)"
  unfolding recordCancel_def
  by (intro calm_intros; simp add: set_status_def set_identity_def set_intent_def)

lemma calm_recordPoll: "calm.keeps st (recordPoll now tid status st)"
  unfolding recordPoll_def prod.case_eq_if
  by (intro calm_intros; simp add: set_status_def set_identity_def set_intent_def)

lemma calm_failIdentityTransaction: "calm.keeps st (failIdentityTransaction now tid intent signer reason st)"
  unfolding failIdentityTransaction_def
  by (intro calm_intros; simp add: set_status_def set_identity_def set_intent_def)

lemma calm_recordCollected: "calm.keeps st (recordCollected now tid intent ev st)"
  unfolding recordCollected_def
  by (intro calm_intros; simp add: set_status_def set_identity_def set_intent_def)

lemma calm_recordRejected: "calm.keeps st (recordRejected tid i st)"
  unfolding recordRejected_def
  by (intro calm_intros; simp add: set_status_def set_identity_def set_intent_def)

lemma calm_recordVerified: "calm.keeps st (recordVerified now tid i number st)"
  unfolding recordVerified_def
  by (intro calm_intros; simp add: set_status_def set_identity_def set_intent_def)

lemma calm_begin_signing: "calm.keeps st (begin_signing signer st)"
  unfolding begin_signing_def
  by (intro calm_intros; simp add: set_status_def set_identity_def set_intent_def)

lemma calm_reject_signature: "calm.keeps st (reject_signature attempt artifact signer event st)"
  unfolding reject_signature_def
  by (intro calm_intros; simp add: set_status_def set_identity_def set_intent_def)

lemma calm_recordSignature: "calm.keeps st (recordSignature attempt artifact signer t d level path s inp st)"
  unfolding recordSignature_def
  by (intro calm_intros; simp add: set_status_def set_identity_def set_intent_def)

lemma calm_rejectDocument: "calm.keeps st (rejectDocument v st)"
  unfolding rejectDocument_def
  by (intro calm_intros; simp add: set_status_def set_identity_def set_intent_def)

lemma calm_scan_passed: "calm.keeps st (scan_passed v doc pages st)"
  unfolding scan_passed_def
  by (intro calm_intros; simp add: set_status_def set_identity_def set_intent_def)

lemma calm_canonicalised: "calm.keeps st (canonicalised v doc k sha n pages st)"
  unfolding canonicalised_def
  by (intro calm_intros; simp add: set_case_status_def)

end
