(* ===== verification/Signing_Package.thy ===== *)
theory Signing_Package
  imports Pades_Chain
begin

text \<open>
  The evidence package of a signer or of the case, and the completion of the case
  (\<open>handleEvidencePackageBuild\<close> in \<open>apps/workers/src/production-handlers.ts\<close>). Assembling and storing
  the files (\<open>Evidence_Zip\<close>) is an argument: the digest of the package, or the error.
\<close>

text \<open>The signers with passed identity evidence that the package is about.\<close>

definition evidence_signers :: "string option \<Rightarrow> signing_state \<Rightarrow> signer_row list" where
  "evidence_signers signer st =
     filter (\<lambda>s. (signer = None \<or> signer = Some (sg_id s)) \<and>
       list_ex (\<lambda>i. in_signer i = sg_id s \<and>
         list_ex (\<lambda>a. ta_intent a = in_id i \<and> ta_pass a) (ss_identity_artifacts st)) (ss_intents st)) (ss_signers st)"

definition write_package :: "string \<Rightarrow> string option \<Rightarrow> string \<Rightarrow> signing_state \<Rightarrow> signing_state" where
  "write_package packageId signer sha st =
     (if list_ex (\<lambda>p. pk_signer p = signer) (ss_packages st)
      then st\<lparr>ss_packages := map (\<lambda>p. if pk_id p = packageId \<and> pk_status p = Package_preparing
                 then p\<lparr>pk_status := Package_ready, pk_sha := Some sha\<rparr> else p) (ss_packages st)\<rparr>
      else st\<lparr>ss_packages := ss_packages st @
                [\<lparr>pk_id = packageId, pk_signer = signer, pk_status = Package_ready, pk_sha = Some sha\<rparr>]\<rparr>)"

text \<open>A signer's package packages the intent; the package of the case completes the case.\<close>

definition finish_package :: "int \<Rightarrow> string option \<Rightarrow> string \<Rightarrow> signing_state \<Rightarrow> signing_state outcome" where
  "finish_package now signer packageId st =
     bindR (case signer of
              Some s \<Rightarrow> update_intents (\<lambda>i. in_signer i = s \<and> in_status i = Intent_verified) (set_intent Intent_packaged) st
            | None \<Rightarrow>
                bindR (update_case Worker (\<lambda>c. cs_status c \<in> set open_statuses)
                         (\<lambda>c. (set_case_status Case_completed c)\<lparr>cs_completed := Some now\<rparr>) st) (\<lambda>st1.
                  Inr (log_entries [Audit ''case.completed'' [], Outbox ''case.completed'' []] st1))) (\<lambda>st1.
       Inr (log_entries [Audit ''evidence_package.ready'' packageId, Outbox ''evidence_package.ready'' packageId] st1))"

definition recordPackage :: "int \<Rightarrow> string \<Rightarrow> string option \<Rightarrow> string \<Rightarrow> signing_state \<Rightarrow> signing_state outcome" where
  "recordPackage now fresh_id signer sha st =
     (case find (\<lambda>p. pk_signer p = signer) (ss_packages st) of
        None \<Rightarrow> finish_package now signer fresh_id (write_package fresh_id signer sha st)
      | Some p \<Rightarrow>
          (if pk_status p = Package_ready then Inr st
           else finish_package now signer (pk_id p) (write_package (pk_id p) signer sha st)))"

definition handleEvidencePackageBuild ::
  "(signer_row list \<Rightarrow> string outcome) \<Rightarrow> int \<Rightarrow> string \<Rightarrow> string option \<Rightarrow> signing_state \<Rightarrow> signing_state outcome" where
  "handleEvidencePackageBuild build now fresh_id signer st =
     (if evidence_signers signer st = [] then permanent_error ''EVIDENCE_VERIFIED_SIGNER_MISSING''
      else bindR (build (evidence_signers signer st)) (\<lambda>sha. recordPackage now fresh_id signer sha st))"

end
