(* ===== verification/Signing_Evidence.thy ===== *)
theory Signing_Evidence
  imports Signing_Evolution Signing_Package
begin

text \<open>
  The frame of every transaction of the signing flow: tables grow, rows move along their tables,
  evidence stays, and a signer becomes \<open>signed\<close> only with evidence.
\<close>

section \<open>Every transaction\<close>

definition case_evolves :: "case_row \<Rightarrow> case_row \<Rightarrow> bool" where
  "case_evolves c c' \<longleftrightarrow> cs_mode c' = cs_mode c \<and> cs_policy c' = cs_policy c \<and>
     (cs_status c \<notin> unsent \<longrightarrow> cs_status c' \<notin> unsent)"

definition signer_evolves :: "signer_row \<Rightarrow> signer_row \<Rightarrow> bool" where
  "signer_evolves s s' \<longleftrightarrow> signers.descends s s' \<and>
     (sg_status s \<noteq> Signer_pending \<longrightarrow> sg_order s' = sg_order s \<and> sg_required s' = sg_required s)"

definition evolves :: "signing_state \<Rightarrow> signing_state \<Rightarrow> bool" where
  "evolves st st' \<longleftrightarrow> evidence_grows st st' \<and> case_evolves (ss_case st) (ss_case st') \<and>
     grows signer_evolves (ss_signers st) (ss_signers st') \<and>
     grows intent_evolves (ss_intents st) (ss_intents st') \<and>
     grows invitation_evolves (ss_invitations st) (ss_invitations st')"

lemma signer_evolves_refl [simp]: "signer_evolves s s"
  by (simp add: signer_evolves_def)

lemma pending_left: "signers.descends s s' \<Longrightarrow> sg_status s \<noteq> Signer_pending \<Longrightarrow> sg_status s' \<noteq> Signer_pending"
proof (erule signers.descends_closed [where P = "\<lambda>t. t \<noteq> Signer_pending"])
  show "t \<noteq> Signer_pending" if "t \<in> set (signer_moves u)" for t u
    using that by (cases u) auto
qed

lemma signed_stays: "signers.descends s s' \<Longrightarrow> sg_status s = Signer_signed \<Longrightarrow> sg_status s' = Signer_signed"
  by (drule signers.descends_terminal) simp_all

lemma signer_evolves_trans: "signer_evolves a b \<Longrightarrow> signer_evolves b c \<Longrightarrow> signer_evolves a c"
  unfolding signer_evolves_def using pending_left by (auto intro: signers.descends_trans)

lemma evolves_refl [simp]: "evolves st st"
  by (simp add: evolves_def case_evolves_def grows_refl)

lemma evolves_trans: "evolves a b \<Longrightarrow> evolves b c \<Longrightarrow> evolves a c"
  unfolding evolves_def
  by (elim conjE, intro conjI)
    (rule evidence_grows_trans, assumption+, force simp: case_evolves_def,
      rule grows_trans [OF signer_evolves_trans], assumption+,
      rule grows_trans [OF intent_evolves_trans], assumption+,
      rule grows_trans [OF invitation_evolves_trans], assumption+)

lemma calm_evolves: "calm st st' \<Longrightarrow> evolves st st'"
proof -
  assume c: "calm st st'"
  then have "list_all2 signer_evolves (ss_signers st) (ss_signers st')"
    unfolding calm_def by (elim conjE list_all2_mono) (simp add: signer_calm_def signer_evolves_def)
  then show ?thesis using c by (simp add: calm_def evolves_def case_calm_def case_evolves_def grows_all2)
qed

section \<open>Signed with evidence\<close>

text \<open>The evidence behind a signed signer.\<close>

definition signer_evidence :: "signing_state \<Rightarrow> string \<Rightarrow> bool" where
  "signer_evidence st signer \<longleftrightarrow>
     (\<exists>i \<in> set (ss_intents st). in_signer i = signer \<and> in_status i \<in> {Intent_verified, Intent_packaged} \<and>
        (\<exists>a \<in> set (ss_identity_artifacts st). ta_intent a = in_id i \<and> ta_pass a)) \<and>
     (cs_mode (ss_case st) = ELECTRONIC_SIGNATURE \<longrightarrow>
        (\<exists>i \<in> set (ss_intents st). in_signer i = signer \<and> in_status i \<in> {Intent_verified, Intent_packaged} \<and>
           signables i \<noteq> [] \<and> (\<forall>d \<in> set (signables i). validated_signature st signer (id_version d))))"

definition signed_with_evidence :: "signing_state \<Rightarrow> bool" where
  "signed_with_evidence st \<longleftrightarrow>
     (\<forall>s \<in> set (ss_signers st). sg_status s = Signer_signed \<longrightarrow> signer_evidence st (sg_id s))"

lemma intent_status_closed:
  assumes "intent_evolves i i'" "in_status i \<in> {Intent_verified, Intent_packaged}"
  shows "in_status i' \<in> {Intent_verified, Intent_packaged}"
proof -
  have "intents.descends i i'" using assms(1) by (simp add: intent_evolves_def)
  then show ?thesis
    by (rule intents.descends_closed [where P = "\<lambda>t. t \<in> {Intent_verified, Intent_packaged}"]) (use assms(2) in auto)
qed

lemma validated_signature_mono:
  assumes "evolves st st'" "validated_signature st signer v"
  shows "validated_signature st' signer v"
proof -
  obtain r ar rn where r: "r \<in> set (ss_attempts st)" "at_signer r = signer" "at_version r = v" "at_status r = Attempt_validated"
    and ar: "ar \<in> set (ss_artifacts st)" "ar_attempt ar = at_id r" "rank_reached (cs_policy (ss_case st)) (ar_format ar)"
    and rn: "rn \<in> set (ss_runs st)" "rn_artifact rn = ar_id ar" "indication_ok (cs_policy (ss_case st)) (rn_indication rn)"
    using assms(2) unfolding validated_signature_def list_ex_iff by blast
  have ev: "grows attempt_evolves (ss_attempts st) (ss_attempts st')" "grows (=) (ss_artifacts st) (ss_artifacts st')"
    "grows (=) (ss_runs st) (ss_runs st')" "cs_policy (ss_case st') = cs_policy (ss_case st)"
    using assms(1) by (simp_all add: evolves_def evidence_grows_def case_evolves_def)
  obtain r' where r': "r' \<in> set (ss_attempts st')" "attempt_evolves r r'" using grows_in [OF ev(1) r(1)] by blast
  then have "at_status r' = Attempt_validated"
    using r(4) attempts.descends_terminal [of r r'] by (simp add: attempt_evolves_def)
  moreover have "at_id r' = at_id r" "at_signer r' = signer" "at_version r' = v"
    using r' r by (simp_all add: attempt_evolves_def attempts.descends_def)
  moreover have "ar \<in> set (ss_artifacts st')" "rn \<in> set (ss_runs st')"
    by (fact grows_eq_in [OF ev(2) ar(1)], fact grows_eq_in [OF ev(3) rn(1)])
  ultimately show ?thesis unfolding validated_signature_def list_ex_iff
    using r'(1) ar(2,3) rn(2,3) ev(4) by (intro bexI [of _ r'] conjI bexI [of _ ar] bexI [of _ rn]) simp_all
qed

lemma signer_evidence_mono:
  assumes ev: "evolves st st'" and e: "signer_evidence st signer"
  shows "signer_evidence st' signer"
proof -
  have gi: "grows intent_evolves (ss_intents st) (ss_intents st')"
    and ga: "grows (=) (ss_identity_artifacts st) (ss_identity_artifacts st')"
    and mode: "cs_mode (ss_case st') = cs_mode (ss_case st)"
    using ev by (simp_all add: evolves_def evidence_grows_def case_evolves_def)
  have move: "\<exists>i' \<in> set (ss_intents st'). in_id i' = in_id i \<and> in_signer i' = in_signer i \<and> signables i' = signables i \<and>
      in_status i' \<in> {Intent_verified, Intent_packaged}"
    if i: "i \<in> set (ss_intents st)" "in_status i \<in> {Intent_verified, Intent_packaged}" for i
  proof -
    obtain i' where i': "i' \<in> set (ss_intents st')" "intent_evolves i i'" using grows_in [OF gi i(1)] by blast
    then have "in_id i' = in_id i \<and> in_signer i' = in_signer i \<and> signables i' = signables i"
      by (simp add: intent_evolves_def intents.descends_def signables_def)
    then show ?thesis using i' intent_status_closed [OF i'(2) i(2)] by blast
  qed
  have "\<exists>i \<in> set (ss_intents st'). in_signer i = signer \<and> in_status i \<in> {Intent_verified, Intent_packaged} \<and>
        (\<exists>a \<in> set (ss_identity_artifacts st'). ta_intent a = in_id i \<and> ta_pass a)"
  proof -
    obtain i a where i: "i \<in> set (ss_intents st)" "in_signer i = signer" "in_status i \<in> {Intent_verified, Intent_packaged}"
      and a: "a \<in> set (ss_identity_artifacts st)" "ta_intent a = in_id i" "ta_pass a"
      using e unfolding signer_evidence_def by blast
    have "a \<in> set (ss_identity_artifacts st')" using grows_eq_in [OF ga a(1)] .
    with move [OF i(1,3)] i(2) a(2,3) show ?thesis by metis
  qed
  moreover have "\<exists>i \<in> set (ss_intents st'). in_signer i = signer \<and> in_status i \<in> {Intent_verified, Intent_packaged} \<and>
      signables i \<noteq> [] \<and> (\<forall>d \<in> set (signables i). validated_signature st' signer (id_version d))"
    if el: "cs_mode (ss_case st') = ELECTRONIC_SIGNATURE"
  proof -
    obtain i where i: "i \<in> set (ss_intents st)" "in_signer i = signer" "in_status i \<in> {Intent_verified, Intent_packaged}"
      "signables i \<noteq> []" "\<forall>d \<in> set (signables i). validated_signature st signer (id_version d)"
      using e el mode unfolding signer_evidence_def by auto
    with move [OF i(1,3)] validated_signature_mono [OF ev] show ?thesis by metis
  qed
  ultimately show ?thesis unfolding signer_evidence_def by blast
qed

text \<open>What the triggers on a signer that becomes signed have checked.\<close>

lemma signed_trigger_evidence:
  assumes "signer_trigger (a, st) s s' = Inr ()" "sg_status s' = Signer_signed" "sg_status s \<noteq> Signer_signed"
  shows "signer_evidence st (sg_id s')"
proof -
  have 1: "bankid_terminal_evidence st s s' = Inr ()" and 2: "signer_signature_evidence st s s' = Inr ()"
    using assms(1) by (simp_all add: signer_trigger_Inr_iff)
  have "\<exists>i \<in> set (ss_intents st). in_signer i = sg_id s' \<and> in_status i \<in> {Intent_verified, Intent_packaged} \<and>
        (\<exists>a \<in> set (ss_identity_artifacts st). ta_intent a = in_id i \<and> ta_pass a)"
    using 1 assms(2,3) by (auto simp: bankid_terminal_evidence_def list_ex_iff split: if_splits)
  moreover have "\<exists>i \<in> set (ss_intents st). in_signer i = sg_id s' \<and> in_status i \<in> {Intent_verified, Intent_packaged} \<and>
      signables i \<noteq> [] \<and> (\<forall>d \<in> set (signables i). validated_signature st (sg_id s') (id_version d))"
    if el: "cs_mode (ss_case st) = ELECTRONIC_SIGNATURE"
  proof -
    obtain i where i: "consented_intent st (sg_id s') = Some i" "signables i \<noteq> []"
      "list_all (\<lambda>d. validated_signature st (sg_id s') (id_version d)) (signables i)"
      using 2 el assms(2,3) by (auto simp: signer_signature_evidence_def split: option.splits if_splits)
    have "i \<in> set (ss_intents st)" "in_signer i = sg_id s'" "in_status i \<in> {Intent_verified, Intent_packaged}"
      using i(1) unfolding consented_intent_def find_Some_iff by (auto simp: rev_nth)
    then show ?thesis using i(2,3) by (auto simp: list_all_iff)
  qed
  ultimately show ?thesis unfolding signer_evidence_def by blast
qed

section \<open>Secure transactions\<close>

definition secure :: "signing_state \<Rightarrow> signing_state \<Rightarrow> bool" where
  "secure st st' \<longleftrightarrow> evolves st st' \<and> (signed_with_evidence st \<longrightarrow> signed_with_evidence st')"

interpretation secure: frame secure
  by unfold_locales (auto simp: secure_def intro: evolves_trans)

text \<open>A statement that completes no signer keeps what the signed ones have.\<close>

lemma secureI:
  assumes "evolves st st'"
    "\<And>s'. s' \<in> set (ss_signers st') \<Longrightarrow> sg_status s' = Signer_signed \<Longrightarrow>
       (\<exists>s \<in> set (ss_signers st). sg_id s = sg_id s' \<and> sg_status s = Signer_signed) \<or> signer_evidence st (sg_id s')"
  shows "secure st st'"
proof -
  have "signer_evidence st' (sg_id s')"
    if sound: "signed_with_evidence st" and s': "s' \<in> set (ss_signers st')" "sg_status s' = Signer_signed" for s'
  proof -
    have "signer_evidence st (sg_id s')"
      using assms(2) [OF s']
    proof
      assume "\<exists>s \<in> set (ss_signers st). sg_id s = sg_id s' \<and> sg_status s = Signer_signed"
      then obtain s where s: "s \<in> set (ss_signers st)" "sg_id s = sg_id s'" "sg_status s = Signer_signed" by blast
      have "signer_evidence st (sg_id s)" using sound s(1,3) by (simp add: signed_with_evidence_def)
      then show ?thesis by (simp add: s(2))
    qed
    then show ?thesis by (rule signer_evidence_mono [OF assms(1)])
  qed
  then show ?thesis using assms(1) unfolding secure_def signed_with_evidence_def by blast
qed

lemma calm_secure: "calm st st' \<Longrightarrow> secure st st'"
proof (rule secureI)
  fix s' assume c: "calm st st'" and s': "s' \<in> set (ss_signers st')" "sg_status s' = Signer_signed"
  have all: "list_all2 signer_calm (ss_signers st) (ss_signers st')" using c by (simp add: calm_def)
  obtain s where "s \<in> set (ss_signers st)" "signer_calm s s'" using list_all2_back [OF all s'(1)] by blast
  then show "(\<exists>s \<in> set (ss_signers st). sg_id s = sg_id s' \<and> sg_status s = Signer_signed) \<or> signer_evidence st (sg_id s')"
    using s'(2) by (auto simp: signer_calm_def signers.descends_def)
qed (rule calm_evolves)

lemma secure_keeps_calm: "calm.keeps st m \<Longrightarrow> secure.keeps st m"
  by (auto simp: calm.keeps_def secure.keeps_def intro: calm_secure)

lemma secure_update_signers:
  assumes "update_signers a p f st = Inr st'" "\<And>s. sg_id (f s) = sg_id s"
  shows "secure st st'"
proof (rule secureI)
  have trig: "\<forall>s \<in> set (ss_signers st). p s \<longrightarrow> signer_trigger (a, st) s (f s) = Inr ()"
    and st': "st' = st\<lparr>ss_signers := map (\<lambda>s. if p s then f s else s) (ss_signers st)\<rparr>"
    using assms(1) unfolding update_signers_Inr_iff by blast+
  have one: "signer_evolves s (f s)" if "signer_trigger (a, st) s (f s) = Inr ()" for s
  proof -
    have "signers.descends s (f s)"
      using that assms(2) by (auto simp: signer_trigger_Inr_iff signers.descends_def)
    moreover have "signer_binding s (f s) = Inr ()" using that by (simp add: signer_trigger_Inr_iff)
    ultimately show ?thesis by (auto simp: signer_evolves_def signer_binding_def split: if_splits)
  qed
  have "list_all2 signer_evolves (ss_signers st) (map (\<lambda>s. if p s then f s else s) (ss_signers st))"
    using trig by (simp add: list.rel_map list_all2_same one)
  then show "evolves st st'" by (simp add: st' evolves_def evidence_grows_def case_evolves_def grows_refl grows_all2)
  fix s' assume s': "s' \<in> set (ss_signers st')" "sg_status s' = Signer_signed"
  then obtain s where s: "s \<in> set (ss_signers st)" "s' = (if p s then f s else s)" by (auto simp: st')
  show "(\<exists>s \<in> set (ss_signers st). sg_id s = sg_id s' \<and> sg_status s = Signer_signed) \<or> signer_evidence st (sg_id s')"
  proof (cases "sg_status s = Signer_signed")
    case False
    then have "p s" "s' = f s" using s s'(2) by (auto split: if_splits)
    then show ?thesis using signed_trigger_evidence [of a st s s'] trig s(1) s'(2) False by blast
  next
    case True
    then show ?thesis using s assms(2) by (auto split: if_splits)
  qed
qed

lemma secure_keeps_signers:
  "secure st st1 \<Longrightarrow> (\<And>s. sg_id (f s) = sg_id s) \<Longrightarrow> secure.keeps st (update_signers a p f st1)"
  by (erule secure.keeps_from, rule secure.keepsI) (rule secure_update_signers)

lemma secure_update_case:
  assumes "update_case a p f st = Inr st'" "\<And>c. cs_mode (f c) = cs_mode c \<and> cs_policy (f c) = cs_policy c"
  shows "secure st st'"
proof (rule secureI)
  have "case_evolves c (f c)" if "case_trigger (a, st) c (f c) = Inr ()" for c
  proof -
    have "cs_status (f c) = cs_status c \<or> cs_status (f c) \<in> set (case_moves (cs_status c))"
      using that by (simp add: case_trigger_Inr_iff)
    then show ?thesis using assms(2) by (cases "cs_status c") (auto simp: case_evolves_def unsent_def)
  qed
  moreover have "case_evolves (ss_case st) (ss_case st)" by (simp add: case_evolves_def)
  ultimately show "evolves st st'"
    using assms(1) by (auto simp: update_case_Inr_iff evolves_def evidence_grows_def grows_refl)
  fix s' assume "s' \<in> set (ss_signers st')" "sg_status s' = Signer_signed"
  then show "(\<exists>s \<in> set (ss_signers st). sg_id s = sg_id s' \<and> sg_status s = Signer_signed) \<or> signer_evidence st (sg_id s')"
    using assms(1) by (auto simp: update_case_Inr_iff)
qed

lemma secure_keeps_case:
  "secure st st1 \<Longrightarrow> (\<And>c. cs_mode (f c) = cs_mode c \<and> cs_policy (f c) = cs_policy c) \<Longrightarrow> secure.keeps st (update_case a p f st1)"
  by (erule secure.keeps_from, rule secure.keepsI) (rule secure_update_case)

lemma secure_invite: "secure st (invite fr t e s st)"
  by (rule secureI) (auto simp: evolves_def evidence_grows_def case_evolves_def grows_refl grows_append)

lemma secure_invite' [simp, intro]: "secure st st1 \<Longrightarrow> secure st (invite fr t e s st1)"
  using secure_invite secure.R_trans by blast

lemma secure_new_intents [simp, intro]: "secure st (st\<lparr>ss_intents := ss_intents st @ js\<rparr>)"
  by (rule secureI) (auto simp: evolves_def evidence_grows_def case_evolves_def grows_refl grows_append)

lemma secure_new_signers:
  "\<forall>s \<in> set ss. sg_status s \<noteq> Signer_signed \<Longrightarrow> secure st (st\<lparr>ss_signers := ss_signers st @ ss\<rparr>)"
  by (rule secureI) (auto simp: evolves_def evidence_grows_def case_evolves_def grows_refl grows_append)

lemma secure_bookkeeping [simp]:
  "secure st (log_entries es st') \<longleftrightarrow> secure st st'" "secure st (enqueue_job t k st') \<longleftrightarrow> secure st st'"
proof -
  have "secure st' (log_entries es st')" "secure (log_entries es st') st'"
    "secure st' (enqueue_job t k st')" "secure (enqueue_job t k st') st'"
    by (simp_all add: calm_secure)
  then show "secure st (log_entries es st') \<longleftrightarrow> secure st st'" "secure st (enqueue_job t k st') \<longleftrightarrow> secure st st'"
    using secure.R_trans by blast+
qed

lemma secure_keeps_calm_from: "secure st st1 \<Longrightarrow> calm.keeps st1 m \<Longrightarrow> secure.keeps st m"
  using secure.keeps_from secure_keeps_calm by blast

lemma secure_refl [simp]: "secure st st"
  by (rule secure.R_refl)

lemma secure_keeps_intents: "secure st st1 \<Longrightarrow> secure.keeps st (update_intents p (set_intent t) st1)"
  by (rule secure_keeps_calm_from) (auto intro: calm_keeps_intents)

lemma secure_keeps_attempts: "secure st st1 \<Longrightarrow> secure.keeps st (update_attempts a p (set_attempt t) st1)"
  by (rule secure_keeps_calm_from) (auto intro: calm_keeps_attempts)

lemma secure_keeps_documents:
  "secure st st1 \<Longrightarrow> (\<And>d. dc_version (f d) = dc_version d) \<Longrightarrow> secure.keeps st (update_documents a p f st1)"
  by (rule secure_keeps_calm_from) (auto intro: calm_keeps_documents)

lemma secure_keeps_invitations:
  "secure st st1 \<Longrightarrow> (\<And>v. iv_id (f v) = iv_id v \<and> iv_signer (f v) = iv_signer v) \<Longrightarrow> secure.keeps st (update_invitations p f st1)"
  by (rule secure_keeps_calm_from) (auto intro: calm_keeps_invitations)

lemmas secure_intros = secure.keeps_intros secure_keeps_signers secure_keeps_case secure_keeps_intents secure_keeps_attempts
  secure_keeps_documents secure_keeps_invitations

lemma set_status_fields [simp]:
  "sg_id (set_status t s) = sg_id s" "sg_order (set_status t s) = sg_order s" "sg_required (set_status t s) = sg_required s"
  "sg_status (set_status t s) = t"
  by (simp_all add: set_status_def)

lemma secure_addSigner: "secure.keeps st (addSigner sid inp st)"
  unfolding addSigner_def
  by (intro secure_intros; simp add: secure_new_signers bound_signer_def)

lemma secure_updateSigner: "secure.keeps st (updateSigner a sid inp v st)"
  unfolding updateSigner_def
  by (intro secure_intros; simp add: bound_signer_def)

lemma secure_send_one: "secure.keeps st (send_one a fr e g ds s st)"
  unfolding send_one_def
  by (intro secure_intros; simp)

lemma secure_sendCase: "secure.keeps st (sendCase a fr now v st)"
  unfolding sendCase_def transitionCase_def before_send_def
  by (intro secure_intros secure_send_one; simp add: set_case_status_def)

lemma secure_handleReminder: "secure.keeps st (handleReminder fr now st)"
  unfolding handleReminder_def remind_one_def
  by (intro secure_intros; simp)

lemma secure_activate: "secure st st1 \<Longrightarrow> secure.keeps st (activateNextSigningGroup a fr st1)"
proof (erule secure.keeps_from)
  show "secure.keeps st1 (activateNextSigningGroup a fr st1)"
  proof (cases "map sg_order (pending_turn st1)")
    case (Cons g gs)
    show ?thesis unfolding activateNextSigningGroup_def Cons list.case activate_one_def
      by (intro secure_intros; simp)
  qed (simp add: activateNextSigningGroup_def)
qed

lemma secure_complete_signer: "secure st st1 \<Longrightarrow> secure.keeps st (complete_signer fr now intent signer st1)"
  unfolding complete_signer_def
  by (intro secure_intros secure_activate; simp)

lemma secure_recordPadesReport: "secure.keeps st (recordPadesReport fr now sha level intent attempt signer artifact r st)"
proof -
  let ?st1 = "st\<lparr>ss_runs := ss_runs st @ [\<lparr>rn_artifact = ar_id artifact, rn_indication = pr_indication r,
      rn_trust_list = False, rn_report = sha\<rparr>]\<rparr>"
  have st1: "secure st ?st1" by (simp add: calm_secure)
  have reject: "secure.keeps st (reject_signature attempt (ar_id artifact) signer event ?st1)" for event
    by (rule secure_keeps_calm_from [OF st1 calm_reject_signature])
  have admit: "secure.keeps st (admit_signature fr now intent attempt signer artifact ?st1)"
    unfolding admit_signature_def
    by (rule secure.keeps_from [OF st1]) (intro secure_intros secure_complete_signer; simp)
  show ?thesis using reject admit unfolding recordPadesReport_def
    by (simp add: Let_def split: sum.split)
qed

lemma calm_write_package [simp]: "calm st (write_package q signer sha st)"
  by (simp add: write_package_def calm_def evidence_grows_def grows_refl list_all2_same)

lemma secure_recordPackage: "secure.keeps st (recordPackage now pid signer sha st)"
  unfolding recordPackage_def finish_package_def
  by (intro secure_intros; simp add: calm_secure set_case_status_def)

lemmas secure_calm_transactions = calm_remindCase calm_cancelCase calm_markOpened calm_decline calm_handleCaseExpire
  calm_addDocument calm_recordStart calm_recordPageStatus calm_recordCancel calm_recordPoll
  calm_failIdentityTransaction calm_recordCollected calm_recordRejected calm_recordVerified calm_begin_signing
  calm_recordSignature calm_rejectDocument calm_scan_passed calm_canonicalised

end
