(* ===== verification/Signing_Flow.thy ===== *)
theory Signing_Flow
  imports Signing_Evidence
begin

text \<open>
  All histories of a signature case: the transactions of the repository, the invitation page and
  the worker in any order, each with any arguments. What a transaction has read in an earlier one
  is an arbitrary argument too, except that rows get new keys and that a BankID session is recorded
  with a start input that was loaded before (\<open>pending\<close> holds the inputs whose session is opening).
\<close>

section \<open>Transactions\<close>

text \<open>The transactions that invite nobody and complete neither a signer nor the case, and the others.\<close>

inductive routine :: "signing_state \<Rightarrow> signing_state \<Rightarrow> bool" where
  rt_addDocument: "routine st st'" if "addDocument a g ids name role st = Inr st'" "snd ids \<notin> dc_version ` set (ss_documents st)"
| rt_cancelCase: "routine st st'" if "cancelCase a now v st = Inr st'"
| rt_remindCase: "routine st st'" if "remindCase k st = Inr st'"
| rt_markOpened: "routine st st'" if "markOpened now iv st = Inr st'"
| rt_decline: "routine st st'" if "decline now iv st = Inr st'"
| rt_handleCaseExpire: "routine st st'" if "handleCaseExpire now st = Inr st'"
| rt_recordPageStatus: "routine st st'" if "recordPageStatus now loaded status st = Inr st'"
| rt_recordExtension: "routine st st'" if "recordExtension now loaded session st = Inr st'"
| rt_recordCancel: "routine st st'" if "recordCancel loaded st = Inr st'"
| rt_recordPoll: "routine st st'" if "recordPoll now tid status st = Inr st'"
| rt_failIdentity: "routine st st'" if "failIdentityTransaction now tid intent signer reason st = Inr st'"
| rt_recordCollected: "routine st st'" if "recordCollected now tid intent evidence st = Inr st'"
| rt_recordValidation: "routine st st'" if "recordValidation now tid i report checks st = Inr st'"
| rt_recordManifest: "routine st (st\<lparr>ss_manifests := ms\<rparr>)"
| rt_beginSigning: "routine st st'" if "begin_signing signer st = Inr st'"
| rt_recordSignature: "routine st st'" if "recordSignature attempt artifact signer t d level path sha inp st = Inr st'"
    "attempt \<notin> at_id ` set (ss_attempts st)" "artifact \<notin> ar_id ` set (ss_artifacts st)"
| rt_beginScan: "routine st st'" if "begin_scan v st = Inr (st', d)"
| rt_saveReport: "routine st (save_report v type pass st)"
| rt_rejectDocument: "routine st st'" if "rejectDocument v st = Inr st'"
| rt_scanPassed: "routine st st'" if "scan_passed v doc pages st = Inr st'"
| rt_canonicalised: "routine st st'" if "canonicalised v doc k sha n pages st = Inr st'"

inductive operation :: "signing_state \<Rightarrow> signing_state \<Rightarrow> bool" where
  op_routine: "operation st st'" if "routine st st'"
| op_addSigner: "operation st st'" if "addSigner sid inp st = Inr st'" "sid \<notin> sg_id ` set (ss_signers st)"
| op_updateSigner: "operation st st'" if "updateSigner a sid inp v st = Inr st'"
| op_sendCase: "operation st st'" if "sendCase a fr now v st = Inr st'"
| op_handleReminder: "operation st st'" if "handleReminder fr now st = Inr st'"
| op_recordPadesReport: "operation st st'" if "recordPadesReport fr now sha level intent attempt signer artifact r st = Inr st'"
| op_recordPackage: "operation st st'" if "recordPackage now pid signer sha st = Inr st'"

inductive flow :: "signing_state \<times> start_input list \<Rightarrow> signing_state \<times> start_input list \<Rightarrow> bool" where
  flow_operation: "flow (st, pending) (st', pending)" if "operation st st'"
| flow_load: "flow (st, pending) (st, s # pending)" if "loadStartInput now iv drawn st = Inr s"
| flow_start: "flow (st, pending) (st', pending)" if "s \<in> set pending" "recordStart now s reference st = Inr st'"

inductive reached :: "signing_state \<times> start_input list \<Rightarrow> bool" where
  reached_new: "reached (st, [])" if "createCase policy mode rollout = Inr st"
| reached_step: "reached c'" if "reached c" "flow c c'"

section \<open>The frame of a history\<close>

lemma begin_scan_calm: "begin_scan v st = Inr (st', d) \<Longrightarrow> calm st st'"
  unfolding begin_scan_def bindR_Inr_iff
  by (auto split: if_splits simp: bindR_Inr_iff elim!: calm_update_documents)

lemma save_report_calm [simp]: "calm st (save_report v type pass st)"
  by (simp add: save_report_def)

lemma recordExtension_calm: "calm.keeps st (recordExtension now loaded session st)"
  unfolding recordExtension_def by (intro calm_intros; simp)

lemma recordValidation_calm: "calm.keeps st (recordValidation now tid i report checks st)"
  unfolding recordValidation_def by (simp add: calm_recordVerified calm_recordRejected)

lemmas routine_calm_rules = calm_addDocument calm_cancelCase calm_remindCase calm_markOpened calm_decline
  calm_handleCaseExpire calm_recordPageStatus recordExtension_calm calm_recordCancel calm_recordPoll
  calm_failIdentityTransaction calm_recordCollected recordValidation_calm calm_begin_signing calm_recordSignature
  calm_rejectDocument calm_scan_passed calm_canonicalised

lemma routine_calm: "routine st st' \<Longrightarrow> calm st st'"
  by (induction rule: routine.induct)
    (erule routine_calm_rules [THEN calm.keepsD] begin_scan_calm | simp)+

lemma operation_secure: "operation st st' \<Longrightarrow> secure st st'"
  by (induction rule: operation.induct)
    (erule routine_calm [THEN calm_secure] secure_addSigner [THEN secure.keepsD] secure_updateSigner [THEN secure.keepsD]
      secure_sendCase [THEN secure.keepsD] secure_handleReminder [THEN secure.keepsD]
      secure_recordPadesReport [THEN secure.keepsD] secure_recordPackage [THEN secure.keepsD])+

lemma flow_secure: "flow c c' \<Longrightarrow> secure (fst c) (fst c')"
  by (induction rule: flow.induct)
    (simp_all add: operation_secure calm_secure calm.keepsD [OF calm_recordStart])

lemma flow_secure_star: "flow\<^sup>*\<^sup>* c c' \<Longrightarrow> secure (fst c) (fst c')"
  by (induction rule: rtranclp_induct) (auto intro: secure.R_trans flow_secure)

lemma reached_star: "flow\<^sup>*\<^sup>* c c' \<Longrightarrow> reached c \<Longrightarrow> reached c'"
  by (induction rule: rtranclp_induct) (auto intro: reached_step)

lemma reached_signed: "reached c \<Longrightarrow> signed_with_evidence (fst c)"
proof (induction rule: reached.induct)
  case (reached_new policy mode rollout st)
  then show ?case by (auto simp: createCase_def signed_with_evidence_def split: if_splits)
next
  case (reached_step c c')
  then show ?case using flow_secure by (auto simp: secure_def)
qed

end
