(* ===== verification/Signing_Order.thy ===== *)
theory Signing_Order
  imports Signing_Flow
begin

text \<open>
  The order of a case in every history: nobody leaves \<open>pending\<close> before the required signers of the
  groups before are done, an unsent case has invited nobody, the invitations of a signed signer are
  used, and a case is never in the statuses that only the database knows.
\<close>

section \<open>The invariant\<close>

definition open_or_closed :: "case_status set" where
  "open_or_closed = {Case_draft, Case_preparing, Case_ready, Case_sent, Case_declined, Case_expired, Case_cancelled}"

definition in_turn :: "signer_row list \<Rightarrow> bool" where
  "in_turn ss \<longleftrightarrow> (\<forall>s \<in> set ss. sg_status s \<noteq> Signer_pending \<longrightarrow>
     (\<forall>lower \<in> set ss. sg_order lower < sg_order s \<and> sg_required lower \<longrightarrow> sg_status lower = Signer_signed))"

definition untouched :: "signing_state \<Rightarrow> bool" where
  "untouched st \<longleftrightarrow> (\<forall>s \<in> set (ss_signers st). sg_status s = Signer_pending) \<and> ss_intents st = []"

definition invitations_used :: "signing_state \<Rightarrow> bool" where
  "invitations_used st \<longleftrightarrow> (\<forall>v \<in> set (ss_invitations st). \<forall>s \<in> set (ss_signers st).
     iv_signer v = sg_id s \<and> sg_status s = Signer_signed \<longrightarrow> iv_used v \<noteq> None)"

definition orderly :: "signing_state \<Rightarrow> bool" where
  "orderly st \<longleftrightarrow> distinct (map sg_id (ss_signers st)) \<and> in_turn (ss_signers st) \<and>
     (cs_status (ss_case st) \<in> unsent \<longrightarrow> untouched st) \<and> invitations_used st \<and>
     cs_status (ss_case st) \<in> open_or_closed"

text \<open>What the invariant says of a signer, it says of the following part of its row.\<close>

definition signer_view :: "signer_row \<Rightarrow> string \<times> int \<times> bool \<times> bool \<times> bool" where
  "signer_view s = (sg_id s, sg_order s, sg_required s, sg_status s = Signer_pending, sg_status s = Signer_signed)"

lemma same_views_in:
  assumes "map signer_view ss' = map signer_view ss" "s' \<in> set ss'"
  obtains s where "s \<in> set ss" "sg_id s = sg_id s'" "sg_order s = sg_order s'" "sg_required s = sg_required s'"
    "sg_status s = Signer_pending \<longleftrightarrow> sg_status s' = Signer_pending"
    "sg_status s = Signer_signed \<longleftrightarrow> sg_status s' = Signer_signed"
proof -
  have "set (map signer_view ss') = set (map signer_view ss)" by (simp only: assms(1))
  then have "signer_view s' \<in> signer_view ` set ss" using assms(2) by auto
  then obtain s where "s \<in> set ss" "signer_view s' = signer_view s" by (rule imageE) auto
  then show thesis using that [of s] by (simp add: signer_view_def)
qed

lemma same_views_turn: "map signer_view ss' = map signer_view ss \<Longrightarrow> in_turn ss \<Longrightarrow> in_turn ss'"
proof -
  assume v: "map signer_view ss' = map signer_view ss" and t: "in_turn ss"
  show ?thesis unfolding in_turn_def
  proof (intro ballI impI, elim conjE)
    fix s' l' assume s': "s' \<in> set ss'" "sg_status s' \<noteq> Signer_pending"
      and l': "l' \<in> set ss'" "sg_order l' < sg_order s'" "sg_required l'"
    obtain s where s: "s \<in> set ss" "sg_order s = sg_order s'" "sg_status s \<noteq> Signer_pending"
      by (rule same_views_in [OF v s'(1)], erule that) (use s'(2) in simp_all)
    obtain l where l: "l \<in> set ss" "sg_order l = sg_order l'" "sg_required l"
      "sg_status l = Signer_signed \<longleftrightarrow> sg_status l' = Signer_signed"
      by (rule same_views_in [OF v l'(1)], erule that) (use l'(3) in simp_all)
    have "sg_status l = Signer_signed" using t [unfolded in_turn_def, rule_format, OF s(1,3) l(1)] s(2) l(2,3) l'(2) by simp
    then show "sg_status l' = Signer_signed" using l(4) by simp
  qed
qed

lemma same_views_ids: "map signer_view ss' = map signer_view ss \<Longrightarrow> map sg_id ss' = map sg_id ss"
proof -
  assume "map signer_view ss' = map signer_view ss"
  then have "map fst (map signer_view ss') = map fst (map signer_view ss)" by simp
  then show ?thesis by (simp add: signer_view_def comp_def)
qed

section \<open>Calm transactions\<close>

lemma calm_views: "calm st st' \<Longrightarrow> map signer_view (ss_signers st') = map signer_view (ss_signers st)"
proof -
  assume "calm st st'"
  then have "list_all2 signer_calm (ss_signers st) (ss_signers st')" by (simp add: calm_def)
  then show ?thesis
    by (induction rule: list_all2_induct) (auto simp: signer_view_def signer_calm_def signers.descends_def)
qed

lemma calm_invitations_used:
  assumes c: "calm st st'" and u: "invitations_used st"
  shows "invitations_used st'"
  unfolding invitations_used_def
proof (intro ballI impI, elim conjE)
  fix v' s' assume v': "v' \<in> set (ss_invitations st')" and s': "s' \<in> set (ss_signers st')"
    and e: "iv_signer v' = sg_id s'" "sg_status s' = Signer_signed"
  have inv: "list_all2 invitation_evolves (ss_invitations st) (ss_invitations st')" using c by (simp add: calm_def)
  obtain v where v: "v \<in> set (ss_invitations st)" "invitation_evolves v v'" using list_all2_back [OF inv v'] by blast
  obtain s where s: "s \<in> set (ss_signers st)" "sg_id s = sg_id s'" "sg_status s = Signer_signed"
    by (rule same_views_in [OF calm_views [OF c] s'], erule that) (use e(2) in simp_all)
  have "iv_used v \<noteq> None" using u v s e(1) unfolding invitations_used_def invitation_evolves_def by auto
  then show "iv_used v' \<noteq> None" using v(2) by (simp add: invitation_evolves_def)
qed

lemma calm_orderly:
  assumes c: "calm st st'" and o: "orderly st"
  shows "orderly st'"
proof -
  have case_c: "case_calm (ss_case st) (ss_case st')"
    and ints: "list_all2 intent_evolves (ss_intents st) (ss_intents st')" using c by (simp_all add: calm_def)
  have views: "map signer_view (ss_signers st') = map signer_view (ss_signers st)" by (rule calm_views [OF c])
  have "untouched st'" if "cs_status (ss_case st') \<in> unsent"
  proof -
    have u: "untouched st" using o that case_c by (auto simp: orderly_def case_calm_def)
    have "sg_status s' = Signer_pending" if s': "s' \<in> set (ss_signers st')" for s'
      by (rule same_views_in [OF views s']) (use u in \<open>simp add: untouched_def\<close>)
    then show ?thesis using u ints by (simp add: untouched_def)
  qed
  moreover have "cs_status (ss_case st') \<in> open_or_closed"
    using o case_c by (auto simp: orderly_def case_calm_def open_or_closed_def)
  ultimately show ?thesis
    using o same_views_turn [OF views] same_views_ids [OF views] calm_invitations_used [OF c] by (simp add: orderly_def)
qed

section \<open>Inviting a group\<close>

text \<open>
  The state inside a loop that invites: waiting signers of the group may have become \<open>invited\<close>, and
  new invitations belong to signers that waited.
\<close>

definition invited_from :: "int \<Rightarrow> signer_row \<Rightarrow> signer_row \<Rightarrow> bool" where
  "invited_from g x y \<longleftrightarrow> sg_id y = sg_id x \<and> sg_order y = sg_order x \<and> sg_required y = sg_required x \<and>
     (sg_status y = sg_status x \<or> sg_status x = Signer_pending \<and> sg_status y = Signer_invited \<and> sg_order x = g)"

definition inviting :: "int \<Rightarrow> signing_state \<Rightarrow> signing_state \<Rightarrow> bool" where
  "inviting g st cur \<longleftrightarrow> ss_case cur = ss_case st \<and> list_all2 (invited_from g) (ss_signers st) (ss_signers cur) \<and>
     (\<forall>v \<in> set (ss_invitations cur). v \<in> set (ss_invitations st) \<or>
        (\<exists>s \<in> set (ss_signers st). sg_status s = Signer_pending \<and> iv_signer v = sg_id s))"

lemma inviting_refl [simp]: "inviting g st st"
  by (simp add: inviting_def invited_from_def list_all2_same)

lemma inviting_bookkeeping [simp]:
  "inviting g st (log_entries es cur) \<longleftrightarrow> inviting g st cur" "inviting g st (enqueue_job t k cur) \<longleftrightarrow> inviting g st cur"
  "inviting g st (cur\<lparr>ss_intents := js\<rparr>) \<longleftrightarrow> inviting g st cur"
  by (simp_all add: inviting_def)

lemma invited_ids: "list_all2 (invited_from g) xs ys \<Longrightarrow> map sg_id ys = map sg_id xs"
  by (induction rule: list_all2_induct) (auto simp: invited_from_def)

text \<open>One turn of such a loop: an invitation of a waiting signer of the group and its new status.\<close>

lemma inviting_step:
  assumes d: "distinct (map sg_id (ss_signers st))" and inv: "inviting g st cur"
    and s: "s \<in> set (ss_signers st)" "sg_status s = Signer_pending" "sg_order s = g"
    and p: "\<And>y. p y \<Longrightarrow> sg_id y = sg_id s"
    and upd: "update_signers a p (set_status Signer_invited) (invite fr tmpl e (sg_id s) cur) = Inr cur'"
  shows "inviting g st cur'"
proof -
  let ?f = "\<lambda>y. if p y then set_status Signer_invited y else y"
  have cur': "cur' = (invite fr tmpl e (sg_id s) cur)\<lparr>ss_signers := map ?f (ss_signers cur)\<rparr>"
    using upd by (simp add: update_signers_Inr_iff)
  have "list_all2 (invited_from g) xs (map ?f ys)"
    if "list_all2 (invited_from g) xs ys" "set xs \<subseteq> set (ss_signers st)" for xs ys
    using that
  proof (induction rule: list_all2_induct)
    case (Cons x xs y ys)
    have x: "x \<in> set (ss_signers st)" using Cons.prems by simp
    have "invited_from g x (?f y)"
    proof (cases "p y")
      case True
      then have "sg_id x = sg_id s" using p Cons.hyps(1) by (simp add: invited_from_def)
      then have "x = s" using d x s(1) by (auto simp: distinct_map inj_on_def)
      then show ?thesis using True s Cons.hyps(1) by (simp add: invited_from_def)
    qed (use Cons.hyps(1) in simp)
    then show ?case using Cons by simp
  qed simp
  then have "list_all2 (invited_from g) (ss_signers st) (map ?f (ss_signers cur))"
    using inv by (simp add: inviting_def)
  then show ?thesis using inv s(1,2) by (auto simp: cur' inviting_def)
qed

lemma inviting_turn:
  assumes d: "distinct (map sg_id (ss_signers st))" and t: "in_turn (ss_signers st)" and inv: "inviting g st cur"
    and free: "\<And>l. l \<in> set (ss_signers st) \<Longrightarrow> sg_order l < g \<Longrightarrow> sg_required l \<Longrightarrow> sg_status l = Signer_signed"
  shows "in_turn (ss_signers cur)"
  unfolding in_turn_def
proof (intro ballI impI, elim conjE)
  fix y l' assume y: "y \<in> set (ss_signers cur)" "sg_status y \<noteq> Signer_pending"
    and l': "l' \<in> set (ss_signers cur)" "sg_order l' < sg_order y" "sg_required l'"
  have all: "list_all2 (invited_from g) (ss_signers st) (ss_signers cur)" using inv by (simp add: inviting_def)
  obtain x where x: "x \<in> set (ss_signers st)" "invited_from g x y" using list_all2_back [OF all y(1)] by blast
  obtain l where l: "l \<in> set (ss_signers st)" "invited_from g l l'" using list_all2_back [OF all l'(1)] by blast
  have lo: "sg_order l < sg_order x" "sg_required l" using l' l(2) x(2) by (simp_all add: invited_from_def)
  have "sg_status l = Signer_signed"
  proof (cases "sg_status x = Signer_pending")
    case True
    then have "sg_order x = g" using x(2) y(2) by (auto simp: invited_from_def)
    then show ?thesis using free l(1) lo by simp
  next
    case False
    then show ?thesis by (rule t [unfolded in_turn_def, rule_format, OF x(1) _ l(1)]) (simp add: lo)
  qed
  then show "sg_status l' = Signer_signed" using l(2) by (auto simp: invited_from_def)
qed

lemma inviting_used:
  assumes d: "distinct (map sg_id (ss_signers st))" and u: "invitations_used st" and inv: "inviting g st cur"
  shows "invitations_used cur"
  unfolding invitations_used_def
proof (intro ballI impI, elim conjE)
  fix v y assume v: "v \<in> set (ss_invitations cur)" and y: "y \<in> set (ss_signers cur)"
    and e: "iv_signer v = sg_id y" "sg_status y = Signer_signed"
  have all: "list_all2 (invited_from g) (ss_signers st) (ss_signers cur)" using inv by (simp add: inviting_def)
  obtain x where x: "x \<in> set (ss_signers st)" "invited_from g x y" using list_all2_back [OF all y] by blast
  then have xs: "sg_status x = Signer_signed" "sg_id x = sg_id y" using e(2) by (auto simp: invited_from_def)
  consider "v \<in> set (ss_invitations st)"
    | s where "s \<in> set (ss_signers st)" "sg_status s = Signer_pending" "iv_signer v = sg_id s"
    using inv v unfolding inviting_def by blast
  then show "iv_used v \<noteq> None"
  proof cases
    case 1
    then show ?thesis using u [unfolded invitations_used_def, rule_format, OF 1 x(1)] e xs by simp
  next
    case 2
    then have "s = x" using d x(1) e(1) xs(2) by (auto simp: distinct_map inj_on_def)
    then show ?thesis using 2(2) xs(1) by simp
  qed
qed

section \<open>The next group\<close>

lemma inviting_each:
  assumes "each_row step xs st = Inr st'"
    "\<And>x s s'. x \<in> set xs \<Longrightarrow> step x s = Inr s' \<Longrightarrow> inviting g st0 s \<Longrightarrow> inviting g st0 s'"
    "inviting g st0 st"
  shows "inviting g st0 st'"
  using each_row_preserves [where P = "inviting g st0", OF assms(1,3)] assms(2) by blast

lemma next_group_free:
  assumes d: "distinct (map sg_id (ss_signers st))" and g: "g \<in> set (map sg_order (pending_turn st))"
    and l: "l \<in> set (ss_signers st)" "sg_order l < g" "sg_required l"
  shows "sg_status l = Signer_signed"
proof -
  obtain s where s: "s \<in> set (ss_signers st)" "sg_order s = g" "\<not> signing_turn_blocked st (sg_id s)"
    using g by (auto simp: pending_turn_def)
  show ?thesis
  proof (rule ccontr)
    assume "sg_status l \<noteq> Signer_signed"
    then have "list_ex (\<lambda>lower. sg_order lower < sg_order s \<and> sg_required lower \<and> sg_status lower \<noteq> Signer_signed) (ss_signers st)"
      using l s(2) by (auto simp: list_ex_iff)
    then have "signing_turn_blocked st (sg_id s)"
      using s(1) unfolding signing_turn_blocked_def by (auto simp: list_ex_iff)
    then show False using s(3) by simp
  qed
qed

lemma activate_inviting:
  assumes d: "distinct (map sg_id (ss_signers st))" and a: "activateNextSigningGroup a fr st = Inr st'"
  obtains g where "inviting g st st'" "ss_intents st' = ss_intents st"
    "\<And>l. l \<in> set (ss_signers st) \<Longrightarrow> sg_order l < g \<Longrightarrow> sg_required l \<Longrightarrow> sg_status l = Signer_signed"
  | "st' = st"
proof (cases "st' = st")
  case False
  define g where "g = Min (set (map sg_order (pending_turn st)))"
  let ?xs = "concat (map (\<lambda>s. map (\<lambda>i. (s, i)) (filter (\<lambda>i. in_signer i = sg_id s) (ss_intents st)))
                  (filter (\<lambda>s. sg_order s = g \<and> sg_status s = Signer_pending) (ss_signers st)))"
  have ne: "pending_turn st \<noteq> []" and each: "each_row (activate_one a fr) ?xs st = Inr st'"
    using a False unfolding activateNextSigningGroup_def g_def by (auto split: list.splits if_splits simp: Let_def)
  have gin: "g \<in> set (map sg_order (pending_turn st))" unfolding g_def using ne by (intro Min_in) auto
  have inv: "inviting g st st'"
  proof (rule inviting_each [OF each])
    fix x s s' assume x: "x \<in> set ?xs" and step: "activate_one a fr x s = Inr s'" and inv: "inviting g st s"
    have fx: "fst x \<in> set (ss_signers st)" "sg_status (fst x) = Signer_pending" "sg_order (fst x) = g" using x by auto
    obtain s1 where u: "update_signers a (\<lambda>s. sg_id s = sg_id (fst x) \<and> sg_status s = Signer_pending) (set_status Signer_invited)
        (invite fr ''signature_invitation'' (in_expires (snd x)) (sg_id (fst x)) s) = Inr s1"
      and s': "s' = log_entries [Audit ''invitation.created'' (sg_id (fst x))] s1"
      using step by (auto simp: activate_one_def bindR_Inr_iff)
    have "inviting g st s1" by (rule inviting_step [OF d inv fx _ u]) simp
    then show "inviting g st s'" by (simp add: s')
  qed simp
  moreover have "ss_intents st' = ss_intents st"
    by (rule each_row_preserves [where P = "\<lambda>s. ss_intents s = ss_intents st", OF each])
      (auto simp: activate_one_def bindR_Inr_iff update_signers_Inr_iff)
  ultimately show thesis using that(1) next_group_free [OF d gin] by blast
qed (use that in blast)

lemma activate_no_intents:
  assumes "ss_intents st = []"
  shows "activateNextSigningGroup a fr st = Inr st"
proof -
  have none: "concat (map (\<lambda>s. map (\<lambda>i. (s, i)) (filter (\<lambda>i. in_signer i = sg_id s) (ss_intents st))) ss) = []" for ss
    by (induction ss) (simp_all add: assms)
  show ?thesis unfolding activateNextSigningGroup_def none by (simp add: Let_def split: list.split)
qed

lemma activate_orderly:
  assumes o: "orderly st" and a: "activateNextSigningGroup a fr st = Inr st'"
  shows "orderly st'"
proof (cases "cs_status (ss_case st) \<in> unsent")
  case True
  then have "ss_intents st = []" using o by (simp add: orderly_def untouched_def)
  then show ?thesis using a o by (simp add: activate_no_intents)
next
  case False
  have d: "distinct (map sg_id (ss_signers st))" using o by (simp add: orderly_def)
  show ?thesis
  proof (rule activate_inviting [OF d a])
    fix g assume i: "inviting g st st'"
      and f: "\<And>l. l \<in> set (ss_signers st) \<Longrightarrow> sg_order l < g \<Longrightarrow> sg_required l \<Longrightarrow> sg_status l = Signer_signed"
    have "in_turn (ss_signers st')" using inviting_turn [OF d _ i f] o by (simp add: orderly_def)
    moreover have "invitations_used st'" using inviting_used [OF d _ i] o by (simp add: orderly_def)
    moreover have "ss_case st' = ss_case st" "distinct (map sg_id (ss_signers st'))"
      using i d invited_ids [of g "ss_signers st" "ss_signers st'"] by (simp_all add: inviting_def)
    ultimately show ?thesis using o False by (simp add: orderly_def)
  qed (use o in simp)
qed

section \<open>The other operations\<close>

lemma addSigner_orderly:
  assumes o: "orderly st" and a: "addSigner sid inp st = Inr st'" and n: "sid \<notin> sg_id ` set (ss_signers st)"
  shows "orderly st'"
proof -
  have u: "cs_status (ss_case st) \<in> unsent"
    using a by (auto simp: addSigner_def requireCase_def bindR_Inr_iff throw_def unsent_def split: if_splits)
  have "\<exists>xs. ss_signers st' = ss_signers st @ xs \<and> map sg_id xs = [sid] \<and> (\<forall>x \<in> set xs. sg_status x = Signer_pending)"
    using a by (auto simp: addSigner_def bindR_Inr_iff bound_signer_def)
  then obtain xs where x: "ss_signers st' = ss_signers st @ xs" "map sg_id xs = [sid]" "\<forall>x \<in> set xs. sg_status x = Signer_pending"
    by (elim exE conjE) (rule that)
  have same: "ss_case st' = ss_case st" "ss_intents st' = ss_intents st" "ss_invitations st' = ss_invitations st"
    using a by (auto simp: addSigner_def bindR_Inr_iff)
  have "untouched st" using o u by (simp add: orderly_def)
  then have u': "untouched st'" using x(3) by (auto simp: untouched_def x(1) same)
  then have "in_turn (ss_signers st')" "invitations_used st'"
    unfolding untouched_def in_turn_def invitations_used_def by auto
  moreover have "distinct (map sg_id (ss_signers st'))" using o n by (simp add: orderly_def x(1,2))
  ultimately show ?thesis using o u' by (simp add: orderly_def same)
qed

lemma updateSigner_orderly:
  assumes o: "orderly st" and a: "updateSigner a sid inp v st = Inr st'"
  shows "orderly st'"
proof -
  have u: "cs_status (ss_case st) \<in> unsent"
    using a by (auto simp: updateSigner_def requireCase_def bindR_Inr_iff throw_def unsent_def split: if_splits)
  have m: "map (\<lambda>s. (sg_id s, sg_status s)) (ss_signers st') = map (\<lambda>s. (sg_id s, sg_status s)) (ss_signers st)"
    and same: "ss_case st' = ss_case st" "ss_intents st' = ss_intents st" "ss_invitations st' = ss_invitations st"
    using a by (auto simp: updateSigner_def bindR_Inr_iff update_signers_Inr_iff bound_signer_def throw_def
        split: option.splits if_splits)
  have ids: "map sg_id (ss_signers st') = map sg_id (ss_signers st)"
    and sts: "map sg_status (ss_signers st') = map sg_status (ss_signers st)"
    using arg_cong [OF m, of "map fst"] arg_cong [OF m, of "map snd"] by (simp_all add: comp_def)
  have "sg_status ` set (ss_signers st') = sg_status ` set (ss_signers st)" using arg_cong [OF sts, of set] by simp
  moreover have "untouched st" using o u by (simp add: orderly_def)
  ultimately have u': "untouched st'" unfolding untouched_def same by (auto simp: set_eq_iff image_iff)
  then have "in_turn (ss_signers st')" "invitations_used st'"
    unfolding untouched_def in_turn_def invitations_used_def by auto
  then show ?thesis using o u' by (simp add: orderly_def same ids)
qed

lemma handleReminder_inviting:
  assumes "handleReminder fr now st = Inr st'"
  shows "ss_signers st' = ss_signers st \<and> ss_case st' = ss_case st \<and> ss_intents st' = ss_intents st"
  using assms unfolding handleReminder_def
  by (rule each_row_preserves [where P = "\<lambda>s. ss_signers s = ss_signers st \<and> ss_case s = ss_case st \<and> ss_intents s = ss_intents st"])
    (auto simp: remind_one_def bindR_Inr_iff update_invitations_Inr_iff)

lemma handleReminder_used:
  assumes d: "distinct (map sg_id (ss_signers st))" and u: "invitations_used st" and h: "handleReminder fr now st = Inr st'"
  shows "invitations_used st'"
proof -
  have "ss_signers st' = ss_signers st \<and> invitations_used st'"
    using h unfolding handleReminder_def
  proof (rule each_row_preserves [where P = "\<lambda>s. ss_signers s = ss_signers st \<and> invitations_used s"])
    fix x s s' assume x: "x \<in> set (reminded now st)" and r: "remind_one fr now x s = Inr s'"
      and P: "ss_signers s = ss_signers st \<and> invitations_used s"
    obtain s1 e where s1: "update_invitations (\<lambda>i. iv_signer i = sg_id x \<and> iv_used i = None \<and> iv_revoked i = None)
              (\<lambda>i. i\<lparr>iv_revoked := Some now\<rparr>) s = Inr s1"
      and s': "ss_signers s' = ss_signers s1" "ss_invitations s' = ss_invitations (invite fr ''signature_reminder'' e (sg_id x) s1)"
      using r by (auto simp: remind_one_def bindR_Inr_iff)
    have "calm s s1" by (rule calm_update_invitations [OF s1]) simp
    then have u1: "invitations_used s1" by (rule calm_invitations_used) (use P in simp)
    have ss: "ss_signers s1 = ss_signers st" using s1 P by (simp add: update_invitations_Inr_iff)
    have x': "x \<in> set (ss_signers st)" "sg_status x \<noteq> Signer_signed" using x by (auto simp: reminded_def)
    then have "sg_status y \<noteq> Signer_signed" if "y \<in> set (ss_signers st)" "sg_id y = sg_id x" for y
      using d that by (auto simp: distinct_map dest: inj_onD)
    then have "invitations_used s'" using u1 ss unfolding invitations_used_def s' by auto
    then show "ss_signers s' = ss_signers st \<and> invitations_used s'" using s'(1) ss by simp
  qed (use u in simp)
  then show ?thesis by simp
qed

lemma handleReminder_orderly: "orderly st \<Longrightarrow> handleReminder fr now st = Inr st' \<Longrightarrow> orderly st'"
  using handleReminder_inviting handleReminder_used unfolding orderly_def untouched_def by metis

lemma send_inviting:
  assumes d: "distinct (map sg_id (ss_signers st))" and u: "untouched st" and b: "before_send a fr now st = Inr st'"
  shows "inviting (Min (set (map sg_order (ss_signers st)))) st st'"
proof -
  let ?g = "Min (set (map sg_order (ss_signers st)))"
  obtain st1 st2 where
    1: "update_documents a (\<lambda>d. dc_status d = Doc_ready) (\<lambda>d. d\<lparr>dc_status := Doc_locked, dc_locked := Some now\<rparr>) st = Inr st1"
    and 2: "each_row (send_one a fr (now + 3600000) ?g (snapshots st)) (sort_key sg_order (sort_key sg_id (ss_signers st))) st1 = Inr st2"
    and st': "st' = log_entries [Outbox ''document.locked'' []] st2"
    using b by (auto simp: before_send_def bindR_Inr_iff)
  have "inviting ?g st st2"
  proof (rule inviting_each [OF 2])
    show "inviting ?g st st1"
      using 1 by (simp add: update_documents_Inr_iff inviting_def invited_from_def list_all2_same)
    fix x s s' assume x: "x \<in> set (sort_key sg_order (sort_key sg_id (ss_signers st)))"
      and step: "send_one a fr (now + 3600000) ?g (snapshots st) x s = Inr s'" and inv: "inviting ?g st s"
    have x': "x \<in> set (ss_signers st)" "sg_status x = Signer_pending" using x u by (auto simp: untouched_def)
    show "inviting ?g st s'"
    proof (cases "sg_order x = ?g")
      case True
      then obtain js s1 where
        upd: "update_signers a (\<lambda>s. sg_id s = sg_id x) (set_status Signer_invited)
          (invite fr ''signature_invitation'' (now + 3600000) (sg_id x) (s\<lparr>ss_intents := js\<rparr>)) = Inr s1"
        and s': "s' = log_entries [Outbox ''invitation.created'' (fr_invitation fr (sg_id x))] s1"
        using step by (auto simp: send_one_def bindR_Inr_iff)
      have "inviting ?g st (s\<lparr>ss_intents := js\<rparr>)" using inv by simp
      then have "inviting ?g st s1" by (rule inviting_step [OF d _ x' True _ upd]) simp
      then show ?thesis by (simp add: s')
    qed (use step inv in \<open>auto simp: send_one_def\<close>)
  qed
  then show ?thesis by (simp add: st')
qed

lemma sendCase_orderly:
  assumes o: "orderly st" and a: "sendCase a fr now v st = Inr st'"
  shows "orderly st'"
proof -
  let ?g = "Min (set (map sg_order (ss_signers st)))"
  obtain st1 st2 where b: "before_send a fr now st = Inr st1"
    and u: "update_case a (\<lambda>c. cs_version c = cs_version (ss_case st))
              (\<lambda>c. (set_case_status Case_sent c)\<lparr>cs_sent := if cs_sent c = None then Some now else cs_sent c\<rparr>) st1 = Inr st2"
    and st': "st' = log_entries [Outbox ''signature_case.sent'' []] st2"
    using a by (auto simp: sendCase_def transitionCase_def bindR_Inr_iff throw_def split: if_splits)
  have ready: "cs_status (ss_case st) = Case_ready"
    using b by (auto simp: before_send_def sendable_def bindR_Inr_iff throw_def split: if_splits)
  have d: "distinct (map sg_id (ss_signers st))" and un: "untouched st"
    using o ready by (simp_all add: orderly_def unsent_def)
  have inv: "inviting ?g st st1" by (rule send_inviting [OF d un b])
  have "in_turn (ss_signers st1)"
  proof (rule inviting_turn [OF d _ inv])
    show "in_turn (ss_signers st)" using o by (simp add: orderly_def)
    show "sg_status l = Signer_signed" if "l \<in> set (ss_signers st)" "sg_order l < ?g" for l
    proof -
      have "?g \<le> sg_order l" by (rule Min_le) (use that(1) in auto)
      then show ?thesis using that(2) by simp
    qed
  qed
  moreover have "invitations_used st1" using inviting_used [OF d _ inv] o by (simp add: orderly_def)
  moreover have "distinct (map sg_id (ss_signers st1))"
    using inv d invited_ids [of ?g "ss_signers st" "ss_signers st1"] by (simp add: inviting_def)
  moreover have "ss_signers st' = ss_signers st1" "ss_invitations st' = ss_invitations st1" "cs_status (ss_case st') = Case_sent"
    using u inv by (simp_all add: st' update_case_Inr_iff inviting_def set_case_status_def)
  ultimately show ?thesis by (simp add: orderly_def invitations_used_def open_or_closed_def unsent_def)
qed

text \<open>Completing a signer: its invitations are used before the next group is invited.\<close>

lemma complete_signer_orderly:
  assumes o: "orderly st" and c: "complete_signer fr now intent signer st = Inr st'"
  shows "orderly st'"
proof -
  obtain st1 st2 st3 st4 where
    1: "update_signers Trusted_service (\<lambda>s. sg_id s = signer \<and> sg_status s = Signer_signing) (set_status Signer_signed) st = Inr st1"
    and 2: "update_intents (\<lambda>r. in_id r = intent \<and> in_status r = Intent_verified) (set_intent Intent_packaged) st1 = Inr st2"
    and 3: "update_invitations (\<lambda>v. iv_signer v = signer \<and> iv_used v = None) (\<lambda>v. v\<lparr>iv_used := Some now\<rparr>) st2 = Inr st3"
    and 4: "activateNextSigningGroup Trusted_service fr
              (log_entries [Audit ''signer.signed'' signer, Outbox ''signer.signed'' signer]
                (enqueue_job ''EVIDENCE_PACKAGE_BUILD'' (''signer-package:'' @ signer) st3)) = Inr st4"
    and st': "st' = (if list_ex (\<lambda>s. sg_required s \<and> sg_status s \<noteq> Signer_signed) (ss_signers st4) then st4
                     else enqueue_job ''EVIDENCE_PACKAGE_BUILD'' ''case-package'' st4)"
    using c by (auto simp: complete_signer_def bindR_Inr_iff)
  let ?f = "\<lambda>s. if sg_id s = signer \<and> sg_status s = Signer_signing then set_status Signer_signed s else s"
  have s1: "st1 = st\<lparr>ss_signers := map ?f (ss_signers st)\<rparr>" using 1 by (simp add: update_signers_Inr_iff)
  have s3: "ss_signers st3 = map ?f (ss_signers st)" "ss_case st3 = ss_case st"
    "ss_invitations st3 = map (\<lambda>v. if iv_signer v = signer \<and> iv_used v = None then v\<lparr>iv_used := Some now\<rparr> else v) (ss_invitations st)"
    using 2 3 by (simp_all add: s1 update_intents_Inr_iff update_invitations_Inr_iff)
  have turn: "in_turn (ss_signers st3)"
    using o unfolding orderly_def in_turn_def s3(1) by (auto split: if_splits)
  have used: "invitations_used st3"
  proof -
    have "invitations_used st" using o by (simp add: orderly_def)
    then show ?thesis unfolding invitations_used_def s3 by (auto split: if_splits)
  qed
  have untouched: "untouched st3" if "cs_status (ss_case st) \<in> unsent"
  proof -
    have "untouched st" using o that by (simp add: orderly_def)
    then show ?thesis using 2 3 by (auto simp: untouched_def s3(1) s1 update_intents_Inr_iff update_invitations_Inr_iff)
  qed
  have "map sg_id (ss_signers st3) = map sg_id (ss_signers st)" by (simp add: s3(1))
  then have "distinct (map sg_id (ss_signers st3))" using o by (simp only: orderly_def)
  then have "orderly st3" using o turn used untouched s3(2) by (simp add: orderly_def)
  then have "orderly (log_entries [Audit ''signer.signed'' signer, Outbox ''signer.signed'' signer]
                (enqueue_job ''EVIDENCE_PACKAGE_BUILD'' (''signer-package:'' @ signer) st3))"
    by (simp add: orderly_def invitations_used_def untouched_def)
  then have "orderly st4" by (rule activate_orderly [OF _ 4])
  then show ?thesis by (simp add: st' orderly_def untouched_def invitations_used_def)
qed

lemma recordPadesReport_orderly:
  assumes o: "orderly st" and r: "recordPadesReport fr now sha level intent attempt signer artifact r st = Inr st'"
  shows "orderly st'"
proof -
  let ?st1 = "st\<lparr>ss_runs := ss_runs st @ [\<lparr>rn_artifact = ar_id artifact, rn_indication = pr_indication r,
      rn_trust_list = False, rn_report = sha\<rparr>]\<rparr>"
  have o1: "orderly ?st1" by (rule calm_orderly [OF _ o]) simp
  have reject: "orderly st'" if "reject_signature attempt (ar_id artifact) signer event ?st1 = Inr st'" for event
    by (rule calm_orderly [OF calm.keepsD [OF calm_reject_signature that] o1])
  have admit: "orderly st'" if adm: "admit_signature fr now intent attempt signer artifact ?st1 = Inr st'"
  proof -
    obtain st2 where 2: "update_attempts Trusted_service (\<lambda>r. at_id r = attempt) (set_attempt Attempt_validated) ?st1 = Inr st2"
      and rest: "(if outstanding intent signer (log_entries [Audit ''signature.pades_admitted'' (ar_id artifact)] st2)
                  then Inr (log_entries [Audit ''signature.pades_admitted'' (ar_id artifact)] st2)
                  else complete_signer fr now intent signer (log_entries [Audit ''signature.pades_admitted'' (ar_id artifact)] st2)) = Inr st'"
      using adm by (auto simp: admit_signature_def Let_def bindR_Inr_iff)
    have "orderly (log_entries [Audit ''signature.pades_admitted'' (ar_id artifact)] st2)"
      by (rule calm_orderly [OF _ o1]) (use calm_update_attempts [OF 2] in simp)
    then show ?thesis using rest by (auto split: if_splits intro: complete_signer_orderly)
  qed
  show ?thesis using r reject admit by (auto simp: recordPadesReport_def Let_def split: if_splits sum.splits)
qed

text \<open>The package of the case never completes it: the table has no way from \<open>sent\<close> to \<open>completed\<close>.\<close>

lemma no_completion:
  assumes "update_case a (\<lambda>c. cs_status c \<in> set open_statuses) (\<lambda>c. (set_case_status Case_completed c)\<lparr>cs_completed := x\<rparr>) st = Inr st'"
    "cs_status (ss_case st) \<in> open_or_closed"
  shows "cs_status (ss_case st) \<noteq> Case_sent \<and> st' = st"
  using assms unfolding update_case_Inr_iff case_trigger_Inr_iff
  by (cases "cs_status (ss_case st)") (simp_all add: open_statuses_def open_or_closed_def set_case_status_def)

lemma recordPackage_calm:
  assumes o: "cs_status (ss_case st) \<in> open_or_closed" and r: "recordPackage now pid signer sha st = Inr st'"
  shows "calm st st'"
proof -
  have f: "calm st st'" if fin: "finish_package now signer q (write_package q signer sha st) = Inr st'" for q
  proof -
    have c: "ss_case (write_package q signer sha st) = ss_case st" by (simp add: write_package_def)
    have "calm (write_package q signer sha st) st'"
    proof (cases signer)
      case None
      then obtain st1 where
        u: "update_case Worker (\<lambda>c. cs_status c \<in> set open_statuses)
              (\<lambda>c. (set_case_status Case_completed c)\<lparr>cs_completed := Some now\<rparr>) (write_package q signer sha st) = Inr st1"
        and "calm (write_package q signer sha st) st' \<longleftrightarrow> calm (write_package q signer sha st) st1"
        using fin by (auto simp: finish_package_def bindR_Inr_iff)
      then show ?thesis using no_completion [OF u] o c by simp
    next
      case (Some s)
      then show ?thesis using fin calm_update_intents by (auto simp: finish_package_def bindR_Inr_iff)
    qed
    then show ?thesis using calm_trans [OF calm_write_package] by blast
  qed
  then show ?thesis using r by (auto simp: recordPackage_def split: option.splits if_splits)
qed

lemma operation_orderly: "operation st st' \<Longrightarrow> orderly st \<Longrightarrow> orderly st'"
proof (induction rule: operation.induct)
  case (op_recordPackage now pid signer sha st st')
  have "cs_status (ss_case st) \<in> open_or_closed" using op_recordPackage.prems by (simp add: orderly_def)
  then show ?case by (rule calm_orderly [OF recordPackage_calm [OF _ op_recordPackage.hyps] op_recordPackage.prems])
qed (auto intro: calm_orderly routine_calm addSigner_orderly updateSigner_orderly sendCase_orderly handleReminder_orderly
    recordPadesReport_orderly)

lemma flow_orderly: "flow c c' \<Longrightarrow> orderly (fst c) \<Longrightarrow> orderly (fst c')"
  by (induction rule: flow.induct)
    (auto intro: operation_orderly calm_orderly [OF calm.keepsD [OF calm_recordStart]])

lemma reached_orderly: "reached c \<Longrightarrow> orderly (fst c)"
proof (induction rule: reached.induct)
  case (reached_new policy mode rollout st)
  then show ?case
    by (auto simp: createCase_def throw_def orderly_def in_turn_def untouched_def invitations_used_def open_or_closed_def
        split: if_splits)
qed (rule flow_orderly)

end
