(* ===== verification/Signing_Limits.thy ===== *)
theory Signing_Limits
  imports Signing_Order
begin

text \<open>
  How sessions, attempts and artifacts hang together in every history: a session names the first
  signable document of an intent, an attempt names the document of its session, an artifact claims
  the level that the evidence supports, and the digests that were consented to are those of locked
  documents.
\<close>

section \<open>Relations that every statement on these tables has\<close>

text \<open>
  A frame that does not look at the statuses has the transactions of the flow that touch only the
  case, the signers, the invitations and the statuses of intents and attempts.
\<close>

locale statement_frame = frame +
  assumes R_case: "update_case a pc fc st = Inr st' \<Longrightarrow> R st st'"
    and R_signers: "update_signers a ps fs st = Inr st' \<Longrightarrow> R st st'"
    and R_invitations: "update_invitations pv fv st = Inr st' \<Longrightarrow> R st st'"
    and R_intents: "update_intents pn (set_intent tn) st = Inr st' \<Longrightarrow> R st st'"
    and R_attempts: "update_attempts a pa (set_attempt ta) st = Inr st' \<Longrightarrow> R st st'"
    and R_fields: "R st (st\<lparr>ss_signers := ss\<rparr>)" "R st (st\<lparr>ss_runs := rs\<rparr>)" "R st (st\<lparr>ss_packages := ks\<rparr>)"
      "R st (st\<lparr>ss_log := es\<rparr>)" "R st (st\<lparr>ss_jobs := js\<rparr>)" "R st (st\<lparr>ss_invitations := vs, ss_emails := ms\<rparr>)"
begin

lemma R_log: "R st st1 \<Longrightarrow> R st (log_entries es st1)"
  unfolding log_entries_def by (erule R_trans) (rule R_fields)

lemma R_enqueue: "R st st1 \<Longrightarrow> R st (enqueue_job t k st1)"
  unfolding enqueue_job_def by (auto intro: R_trans R_fields)

lemma R_invite: "R st st1 \<Longrightarrow> R st (invite fr t e s st1)"
  unfolding invite_def by (rule R_enqueue) (erule R_trans, rule R_fields)

lemma R_write_package: "R st st1 \<Longrightarrow> R st (write_package q signer sha st1)"
  unfolding write_package_def by (auto intro: R_trans R_fields)

lemma R_new_signer: "R st st1 \<Longrightarrow> R st (st1\<lparr>ss_signers := ss\<rparr>)"
  by (erule R_trans) (rule R_fields)

lemma R_new_run: "R st st1 \<Longrightarrow> R st (st1\<lparr>ss_runs := rs\<rparr>)"
  by (erule R_trans) (rule R_fields)

lemmas R_intros = R_refl R_log R_enqueue R_invite R_write_package R_new_signer R_new_run

lemma keeps_statements:
  "R st st1 \<Longrightarrow> keeps st (update_case a pc fc st1)"
  "R st st1 \<Longrightarrow> keeps st (update_signers a ps fs st1)"
  "R st st1 \<Longrightarrow> keeps st (update_invitations pv fv st1)"
  "R st st1 \<Longrightarrow> keeps st (update_intents pn (set_intent tn) st1)"
  "R st st1 \<Longrightarrow> keeps st (update_attempts a pa (set_attempt ta) st1)"
  by (auto simp: keeps_def intro: R_trans R_case R_signers R_invitations R_intents R_attempts)

lemma keeps_state: "R st st1 \<Longrightarrow> keeps st (Inr st1)"
  by simp

lemmas statement_intros = keeps_bind keeps_read keeps_if keeps_option keeps_let keeps_each_row keeps_statements keeps_state
  keeps_Inl keeps_throw R_intros

lemma keeps_cancelCase: "keeps st (cancelCase a now v st)"
  unfolding cancelCase_def transitionCase_def by (intro statement_intros)

lemma keeps_remindCase: "keeps st (remindCase k st)"
  unfolding remindCase_def by (intro statement_intros)

lemma keeps_markOpened: "keeps st (markOpened now iv st)"
  unfolding markOpened_def by (intro statement_intros)

lemma keeps_decline: "keeps st (decline now iv st)"
  unfolding decline_def by (intro statement_intros)

lemma keeps_handleCaseExpire: "keeps st (handleCaseExpire now st)"
  unfolding handleCaseExpire_def by (intro statement_intros)

lemma keeps_begin_signing: "keeps st (begin_signing signer st)"
  unfolding begin_signing_def by (intro statement_intros)

lemma keeps_addSigner: "keeps st (addSigner sid inp st)"
  unfolding addSigner_def by (intro statement_intros)

lemma keeps_updateSigner: "keeps st (updateSigner a sid inp v st)"
  unfolding updateSigner_def by (intro statement_intros)

lemma keeps_handleReminder: "keeps st (handleReminder fr now st)"
  unfolding handleReminder_def remind_one_def by (intro statement_intros)

lemma keeps_activate: "R st st1 \<Longrightarrow> keeps st (activateNextSigningGroup a fr st1)"
proof (erule keeps_from)
  show "keeps st1 (activateNextSigningGroup a fr st1)"
  proof (cases "map sg_order (pending_turn st1)")
    case (Cons g gs)
    show ?thesis unfolding activateNextSigningGroup_def Cons list.case activate_one_def
      by (intro statement_intros)
  qed (simp add: activateNextSigningGroup_def R_refl)
qed

lemma keeps_complete_signer: "keeps st (complete_signer fr now intent signer st)"
  unfolding complete_signer_def if_distrib [of Inr]
  by (intro statement_intros keeps_activate)

lemma keeps_recordPadesReport: "keeps st (recordPadesReport fr now sha level intent attempt signer artifact r st)"
proof -
  have reject: "keeps st1 (reject_signature attempt (ar_id artifact) signer event st1)" for event st1
    unfolding reject_signature_def by (intro statement_intros)
  have admit: "keeps st1 (admit_signature fr now intent attempt signer artifact st1)" for st1
    unfolding admit_signature_def by (intro statement_intros keeps_from [OF _ keeps_complete_signer])
  show ?thesis unfolding recordPadesReport_def
    by (rule keeps_let, rule keeps_from [OF R_new_run [OF R_refl]]) (use reject admit in \<open>auto split: sum.split\<close>)
qed

lemma keeps_recordPackage: "keeps st (recordPackage now pid signer sha st)"
  unfolding recordPackage_def finish_package_def by (intro statement_intros)

end

section \<open>Transactions that start no session and sign nothing\<close>

definition attempt_key :: "attempt_row \<Rightarrow> string \<times> string \<times> string \<times> string" where
  "attempt_key r = (at_id r, at_signer r, at_version r, at_sha r)"

lemma attempt_key_status [simp]: "attempt_key (set_attempt t r) = attempt_key r"
  by (simp add: attempt_key_def set_attempt_def)

definition steady :: "signing_state \<Rightarrow> signing_state \<Rightarrow> bool" where
  "steady st st' \<longleftrightarrow>
     map (\<lambda>t. (it_signer t, it_version t, it_intent t)) (ss_identities st') =
       map (\<lambda>t. (it_signer t, it_version t, it_intent t)) (ss_identities st) \<and>
     map attempt_key (ss_attempts st') = map attempt_key (ss_attempts st) \<and>
     ss_artifacts st' = ss_artifacts st \<and> ss_timestamps st' = ss_timestamps st"

interpretation steady: statement_frame steady
  by unfold_locales
    (simp_all add: updates_Inr_iff steady_def comp_def if_distrib cong: if_cong)

lemma steady_refl [simp]: "steady st st"
  by (simp add: steady_def)

lemma steady_bookkeeping [simp]:
  "steady st (log_entries es st') \<longleftrightarrow> steady st st'" "steady st (enqueue_job t k st') \<longleftrightarrow> steady st st'"
  "steady st (invite fr tm e s st') \<longleftrightarrow> steady st st'"
  by (simp_all add: steady_def)

lemma steady_fields [simp]:
  "steady st (st'\<lparr>ss_documents := ds\<rparr>) \<longleftrightarrow> steady st st'" "steady st (st'\<lparr>ss_signers := ss\<rparr>) \<longleftrightarrow> steady st st'"
  "steady st (st'\<lparr>ss_intents := js\<rparr>) \<longleftrightarrow> steady st st'" "steady st (st'\<lparr>ss_runs := ns\<rparr>) \<longleftrightarrow> steady st st'"
  "steady st (st'\<lparr>ss_identity_artifacts := as\<rparr>) \<longleftrightarrow> steady st st'" "steady st (st'\<lparr>ss_reports := ps\<rparr>) \<longleftrightarrow> steady st st'"
  "steady st (st'\<lparr>ss_clean := cs\<rparr>) \<longleftrightarrow> steady st st'" "steady st (st'\<lparr>ss_manifests := ms\<rparr>) \<longleftrightarrow> steady st st'"
  "steady st (st'\<lparr>ss_packages := ks\<rparr>) \<longleftrightarrow> steady st st'"
  by (simp_all add: steady_def)

lemma steady_identity [simp]: "steady st (insert_identity_artifact tid intent pass st') \<longleftrightarrow> steady st st'"
  by (simp add: insert_identity_artifact_def)

lemma steady_updates:
  "steady st st1 \<Longrightarrow> steady.keeps st (update_case a pc fc st1)"
  "steady st st1 \<Longrightarrow> steady.keeps st (update_signers a ps fs st1)"
  "steady st st1 \<Longrightarrow> steady.keeps st (update_documents a pd fd st1)"
  "steady st st1 \<Longrightarrow> steady.keeps st (update_invitations pv fv st1)"
  "steady st st1 \<Longrightarrow> steady.keeps st (update_intents pn fn st1)"
  "steady st st1 \<Longrightarrow> steady.keeps st (update_attempts a pa (set_attempt ta) st1)"
  by (simp_all add: steady.keeps_def updates_Inr_iff steady_def comp_def if_distrib cong: if_cong)

lemma steady_identities:
  assumes "steady st st1" "\<And>i. it_intent (f i) = it_intent i"
  shows "steady.keeps st (update_identities p f st1)"
proof (rule steady.keeps_from [OF assms(1)], rule steady.keepsI)
  fix st' assume u: "update_identities p f st1 = Inr st'"
  have one: "it_signer (f i) = it_signer i \<and> it_version (f i) = it_version i" if "identity_trigger st1 i (f i) = Inr ()" for i
    using that by (simp add: identity_trigger_def split: if_splits)
  have trig: "\<forall>i \<in> set (ss_identities st1). p i \<longrightarrow> identity_trigger st1 i (f i) = Inr ()"
    and st': "st' = st1\<lparr>ss_identities := map (\<lambda>i. if p i then f i else i) (ss_identities st1)\<rparr>"
    using u unfolding update_identities_Inr_iff by blast+
  have "map (\<lambda>t. (it_signer t, it_version t, it_intent t)) (map (\<lambda>i. if p i then f i else i) (ss_identities st1)) =
      map (\<lambda>t. (it_signer t, it_version t, it_intent t)) (ss_identities st1)"
    using trig assms(2) by (simp add: one)
  then show "steady st1 st'" by (simp add: st' steady_def)
qed

lemmas steady_intros = steady.keeps_intros steady_updates steady_identities

lemma steady_addDocument: "steady.keeps st (addDocument a g ids name role st)"
  unfolding addDocument_def
  by (intro steady_intros; simp)

lemma steady_recordPageStatus: "steady.keeps st (recordPageStatus now loaded status st)"
  unfolding recordPageStatus_def
  by (intro steady_intros; simp add: set_identity_def)

lemma steady_recordExtension: "steady.keeps st (recordExtension now loaded session st)"
  unfolding recordExtension_def
  by (intro steady_intros; simp)

lemma steady_recordCancel: "steady.keeps st (recordCancel loaded st)"
  unfolding recordCancel_def
  by (intro steady_intros; simp add: set_identity_def)

lemma steady_recordPoll: "steady.keeps st (recordPoll now tid status st)"
  unfolding recordPoll_def prod.case_eq_if
  by (intro steady_intros; simp add: set_identity_def)

lemma steady_failIdentityTransaction: "steady.keeps st (failIdentityTransaction now tid intent signer reason st)"
  unfolding failIdentityTransaction_def
  by (intro steady_intros; simp add: set_identity_def)

lemma steady_recordCollected: "steady.keeps st (recordCollected now tid intent ev st)"
  unfolding recordCollected_def
  by (intro steady_intros; simp add: set_identity_def)

lemma steady_recordValidation: "steady.keeps st (recordValidation now tid i report checks st)"
  unfolding recordValidation_def recordVerified_def recordRejected_def
  by (intro steady_intros; simp add: set_identity_def)

lemma steady_rejectDocument: "steady.keeps st (rejectDocument v st)"
  unfolding rejectDocument_def
  by (intro steady_intros; simp)

lemma steady_scan_passed: "steady.keeps st (scan_passed v doc pages st)"
  unfolding scan_passed_def
  by (intro steady_intros; simp)

lemma steady_canonicalised: "steady.keeps st (canonicalised v doc k sha n pages st)"
  unfolding canonicalised_def
  by (intro steady_intros; simp)

lemma steady_sendCase: "steady.keeps st (sendCase a fr now v st)"
  unfolding sendCase_def transitionCase_def before_send_def send_one_def
  by (intro steady_intros; simp)

lemma steady_begin_scan: "begin_scan v st = Inr (st', d) \<Longrightarrow> steady st st'"
  using steady.keepsD [OF steady_updates(3) [OF steady_refl]]
  by (auto simp: begin_scan_def bindR_Inr_iff split: if_splits)

lemma steady_save_report [simp]: "steady st (save_report v type pass st)"
  by (simp add: save_report_def)

lemmas steady_rules = steady_addDocument steady.keeps_cancelCase steady.keeps_remindCase steady.keeps_markOpened steady.keeps_decline
  steady.keeps_handleCaseExpire steady_recordPageStatus steady_recordExtension steady_recordCancel steady_recordPoll
  steady_failIdentityTransaction steady_recordCollected steady_recordValidation steady.keeps_begin_signing
  steady_rejectDocument steady_scan_passed steady_canonicalised

definition signs :: "signing_state \<Rightarrow> signing_state \<Rightarrow> bool" where
  "signs st st' \<longleftrightarrow> (\<exists>attempt artifact signer t d level path sha inp.
     recordSignature attempt artifact signer t d level path sha inp st = Inr st' \<and>
     attempt \<notin> at_id ` set (ss_attempts st) \<and> artifact \<notin> ar_id ` set (ss_artifacts st))"

lemma signsI:
  "recordSignature attempt artifact signer t d level path sha inp st = Inr st' \<Longrightarrow>
     attempt \<notin> at_id ` set (ss_attempts st) \<Longrightarrow> artifact \<notin> ar_id ` set (ss_artifacts st) \<Longrightarrow> signs st st'"
  unfolding signs_def by blast

lemma routine_steady: "routine st st' \<Longrightarrow> steady st st' \<or> signs st st'"
  by (induction rule: routine.induct)
    ((rule disjI1, erule steady_rules [THEN steady.keepsD] steady_begin_scan) | (rule disjI2, erule (2) signsI) | simp)+

lemma operation_steady: "operation st st' \<Longrightarrow> steady st st' \<or> signs st st'"
  by (induction rule: operation.induct)
    (erule routine_steady | (rule disjI1, erule steady.keeps_addSigner [THEN steady.keepsD] steady.keeps_updateSigner [THEN steady.keepsD]
      steady_sendCase [THEN steady.keepsD] steady.keeps_handleReminder [THEN steady.keepsD]
      steady.keeps_recordPadesReport [THEN steady.keepsD] steady.keeps_recordPackage [THEN steady.keepsD]))+

section \<open>The links\<close>

text \<open>The intent that a session or a start input belongs to.\<close>

definition starts :: "intent_row list \<Rightarrow> string \<Rightarrow> string \<Rightarrow> string \<Rightarrow> bool" where
  "starts js intent signer v \<longleftrightarrow> (\<exists>i \<in> set js. in_id i = intent \<and> in_signer i = signer \<and> first_document i = Some v)"

definition linked :: "signing_state \<times> start_input list \<Rightarrow> bool" where
  "linked c \<longleftrightarrow>
     (\<forall>s \<in> set (snd c). starts (ss_intents (fst c)) (sn_intent s) (sn_signer s) (sn_version s)) \<and>
     (\<forall>t \<in> set (ss_identities (fst c)). starts (ss_intents (fst c)) (it_intent t) (it_signer t) (it_version t)) \<and>
     (\<forall>r \<in> set (ss_attempts (fst c)). \<exists>t \<in> set (ss_identities (fst c)). it_signer t = at_signer r \<and> it_version t = at_version r) \<and>
     ss_timestamps (fst c) = [] \<and> (\<forall>ar \<in> set (ss_artifacts (fst c)). ar_format ar = B)"

lemma starts_grows: "grows intent_evolves js js' \<Longrightarrow> starts js intent signer v \<Longrightarrow> starts js' intent signer v"
proof -
  assume g: "grows intent_evolves js js'" and s: "starts js intent signer v"
  obtain i where i: "i \<in> set js" "in_id i = intent" "in_signer i = signer" "first_document i = Some v"
    using s unfolding starts_def by blast
  obtain i' where i': "i' \<in> set js'" "intent_evolves i i'" using grows_in [OF g i(1)] by blast
  then have "in_id i' = intent \<and> in_signer i' = signer \<and> first_document i' = Some v"
    using i by (simp add: intent_evolves_def intents.descends_def first_document_def)
  then show ?thesis using i'(1) unfolding starts_def by blast
qed

lemma evolves_intents: "evolves st st' \<Longrightarrow> grows intent_evolves (ss_intents st) (ss_intents st')"
  by (simp add: evolves_def)

lemma map_eq_in:
  assumes "map f ys = map f xs" "y \<in> set ys"
  obtains x where "x \<in> set xs" "f x = f y"
proof -
  have "f y \<in> f ` set ys" using assms(2) by (rule imageI)
  also have "f ` set ys = f ` set xs" using arg_cong [OF assms(1), of set] by simp
  finally show thesis using that by (metis imageE)
qed

lemma steady_linked:
  assumes ev: "evolves st st'" and sd: "steady st st'" and l: "linked (st, pending)"
  shows "linked (st', pending)"
proof -
  note mono = starts_grows [OF evolves_intents [OF ev]]
  have ids: "map (\<lambda>t. (it_signer t, it_version t, it_intent t)) (ss_identities st') =
      map (\<lambda>t. (it_signer t, it_version t, it_intent t)) (ss_identities st)"
    and ats: "map attempt_key (ss_attempts st') = map attempt_key (ss_attempts st)"
    and same: "ss_artifacts st' = ss_artifacts st" "ss_timestamps st' = ss_timestamps st"
    using sd by (simp_all add: steady_def)
  have "starts (ss_intents st') (it_intent t') (it_signer t') (it_version t')" if t': "t' \<in> set (ss_identities st')" for t'
  proof -
    obtain t where t: "t \<in> set (ss_identities st)"
      "(it_signer t, it_version t, it_intent t) = (it_signer t', it_version t', it_intent t')"
      by (rule map_eq_in [OF ids t'])
    have "starts (ss_intents st) (it_intent t) (it_signer t) (it_version t)" using l t(1) by (simp add: linked_def)
    then show ?thesis using t(2) by (auto intro: mono)
  qed
  moreover have "\<exists>t \<in> set (ss_identities st'). it_signer t = at_signer r' \<and> it_version t = at_version r'"
    if r': "r' \<in> set (ss_attempts st')" for r'
  proof -
    obtain r where r: "r \<in> set (ss_attempts st)" "attempt_key r = attempt_key r'"
      by (rule map_eq_in [OF ats r'])
    then have k: "at_signer r = at_signer r'" "at_version r = at_version r'" by (simp_all add: attempt_key_def)
    have "\<exists>t \<in> set (ss_identities st). it_signer t = at_signer r \<and> it_version t = at_version r"
      using l r(1) by (simp add: linked_def)
    then obtain t where t: "t \<in> set (ss_identities st)" "it_signer t = at_signer r \<and> it_version t = at_version r" ..
    obtain t' where "t' \<in> set (ss_identities st')"
      "(it_signer t', it_version t', it_intent t') = (it_signer t, it_version t, it_intent t)"
      by (rule map_eq_in [OF ids [symmetric] t(1)])
    then show ?thesis using t(2) k by auto
  qed
  ultimately show ?thesis using l same by (auto simp: linked_def intro: mono)
qed

lemma start_linked:
  assumes l: "linked (st, pending)" and s: "s \<in> set pending" and r: "recordStart now s ref st = Inr st'"
  shows "linked (st', pending)"
proof -
  have ev: "evolves st st'" by (rule calm_evolves [OF calm.keepsD [OF calm_recordStart r]])
  note mono = starts_grows [OF evolves_intents [OF ev]]
  have ids: "ss_identities st' = ss_identities st @
      [\<lparr>it_id = sn_identity s, it_signer = sn_signer s, it_version = sn_version s, it_intent = sn_intent s,
        it_reference = ref, it_state = sn_state s, it_status = Identity_pending, it_polled = None, it_extended = None,
        it_failure = None, it_completed = None, it_evidence = None\<rparr>]"
    and same: "ss_attempts st' = ss_attempts st" "ss_artifacts st' = ss_artifacts st" "ss_timestamps st' = ss_timestamps st"
    using r by (auto simp: recordStart_def bindR_Inr_iff update_intents_Inr_iff update_signers_Inr_iff throw_def
        split: option.splits if_splits)
  show ?thesis using l s by (auto simp: linked_def ids same intro: mono)
qed

lemma sign_linked:
  assumes l: "linked (st, pending)"
    and r: "recordSignature attempt artifact signer t d level path sha inp st = Inr st'"
  shows "linked (st', pending)"
proof -
  let ?row = "\<lparr>at_id = attempt, at_signer = signer, at_version = id_version d, at_identity = it_id t,
                     at_number = next_attempt signer st, at_status = Attempt_prepared, at_sha = id_sha d\<rparr>"
  let ?ar = "\<lparr>ar_id = artifact, ar_attempt = attempt, ar_format = level, ar_key = path @ ''/signed.pdf'',
                      ar_sha = sha, ar_input = inp\<rparr>"
  have ev: "evolves st st'" by (rule calm_evolves [OF calm.keepsD [OF calm_recordSignature r]])
  obtain st1 st2 st3 where con: "attempt_consistency ?row st = Inr ()"
    and 1: "update_attempts Trusted_service (\<lambda>r. at_id r = attempt) (set_attempt Attempt_identity_verified)
              (st\<lparr>ss_attempts := ss_attempts st @ [?row]\<rparr>) = Inr st1"
    and 2: "update_attempts Trusted_service (\<lambda>r. at_id r = attempt) (set_attempt Attempt_credential_issued) st1 = Inr st2"
    and 3: "update_attempts Trusted_service (\<lambda>r. at_id r = attempt) (set_attempt Attempt_signed)
              (st2\<lparr>ss_artifacts := ss_artifacts st2 @ [?ar], ss_certificates := ss_certificates st2 @ [artifact],
                   ss_chains := ss_chains st2 @ [artifact]\<rparr>) = Inr st3"
    and lev: "level_not_overclaimed ?ar st3 = Inr ()"
    and st': "st' = log_entries [Audit ''signature.pades_created'' artifact]
                (enqueue_job ''PADES_VALIDATE'' (''pades-validate:'' @ artifact) st3)"
    using r by (auto simp: recordSignature_def Let_def bindR_Inr_iff)
  have ats: "map attempt_key (ss_attempts st') = map attempt_key (ss_attempts st @ [?row])"
    and same: "ss_intents st' = ss_intents st" "ss_identities st' = ss_identities st" "ss_timestamps st' = ss_timestamps st"
    "ss_artifacts st' = ss_artifacts st @ [?ar]"
    using 1 2 3 by (auto simp: st' update_attempts_Inr_iff set_attempt_def attempt_key_def)
  have con': "\<exists>t \<in> set (ss_identities st). it_signer t = signer \<and> it_version t = id_version d"
    using con by (auto simp: attempt_consistency_def find_Some_iff split: option.splits if_splits)
  have "ss_timestamps st3 = []" using same(3) l by (simp add: st' linked_def)
  then have "level = B" using lev
    by (cases level) (auto simp: level_not_overclaimed_def attained_pades_level_def split: option.splits if_splits)
  moreover have "\<exists>t \<in> set (ss_identities st'). it_signer t = at_signer r' \<and> it_version t = at_version r'"
    if r': "r' \<in> set (ss_attempts st')" for r'
  proof -
    obtain r where r: "r \<in> set (ss_attempts st @ [?row])"
      and "attempt_key r = attempt_key r'" by (rule map_eq_in [OF ats r'])
    then have eq: "at_signer r' = at_signer r" "at_version r' = at_version r" by (simp_all add: attempt_key_def)
    have old: "\<forall>r \<in> set (ss_attempts st). \<exists>t \<in> set (ss_identities st). it_signer t = at_signer r \<and> it_version t = at_version r"
      using l unfolding linked_def by simp
    show ?thesis unfolding eq same(2)
    proof (cases "r \<in> set (ss_attempts st)")
      case True then show "\<exists>t \<in> set (ss_identities st). it_signer t = at_signer r \<and> it_version t = at_version r"
        by (rule old [rule_format])
    next
      case False then show "\<exists>t \<in> set (ss_identities st). it_signer t = at_signer r \<and> it_version t = at_version r"
        using r con' by simp
    qed
  qed
  ultimately show ?thesis using l by (auto simp: linked_def same)
qed

lemma flow_linked: "flow c c' \<Longrightarrow> linked c \<Longrightarrow> linked c'"
proof (induction rule: flow.induct)
  case (flow_operation st st' pending)
  have "evolves st st'" using operation_secure [OF flow_operation.hyps] by (simp add: secure_def)
  then show ?case using operation_steady [OF flow_operation.hyps] flow_operation.prems
    by (auto simp: signs_def intro: steady_linked sign_linked)
next
  case (flow_load now iv drawn st s pending)
  have "starts (ss_intents st) (sn_intent s) (sn_signer s) (sn_version s)"
    using flow_load.hyps
    by (auto simp: loadStartInput_def bindR_Inr_iff throw_def prepared_intent_def find_Some_iff starts_def
        split: option.splits if_splits) (metis length_rev nth_mem set_rev)+
  then show ?case using flow_load.prems by (simp add: linked_def)
qed (rule start_linked)

lemma reached_linked: "reached c \<Longrightarrow> linked c"
proof (induction rule: reached.induct)
  case (reached_new policy mode rollout st)
  then show ?case by (auto simp: createCase_def throw_def linked_def split: if_splits)
qed (rule flow_linked)

end
