(* ===== verification/Signing_Documents.thy ===== *)
theory Signing_Documents
  imports Signing_Limits
begin

text \<open>
  What is signed, in every history: the intents of a case show one list of locked documents, an
  attempt names the digest of a locked document, and the signed revisions of a document form one
  chain from its canonical bytes.
\<close>

section \<open>Who writes intents\<close>

definition same_consents :: "signing_state \<Rightarrow> signing_state \<Rightarrow> bool" where
  "same_consents st st' \<longleftrightarrow> list_all2 intent_evolves (ss_intents st) (ss_intents st')"

lemma calm_consents: "calm st st' \<Longrightarrow> same_consents st st'"
  by (simp add: calm_def same_consents_def)

lemma same_consents_trans: "same_consents a b \<Longrightarrow> same_consents b c \<Longrightarrow> same_consents a c"
  unfolding same_consents_def by (rule list_all2_trans [OF intent_evolves_trans])

interpretation consents: statement_frame same_consents
  by unfold_locales
    (fact same_consents_trans | erule calm_update_intents [THEN calm_consents] |
      simp add: updates_Inr_iff same_consents_def list_all2_same)+

definition sends :: "signing_state \<Rightarrow> signing_state \<Rightarrow> bool" where
  "sends st st' \<longleftrightarrow> (\<exists>a fr now v. sendCase a fr now v st = Inr st')"

lemma sendsI: "sendCase a fr now v st = Inr st' \<Longrightarrow> sends st st'"
  unfolding sends_def by blast

lemma operation_consents: "operation st st' \<Longrightarrow> same_consents st st' \<or> sends st st'"
  by (induction rule: operation.induct)
    ((rule disjI1, erule routine_calm [THEN calm_consents]) | (rule disjI2, erule sendsI) |
      (rule disjI1, erule consents.keeps_addSigner [THEN consents.keepsD] consents.keeps_updateSigner [THEN consents.keepsD]
        consents.keeps_handleReminder [THEN consents.keepsD] consents.keeps_recordPadesReport [THEN consents.keepsD]
        consents.keeps_recordPackage [THEN consents.keepsD]))+

section \<open>What sending writes\<close>

definition consent_of :: "fresh \<Rightarrow> int \<Rightarrow> intent_document list \<Rightarrow> signer_row \<Rightarrow> intent_row" where
  "consent_of fr expires docs s =
     \<lparr>in_id = fr_intent fr (sg_id s), in_signer = sg_id s, in_group = sg_order s, in_status = Intent_prepared,
      in_expires = expires, in_mode = sg_mode s, in_documents = docs\<rparr>"

lemma send_one_writes:
  "send_one a fr expires g docs x st = Inr st' \<Longrightarrow>
     ss_intents st' = ss_intents st @ [consent_of fr expires docs x] \<and> ss_documents st' = ss_documents st"
  by (auto simp: send_one_def consent_of_def Let_def bindR_Inr_iff update_signers_Inr_iff split: if_splits)

lemma send_each_writes:
  "each_row (send_one a fr expires g docs) xs st = Inr st' \<Longrightarrow>
     ss_intents st' = ss_intents st @ map (consent_of fr expires docs) xs \<and> ss_documents st' = ss_documents st"
  by (induction xs arbitrary: st) (auto simp: bindR_Inr_iff dest!: send_one_writes)

lemma sendCase_writes:
  assumes "sendCase a fr now v st = Inr st'"
  shows "ss_intents st' = ss_intents st @
      map (consent_of fr (now + 3600000) (snapshots st)) (sort_key sg_order (sort_key sg_id (ss_signers st)))"
    and "ss_documents st' = map (\<lambda>d. if dc_status d = Doc_ready then d\<lparr>dc_status := Doc_locked, dc_locked := Some now\<rparr> else d)
      (ss_documents st)"
    and "sendable st = Inr ()"
proof -
  obtain st1 st2 where s: "sendable st = Inr ()"
    and 1: "update_documents a (\<lambda>d. dc_status d = Doc_ready) (\<lambda>d. d\<lparr>dc_status := Doc_locked, dc_locked := Some now\<rparr>) st = Inr st1"
    and 2: "each_row (send_one a fr (now + 3600000) (Min (set (map sg_order (ss_signers st)))) (snapshots st))
              (sort_key sg_order (sort_key sg_id (ss_signers st))) st1 = Inr st2"
    and st': "ss_intents st' = ss_intents st2" "ss_documents st' = ss_documents st2"
    using assms by (auto simp: sendCase_def transitionCase_def before_send_def bindR_Inr_iff throw_def update_case_Inr_iff
        split: if_splits)
  show "ss_intents st' = ss_intents st @
      map (consent_of fr (now + 3600000) (snapshots st)) (sort_key sg_order (sort_key sg_id (ss_signers st)))"
    using send_each_writes [OF 2] 1 by (simp add: st' update_documents_Inr_iff)
  show "ss_documents st' = map (\<lambda>d. if dc_status d = Doc_ready then d\<lparr>dc_status := Doc_locked, dc_locked := Some now\<rparr> else d)
      (ss_documents st)"
    using send_each_writes [OF 2] 1 by (simp add: st' update_documents_Inr_iff)
  show "sendable st = Inr ()" by (fact s)
qed

text \<open>The signable documents first, each with its digest.\<close>

definition shown :: "signing_state \<Rightarrow> document_row list" where
  "shown st = filter (\<lambda>d. dc_role d = Signable) (ss_documents st) @ filter (\<lambda>d. dc_role d \<noteq> Signable) (ss_documents st)"

lemma set_shown [simp]: "set (shown st) = set (ss_documents st)"
  by (auto simp: shown_def)

lemma map_zip_snd: "length ns = length ds \<Longrightarrow> map (\<lambda>p. f (snd p)) (zip ns ds) = map f ds"
  by (induction rule: list_induct2) simp_all

lemma snapshots_views:
  "map (\<lambda>d. (id_version d, id_sha d)) (snapshots st) = map (\<lambda>d. (dc_version d, the (dc_sha d))) (shown st)"
  using map_zip_snd [of "[1..<Suc (length (shown st))]" "shown st" "\<lambda>d. (dc_version d, the (dc_sha d))"]
  by (simp add: snapshots_def shown_def Let_def comp_def split_def del: upt_Suc)

lemma distinct_shown: "distinct (map f (ss_documents st)) \<Longrightarrow> distinct (map f (shown st))"
  by (auto simp: shown_def distinct_map inj_on_def)

lemma snapshots_distinct: "distinct (map dc_version (ss_documents st)) \<Longrightarrow> distinct (map id_version (snapshots st))"
proof -
  assume "distinct (map dc_version (ss_documents st))"
  then have "distinct (map dc_version (shown st))" by (rule distinct_shown)
  moreover have "map id_version (snapshots st) = map dc_version (shown st)"
    using arg_cong [OF snapshots_views [of st], of "map fst"] by (simp add: comp_def)
  ultimately show ?thesis by simp
qed

lemma snapshots_sha:
  assumes "d \<in> set (snapshots st)"
  obtains v where "v \<in> set (ss_documents st)" "dc_version v = id_version d" "the (dc_sha v) = id_sha d"
proof -
  have "(id_version d, id_sha d) \<in> set (map (\<lambda>d. (dc_version d, the (dc_sha d))) (shown st))"
    unfolding snapshots_views [symmetric] using assms by auto
  then show thesis using that by auto
qed

section \<open>The invariant of documents, intents and attempts\<close>

text \<open>A locked document version with this digest.\<close>

definition bound_to :: "signing_state \<Rightarrow> string \<Rightarrow> string \<Rightarrow> bool" where
  "bound_to st v sha \<longleftrightarrow>
     (\<exists>d \<in> set (ss_documents st). dc_version d = v \<and> dc_sha d = Some sha \<and> dc_status d \<in> set locked_statuses)"

definition one_consent :: "signing_state \<Rightarrow> bool" where
  "one_consent st \<longleftrightarrow> (\<exists>docs. distinct (map id_version docs) \<and> (\<forall>i \<in> set (ss_intents st). in_documents i = docs) \<and>
     (\<forall>d \<in> set docs. bound_to st (id_version d) (id_sha d)))"

definition documented :: "signing_state \<Rightarrow> bool" where
  "documented st \<longleftrightarrow> distinct (map dc_version (ss_documents st)) \<and> one_consent st \<and>
     (\<forall>r \<in> set (ss_attempts st). bound_to st (at_version r) (at_sha r))"

lemma bound_mono: "evolves st st' \<Longrightarrow> bound_to st v sha \<Longrightarrow> bound_to st' v sha"
proof -
  assume ev: "evolves st st'" and b: "bound_to st v sha"
  have g: "grows document_evolves (ss_documents st) (ss_documents st')"
    using ev by (simp add: evolves_def evidence_grows_def)
  obtain d where d: "d \<in> set (ss_documents st)" "dc_version d = v" "dc_sha d = Some sha" "dc_status d \<in> set locked_statuses"
    using b unfolding bound_to_def by blast
  obtain d' where d': "d' \<in> set (ss_documents st')" "document_evolves d d'" using grows_in [OF g d(1)] by blast
  then have "dc_version d' = v \<and> dc_sha d' = Some sha \<and> dc_status d' \<in> set locked_statuses"
    using d(2-4) by (simp add: document_evolves_def documents.descends_def)
  then show ?thesis using d'(1) unfolding bound_to_def by blast
qed

lemma consents_documents:
  assumes "same_consents st st'" "i' \<in> set (ss_intents st')"
  obtains i where "i \<in> set (ss_intents st)" "in_documents i' = in_documents i" "in_signer i' = in_signer i" "in_expires i' = in_expires i"
proof -
  have a: "list_all2 intent_evolves (ss_intents st) (ss_intents st')" using assms(1) by (simp add: same_consents_def)
  obtain i where "i \<in> set (ss_intents st)" "intent_evolves i i'" using list_all2_back [OF a assms(2)] by blast
  then show thesis using that by (simp add: intent_evolves_def)
qed

lemma one_consent_kept:
  assumes ev: "evolves st st'" and c: "same_consents st st'" and o: "one_consent st"
  shows "one_consent st'"
proof -
  obtain docs where docs: "distinct (map id_version docs)" "\<forall>i \<in> set (ss_intents st). in_documents i = docs"
    "\<forall>d \<in> set docs. bound_to st (id_version d) (id_sha d)" using o unfolding one_consent_def by blast
  have "in_documents i' = docs" if "i' \<in> set (ss_intents st')" for i'
    by (rule consents_documents [OF c that]) (use docs(2) in simp)
  moreover have "bound_to st' (id_version d) (id_sha d)" if "d \<in> set docs" for d
    by (rule bound_mono [OF ev]) (use docs(3) that in blast)
  ultimately show ?thesis using docs(1) unfolding one_consent_def by blast
qed

lemma sendable_documents:
  "sendable st = Inr () \<Longrightarrow> d \<in> set (ss_documents st) \<Longrightarrow> dc_status d = Doc_ready \<and> dc_sha d \<noteq> None"
  by (auto simp: sendable_def list_ex_iff throw_def falsy_def split: if_splits option.splits)

lemma one_consent_sent:
  assumes s: "sendCase a fr now v st = Inr st'" and o: "orderly st" and d: "distinct (map dc_version (ss_documents st))"
  shows "one_consent st'"
proof -
  note w = sendCase_writes [OF s]
  have "cs_status (ss_case st) \<in> unsent"
    using w(3) by (auto simp: sendable_def throw_def unsent_def split: if_splits)
  then have none: "ss_intents st = []" using o by (simp add: orderly_def untouched_def)
  have "bound_to st' (id_version x) (id_sha x)" if x: "x \<in> set (snapshots st)" for x
  proof -
    obtain y where y: "y \<in> set (ss_documents st)" "dc_version y = id_version x" "the (dc_sha y) = id_sha x"
      by (rule snapshots_sha [OF x])
    have r: "dc_status y = Doc_ready" "dc_sha y \<noteq> None" using sendable_documents [OF w(3) y(1)] by auto
    have "y\<lparr>dc_status := Doc_locked, dc_locked := Some now\<rparr> \<in> set (ss_documents st')"
      using y(1) r(1) by (force simp: w(2))
    then show ?thesis using y(2,3) r(2) unfolding bound_to_def locked_statuses_def by (force intro: bexI [rotated])
  qed
  then show ?thesis unfolding one_consent_def using snapshots_distinct [OF d]
    by (intro exI [of _ "snapshots st"]) (auto simp: w(1) none consent_of_def)
qed

section \<open>Who writes documents\<close>

definition sized :: "signing_state \<Rightarrow> signing_state \<Rightarrow> bool" where
  "sized st st' \<longleftrightarrow> length (ss_documents st') = length (ss_documents st)"

interpretation sized: statement_frame sized
  by unfold_locales (simp_all add: updates_Inr_iff sized_def)

lemma sized_updates:
  "sized st st1 \<Longrightarrow> sized.keeps st (update_documents a pd fd st1)"
  "sized st st1 \<Longrightarrow> sized.keeps st (update_identities pi' fi st1)"
  "sized st st1 \<Longrightarrow> sized st (insert_identity_artifact tid intent pass st1)"
  "sized st (st\<lparr>ss_clean := cl\<rparr>)" "sized st (st\<lparr>ss_attempts := ats\<rparr>)" "sized st (st\<lparr>ss_identities := ids\<rparr>)"
  "sized st1 (st1\<lparr>ss_artifacts := ars, ss_certificates := crs, ss_chains := chs\<rparr>)"
  by (simp_all add: sized.keeps_def updates_Inr_iff sized_def insert_identity_artifact_def)

lemmas sized_intros = sized.statement_intros sized_updates

lemma sized_transactions:
  "sized.keeps st (recordPageStatus now loaded status st)" "sized.keeps st (recordExtension now loaded session st)"
  "sized.keeps st (recordCancel loaded st)" "sized.keeps st (failIdentityTransaction now tid intent signer reason st)"
  "sized.keeps st (recordCollected now tid intent evidence st)" "sized.keeps st (rejectDocument v st)"
  "sized.keeps st (scan_passed v doc pages st)" "sized.keeps st (canonicalised v doc k sha n pages st)"
  "sized.keeps st (recordRejected tid i st)" "sized.keeps st (recordVerified now tid i number st)"
  unfolding recordPageStatus_def recordExtension_def recordCancel_def failIdentityTransaction_def recordCollected_def
    rejectDocument_def scan_passed_def canonicalised_def recordRejected_def recordVerified_def if_distrib [of Inr]
  by (intro sized_intros sized.keeps_from [OF sized_updates(4)])+

lemma sized_recordPoll: "sized.keeps st (recordPoll now tid status st)"
  unfolding recordPoll_def by (auto split: option.split intro!: sized_intros)

lemma sized_recordValidation: "sized.keeps st (recordValidation now tid i report checks st)"
  unfolding recordValidation_def by (simp add: sized_transactions)

lemma sized_recordStart: "sized.keeps st (recordStart now s ref st)"
  unfolding recordStart_def by (intro sized_intros sized.keeps_from [OF sized_updates(6)])

lemma sized_recordSignature: "recordSignature attempt artifact signer t d level path sha inp st = Inr st' \<Longrightarrow> sized st st'"
  by (auto simp: recordSignature_def Let_def bindR_Inr_iff update_attempts_Inr_iff sized_def)

lemma sized_sendCase: "sendCase a fr now v st = Inr st' \<Longrightarrow> sized st st'"
  by (simp add: sendCase_writes(2) sized_def)

lemma sized_begin_scan: "begin_scan v st = Inr (st', d) \<Longrightarrow> sized st st'"
  by (auto simp: begin_scan_def bindR_Inr_iff update_documents_Inr_iff sized_def split: if_splits)

lemma sized_save_report: "sized st (save_report v type pass st)"
  by (simp add: save_report_def sized_def)

text \<open>Only adding a document makes the list longer, by a row with a version of its own.\<close>

definition adds :: "signing_state \<Rightarrow> signing_state \<Rightarrow> bool" where
  "adds st st' \<longleftrightarrow> ss_intents st' = ss_intents st \<and> ss_attempts st' = ss_attempts st \<and>
     (\<exists>d. ss_documents st' = ss_documents st @ [d] \<and> dc_version d \<notin> dc_version ` set (ss_documents st))"

lemma addDocument_adds:
  "addDocument a g ids name role st = Inr st' \<Longrightarrow> snd ids \<notin> dc_version ` set (ss_documents st) \<Longrightarrow> adds st st'"
  by (auto simp: addDocument_def adds_def Let_def throw_def bindR_Inr_iff update_case_Inr_iff split: option.splits if_splits)

lemmas sized_routine = sized.keeps_cancelCase sized.keeps_remindCase sized.keeps_markOpened sized.keeps_decline
  sized.keeps_handleCaseExpire sized.keeps_begin_signing sized_transactions sized_recordPoll sized_recordValidation

lemma routine_sized: "routine st st' \<Longrightarrow> sized st st' \<or> adds st st'"
  by (induction rule: routine.induct)
    ((rule disjI2, erule (1) addDocument_adds) |
      (rule disjI1, erule sized_routine [THEN sized.keepsD] sized_recordSignature sized_begin_scan) |
      simp add: sized_def save_report_def)+

lemma operation_sized: "operation st st' \<Longrightarrow> sized st st' \<or> adds st st'"
  by (induction rule: operation.induct)
    (erule routine_sized | (rule disjI1, erule sized.keeps_addSigner [THEN sized.keepsD] sized.keeps_updateSigner [THEN sized.keepsD]
      sized_sendCase sized.keeps_handleReminder [THEN sized.keepsD] sized.keeps_recordPadesReport [THEN sized.keepsD]
      sized.keeps_recordPackage [THEN sized.keepsD]))+

lemma sized_versions:
  assumes "evolves st st'" "sized st st'"
  shows "map dc_version (ss_documents st') = map dc_version (ss_documents st)"
proof -
  obtain old new where "ss_documents st' = old @ new" "list_all2 document_evolves (ss_documents st) old"
    using assms(1) unfolding evolves_def evidence_grows_def grows_def by blast
  moreover have "new = []" using calculation assms(2) by (auto simp: sized_def dest: list_all2_lengthD)
  moreover have "list_all2 documents.descends (ss_documents st) old"
    by (rule list_all2_mono [OF calculation(2)]) (simp add: document_evolves_def)
  ultimately show ?thesis by (simp add: documents.descends_keys)
qed

section \<open>The invariant in every history\<close>

lemma attempts_bound_kept:
  assumes ev: "evolves st st'" and k: "map attempt_key (ss_attempts st') = map attempt_key (ss_attempts st)"
    and b: "\<forall>r \<in> set (ss_attempts st). bound_to st (at_version r) (at_sha r)"
  shows "\<forall>r \<in> set (ss_attempts st'). bound_to st' (at_version r) (at_sha r)"
proof
  fix r' assume "r' \<in> set (ss_attempts st')"
  then obtain r where r: "r \<in> set (ss_attempts st)" "attempt_key r = attempt_key r'" by (rule map_eq_in [OF k])
  have "bound_to st' (at_version r) (at_sha r)" by (rule bound_mono [OF ev]) (use b r(1) in blast)
  then show "bound_to st' (at_version r') (at_sha r')" using r(2) by (simp add: attempt_key_def)
qed

text \<open>What a signature writes, and what its triggers have checked.\<close>

lemma recordSignature_writes:
  assumes "recordSignature attempt artifact signer t d level path sha inp st = Inr st'"
  shows "map attempt_key (ss_attempts st') = map attempt_key (ss_attempts st) @ [(attempt, signer, id_version d, id_sha d)] \<and>
    ss_artifacts st' = ss_artifacts st @
       [\<lparr>ar_id = artifact, ar_attempt = attempt, ar_format = level, ar_key = path @ ''/signed.pdf'', ar_sha = sha, ar_input = inp\<rparr>] \<and>
    bound_to st (id_version d) (id_sha d) \<and>
    (\<exists>st2. map attempt_key (ss_attempts st2) = map attempt_key (ss_attempts st) @ [(attempt, signer, id_version d, id_sha d)] \<and>
       ss_artifacts st2 = ss_artifacts st \<and> ss_documents st2 = ss_documents st \<and>
       revision_chain \<lparr>ar_id = artifact, ar_attempt = attempt, ar_format = level, ar_key = path @ ''/signed.pdf'', ar_sha = sha,
         ar_input = inp\<rparr> st2 = Inr ())"
proof -
  let ?row = "\<lparr>at_id = attempt, at_signer = signer, at_version = id_version d, at_identity = it_id t,
                     at_number = next_attempt signer st, at_status = Attempt_prepared, at_sha = id_sha d\<rparr>"
  let ?ar = "\<lparr>ar_id = artifact, ar_attempt = attempt, ar_format = level, ar_key = path @ ''/signed.pdf'',
                      ar_sha = sha, ar_input = inp\<rparr>"
  obtain st1 st2 st3 where con: "attempt_consistency ?row st = Inr ()"
    and 1: "update_attempts Trusted_service (\<lambda>r. at_id r = attempt) (set_attempt Attempt_identity_verified)
              (st\<lparr>ss_attempts := ss_attempts st @ [?row]\<rparr>) = Inr st1"
    and 2: "update_attempts Trusted_service (\<lambda>r. at_id r = attempt) (set_attempt Attempt_credential_issued) st1 = Inr st2"
    and ch: "revision_chain ?ar st2 = Inr ()"
    and 3: "update_attempts Trusted_service (\<lambda>r. at_id r = attempt) (set_attempt Attempt_signed)
              (st2\<lparr>ss_artifacts := ss_artifacts st2 @ [?ar], ss_certificates := ss_certificates st2 @ [artifact],
                   ss_chains := ss_chains st2 @ [artifact]\<rparr>) = Inr st3"
    and st': "st' = log_entries [Audit ''signature.pades_created'' artifact]
                (enqueue_job ''PADES_VALIDATE'' (''pades-validate:'' @ artifact) st3)"
    using assms by (auto simp: recordSignature_def Let_def bindR_Inr_iff)
  have "bound_to st (id_version d) (id_sha d)"
    using con unfolding attempt_consistency_def bound_to_def locked_statuses_def
    by (auto simp: find_Some_iff split: option.splits if_splits)
  moreover have k: "map attempt_key (ss_attempts st2) = map attempt_key (ss_attempts st @ [?row])"
    "map attempt_key (ss_attempts st') = map attempt_key (ss_attempts st2)"
    using 1 2 3 by (auto simp: st' update_attempts_Inr_iff)
  moreover have "ss_artifacts st2 = ss_artifacts st" "ss_documents st2 = ss_documents st" "ss_artifacts st' = ss_artifacts st @ [?ar]"
    using 1 2 3 by (simp_all add: st' update_attempts_Inr_iff)
  ultimately show ?thesis using ch by (intro conjI exI [of _ st2]) (simp_all add: attempt_key_def)
qed

lemma sign_documented:
  assumes ev: "evolves st st'" and s: "signs st st'"
    and b: "\<forall>r \<in> set (ss_attempts st). bound_to st (at_version r) (at_sha r)"
  shows "\<forall>r \<in> set (ss_attempts st'). bound_to st' (at_version r) (at_sha r)"
proof
  fix r' assume r': "r' \<in> set (ss_attempts st')"
  obtain attempt artifact signer t d level path sha inp
    where rec: "recordSignature attempt artifact signer t d level path sha inp st = Inr st'"
    using s unfolding signs_def by blast
  have k: "map attempt_key (ss_attempts st') = map attempt_key (ss_attempts st) @ [(attempt, signer, id_version d, id_sha d)]"
    and new: "bound_to st (id_version d) (id_sha d)"
    using recordSignature_writes [OF rec] by blast+
  have "attempt_key r' \<in> set (map attempt_key (ss_attempts st'))" using r' by simp
  then have "attempt_key r' \<in> set (map attempt_key (ss_attempts st) @ [(attempt, signer, id_version d, id_sha d)])"
    by (simp only: k)
  then have "bound_to st (at_version r') (at_sha r')" using b new by (auto simp: attempt_key_def)
  then show "bound_to st' (at_version r') (at_sha r')" by (rule bound_mono [OF ev])
qed

lemma signs_calm: "signs st st' \<Longrightarrow> calm st st'"
  unfolding signs_def by (elim exE conjE) (rule calm.keepsD [OF calm_recordSignature])

lemma steady_keys: "steady st st' \<Longrightarrow> map attempt_key (ss_attempts st') = map attempt_key (ss_attempts st)"
  by (simp add: steady_def)

lemma operation_documented:
  assumes op: "operation st st'" and o: "orderly st" and d: "documented st"
  shows "documented st'"
proof -
  have ev: "evolves st st'" using operation_secure [OF op] by (simp add: secure_def)
  have "distinct (map dc_version (ss_documents st'))"
    using operation_sized [OF op] d sized_versions [OF ev] by (auto simp: documented_def adds_def)
  moreover have "one_consent st'"
    using operation_consents [OF op] one_consent_kept [OF ev] one_consent_sent o d
    by (auto simp: documented_def sends_def)
  moreover have "\<forall>r \<in> set (ss_attempts st'). bound_to st' (at_version r) (at_sha r)"
    using operation_steady [OF op] attempts_bound_kept [OF ev steady_keys] sign_documented [OF ev] d
    by (auto simp: documented_def)
  ultimately show ?thesis by (simp add: documented_def)
qed

lemma recordStart_attempts: "recordStart now s reference st = Inr st' \<Longrightarrow> ss_attempts st' = ss_attempts st \<and> ss_artifacts st' = ss_artifacts st"
  by (auto simp: recordStart_def throw_def bindR_Inr_iff update_intents_Inr_iff update_signers_Inr_iff split: option.splits if_splits)

lemma start_documented:
  assumes r: "recordStart now s reference st = Inr st'" and d: "documented st"
  shows "documented st'"
proof -
  have c: "calm st st'" by (rule calm.keepsD [OF calm_recordStart r])
  have ev: "evolves st st'" by (rule calm_evolves [OF c])
  have "map dc_version (ss_documents st') = map dc_version (ss_documents st)"
    by (rule sized_versions [OF ev sized.keepsD [OF sized_recordStart r]])
  moreover have "one_consent st'" by (rule one_consent_kept [OF ev calm_consents [OF c]]) (use d in \<open>simp add: documented_def\<close>)
  moreover have "\<forall>r \<in> set (ss_attempts st'). bound_to st' (at_version r) (at_sha r)"
    by (rule attempts_bound_kept [OF ev]) (use d recordStart_attempts [OF r] in \<open>simp_all add: documented_def\<close>)
  ultimately show ?thesis using d by (simp add: documented_def)
qed

lemma reached_documented: "reached c \<Longrightarrow> documented (fst c)"
proof (induction rule: reached.induct)
  case (reached_new policy mode rollout st)
  then show ?case by (auto simp: createCase_def throw_def documented_def one_consent_def intro: exI [of _ "[]"] split: if_splits)
next
  case (reached_step c c')
  from reached_step(2) reached_orderly [OF reached_step(1)] reached_step(3) show ?case
    by (induction rule: flow.induct) (auto intro: start_documented operation_documented)
qed

section \<open>The chain of revisions\<close>

text \<open>A revision continues the digest of its attempt, which is that of the canonical bytes, or another revision.\<close>

definition continues :: "signing_state \<Rightarrow> string \<Rightarrow> artifact_row \<Rightarrow> bool" where
  "continues st v ar \<longleftrightarrow> (\<exists>r \<in> set (ss_attempts st). at_version r = v \<and> at_sha r = ar_input ar) \<or>
     (\<exists>before \<in> set (version_artifacts v st). ar_sha before = ar_input ar)"

definition chained :: "signing_state \<Rightarrow> bool" where
  "chained st \<longleftrightarrow> distinct (map at_id (ss_attempts st)) \<and> distinct (map ar_id (ss_artifacts st)) \<and>
     (\<forall>ar \<in> set (ss_artifacts st). ar_attempt ar \<in> at_id ` set (ss_attempts st)) \<and>
     (\<forall>v. inj_on ar_input (set (version_artifacts v st)) \<and> (\<forall>ar \<in> set (version_artifacts v st). continues st v ar))"

text \<open>The invariant looks at the keys of the attempts only.\<close>

lemma in_version_artifacts:
  "ar \<in> set (version_artifacts v st) \<longleftrightarrow> ar \<in> set (ss_artifacts st) \<and>
     (\<exists>k \<in> set (map attempt_key (ss_attempts st)). fst k = ar_attempt ar \<and> fst (snd (snd k)) = v)"
  by (auto simp: version_artifacts_def list_ex_iff attempt_key_def)

definition keyed :: "(string \<times> string \<times> string \<times> string) set \<Rightarrow> string \<Rightarrow> string \<Rightarrow> bool" where
  "keyed ks a v \<longleftrightarrow> (\<exists>k \<in> ks. fst k = a \<and> fst (snd (snd k)) = v)"

lemma keyed_simps: "keyed (insert k ks) a v \<longleftrightarrow> fst k = a \<and> fst (snd (snd k)) = v \<or> keyed ks a v"
  by (auto simp: keyed_def)

lemma keyed_fst: "keyed ks a v \<Longrightarrow> a \<in> fst ` ks"
  by (auto simp: keyed_def)

lemma in_version_artifacts_keyed:
  "ar \<in> set (version_artifacts v st) \<longleftrightarrow>
     ar \<in> set (ss_artifacts st) \<and> keyed (set (map attempt_key (ss_attempts st))) (ar_attempt ar) v"
  by (simp only: in_version_artifacts keyed_def)

lemma continues_keys:
  "continues st v ar \<longleftrightarrow> (\<exists>k \<in> set (map attempt_key (ss_attempts st)). fst (snd (snd k)) = v \<and> snd (snd (snd k)) = ar_input ar) \<or>
     (\<exists>before \<in> set (version_artifacts v st). ar_sha before = ar_input ar)"
  by (auto simp: continues_def attempt_key_def)

lemma chained_keys:
  "chained st \<longleftrightarrow> distinct (map fst (map attempt_key (ss_attempts st))) \<and> distinct (map ar_id (ss_artifacts st)) \<and>
     (\<forall>ar \<in> set (ss_artifacts st). ar_attempt ar \<in> fst ` set (map attempt_key (ss_attempts st))) \<and>
     (\<forall>v. inj_on ar_input (set (version_artifacts v st)) \<and> (\<forall>ar \<in> set (version_artifacts v st). continues st v ar))"
  by (simp add: chained_def attempt_key_def comp_def image_image)

lemma same_version_artifacts:
  assumes "map attempt_key (ss_attempts st') = map attempt_key (ss_attempts st)" "ss_artifacts st' = ss_artifacts st"
  shows "set (version_artifacts v st') = set (version_artifacts v st)"
  using assms by (intro set_eqI) (simp only: in_version_artifacts)

lemma chained_kept:
  assumes "map attempt_key (ss_attempts st') = map attempt_key (ss_attempts st)" "ss_artifacts st' = ss_artifacts st" "chained st"
  shows "chained st'"
  using assms(3) unfolding chained_keys continues_keys assms(1,2) same_version_artifacts [OF assms(1,2)] .

lemma distinct_find: "distinct (map f xs) \<Longrightarrow> x \<in> set xs \<Longrightarrow> find (\<lambda>y. f y = f x) xs = Some x"
  by (induction xs) auto

text \<open>What the trigger on artifacts has checked, for a fresh artifact of a fresh attempt.\<close>

lemma revision_chain_checked:
  assumes ch: "revision_chain new st = Inr ()" and d: "distinct (map at_id (ss_attempts st))"
    and r: "r \<in> set (ss_attempts st)" "at_id r = ar_attempt new" and fresh: "ar_id new \<notin> ar_id ` set (ss_artifacts st)"
    and doc: "bound_to st (at_version r) (at_sha r)" "distinct (map dc_version (ss_documents st))"
  shows "ar_input new \<notin> ar_input ` set (version_artifacts (at_version r) st)"
    and "ar_input new = at_sha r \<or> ar_input new \<in> ar_sha ` set (version_artifacts (at_version r) st)"
proof -
  let ?v = "at_version r"
  have att: "find (\<lambda>a. at_id a = ar_attempt new) (ss_attempts st) = Some r"
    using distinct_find [OF d r(1)] r(2) by simp
  have other: "filter (\<lambda>ar. ar_id ar \<noteq> ar_id new) (version_artifacts ?v st) = version_artifacts ?v st"
    using fresh by (intro filter_True) (auto simp: version_artifacts_def image_iff)
  obtain y where y: "y \<in> set (ss_documents st)" "dc_version y = ?v" "dc_sha y = Some (at_sha r)"
    using doc(1) unfolding bound_to_def by blast
  have can: "find (\<lambda>d. dc_version d = ?v) (ss_documents st) = Some y"
    using distinct_find [OF doc(2) y(1)] y(2) by simp
  have "(version_artifacts ?v st = [] \<and> ar_input new = at_sha r) \<or>
      (list_ex (\<lambda>ar. ar_sha ar = ar_input new) (version_artifacts ?v st) \<and>
       \<not> list_ex (\<lambda>ar. ar_input ar = ar_input new) (version_artifacts ?v st))"
    using ch by (simp add: revision_chain_def att can y(3) Let_def other split: if_splits)
  then show "ar_input new \<notin> ar_input ` set (version_artifacts ?v st)"
    and "ar_input new = at_sha r \<or> ar_input new \<in> ar_sha ` set (version_artifacts ?v st)"
    by (force simp: list_ex_iff)+
qed

lemma sign_chained:
  assumes s: "signs st st'" and c: "chained st" and d: "documented st" and e: "documented st'"
  shows "chained st'"
proof -
  obtain attempt artifact signer t d level path sha inp
    where rec: "recordSignature attempt artifact signer t d level path sha inp st = Inr st'"
      and fresh: "attempt \<notin> at_id ` set (ss_attempts st)" "artifact \<notin> ar_id ` set (ss_artifacts st)"
    using s unfolding signs_def by blast
  let ?k = "(attempt, signer, id_version d, id_sha d)"
  let ?ar = "\<lparr>ar_id = artifact, ar_attempt = attempt, ar_format = level, ar_key = path @ ''/signed.pdf'', ar_sha = sha, ar_input = inp\<rparr>"
  have k: "map attempt_key (ss_attempts st') = map attempt_key (ss_attempts st) @ [?k]"
    and ars: "ss_artifacts st' = ss_artifacts st @ [?ar]" and bound: "bound_to st (id_version d) (id_sha d)"
    using recordSignature_writes [OF rec] by blast+
  obtain st2 where k2: "map attempt_key (ss_attempts st2) = map attempt_key (ss_attempts st) @ [?k]"
    and ars2: "ss_artifacts st2 = ss_artifacts st" and docs2: "ss_documents st2 = ss_documents st"
    and ch: "revision_chain ?ar st2 = Inr ()"
    using recordSignature_writes [OF rec] by blast
  have old: "\<forall>ar \<in> set (ss_artifacts st). ar_attempt ar \<in> fst ` set (map attempt_key (ss_attempts st))"
    and dist: "distinct (map fst (map attempt_key (ss_attempts st)))" and dar: "distinct (map ar_id (ss_artifacts st))"
    and inj: "inj_on ar_input (set (version_artifacts v st))"
    and cont: "\<forall>ar \<in> set (version_artifacts v st). continues st v ar" for v
    using c unfolding chained_keys by blast+
  have new: "attempt \<notin> fst ` set (map attempt_key (ss_attempts st))" using fresh(1) by (auto simp: attempt_key_def)
  have ids: "map at_id xs = map fst (map attempt_key xs)" for xs by (simp add: attempt_key_def)
  have keys: "set (map attempt_key (ss_attempts st) @ [?k]) = insert ?k (set (map attempt_key (ss_attempts st)))" by simp
  have unkeyed: "\<not> keyed (set (map attempt_key (ss_attempts st))) attempt v" for v using new keyed_fst by blast
  have other: "ar_attempt ar \<noteq> attempt" if "ar \<in> set (ss_artifacts st)" for ar
    using old new that by blast
  have va2: "set (version_artifacts v st2) = set (version_artifacts v st)" for v
    using other unfolding set_eq_iff in_version_artifacts_keyed k2 ars2 keys keyed_simps by auto
  have va: "set (version_artifacts v st') = set (version_artifacts v st) \<union> (if v = id_version d then {?ar} else {})" for v
    using other unkeyed unfolding set_eq_iff in_version_artifacts_keyed k ars keys keyed_simps Un_iff by auto
  have "?k \<in> set (map attempt_key (ss_attempts st2))" by (simp only: k2 set_append list.set) simp
  then obtain r where r: "r \<in> set (ss_attempts st2)" "attempt_key r = ?k" by auto
  then have rk: "at_id r = attempt" "at_version r = id_version d" "at_sha r = id_sha d" by (simp_all add: attempt_key_def)
  have d2: "distinct (map at_id (ss_attempts st2))" using dist new by (simp only: ids k2 map_append) (simp add: image_iff)
  have b2: "bound_to st2 (at_version r) (at_sha r)" using bound by (simp add: bound_to_def docs2 rk)
  have "distinct (map dc_version (ss_documents st2))" using d by (simp add: documented_def docs2)
  note chk = revision_chain_checked [OF ch d2 r(1) _ _ b2 this, simplified rk va2 artifact_row.simps ars2, OF refl fresh(2)]
  have "inj_on ar_input (set (version_artifacts v st'))" for v
    using inj [of v] chk(1) by (auto simp: va)
  moreover have "continues st' v ar" if ar: "ar \<in> set (version_artifacts v st')" for v ar
  proof (cases "ar \<in> set (version_artifacts v st)")
    case True
    then have "continues st v ar" using cont by blast
    then show ?thesis unfolding continues_keys k va by auto
  next
    case False
    then have "ar = ?ar" "v = id_version d" using ar by (auto simp: va split: if_splits)
    then show ?thesis using chk(2) unfolding continues_keys k va by auto
  qed
  moreover have "distinct (map fst (map attempt_key (ss_attempts st')))" using dist new by (simp only: k map_append) (simp add: image_iff)
  ultimately show ?thesis using dar fresh(2) old unfolding chained_keys k ars by auto
qed

lemma reached_chained: "reached c \<Longrightarrow> chained (fst c)"
proof (induction rule: reached.induct)
  case (reached_new policy mode rollout st)
  then show ?case by (auto simp: createCase_def throw_def chained_def version_artifacts_def split: if_splits)
next
  case (reached_step c c')
  have "documented (fst c)" "documented (fst c')"
    using reached_documented reached.reached_step reached_step(1,2) by blast+
  with reached_step(2,3) show ?case
  proof (induction rule: flow.induct)
    case (flow_operation st st' pending)
    then show ?case using operation_steady [OF flow_operation.hyps]
      by (auto simp: steady_def intro: chained_kept sign_chained)
  qed (auto intro: chained_kept dest!: recordStart_attempts)
qed

end
