(* ===== verification/Signing_Example.thy ===== *)
theory Signing_Example
  imports Signing_Documents
begin

text \<open>
  A concrete history, evaluated step by step: a case with one document and two signers in two
  groups, of whom the first signs; and the branches that leave it by a reminder, a cancelled session
  and a cancelled case. The properties of the flow are applied to its states.
\<close>

section \<open>Steps\<close>

type_synonym flow_state = "signing_state \<times> start_input list"

fun run :: "(flow_state \<Rightarrow> flow_state outcome) list \<Rightarrow> flow_state \<Rightarrow> flow_state outcome" where
  "run [] c = Inr c"
| "run (f # fs) c = bindR (f c) (run fs)"

definition step :: "(signing_state \<Rightarrow> signing_state outcome) \<Rightarrow> flow_state \<Rightarrow> flow_state outcome" where
  "step f c = bindR (f (fst c)) (\<lambda>st. Inr (st, snd c))"

definition unless :: "(signing_state \<Rightarrow> bool) \<Rightarrow> (signing_state \<Rightarrow> signing_state outcome) \<Rightarrow> signing_state \<Rightarrow> signing_state outcome" where
  "unless p f st = (if p st then throw ''USED'' else f st)"

definition load :: "int \<Rightarrow> string \<times> string \<Rightarrow> string \<times> string \<Rightarrow> flow_state \<Rightarrow> flow_state outcome" where
  "load now iv drawn c = bindR (loadStartInput now iv drawn (fst c)) (\<lambda>s. Inr (fst c, s # snd c))"

definition start :: "int \<Rightarrow> string \<Rightarrow> flow_state \<Rightarrow> flow_state outcome" where
  "start now reference c =
     (case snd c of [] \<Rightarrow> throw ''EMPTY'' | s # _ \<Rightarrow> bindR (recordStart now s reference (fst c)) (\<lambda>st. Inr (st, snd c)))"

definition is_flow :: "(flow_state \<Rightarrow> flow_state outcome) \<Rightarrow> bool" where
  "is_flow f \<longleftrightarrow> (\<forall>c c'. f c = Inr c' \<longrightarrow> flow c c')"

lemma step_flow: "(\<And>st st'. f st = Inr st' \<Longrightarrow> operation st st') \<Longrightarrow> is_flow (step f)"
  by (auto simp: is_flow_def step_def bindR_Inr_iff intro: flow_operation)

lemma load_flow: "is_flow (load now iv drawn)"
  by (auto simp: is_flow_def load_def bindR_Inr_iff intro: flow_load)

lemma start_flow: "is_flow (start now reference)"
  by (auto simp: is_flow_def start_def bindR_Inr_iff throw_def split: list.splits intro: flow_start)

lemma is_flowD: "is_flow f \<Longrightarrow> f c = Inr c' \<Longrightarrow> flow c c'"
  unfolding is_flow_def by blast

lemma run_flow: "run fs c = Inr c' \<Longrightarrow> list_all is_flow fs \<Longrightarrow> flow\<^sup>*\<^sup>* c c'"
proof (induction fs arbitrary: c)
  case (Cons f fs)
  then obtain d where d: "f c = Inr d" "run fs d = Inr c'" by (auto simp: bindR_Inr_iff)
  have "flow c d" by (rule is_flowD [of f, OF _ d(1)]) (use Cons.prems(2) in simp)
  moreover have "flow\<^sup>*\<^sup>* d c'" by (rule Cons.IH [OF d(2)]) (use Cons.prems(2) in simp)
  ultimately show ?case by (rule converse_rtranclp_into_rtranclp)
qed simp

section \<open>Arguments\<close>

definition ex_policy :: policy_snapshot where
  "ex_policy = \<lparr>ps_requiredPadesLevel = Some (JStr ''B''), ps_allowedValidationResults = Some (JArr [JStr ''TOTAL_PASSED'']),
     ps_requiresTimestamp = None\<rparr>"

definition ex_input :: "string \<Rightarrow> int \<Rightarrow> signer_input" where
  "ex_input number order =
     \<lparr>si_binding = \<lparr>bi_personalNumber = Some number, bi_requirePersonalNumberMatch = True, bi_exception = None,
        bi_tenantAllowsException = False, bi_actorHasExceptionPermission = False, bi_referenceDate = 1700000000000\<rparr>,
      si_email = ''a@b.se'', si_order = order, si_required = True\<rparr>"

definition ex_grant :: upload_grant where
  "ex_grant = \<lparr>ug_status = ''uploaded'', ug_key = ''source'', ug_mime = ''application/pdf'', ug_size = 9, ug_sha = ''raw''\<rparr>"

definition ex_fresh :: fresh where
  "ex_fresh = \<lparr>fr_intent = (\<lambda>s. ''int-'' @ s), fr_invitation = (\<lambda>s. ''inv-'' @ s), fr_token = (\<lambda>s. ''tok-'' @ s),
     fr_message = (\<lambda>s. ''msg-'' @ s), fr_hash = (\<lambda>t. ''#'' @ t)\<rparr>"

definition ex_report :: validation_report where
  "ex_report = \<lparr>vr_pass = True, vr_checks = [True], vr_personalNumber = Some ''198112189876'', vr_verifiedAt = 0\<rparr>"

definition ex_pades :: pades_report where
  "ex_pades = \<lparr>pr_pass = True, pr_indication = TOTAL_PASSED, pr_trusted_path = True, pr_timestamp = False, pr_revocation = False,
     pr_archive_timestamp = False, pr_validatedAt = ''2026-01-01T00:00:00Z'', pr_bytes = []\<rparr>"

section \<open>The history\<close>

definition ex_new :: "policy_snapshot \<Rightarrow> flow_state outcome" where
  "ex_new policy = bindR (createCase (ELECTRONIC_SIGNATURE, policy) ELECTRONIC_SIGNATURE True) (\<lambda>st. Inr (st, []))"

definition ex_signer :: "string \<Rightarrow> int \<Rightarrow> flow_state \<Rightarrow> flow_state outcome" where
  "ex_signer sid order =
     step (unless (\<lambda>st. sid \<in> set (map sg_id (ss_signers st))) (addSigner sid (ex_input ''198112189876'' order)))"

text \<open>A document is uploaded, scanned and canonicalised.\<close>

definition ex_document :: "string \<Rightarrow> (flow_state \<Rightarrow> flow_state outcome) list" where
  "ex_document v =
     [step (unless (\<lambda>st. v \<in> set (map dc_version (ss_documents st)))
        (addDocument Internal_user (Some ex_grant) (''doc'', v) ''Avtal'' None)),
      step (\<lambda>st. bindR (begin_scan v st) (\<lambda>r. Inr (fst r))),
      step (scan_passed v ''doc'' 1),
      step (canonicalised v ''doc'' ''canonical'' ''sha'' 10 1)]"

definition ex_send :: "flow_state \<Rightarrow> flow_state outcome" where
  "ex_send = step (sendCase Internal_user ex_fresh 1700000000000 None)"

text \<open>Anna identifies herself and signs.\<close>

definition ex_identify :: "string \<Rightarrow> (flow_state \<Rightarrow> flow_state outcome) list" where
  "ex_identify invitation =
     [load 1700000001000 (invitation, ''anna'') (''session'', ''state''),
      start 1700000002000 ''reference'',
      step (recordCollected 1700000003000 ''session'' ''int-anna'' \<lparr>cl_key = ''key'', cl_sha = ''sha''\<rparr>),
      step (\<lambda>st. recordValidation 1700000004000 ''session'' (hd (ss_intents st)) ex_report [True] st),
      step (begin_signing ''anna'')]"

definition ex_sign :: "(flow_state \<Rightarrow> flow_state outcome) list" where
  "ex_sign =
     [step (unless (\<lambda>st. ss_attempts st \<noteq> [] \<or> ss_artifacts st \<noteq> [])
        (\<lambda>st. recordSignature ''attempt'' ''artifact'' ''anna'' (hd (ss_identities st)) (hd (in_documents (hd (ss_intents st))))
           B ''path'' ''signed'' ''sha'' st)),
      step (\<lambda>st. recordPadesReport ex_fresh 1700000005000 ''report'' (Some B) ''int-anna'' ''attempt'' ''anna''
           (hd (ss_artifacts st)) ex_pades st)]"

definition ex_prepare :: "(flow_state \<Rightarrow> flow_state outcome) list" where
  "ex_prepare = ex_signer ''anna'' 1 # ex_signer ''bo'' 2 # ex_document ''v1'' @ [ex_send]"

text \<open>What the tables hold when the case has been sent, and when Anna has signed.\<close>

definition ex_sent :: signing_state where
  "ex_sent =
    \<lparr>ss_case = \<lparr>cs_status = Case_sent, cs_version = 4, cs_mode = ELECTRONIC_SIGNATURE, cs_policy =
       \<lparr>ps_requiredPadesLevel = Some (JStr ''B''), ps_allowedValidationResults = Some (JArr [JStr
       ''TOTAL_PASSED'']), ps_requiresTimestamp = None\<rparr>, cs_expires = None, cs_sent = Some 1700000000000,
       cs_completed = None\<rparr>,
     ss_signers = [\<lparr>sg_id = ''anna'', sg_order = 1, sg_required = True, sg_status = Signer_invited, sg_version = 2,
       sg_email = Some ''a@b.se'', sg_mode = Some STRICT_PREBOUND, sg_expected = Some ''198112189876'', sg_verified =
       None, sg_bounced = None, sg_complained = None\<rparr>, \<lparr>sg_id = ''bo'', sg_order = 2, sg_required =
       True, sg_status = Signer_pending, sg_version = 1, sg_email = Some ''a@b.se'', sg_mode = Some STRICT_PREBOUND,
       sg_expected = Some ''198112189876'', sg_verified = None, sg_bounced = None, sg_complained = None\<rparr>],
     ss_documents = [\<lparr>dc_id = ''doc'', dc_version = ''v1'', dc_name = ''Avtal'', dc_role = Signable, dc_status =
       Doc_locked, dc_mime = ''application/pdf'', dc_size = 10, dc_sha = Some ''sha'', dc_source = ''source'',
       dc_canonical = Some ''canonical'', dc_pages = Some 1, dc_canonical_pages = Some 1, dc_locked = Some
       1700000000000\<rparr>],
     ss_reports = [],
     ss_clean = [''v1''],
     ss_intents = [\<lparr>in_id = ''int-anna'', in_signer = ''anna'', in_group = 1, in_status = Intent_prepared,
       in_expires = 1700003600000, in_mode = Some STRICT_PREBOUND, in_documents = [\<lparr>id_version = ''v1'',
       id_ordinal = 1, id_sha = ''sha'', id_name = ''Avtal'', id_size = 10, id_role = Signable\<rparr>]\<rparr>,
       \<lparr>in_id = ''int-bo'', in_signer = ''bo'', in_group = 2, in_status = Intent_prepared, in_expires =
       1700003600000, in_mode = Some STRICT_PREBOUND, in_documents = [\<lparr>id_version = ''v1'', id_ordinal = 1,
       id_sha = ''sha'', id_name = ''Avtal'', id_size = 10, id_role = Signable\<rparr>]\<rparr>],
     ss_invitations = [\<lparr>iv_id = ''inv-anna'', iv_signer = ''anna'', iv_token = ''#tok-anna'', iv_expires =
       1700003600000, iv_revoked = None, iv_used = None, iv_opened = None\<rparr>],
     ss_emails = [\<lparr>em_id = ''msg-anna'', em_signer = ''anna'', em_template = ''signature_invitation'', em_token =
       ''tok-anna'', em_expires = 1700003600000\<rparr>],
     ss_identities = [],
     ss_identity_artifacts = [],
     ss_attempts = [],
     ss_artifacts = [],
     ss_certificates = [],
     ss_chains = [],
     ss_timestamps = [],
     ss_revocations = [],
     ss_runs = [],
     ss_approvals = [],
     ss_packages = [],
     ss_manifests = [],
     ss_jobs = [(''DOCUMENT_SCAN'', ''document-scan:v1''), (''DOCUMENT_CANONICALIZE'', ''document-canonicalize:v1''),
       (''EMAIL_SEND'', ''email:msg-anna'')],
     ss_log = [Outbox ''signature_case.created'' [], Outbox ''signer.added'' ''anna'', Outbox ''signer.added'' ''bo'',
       Outbox ''document.quarantined'' ''doc'', Outbox ''signature_case.preparing'' [], Audit ''document.scan_passed''
       ''v1'', Outbox ''document.scan_passed'' ''doc'', Audit ''document.pdfa_validated'' ''v1'', Outbox
       ''document.pdfa_validated'' ''doc'', Audit ''signature_case.ready'' [], Outbox ''signature_case.ready'' [],
       Outbox ''invitation.created'' ''inv-anna'', Outbox ''document.locked'' [], Outbox ''signature_case.sent'' []],
     ss_rollout = True\<rparr>"

definition ex_signed :: signing_state where
  "ex_signed =
    \<lparr>ss_case = \<lparr>cs_status = Case_sent, cs_version = 4, cs_mode = ELECTRONIC_SIGNATURE, cs_policy =
       \<lparr>ps_requiredPadesLevel = Some (JStr ''B''), ps_allowedValidationResults = Some (JArr [JStr
       ''TOTAL_PASSED'']), ps_requiresTimestamp = None\<rparr>, cs_expires = None, cs_sent = Some 1700000000000,
       cs_completed = None\<rparr>,
     ss_signers = [\<lparr>sg_id = ''anna'', sg_order = 1, sg_required = True, sg_status = Signer_signed, sg_version = 6,
       sg_email = Some ''a@b.se'', sg_mode = Some STRICT_PREBOUND, sg_expected = Some ''198112189876'', sg_verified =
       Some ''198112189876'', sg_bounced = None, sg_complained = None\<rparr>, \<lparr>sg_id = ''bo'', sg_order = 2,
       sg_required = True, sg_status = Signer_invited, sg_version = 2, sg_email = Some ''a@b.se'', sg_mode = Some
       STRICT_PREBOUND, sg_expected = Some ''198112189876'', sg_verified = None, sg_bounced = None, sg_complained =
       None\<rparr>],
     ss_documents = [\<lparr>dc_id = ''doc'', dc_version = ''v1'', dc_name = ''Avtal'', dc_role = Signable, dc_status =
       Doc_locked, dc_mime = ''application/pdf'', dc_size = 10, dc_sha = Some ''sha'', dc_source = ''source'',
       dc_canonical = Some ''canonical'', dc_pages = Some 1, dc_canonical_pages = Some 1, dc_locked = Some
       1700000000000\<rparr>],
     ss_reports = [],
     ss_clean = [''v1''],
     ss_intents = [\<lparr>in_id = ''int-anna'', in_signer = ''anna'', in_group = 1, in_status = Intent_packaged,
       in_expires = 1700003600000, in_mode = Some STRICT_PREBOUND, in_documents = [\<lparr>id_version = ''v1'',
       id_ordinal = 1, id_sha = ''sha'', id_name = ''Avtal'', id_size = 10, id_role = Signable\<rparr>]\<rparr>,
       \<lparr>in_id = ''int-bo'', in_signer = ''bo'', in_group = 2, in_status = Intent_prepared, in_expires =
       1700003600000, in_mode = Some STRICT_PREBOUND, in_documents = [\<lparr>id_version = ''v1'', id_ordinal = 1,
       id_sha = ''sha'', id_name = ''Avtal'', id_size = 10, id_role = Signable\<rparr>]\<rparr>],
     ss_invitations = [\<lparr>iv_id = ''inv-anna'', iv_signer = ''anna'', iv_token = ''#tok-anna'', iv_expires =
       1700003600000, iv_revoked = None, iv_used = Some 1700000005000, iv_opened = None\<rparr>, \<lparr>iv_id =
       ''inv-bo'', iv_signer = ''bo'', iv_token = ''#tok-bo'', iv_expires = 1700003600000, iv_revoked = None, iv_used
       = None, iv_opened = None\<rparr>],
     ss_emails = [\<lparr>em_id = ''msg-anna'', em_signer = ''anna'', em_template = ''signature_invitation'', em_token =
       ''tok-anna'', em_expires = 1700003600000\<rparr>, \<lparr>em_id = ''msg-bo'', em_signer = ''bo'', em_template =
       ''signature_invitation'', em_token = ''tok-bo'', em_expires = 1700003600000\<rparr>],
     ss_identities = [\<lparr>it_id = ''session'', it_signer = ''anna'', it_version = ''v1'', it_intent = ''int-anna'',
       it_reference = ''reference'', it_state = ''state'', it_status = Identity_verified, it_polled = None,
       it_extended = None, it_failure = None, it_completed = Some 1700000003000, it_evidence = Some (''key'',
       ''sha'')\<rparr>],
     ss_identity_artifacts = [\<lparr>ta_identity = ''session'', ta_intent = ''int-anna'', ta_pass = True\<rparr>],
     ss_attempts = [\<lparr>at_id = ''attempt'', at_signer = ''anna'', at_version = ''v1'', at_identity = ''session'',
       at_number = 1, at_status = Attempt_validated, at_sha = ''sha''\<rparr>],
     ss_artifacts = [\<lparr>ar_id = ''artifact'', ar_attempt = ''attempt'', ar_format = B, ar_key = ''path/signed.pdf'',
       ar_sha = ''signed'', ar_input = ''sha''\<rparr>],
     ss_certificates = [''artifact''],
     ss_chains = [''artifact''],
     ss_timestamps = [],
     ss_revocations = [],
     ss_runs = [\<lparr>rn_artifact = ''artifact'', rn_indication = TOTAL_PASSED, rn_trust_list = False, rn_report =
       ''report''\<rparr>],
     ss_approvals = [],
     ss_packages = [],
     ss_manifests = [],
     ss_jobs = [(''DOCUMENT_SCAN'', ''document-scan:v1''), (''DOCUMENT_CANONICALIZE'', ''document-canonicalize:v1''),
       (''EMAIL_SEND'', ''email:msg-anna''), (''SIGNATURE_VALIDATE'', ''signature-validate:session''),
       (''PADES_CREATE'', ''pades-create:int-anna''), (''PADES_VALIDATE'', ''pades-validate:artifact''),
       (''EVIDENCE_PACKAGE_BUILD'', ''signer-package:anna''), (''EMAIL_SEND'', ''email:msg-bo'')],
     ss_log = [Outbox ''signature_case.created'' [], Outbox ''signer.added'' ''anna'', Outbox ''signer.added'' ''bo'',
       Outbox ''document.quarantined'' ''doc'', Outbox ''signature_case.preparing'' [], Audit ''document.scan_passed''
       ''v1'', Outbox ''document.scan_passed'' ''doc'', Audit ''document.pdfa_validated'' ''v1'', Outbox
       ''document.pdfa_validated'' ''doc'', Audit ''signature_case.ready'' [], Outbox ''signature_case.ready'' [],
       Outbox ''invitation.created'' ''inv-anna'', Outbox ''document.locked'' [], Outbox ''signature_case.sent'' [],
       Outbox ''bankid.session_started'' ''session'', Audit ''bankid.evidence_collected'' ''session'', Outbox
       ''bankid.evidence_collected'' ''session'', Audit ''bankid.evidence_verified'' ''session'', Audit
       ''signer.identity_verified'' ''anna'', Outbox ''signer.identity_verified'' ''anna'', Audit
       ''signature.pades_created'' ''artifact'', Audit ''signature.pades_admitted'' ''artifact'', Audit
       ''signer.signed'' ''anna'', Outbox ''signer.signed'' ''anna'', Audit ''invitation.created'' ''bo''],
     ss_rollout = True\<rparr>"

definition ex_session :: start_input where
  "ex_session = \<lparr>sn_identity = ''session'', sn_intent = ''int-anna'', sn_signer = ''anna'', sn_version = ''v1'', sn_state =
       ''state'', sn_expected = Some ''198112189876''\<rparr>"

lemma ex_prepare_runs: "bindR (ex_new ex_policy) (run ex_prepare) = Inr (ex_sent, [])"
  by code_simp

lemma ex_sign_runs: "run (ex_identify ''inv-anna'' @ ex_sign) (ex_sent, []) = Inr (ex_signed, [ex_session])"
  by code_simp

section \<open>The steps are steps of the flow\<close>

lemma ex_new_reached: "ex_new policy = Inr c \<Longrightarrow> reached c"
  by (auto simp: ex_new_def bindR_Inr_iff intro: reached_new)

lemma unless_Inr_iff: "unless p f st = Inr st' \<longleftrightarrow> \<not> p st \<and> f st = Inr st'"
  by (simp add: unless_def throw_def)

lemma ex_document_op:
  "unless (\<lambda>st. v \<in> set (map dc_version (ss_documents st)))
     (addDocument Internal_user (Some ex_grant) (''doc'', v) ''Avtal'' None) st = Inr st' \<Longrightarrow> operation st st'"
  unfolding unless_Inr_iff by (elim conjE, rule op_routine, erule rt_addDocument) simp

lemma ex_signer_flow: "is_flow (ex_signer sid order)"
  unfolding ex_signer_def by (rule step_flow) (auto simp: unless_Inr_iff intro: op_addSigner)

lemma ex_document_flow: "list_all is_flow (ex_document v)"
proof -
  have "is_flow (step (\<lambda>st. bindR (begin_scan v st) (\<lambda>r. Inr (fst r))))"
    by (rule step_flow) (auto simp: bindR_Inr_iff intro: op_routine rt_beginScan)
  moreover have "is_flow (step (scan_passed v ''doc'' 1))" "is_flow (step (canonicalised v ''doc'' ''canonical'' ''sha'' 10 1))"
    by (rule step_flow, rule op_routine, erule rt_scanPassed rt_canonicalised)+
  ultimately show ?thesis unfolding ex_document_def by (simp add: step_flow [OF ex_document_op])
qed

lemma ex_send_flow: "is_flow ex_send"
  unfolding ex_send_def by (rule step_flow, erule op_sendCase)

lemma ex_identify_flow: "list_all is_flow (ex_identify iv)"
proof -
  have "is_flow (step (recordCollected now tid intent e))" "is_flow (step (begin_signing sid))" for now tid intent e sid
    by (rule step_flow, rule op_routine, erule rt_recordCollected rt_beginSigning)+
  moreover have "is_flow (step (\<lambda>st. recordValidation now tid (f st) r checks st))" for now tid f r checks
    by (rule step_flow, rule op_routine, erule rt_recordValidation)
  ultimately show ?thesis unfolding ex_identify_def by (simp add: load_flow start_flow)
qed

lemma ex_sign_flow: "list_all is_flow ex_sign"
proof -
  have "is_flow (step (unless (\<lambda>st. ss_attempts st \<noteq> [] \<or> ss_artifacts st \<noteq> [])
      (\<lambda>st. recordSignature attempt artifact signer (t st) (d st) level path sha inp st)))"
    for attempt artifact signer t d level path sha inp
    by (rule step_flow, unfold unless_Inr_iff, elim conjE, rule op_routine, erule rt_recordSignature) simp_all
  moreover have "is_flow (step (\<lambda>st. recordPadesReport fr now sha level intent attempt signer (ar st) r st))"
    for fr now sha level intent attempt signer ar r
    by (rule step_flow, erule op_recordPadesReport)
  ultimately show ?thesis unfolding ex_sign_def by simp
qed

lemmas ex_steps_flow = ex_signer_flow ex_document_flow ex_send_flow ex_identify_flow ex_sign_flow

lemma ex_reached: "bindR (ex_new policy) (run fs) = Inr c \<Longrightarrow> list_all is_flow fs \<Longrightarrow> reached c"
  unfolding bindR_Inr_iff by (elim exE conjE) (rule reached_star [OF run_flow ex_new_reached])

lemma ex_sent_reached: "reached (ex_sent, [])"
  by (rule ex_reached [OF ex_prepare_runs]) (simp add: ex_prepare_def ex_steps_flow)

lemma ex_signed_follows: "flow\<^sup>*\<^sup>* (ex_sent, []) (ex_signed, [ex_session])"
  by (rule run_flow [OF ex_sign_runs]) (simp add: ex_steps_flow)

lemma ex_signed_reached: "reached (ex_signed, [ex_session])"
  by (rule reached_star [OF ex_signed_follows ex_sent_reached])

text \<open>A case for any policy and any number of documents, up to sending it.\<close>

definition ex_case :: "policy_snapshot \<Rightarrow> string list \<Rightarrow> flow_state outcome" where
  "ex_case policy versions =
     bindR (ex_new policy) (run (ex_signer ''anna'' 1 # concat (map ex_document versions) @ [ex_send]))"

lemma ex_case_reached: "ex_case policy versions = Inr c \<Longrightarrow> reached c"
  unfolding ex_case_def by (erule ex_reached) (induction versions; simp add: ex_steps_flow)

end
