(* ===== verification/Signing_Properties.thy ===== *)
theory Signing_Properties
  imports Signing_Example
begin

text \<open>
  What the signing flow promises in every history, and what it cannot do: the properties that rest
  on the invariants of \<open>Signing_Evidence\<close>, \<open>Signing_Order\<close>, \<open>Signing_Limits\<close> and \<open>Signing_Documents\<close>.
\<close>

section \<open>What a signature stands for\<close>

lemma bound_unique:
  assumes "documented st" "bound_to st v sha" "bound_to st v sha'"
  shows "sha' = sha"
proof -
  obtain d d' where d: "d \<in> set (ss_documents st)" "dc_version d = v" "dc_sha d = Some sha"
    and d': "d' \<in> set (ss_documents st)" "dc_version d' = v" "dc_sha d' = Some sha'"
    using assms(2,3) unfolding bound_to_def by blast
  have "inj_on dc_version (set (ss_documents st))" using assms(1) by (simp add: documented_def distinct_map)
  then have "d' = d" by (rule inj_onD) (use d d' in simp_all)
  then show ?thesis using d d' by simp
qed

lemma intent_document_bound:
  "documented st \<Longrightarrow> i \<in> set (ss_intents st) \<Longrightarrow> d \<in> set (in_documents i) \<Longrightarrow> bound_to st (id_version d) (id_sha d)"
  unfolding documented_def one_consent_def by (elim conjE exE) simp

lemma validated_attempt:
  assumes "validated_signature st signer v"
  shows "\<exists>r \<in> set (ss_attempts st). at_signer r = signer \<and> at_version r = v \<and> at_status r = Attempt_validated"
  using assms unfolding validated_signature_def list_ex_iff by blast

text \<open>C1. In every reachable state, behind every signer of an electronic signature that is \<open>signed\<close> stands a
  consent whose identity evidence passed and, for each document of that consent that is to be signed, a
  validated attempt over the digest that the consent showed, which is the digest of the document as it
  has been locked since.\<close>

theorem signed_means_evidence:
  assumes "reached (st, pending)" "cs_mode (ss_case st) = ELECTRONIC_SIGNATURE"
    "s \<in> set (ss_signers st)" "sg_status s = Signer_signed"
  shows "(\<exists>i \<in> set (ss_intents st). in_signer i = sg_id s \<and> (\<exists>a \<in> set (ss_identity_artifacts st). ta_intent a = in_id i \<and> ta_pass a)) \<and>
    (\<exists>i \<in> set (ss_intents st). in_signer i = sg_id s \<and> signables i \<noteq> [] \<and>
       (\<forall>d \<in> set (signables i). validated_signature st (sg_id s) (id_version d) \<and> bound_to st (id_version d) (id_sha d) \<and>
          (\<exists>r \<in> set (ss_attempts st). at_signer r = sg_id s \<and> at_version r = id_version d \<and>
             at_status r = Attempt_validated \<and> at_sha r = id_sha d)))"
proof -
  have e: "signer_evidence st (sg_id s)" and doc: "documented st"
    using reached_signed [OF assms(1)] reached_documented [OF assms(1)] assms(3,4) by (simp_all add: signed_with_evidence_def)
  obtain i where i: "i \<in> set (ss_intents st)" "in_signer i = sg_id s" "signables i \<noteq> []"
    "\<forall>d \<in> set (signables i). validated_signature st (sg_id s) (id_version d)"
    using e assms(2) unfolding signer_evidence_def by blast
  have "bound_to st (id_version d) (id_sha d) \<and> (\<exists>r \<in> set (ss_attempts st). at_signer r = sg_id s \<and> at_version r = id_version d \<and>
      at_status r = Attempt_validated \<and> at_sha r = id_sha d)" if d: "d \<in> set (signables i)" for d
  proof -
    have b: "bound_to st (id_version d) (id_sha d)"
      by (rule intent_document_bound [OF doc i(1)]) (use d in \<open>simp add: signables_def\<close>)
    obtain r where r: "r \<in> set (ss_attempts st)" "at_signer r = sg_id s" "at_version r = id_version d" "at_status r = Attempt_validated"
      using i(4) d validated_attempt by blast
    have "bound_to st (at_version r) (at_sha r)" using doc r(1) by (simp add: documented_def)
    then have "at_sha r = id_sha d" using bound_unique [OF doc b] r(3) by simp
    then show ?thesis using b r by blast
  qed
  then show ?thesis using e i unfolding signer_evidence_def by blast
qed

theorem signed_means_evidence_witness:
  "sg_id (hd (ss_signers ex_signed)) = ''anna'' \<and> at_sha (hd (ss_attempts ex_signed)) = ''sha'' \<and>
   bound_to ex_signed ''v1'' ''sha''"
proof -
  have "hd (ss_signers ex_signed) \<in> set (ss_signers ex_signed)" by (simp add: ex_signed_def)
  note t = signed_means_evidence [OF ex_signed_reached _ this]
  show ?thesis using t by (simp add: ex_signed_def signables_def)
qed

text \<open>C10. What a signer was shown is what the case holds, for ever: once a document of a consent is locked, no
  later operation changes its digest or unlocks it.\<close>

theorem consented_documents_stay:
  assumes "reached c" "i \<in> set (ss_intents (fst c))" "d \<in> set (in_documents i)" "flow\<^sup>*\<^sup>* c c'"
  shows "bound_to (fst c') (id_version d) (id_sha d) \<and>
    (\<exists>i' \<in> set (ss_intents (fst c')). in_id i' = in_id i \<and> in_documents i' = in_documents i)"
proof -
  have ev: "evolves (fst c) (fst c')" using flow_secure_star [OF assms(4)] by (simp add: secure_def)
  obtain i' where "i' \<in> set (ss_intents (fst c'))" "intent_evolves i i'" using grows_in [OF evolves_intents [OF ev] assms(2)] by blast
  moreover have "bound_to (fst c') (id_version d) (id_sha d)"
    by (rule bound_mono [OF ev intent_document_bound [OF reached_documented [OF assms(1)] assms(2,3)]])
  ultimately show ?thesis by (auto simp: intent_evolves_def intents.descends_def)
qed

theorem consented_documents_stay_witness:
  "bound_to ex_signed ''v1'' ''sha'' \<and> in_status (hd (ss_intents ex_signed)) = Intent_packaged"
proof -
  let ?i = "hd (ss_intents ex_sent)"
  have "?i \<in> set (ss_intents (fst (ex_sent, [] :: start_input list)))" "hd (in_documents ?i) \<in> set (in_documents ?i)"
    by (simp_all add: ex_sent_def)
  from consented_documents_stay [OF ex_sent_reached this ex_signed_follows] show ?thesis
    by (simp add: ex_sent_def ex_signed_def)
qed

section \<open>Whose turn it was\<close>

text \<open>C2. Whoever has been invited, or has done anything after that, was invited after all required signers of
  the groups before had signed: this order cannot be broken by any interleaving of invitations,
  reminders, expiry and signatures.\<close>

theorem signing_order_kept:
  assumes "reached (st, pending)" "s \<in> set (ss_signers st)" "sg_status s \<noteq> Signer_pending"
    "l \<in> set (ss_signers st)" "sg_order l < sg_order s" "sg_required l"
  shows "sg_status l = Signer_signed"
proof -
  have "in_turn (ss_signers st)" using reached_orderly [OF assms(1)] by (simp add: orderly_def)
  from this [unfolded in_turn_def, rule_format, OF assms(2,3,4)] show ?thesis using assms(5,6) by simp
qed

theorem signing_order_kept_witness:
  "sg_status (ss_signers ex_signed ! 1) = Signer_invited \<and> sg_status (ss_signers ex_signed ! 0) = Signer_signed"
proof -
  have "ss_signers ex_signed ! 1 \<in> set (ss_signers ex_signed)" "ss_signers ex_signed ! 0 \<in> set (ss_signers ex_signed)"
    by (simp_all add: ex_signed_def)
  from signing_order_kept [OF ex_signed_reached this(1) _ this(2)] show ?thesis by (simp add: ex_signed_def)
qed

section \<open>The chain of revisions\<close>



section \<open>What the flow cannot do\<close>

text \<open>C11. No case is ever completed: the table of \<open>signature_cases\<close> lets a case be completed only from
  \<open>in_progress\<close> or \<open>partially_signed\<close>, no code moves a case there, and so the transaction that stores the
  package of the case is refused as long as the case is \<open>sent\<close>, whoever has signed.\<close>

theorem case_never_completes:
  assumes "reached (st, pending)"
  shows "cs_status (ss_case st) \<notin> {Case_in_progress, Case_partially_signed, Case_completed, Case_archived} \<and>
    (cs_status (ss_case st) = Case_sent \<and> find (\<lambda>p. pk_signer p = None) (ss_packages st) = None \<longrightarrow>
       \<not> is_ok (recordPackage now packageId None sha st))"
proof -
  have o: "cs_status (ss_case st) \<in> open_or_closed" using reached_orderly [OF assms] by (simp add: orderly_def)
  have "\<not> is_ok (recordPackage now packageId None sha st)"
    if sent: "cs_status (ss_case st) = Case_sent" and none: "find (\<lambda>p. pk_signer p = None) (ss_packages st) = None"
  proof -
    have c: "ss_case (write_package packageId None sha st) = ss_case st" by (simp add: write_package_def)
    have "finish_package now None packageId (write_package packageId None sha st) \<noteq> Inr st'" for st'
    proof
      assume "finish_package now None packageId (write_package packageId None sha st) = Inr st'"
      then obtain st1 where
        "update_case Worker (\<lambda>c. cs_status c \<in> set open_statuses)
           (\<lambda>c. (set_case_status Case_completed c)\<lparr>cs_completed := Some now\<rparr>) (write_package packageId None sha st) = Inr st1"
        by (auto simp: finish_package_def bindR_Inr_iff)
      from no_completion [OF this] show False using c o sent by simp
    qed
    then show ?thesis by (auto simp: recordPackage_def none is_ok_iff)
  qed
  then show ?thesis using o by (auto simp: open_or_closed_def)
qed

theorem case_never_completes_witness:
  "\<not> is_ok (recordPackage 1700000009000 ''package'' None ''sha'' ex_signed)"
  using case_never_completes [OF ex_signed_reached] by (simp add: ex_signed_def)

text \<open>C16. A signer who has been reminded never signs: the reminder revokes the unused invitation, and completing the
  signer would mark every unused invitation as used, which the trigger on revoked invitations refuses.\<close>

theorem reminded_signer_never_signs:
  assumes "reached c" "v \<in> set (ss_invitations (fst c))" "iv_revoked v \<noteq> None" "iv_used v = None"
    "flow\<^sup>*\<^sup>* c c'" "s \<in> set (ss_signers (fst c'))" "sg_id s = iv_signer v"
  shows "sg_status s \<noteq> Signer_signed"
proof
  assume signed: "sg_status s = Signer_signed"
  have "grows invitation_evolves (ss_invitations (fst c)) (ss_invitations (fst c'))"
    using flow_secure_star [OF assms(5)] by (simp add: secure_def evolves_def)
  from grows_in [OF this assms(2)] obtain v' where "v' \<in> set (ss_invitations (fst c'))" "invitation_evolves v v'" by blast
  then have "v \<in> set (ss_invitations (fst c'))" using assms(3) by (simp add: invitation_evolves_def)
  moreover have "invitations_used (fst c')" using reached_orderly [OF reached_star [OF assms(5,1)]] by (simp add: orderly_def)
  ultimately show False using assms(4,6,7) signed unfolding invitations_used_def by auto
qed

definition ex_remind :: "flow_state \<Rightarrow> flow_state outcome" where
  "ex_remind = step (handleReminder
     \<lparr>fr_intent = (\<lambda>s. s), fr_invitation = (\<lambda>s. ''rem-'' @ s), fr_token = (\<lambda>s. ''new-'' @ s),
      fr_message = (\<lambda>s. ''rem-'' @ s), fr_hash = (\<lambda>t. ''#'' @ t)\<rparr> 1700000000500)"

lemma ex_remind_flow: "is_flow ex_remind"
  unfolding ex_remind_def by (rule step_flow, erule op_handleReminder)

definition ex_reminded :: signing_state where
  "ex_reminded = ex_sent\<lparr>
     ss_invitations := [(hd (ss_invitations ex_sent))\<lparr>iv_revoked := Some 1700000000500\<rparr>,
       \<lparr>iv_id = ''rem-anna'', iv_signer = ''anna'', iv_token = ''#new-anna'', iv_expires = 1700604800500,
        iv_revoked = None, iv_used = None, iv_opened = None\<rparr>],
     ss_emails := ss_emails ex_sent @ [\<lparr>em_id = ''rem-anna'', em_signer = ''anna'', em_template = ''signature_reminder'',
        em_token = ''new-anna'', em_expires = 1700604800500\<rparr>],
     ss_jobs := ss_jobs ex_sent @ [(''EMAIL_SEND'', ''email:rem-anna'')],
     ss_log := ss_log ex_sent @ [Audit ''invitation.revoked'' ''anna'', Audit ''invitation.created'' ''anna'']\<rparr>"

lemma ex_remind_runs: "ex_remind (ex_sent, []) = Inr (ex_reminded, [])"
  by code_simp

lemma ex_reminded_signs:
  "map_sum id (\<lambda>c. map (\<lambda>s. (sg_id s, sg_status s)) (ss_signers (fst c)))
     (run (ex_identify ''rem-anna'' @ [hd ex_sign]) (ex_reminded, [])) = Inr [(''anna'', Signer_signing), (''bo'', Signer_pending)]"
  by code_simp

lemma ex_reminded_reached: "reached (ex_reminded, [])"
  by (rule reached_step [OF ex_sent_reached is_flowD [OF ex_remind_flow ex_remind_runs]])

theorem reminded_signer_never_signs_witness:
  "\<exists>c'. run (ex_identify ''rem-anna'' @ [hd ex_sign]) (ex_reminded, []) = Inr c' \<and>
     sg_id (hd (ss_signers (fst c'))) = ''anna'' \<and> sg_status (hd (ss_signers (fst c'))) \<noteq> Signer_signed"
proof -
  obtain c' where c': "run (ex_identify ''rem-anna'' @ [hd ex_sign]) (ex_reminded, []) = Inr c'"
    "map (\<lambda>s. (sg_id s, sg_status s)) (ss_signers (fst c')) = [(''anna'', Signer_signing), (''bo'', Signer_pending)]"
    using ex_reminded_signs by (cases "run (ex_identify ''rem-anna'' @ [hd ex_sign]) (ex_reminded, [])") simp_all
  then obtain s ss where s: "ss_signers (fst c') = s # ss" "sg_id s = ''anna''" by (cases "ss_signers (fst c')") simp_all
  have "list_all is_flow (ex_identify ''rem-anna'' @ [hd ex_sign])"
    using ex_sign_flow by (simp add: ex_steps_flow ex_sign_def)
  note f = run_flow [OF c'(1) this]
  let ?v = "hd (ss_invitations ex_reminded)"
  have "?v \<in> set (ss_invitations (fst (ex_reminded, [] :: start_input list)))" "iv_revoked ?v \<noteq> None" "iv_used ?v = None"
    "sg_id s = iv_signer ?v" "s \<in> set (ss_signers (fst c'))"
    using s by (simp_all add: ex_reminded_def ex_sent_def)
  from reminded_signer_never_signs [OF ex_reminded_reached this(1-3) f this(5,4)]
  show ?thesis using c'(1) s by (intro exI [of _ c']) simp
qed

text \<open>C37. A case never expires while a signer waits for a turn: the handler would move the waiting signer from
  \<open>pending\<close> to \<open>expired\<close>, which the table of \<open>signers\<close> does not allow, and the whole transaction is refused.\<close>

theorem expiry_refused_while_waiting:
  assumes "s \<in> set (ss_signers st)" "sg_status s = Signer_pending" "cs_status (ss_case st) \<notin> set closed_statuses"
  shows "\<not> is_ok (handleCaseExpire now st)"
proof -
  have "update_signers Worker (\<lambda>s. sg_status s \<notin> {Signer_signed, Signer_declined, Signer_cancelled, Signer_failed})
      (set_status Signer_expired) st1 \<noteq> Inr st2" if u: "update_case Worker (\<lambda>c. True) (set_case_status Case_expired) st = Inr st1" for st1 st2
  proof -
    have "s \<in> set (ss_signers st1)" using u assms(1) by (simp add: update_case_Inr_iff)
    moreover have "signer_trigger (Worker, st1) s (set_status Signer_expired s) \<noteq> Inr ()"
      using assms(2) by (simp add: signer_trigger_Inr_iff set_status_def)
    ultimately show ?thesis using assms(2) unfolding update_signers_Inr_iff by (intro notI, elim conjE) (drule (1) bspec, simp)
  qed
  then show ?thesis using assms(3) by (auto simp: handleCaseExpire_def is_ok_iff bindR_Inr_iff throw_def split: if_splits option.splits)
qed

theorem expiry_refused_while_waiting_witness:
  "\<not> is_ok (handleCaseExpire 1900000000000 (ex_sent\<lparr>ss_case := (ss_case ex_sent)\<lparr>cs_expires := Some 1800000000000\<rparr>\<rparr>))"
  by (rule expiry_refused_while_waiting [of "ss_signers ex_sent ! 1"]) (simp_all add: ex_sent_def closed_statuses_def)

lemma sends_ready: "sends st st' \<Longrightarrow> cs_status (ss_case st) = Case_ready"
  by (auto simp: sends_def sendable_def throw_def dest!: sendCase_writes(3) split: if_splits)

lemma sent_step:
  assumes "flow c c'" "cs_status (ss_case (fst c)) \<notin> unsent"
  shows "same_consents (fst c) (fst c') \<and> cs_status (ss_case (fst c')) \<notin> unsent"
proof
  have "evolves (fst c) (fst c')" using flow_secure [OF assms(1)] by (simp add: secure_def)
  then show "cs_status (ss_case (fst c')) \<notin> unsent" using assms(2) by (simp add: evolves_def case_evolves_def)
  show "same_consents (fst c) (fst c')" using assms
  proof (induction rule: flow.induct)
    case (flow_operation st st' pending)
    have "\<not> sends st st'"
      using flow_operation.prems sends_ready by (auto simp: unsent_def)
    then show ?case using operation_consents [OF flow_operation.hyps] by simp
  next
    case (flow_start s pending now reference st st')
    then show ?case by (simp add: calm_consents [OF calm.keepsD [OF calm_recordStart]])
  qed (simp add: consents.R_refl)
qed

lemma sent_flow:
  "flow\<^sup>*\<^sup>* c c' \<Longrightarrow> cs_status (ss_case (fst c)) \<notin> unsent \<Longrightarrow>
     same_consents (fst c) (fst c') \<and> cs_status (ss_case (fst c')) \<notin> unsent"
  by (induction rule: rtranclp_induct) (auto simp: consents.R_refl dest: sent_step intro: consents.R_trans)

text \<open>C21. A signer gets one session: once the intent of a signer is no longer \<open>prepared\<close> (a session was started, and
  has been cancelled, has expired or has failed), no later operation lets the signer start another.\<close>

theorem one_session_per_signer:
  assumes "cs_status (ss_case (fst c)) \<notin> unsent" "prepared_intent (fst c) sid = None" "flow\<^sup>*\<^sup>* c c'"
  shows "\<not> is_ok (loadStartInput now (invitation, sid) drawn (fst c'))"
proof -
  have all: "list_all2 intent_evolves (ss_intents (fst c)) (ss_intents (fst c'))"
    using sent_flow [OF assms(3,1)] by (simp add: same_consents_def)
  have "in_signer i' \<noteq> sid \<or> in_status i' \<noteq> Intent_prepared" if i': "i' \<in> set (ss_intents (fst c'))" for i'
  proof -
    obtain i where i: "i \<in> set (ss_intents (fst c))" "intent_evolves i i'" using list_all2_back [OF all i'] by blast
    have "in_signer i \<noteq> sid \<or> in_status i \<noteq> Intent_prepared" using assms(2) i(1) by (auto simp: prepared_intent_def find_None_iff)
    moreover have "in_status i' \<noteq> Intent_prepared" if n: "in_status i \<noteq> Intent_prepared"
    proof -
      have "intents.descends i i'" using i(2) by (simp add: intent_evolves_def)
      then show ?thesis
      proof (rule intents.descends_closed [where P = "\<lambda>t. t \<noteq> Intent_prepared", OF _ n])
        show "t \<noteq> Intent_prepared" if "t \<in> set (intent_moves u)" for t u using that by (cases u) auto
      qed
    qed
    ultimately show ?thesis using i(2) by (auto simp: intent_evolves_def)
  qed
  then have "prepared_intent (fst c') sid = None" by (auto simp: prepared_intent_def find_None_iff)
  then show ?thesis by (auto simp: loadStartInput_def is_ok_iff bindR_Inr_iff throw_def split: if_splits)
qed

definition ex_cancel :: "(flow_state \<Rightarrow> flow_state outcome) list" where
  "ex_cancel = [load 1700000001000 (''inv-anna'', ''anna'') (''session'', ''state''), start 1700000002000 ''reference'',
     step (\<lambda>st. recordCancel (hd (ss_identities st)) st)]"

lemma ex_cancel_runs:
  "map_sum id (\<lambda>c. (cs_status (ss_case (fst c)), map in_status (ss_intents (fst c)), prepared_intent (fst c) ''anna''))
     (run ex_cancel (ex_sent, [])) = Inr (Case_sent, [Intent_cancelled, Intent_prepared], None)"
  by code_simp

theorem one_session_per_signer_witness:
  "\<exists>c'. run ex_cancel (ex_sent, []) = Inr c' \<and> map in_status (ss_intents (fst c')) = [Intent_cancelled, Intent_prepared] \<and>
     \<not> is_ok (loadStartInput 1700000003000 (''inv-anna'', ''anna'') (''again'', ''state'') (fst c'))"
proof -
  obtain c' where c': "run ex_cancel (ex_sent, []) = Inr c'" "cs_status (ss_case (fst c')) = Case_sent"
    "map in_status (ss_intents (fst c')) = [Intent_cancelled, Intent_prepared]" "prepared_intent (fst c') ''anna'' = None"
    using ex_cancel_runs by (cases "run ex_cancel (ex_sent, [])") simp_all
  from one_session_per_signer [OF _ c'(4) rtranclp.rtrancl_refl] show ?thesis
    using c'(1-3) by (intro exI [of _ c']) (simp add: unsent_def)
qed

lemma consents_agree:
  "documented st \<Longrightarrow> i \<in> set (ss_intents st) \<Longrightarrow> j \<in> set (ss_intents st) \<Longrightarrow> in_documents j = in_documents i"
  unfolding documented_def one_consent_def by (elim conjE exE) simp

lemma consent_distinct: "documented st \<Longrightarrow> i \<in> set (ss_intents st) \<Longrightarrow> distinct (map id_version (in_documents i))"
  unfolding documented_def one_consent_def by (elim conjE exE) simp

lemma attempt_names_first_document:
  assumes "reached (st, pending)" "r \<in> set (ss_attempts st)" "i \<in> set (ss_intents st)"
  shows "first_document i = Some (at_version r)"
proof -
  have l: "linked (st, pending)" and d: "documented st" using reached_linked [OF assms(1)] reached_documented [OF assms(1)] by simp_all
  obtain t where t: "t \<in> set (ss_identities st)" "it_version t = at_version r"
    using l assms(2) unfolding linked_def fst_conv by blast
  have "starts (ss_intents st) (it_intent t) (it_signer t) (it_version t)" using l t(1) by (simp add: linked_def)
  then obtain j where j: "j \<in> set (ss_intents st)" "first_document j = Some (it_version t)" unfolding starts_def by blast
  have "in_documents j = in_documents i" by (rule consents_agree [OF d assms(3) j(1)])
  then show ?thesis using j(2) t(2) by (simp add: first_document_def)
qed

text \<open>C23. A case with two documents to sign is never signed: a session names the first document only, an attempt must
  name the document of a session of its signer, and a signed signer needs a validated attempt for each document.\<close>

theorem several_documents_never_signed:
  assumes "reached (st, pending)" "cs_mode (ss_case st) = ELECTRONIC_SIGNATURE"
    "i \<in> set (ss_intents st)" "length (signables i) \<ge> 2" "s \<in> set (ss_signers st)" "sg_id s = in_signer i"
  shows "sg_status s \<noteq> Signer_signed"
proof
  assume "sg_status s = Signer_signed"
  then have "signer_evidence st (sg_id s)" using reached_signed [OF assms(1)] assms(5) by (simp add: signed_with_evidence_def)
  then obtain j where j: "j \<in> set (ss_intents st)" "\<forall>d \<in> set (signables j). validated_signature st (sg_id s) (id_version d)"
    using assms(2) unfolding signer_evidence_def by blast
  have doc: "documented st" using reached_documented [OF assms(1)] by simp
  have "signables j = signables i" using consents_agree [OF doc assms(3) j(1)] by (simp add: signables_def)
  moreover obtain d e ds where de: "signables i = d # e # ds" using assms(4) by (cases "signables i"; cases "tl (signables i)") auto
  ultimately have v: "validated_signature st (sg_id s) (id_version d)" "validated_signature st (sg_id s) (id_version e)"
    using j(2) by simp_all
  obtain r q where r: "r \<in> set (ss_attempts st)" "at_version r = id_version d" and q: "q \<in> set (ss_attempts st)" "at_version q = id_version e"
    using validated_attempt [OF v(1)] validated_attempt [OF v(2)] by blast
  have "id_version d = id_version e"
    using attempt_names_first_document [OF assms(1) r(1) assms(3)] attempt_names_first_document [OF assms(1) q(1) assms(3)] r(2) q(2)
    by simp
  moreover have "distinct (map id_version (signables i))"
    using consent_distinct [OF doc assms(3)] unfolding signables_def by (rule distinct_map_filter)
  ultimately show False by (simp add: de)
qed

lemma ex_two_documents:
  "map_sum id (\<lambda>c. (cs_mode (ss_case (fst c)), map (\<lambda>i. (in_signer i, length (signables i))) (ss_intents (fst c)),
       map (\<lambda>s. (sg_id s, sg_status s)) (ss_signers (fst c))))
     (ex_case ex_policy [''v1'', ''v2'']) = Inr (ELECTRONIC_SIGNATURE, [(''anna'', 2)], [(''anna'', Signer_invited)])"
  by code_simp

theorem several_documents_never_signed_witness:
  "\<exists>c. ex_case ex_policy [''v1'', ''v2''] = Inr c \<and> sg_status (hd (ss_signers (fst c))) \<noteq> Signer_signed"
proof -
  obtain st p where c: "ex_case ex_policy [''v1'', ''v2''] = Inr (st, p)" "cs_mode (ss_case st) = ELECTRONIC_SIGNATURE"
    "map (\<lambda>i. (in_signer i, length (signables i))) (ss_intents st) = [(''anna'', 2)]"
    "map (\<lambda>s. (sg_id s, sg_status s)) (ss_signers st) = [(''anna'', Signer_invited)]"
    using ex_two_documents by (cases "ex_case ex_policy [''v1'', ''v2'']") auto
  then obtain i s where "ss_intents st = [i]" "in_signer i = ''anna''" "length (signables i) = 2" "ss_signers st = [s]" "sg_id s = ''anna''"
    by (cases "ss_intents st"; cases "ss_signers st") auto
  with several_documents_never_signed [OF ex_case_reached [OF c(1)] c(2), of i s] show ?thesis
    using c(1) by (intro exI [of _ "(st, p)"]) simp
qed

text \<open>C35. A policy that asks for more than PAdES-B is never satisfied: no code writes a time-stamp token, so every
  artifact is of level B, and no signer of such a case becomes \<open>signed\<close>.\<close>

theorem higher_levels_never_signed:
  assumes "reached (st, pending)" "cs_mode (ss_case st) = ELECTRONIC_SIGNATURE"
    "required_rank (cs_policy (ss_case st)) \<notin> {Some 0, Some 1}" "s \<in> set (ss_signers st)"
  shows "sg_status s \<noteq> Signer_signed"
proof
  assume "sg_status s = Signer_signed"
  then have "signer_evidence st (sg_id s)" using reached_signed [OF assms(1)] assms(4) by (simp add: signed_with_evidence_def)
  then obtain j where j: "signables j \<noteq> []" "\<forall>d \<in> set (signables j). validated_signature st (sg_id s) (id_version d)"
    using assms(2) unfolding signer_evidence_def by blast
  then have "validated_signature st (sg_id s) (id_version (hd (signables j)))" by simp
  then obtain ar where ar: "ar \<in> set (ss_artifacts st)" "rank_reached (cs_policy (ss_case st)) (ar_format ar)"
    unfolding validated_signature_def list_ex_iff by blast
  have "ar_format ar = B" using reached_linked [OF assms(1)] ar(1) by (simp add: linked_def)
  then show False using ar(2) assms(3)
    by (auto simp: rank_reached_def le_Suc_eq split: option.splits)
qed

lemma ex_level_T:
  "map_sum id (\<lambda>c. (cs_mode (ss_case (fst c)), required_rank (cs_policy (ss_case (fst c))), length (ss_signers (fst c)),
       map in_status (ss_intents (fst c))))
     (ex_case (ex_policy\<lparr>ps_requiredPadesLevel := Some (JStr ''T'')\<rparr>) [''v1'']) =
   Inr (ELECTRONIC_SIGNATURE, Some 2, 1, [Intent_prepared])"
  by code_simp

theorem higher_levels_never_signed_witness:
  "\<exists>c. ex_case (ex_policy\<lparr>ps_requiredPadesLevel := Some (JStr ''T'')\<rparr>) [''v1''] = Inr c \<and>
     sg_status (hd (ss_signers (fst c))) \<noteq> Signer_signed"
proof -
  let ?m = "ex_case (ex_policy\<lparr>ps_requiredPadesLevel := Some (JStr ''T'')\<rparr>) [''v1'']"
  obtain st p where c: "?m = Inr (st, p)" "cs_mode (ss_case st) = ELECTRONIC_SIGNATURE" "length (ss_signers st) = 1"
    "required_rank (cs_policy (ss_case st)) = Some 2"
    using ex_level_T by (cases ?m) auto
  then have "hd (ss_signers st) \<in> set (ss_signers st)" by (intro hd_in_set) auto
  from higher_levels_never_signed [OF ex_case_reached [OF c(1)] c(2) _ this] show ?thesis
    using c(1,4) by (intro exI [of _ "(st, p)"]) simp
qed

text \<open>C40. Cancelling a case closes no invitation and stops no session: afterwards the same links open, the same
  sessions start, and the triggers let their signers sign.\<close>

theorem cancelled_case_still_opens:
  assumes "cancelCase a now v st = Inr st'"
  shows "resolveInvitation safe fr later token st' = resolveInvitation safe fr later token st \<and>
    loadStartInput later iv drawn st' = loadStartInput later iv drawn st \<and>
    (\<forall>s s'. signer_trigger (b, st') s s' = signer_trigger (b, st) s s')"
proof -
  obtain c where st': "st' = log_entries [Outbox ''signature_case.cancelled'' []] (st\<lparr>ss_case := c\<rparr>)"
    and c: "cs_mode c = cs_mode (ss_case st)" "cs_policy c = cs_policy (ss_case st)"
    using assms by (auto simp: cancelCase_def transitionCase_def bindR_Inr_iff throw_def update_case_Inr_iff set_case_status_def split: if_splits)
  have v: "validated_signature st' = validated_signature st"
    by (intro ext) (simp add: validated_signature_def st' c log_entries_def)
  have "signer_trigger (b, st') s s' = signer_trigger (b, st) s s'" for s s'
    unfolding signer_trigger_def bankid_terminal_evidence_def signer_signature_evidence_def snd_conv v
    by (simp add: st' c log_entries_def consented_intent_def)
  moreover have "loadStartInput later iv drawn st' = loadStartInput later iv drawn st"
    by (simp add: loadStartInput_def validInvitation_def signing_turn_blocked_def prepared_intent_def st' log_entries_def)
  ultimately show ?thesis by (simp add: resolveInvitation_def st')
qed

theorem cancelled_case_still_opens_witness:
  "\<exists>st'. cancelCase Internal_user 1700000000100 None ex_sent = Inr st' \<and>
     is_ok (loadStartInput 1700000001000 (''inv-anna'', ''anna'') (''session'', ''state'') st')"
proof -
  have "is_ok (cancelCase Internal_user 1700000000100 None ex_sent)" by code_simp
  then obtain st' where c: "cancelCase Internal_user 1700000000100 None ex_sent = Inr st'" by (auto simp: is_ok_iff)
  have "is_ok (loadStartInput 1700000001000 (''inv-anna'', ''anna'') (''session'', ''state'') ex_sent)" by code_simp
  then show ?thesis using cancelled_case_still_opens [OF c] c by (intro exI [of _ st']) simp
qed

text \<open>The same history as before, of a case that was cancelled in the meantime: Anna signs.\<close>

lemma cancelled_case_signed:
  "map_sum id (\<lambda>c. (cs_status (ss_case (fst c)), map sg_status (ss_signers (fst c))))
     (run (step (cancelCase Internal_user 1700000000100 None) # ex_identify ''inv-anna'' @ ex_sign) (ex_sent, [])) =
   Inr (Case_cancelled, [Signer_signed, Signer_invited])"
  by code_simp

lemma activate_one_writes:
  "activate_one a fr p st = Inr st' \<Longrightarrow> ss_intents st' = ss_intents st \<and>
     ss_invitations st' = ss_invitations st @
       [\<lparr>iv_id = fr_invitation fr (sg_id (fst p)), iv_signer = sg_id (fst p), iv_token = fr_hash fr (fr_token fr (sg_id (fst p))),
         iv_expires = in_expires (snd p), iv_revoked = None, iv_used = None, iv_opened = None\<rparr>]"
  by (auto simp: activate_one_def bindR_Inr_iff update_signers_Inr_iff)

lemma activate_invitations:
  assumes "activateNextSigningGroup a fr st = Inr st'" "v \<in> set (ss_invitations st')" "v \<notin> set (ss_invitations st)"
  shows "\<exists>i \<in> set (ss_intents st). iv_expires v = in_expires i"
proof -
  let ?P = "\<lambda>cur. \<forall>v \<in> set (ss_invitations cur). v \<in> set (ss_invitations st) \<or> (\<exists>i \<in> set (ss_intents st). iv_expires v = in_expires i)"
  have "?P st'"
  proof (cases "map sg_order (pending_turn st)")
    case (Cons g gs)
    let ?xs = "concat (map (\<lambda>s. map (\<lambda>i. (s, i)) (filter (\<lambda>i. in_signer i = sg_id s) (ss_intents st)))
                  (filter (\<lambda>s. sg_order s = Min (set (g # gs)) \<and> sg_status s = Signer_pending) (ss_signers st)))"
    have "st' = st \<or> each_row (activate_one a fr) ?xs st = Inr st'"
      using assms(1) unfolding activateNextSigningGroup_def Cons list.case Let_def by (simp split: if_splits)
    moreover have "?P st'" if "each_row (activate_one a fr) ?xs st = Inr st'"
    proof (rule each_row_preserves [OF that, where P = ?P])
      fix p cur cur' assume p: "p \<in> set ?xs" and s: "activate_one a fr p cur = Inr cur'" and inv: "?P cur"
      have "snd p \<in> set (ss_intents st)" using p by auto
      then show "?P cur'" using inv activate_one_writes [OF s] by (intro ballI) (auto dest: bspec)
    qed simp
    ultimately show ?thesis by auto
  qed (use assms(1) in \<open>simp add: activateNextSigningGroup_def\<close>)
  then show ?thesis using assms(2,3) by blast
qed

lemma complete_signer_activates:
  assumes "complete_signer fr now intent signer st = Inr st'"
  shows "\<exists>st3. map in_expires (ss_intents st3) = map in_expires (ss_intents st) \<and>
    map iv_id (ss_invitations st3) = map iv_id (ss_invitations st) \<and>
    (\<exists>st4. activateNextSigningGroup Trusted_service fr st3 = Inr st4 \<and> ss_invitations st' = ss_invitations st4)"
proof -
  obtain st1 st2 st3 st4 where
    1: "update_signers Trusted_service (\<lambda>s. sg_id s = signer \<and> sg_status s = Signer_signing) (set_status Signer_signed) st = Inr st1"
    and 2: "update_intents (\<lambda>r. in_id r = intent \<and> in_status r = Intent_verified) (set_intent Intent_packaged) st1 = Inr st2"
    and 3: "update_invitations (\<lambda>v. iv_signer v = signer \<and> iv_used v = None) (\<lambda>v. v\<lparr>iv_used := Some now\<rparr>) st2 = Inr st3"
    and 4: "activateNextSigningGroup Trusted_service fr
              (log_entries [Audit ''signer.signed'' signer, Outbox ''signer.signed'' signer]
                (enqueue_job ''EVIDENCE_PACKAGE_BUILD'' (''signer-package:'' @ signer) st3)) = Inr st4"
    and st': "ss_invitations st' = ss_invitations st4"
    using assms by (auto simp: complete_signer_def bindR_Inr_iff)
  have "map in_expires (ss_intents st3) = map in_expires (ss_intents st)"
    "map iv_id (ss_invitations st3) = map iv_id (ss_invitations st)"
    using 1 2 3 by (auto simp: updates_Inr_iff set_intent_def)
  then show ?thesis using 4 st' by (intro exI conjI) auto
qed

lemma report_invitations:
  assumes r: "recordPadesReport fr now sha level intent attempt signer artifact r st = Inr st'"
    and v: "v \<in> set (ss_invitations st')" "iv_id v \<notin> iv_id ` set (ss_invitations st)"
  shows "\<exists>i \<in> set (ss_intents st). iv_expires v = in_expires i"
proof -
  let ?st1 = "st\<lparr>ss_runs := ss_runs st @ [\<lparr>rn_artifact = ar_id artifact, rn_indication = pr_indication r,
      rn_trust_list = False, rn_report = sha\<rparr>]\<rparr>"
  have same: "False" if c: "calm ?st1 st'"
  proof -
    have "list_all2 invitation_evolves (ss_invitations st) (ss_invitations st')" using c by (simp add: calm_def)
    from list_all2_back [OF this v(1)] obtain w where "w \<in> set (ss_invitations st)" "invitation_evolves w v" by blast
    then show False using v(2) by (simp add: invitation_evolves_def image_iff) metis
  qed
  have "\<not> reject_signature attempt (ar_id artifact) signer event ?st1 = Inr st'" for event
    using same calm.keepsD [OF calm_reject_signature] by blast
  then have adm: "admit_signature fr now intent attempt signer artifact ?st1 = Inr st'"
    using r by (auto simp: recordPadesReport_def Let_def split: if_splits sum.splits)
  then obtain st2 where 2: "update_attempts Trusted_service (\<lambda>r. at_id r = attempt) (set_attempt Attempt_validated) ?st1 = Inr st2"
      and rest: "(if outstanding intent signer (log_entries [Audit ''signature.pades_admitted'' (ar_id artifact)] st2)
                  then Inr (log_entries [Audit ''signature.pades_admitted'' (ar_id artifact)] st2)
                  else complete_signer fr now intent signer (log_entries [Audit ''signature.pades_admitted'' (ar_id artifact)] st2)) = Inr st'"
    by (auto simp: admit_signature_def Let_def bindR_Inr_iff)
  have "\<not> st' = log_entries [Audit ''signature.pades_admitted'' (ar_id artifact)] st2"
    using same calm_update_attempts [OF 2] by auto
  then have com: "complete_signer fr now intent signer (log_entries [Audit ''signature.pades_admitted'' (ar_id artifact)] st2) = Inr st'"
    using rest by (auto split: if_splits)
  have base: "map in_expires (ss_intents st2) = map in_expires (ss_intents st)" "ss_invitations st2 = ss_invitations st"
    using 2 by (simp_all add: update_attempts_Inr_iff)
  obtain st3 st4 where i3: "map in_expires (ss_intents st3) = map in_expires (ss_intents st)"
    "map iv_id (ss_invitations st3) = map iv_id (ss_invitations st)"
    and 4: "activateNextSigningGroup Trusted_service fr st3 = Inr st4" and st': "ss_invitations st' = ss_invitations st4"
    using complete_signer_activates [OF com] base by auto
  have "v \<notin> set (ss_invitations st3)"
  proof
    assume "v \<in> set (ss_invitations st3)"
    then have "iv_id v \<in> set (map iv_id (ss_invitations st3))" by simp
    then show False unfolding i3(2) using v(2) by simp
  qed
  from activate_invitations [OF 4 _ this] have "\<exists>i \<in> set (ss_intents st3). iv_expires v = in_expires i" using v(1) st' by simp
  then have "iv_expires v \<in> set (map in_expires (ss_intents st3))" by auto
  then show ?thesis unfolding i3(1) by auto
qed

lemma send_one_case: "send_one a fr e g docs x st = Inr st' \<Longrightarrow> ss_case st' = ss_case st"
  by (auto simp: send_one_def Let_def bindR_Inr_iff update_signers_Inr_iff split: if_splits)

lemma sendCase_status:
  assumes "sendCase a fr now v st = Inr st'"
  shows "cs_status (ss_case st') = Case_sent"
proof -
  obtain st1 st2 where b: "before_send a fr now st = Inr st1"
    and u: "update_case a (\<lambda>c. cs_version c = cs_version (ss_case st))
              (\<lambda>c. (set_case_status Case_sent c)\<lparr>cs_sent := if cs_sent c = None then Some now else cs_sent c\<rparr>) st1 = Inr st2"
    and st': "ss_case st' = ss_case st2"
    using assms by (auto simp: sendCase_def transitionCase_def bindR_Inr_iff throw_def split: if_splits)
  obtain st0 st9 where 1: "update_documents a (\<lambda>d. dc_status d = Doc_ready) (\<lambda>d. d\<lparr>dc_status := Doc_locked, dc_locked := Some now\<rparr>) st = Inr st0"
    and 2: "each_row (send_one a fr (now + 3600000) (Min (set (map sg_order (ss_signers st)))) (snapshots st))
              (sort_key sg_order (sort_key sg_id (ss_signers st))) st0 = Inr st9" and 3: "ss_case st1 = ss_case st9"
    using b by (auto simp: before_send_def bindR_Inr_iff)
  have "ss_case st9 = ss_case st"
    by (rule each_row_preserves [OF 2, where P = "\<lambda>s. ss_case s = ss_case st"])
      (use 1 in \<open>simp_all add: update_documents_Inr_iff send_one_case\<close>)
  then show ?thesis using u by (simp add: update_case_Inr_iff st' 3 set_case_status_def)
qed

text \<open>The invitation of a later group expires with the first: whenever a signature opens the turn of the next
  group, the links that it sends end one hour after the case was sent, however late that is.\<close>

theorem later_groups_expire_with_the_first:
  assumes "reached (st, pending)" "sendCase a fr t ver st = Inr st1" "flow\<^sup>*\<^sup>* (st1, pending) (st2, pending2)"
    "recordPadesReport fr2 now sha level intent attempt signer artifact r st2 = Inr st3"
    "v \<in> set (ss_invitations st3)" "iv_id v \<notin> iv_id ` set (ss_invitations st2)"
  shows "iv_expires v = t + 3600000"
proof -
  have o: "orderly st" using reached_orderly [OF assms(1)] by simp
  have ready: "cs_status (ss_case st) = Case_ready" using assms(2) by (intro sends_ready [of _ st1]) (auto simp: sends_def)
  then have "ss_intents st = []" using o by (simp add: orderly_def untouched_def unsent_def)
  then have e1: "in_expires i = t + 3600000" if "i \<in> set (ss_intents st1)" for i
    using that by (auto simp: sendCase_writes(1) [OF assms(2)] consent_of_def)
  have "same_consents st1 st2" using sent_flow [OF assms(3)] sendCase_status [OF assms(2)] by (simp add: unsent_def)
  moreover obtain i where i: "i \<in> set (ss_intents st2)" "iv_expires v = in_expires i"
    using report_invitations [OF assms(4-6)] by blast
  ultimately show ?thesis using e1 by (auto elim: consents_documents)
qed

lemma run_append: "run (fs @ gs) c = bindR (run fs c) (run gs)"
proof (induction fs arbitrary: c)
  case (Cons f fs)
  then show ?case by (cases "f c") simp_all
qed simp

lemma run_split: "run (fs @ [f]) c = Inr c' \<Longrightarrow> \<exists>d. run fs c = Inr d \<and> f d = Inr c'"
  unfolding run_append bindR_Inr_iff by (auto simp: bindR_Inr_iff)

lemma ex_created_invitations:
  "map_sum id (\<lambda>c. map iv_id (ss_invitations (fst c))) (run (ex_identify ''inv-anna'' @ [hd ex_sign]) (ex_sent, [])) = Inr [''inv-anna'']"
  by code_simp

theorem later_groups_expire_with_the_first_witness:
  "iv_signer (ss_invitations ex_signed ! 1) = ''bo'' \<and> iv_expires (ss_invitations ex_signed ! 1) = 1700000000000 + 3600000"
proof -
  let ?prep = "ex_signer ''anna'' 1 # ex_signer ''bo'' 2 # ex_document ''v1''"
  obtain c0 where c0: "ex_new ex_policy = Inr c0" "run (?prep @ [ex_send]) c0 = Inr (ex_sent, [])"
    using ex_prepare_runs by (auto simp: bindR_Inr_iff ex_prepare_def)
  obtain st pending where pre: "run ?prep c0 = Inr (st, pending)" and send: "ex_send (st, pending) = Inr (ex_sent, [])"
    using run_split [OF c0(2)] by auto
  have reach: "reached (st, pending)"
    by (rule reached_star [OF run_flow [OF pre] ex_new_reached [OF c0(1)]]) (simp add: ex_steps_flow)
  have sent: "sendCase Internal_user ex_fresh 1700000000000 None st = Inr ex_sent" "pending = []"
    using send by (auto simp: ex_send_def step_def bindR_Inr_iff)
  have "ex_identify ''inv-anna'' @ ex_sign = (ex_identify ''inv-anna'' @ [hd ex_sign]) @ [last ex_sign]" by (simp add: ex_sign_def)
  then obtain st2 pending2 where create: "run (ex_identify ''inv-anna'' @ [hd ex_sign]) (ex_sent, []) = Inr (st2, pending2)"
    and last: "last ex_sign (st2, pending2) = Inr (ex_signed, [ex_session])"
    using run_split [of _ "last ex_sign"] ex_sign_runs by (metis surj_pair)
  have f: "flow\<^sup>*\<^sup>* (ex_sent, []) (st2, pending2)"
    by (rule run_flow [OF create]) (use ex_sign_flow in \<open>simp add: ex_steps_flow ex_sign_def\<close>)
  have report: "recordPadesReport ex_fresh 1700000005000 ''report'' (Some B) ''int-anna'' ''attempt'' ''anna''
           (hd (ss_artifacts st2)) ex_pades st2 = Inr ex_signed"
    using last by (auto simp: ex_sign_def step_def bindR_Inr_iff)
  have ids: "map iv_id (ss_invitations st2) = [''inv-anna'']" using ex_created_invitations by (simp add: create)
  have "set (map iv_id (ss_invitations st2)) = {''inv-anna''}" by (simp only: ids) simp
  then have "iv_id (ss_invitations ex_signed ! 1) \<notin> iv_id ` set (ss_invitations st2)" by (simp add: ex_signed_def)
  moreover have "ss_invitations ex_signed ! 1 \<in> set (ss_invitations ex_signed)" by (simp add: ex_signed_def)
  ultimately have "iv_expires (ss_invitations ex_signed ! 1) = 1700000000000 + 3600000"
    using later_groups_expire_with_the_first [OF reach sent(1) _ report] f sent(2) by blast
  moreover have "iv_signer (ss_invitations ex_signed ! 1) = ''bo''" by (simp add: ex_signed_def)
  ultimately show ?thesis by blast
qed

section \<open>One turn of the signing loop\<close>

lemma putObject_stores:
  "putObject sha k b store = Inr store' \<Longrightarrow>
     (\<exists>b'. store' k = Some b' \<and> sha b' = sha b) \<and> (\<forall>k' x. store k' = Some x \<longrightarrow> store' k' = Some x)"
  by (auto simp: putObject_def throw_def split: option.splits if_splits)

lemma put_signature_stores:
  assumes "put_signature w path revised certificate chain store = Inr store'"
  shows "\<exists>b. store' (path @ ''/signed.pdf'') = Some b \<and> pw_sha w b = pw_sha w revised"
proof -
  obtain s1 s2 s3 where 1: "putObject (pw_sha w) (path @ ''/signed.pdf'') revised store = Inr s1"
    and 2: "putObject (pw_sha w) (path @ ''/signing-certificate.der'') certificate s1 = Inr s2"
    and 3: "putObject (pw_sha w) (path @ ''/certificate-chain.p7b'') chain s2 = Inr s3"
    and 4: "putObject (pw_sha w) (path @ ''/signature-value.p7s'') revised s3 = Inr store'"
    using assms by (auto simp: put_signature_def bindR_Inr_iff)
  show ?thesis using putObject_stores [OF 1] putObject_stores [OF 2] putObject_stores [OF 3] putObject_stores [OF 4] by blast
qed

lemma loadLatestRevision_sha: "loadLatestRevision w d s = Inr (input, h) \<Longrightarrow> h = pw_sha w input"
  by (auto simp: loadLatestRevision_def bindR_Inr_iff split: option.splits if_splits)

lemma accept_signed_prefix: "accept_signed sha input sa = Inr revised \<Longrightarrow> isPrefix input revised"
  by (auto simp: accept_signed_def split: option.splits if_splits)

definition revision_path :: "pades_world \<Rightarrow> intent_row \<Rightarrow> intent_document \<Rightarrow> signing_state \<Rightarrow> string" where
  "revision_path w i d st =
     signature_path w (case find (\<lambda>v. dc_version v = id_version d) (ss_documents st) of None \<Rightarrow> [] | Some v \<Rightarrow> dc_id v)
       (id_version d) (in_signer i)"

lemma create_one_cases:
  assumes "create_one w service i t level d s = (s', Inr ())" "\<not> already_signed (in_signer i) (id_version d) (fst s)"
  obtains input revised sa certificate where "loadLatestRevision w d s = Inr (input, pw_sha w input)"
    "accept_signed (pw_sha w) input sa = Inr revised"
    "put_signature w (revision_path w i d (fst s)) revised certificate (sa_chain sa) (snd s) = Inr (snd s')"
    "recordSignature (pw_attempt w (id_version d)) (pw_artifact w (id_version d)) (in_signer i) t d level
       (revision_path w i d (fst s)) (pw_sha w revised) (pw_sha w input) (fst s) = Inr (fst s')"
proof -
  obtain input h where l: "loadLatestRevision w d s = Inr (input, h)"
    using assms by (auto simp: create_one_def split: sum.splits)
  have h: "h = pw_sha w input" by (rule loadLatestRevision_sha [OF l])
  show thesis using assms that unfolding create_one_def l h revision_path_def [symmetric] Let_def
    by (auto split: sum.splits option.splits)
qed

definition ex_world :: pades_world where
  "ex_world = \<lparr>pw_tenant = ''t'', pw_case = ''c'', pw_sha = (\<lambda>b. if b = [1] then ''sha'' else if b = [9] then ''lost'' else ''signed''),
     pw_signservice = None, pw_attempt = (\<lambda>v. ''attempt''), pw_artifact = (\<lambda>v. ''artifact'')\<rparr>"

definition ex_service :: "sign_request \<Rightarrow> (sign_failure, signed_artifact) result" where
  "ex_service q = Inr \<lparr>sa_document = Some [1, 2], sa_sha = ''signed'', sa_certificate = Some [3], sa_chain = [4]\<rparr>"

definition ex_create :: "store \<Rightarrow> signing_state \<Rightarrow> (signing_state \<times> store) \<times> unit outcome" where
  "ex_create store st =
     create_one ex_world ex_service (hd (ss_intents st)) (hd (ss_identities st)) B (hd (in_documents (hd (ss_intents st)))) (st, store)"

definition ex_store :: store where
  "ex_store = [''canonical'' \<mapsto> [1]]"

lemma ex_create_runs:
  "map_sum id (\<lambda>c. (snd (ex_create ex_store (fst c)), already_signed ''anna'' ''v1'' (fst c), in_signer (hd (ss_intents (fst c))),
       id_version (hd (in_documents (hd (ss_intents (fst c))))), map ar_sha (ss_artifacts (fst c)),
       map (\<lambda>ar. (ar_sha ar, ar_input ar)) (ss_artifacts (fst (fst (ex_create ex_store (fst c)))))))
     (run (ex_identify ''inv-anna'') (ex_sent, [])) = Inr (Inr (), False, ''anna'', ''v1'', [], [(''signed'', ''sha'')])"
  by code_simp

text \<open>What the two properties below are applied to: Anna's turn to sign.\<close>

lemma ex_turn:
  obtains st p where "run (ex_identify ''inv-anna'') (ex_sent, []) = Inr (st, p)" "snd (ex_create ex_store st) = Inr ()"
    "\<not> already_signed (in_signer (hd (ss_intents st))) (id_version (hd (in_documents (hd (ss_intents st))))) st"
    "map (\<lambda>ar. (ar_sha ar, ar_input ar)) (ss_artifacts (fst (fst (ex_create ex_store st)))) = [(''signed'', ''sha'')]"
proof (cases "run (ex_identify ''inv-anna'') (ex_sent, [])")
  case (Inr c)
  then show thesis using ex_create_runs that [of "fst c" "snd c"] by simp
qed (use ex_create_runs in simp)

text \<open>C29. Signing extends the newest revision: when a turn of the loop succeeds and writes a signature, the bytes in the
  store are an extension of the newest revision that was loaded, and the artifact row names both digests.\<close>

theorem signature_extends_latest_revision:
  assumes "create_one w service i t level d s = (s', Inr ())" "\<not> already_signed (in_signer i) (id_version d) (fst s)"
  shows "\<exists>input revised b ar. loadLatestRevision w d s = Inr (input, pw_sha w input) \<and> isPrefix input revised \<and>
    ss_artifacts (fst s') = ss_artifacts (fst s) @ [ar] \<and> ar_input ar = pw_sha w input \<and> ar_sha ar = pw_sha w revised \<and>
    snd s' (ar_key ar) = Some b \<and> pw_sha w b = pw_sha w revised"
proof (rule create_one_cases [OF assms])
  fix input revised sa certificate
  assume l: "loadLatestRevision w d s = Inr (input, pw_sha w input)" and a: "accept_signed (pw_sha w) input sa = Inr revised"
    and p: "put_signature w (revision_path w i d (fst s)) revised certificate (sa_chain sa) (snd s) = Inr (snd s')"
    and r: "recordSignature (pw_attempt w (id_version d)) (pw_artifact w (id_version d)) (in_signer i) t d level
       (revision_path w i d (fst s)) (pw_sha w revised) (pw_sha w input) (fst s) = Inr (fst s')"
  obtain b where b: "snd s' (revision_path w i d (fst s) @ ''/signed.pdf'') = Some b" "pw_sha w b = pw_sha w revised"
    using put_signature_stores [OF p] by blast
  show ?thesis using l accept_signed_prefix [OF a] recordSignature_writes [OF r] b
    by (intro exI [of _ input] exI [of _ revised] exI [of _ b] exI conjI) (assumption | simp)+
qed

theorem signature_extends_latest_revision_witness:
  "\<exists>st p s' input. run (ex_identify ''inv-anna'') (ex_sent, []) = Inr (st, p) \<and> ex_create ex_store st = (s', Inr ()) \<and>
     map (\<lambda>ar. (ar_sha ar, ar_input ar)) (ss_artifacts (fst s')) = [(''signed'', ''sha'')] \<and> pw_sha ex_world input = ''sha''"
proof (rule ex_turn)
  fix st p
  assume st: "run (ex_identify ''inv-anna'') (ex_sent, []) = Inr (st, p)" "snd (ex_create ex_store st) = Inr ()"
    "\<not> already_signed (in_signer (hd (ss_intents st))) (id_version (hd (in_documents (hd (ss_intents st))))) st"
    "map (\<lambda>ar. (ar_sha ar, ar_input ar)) (ss_artifacts (fst (fst (ex_create ex_store st)))) = [(''signed'', ''sha'')]"
  obtain s' where s': "ex_create ex_store st = (s', Inr ())" using st(2) by (cases "ex_create ex_store st") auto
  have "\<exists>input ar. pw_sha ex_world input = ar_input ar \<and> ar \<in> set (ss_artifacts (fst s'))"
    using signature_extends_latest_revision [OF s' [unfolded ex_create_def], unfolded fst_conv, OF st(3)]
    by (elim exE conjE, intro exI conjI) (erule sym, simp)
  moreover have "ar_input ar = ''sha''" if "ar \<in> set (ss_artifacts (fst s'))" for ar
  proof -
    have "(ar_sha ar, ar_input ar) \<in> set (map (\<lambda>ar. (ar_sha ar, ar_input ar)) (ss_artifacts (fst s')))" using that by auto
    then show ?thesis unfolding st(4) [unfolded s' fst_conv] by simp
  qed
  ultimately show ?thesis using st(1,4) s' by (metis fst_conv)
qed

text \<open>C30. A lost race is final: the objects of a signature are written before its rows, under a key of document and signer,
  and are immutable. When the rows are refused because another signature came first, the retry signs a newer revision,
  of which the stored bytes are no extension; no answer of the service can succeed, and nothing changes any more.\<close>

theorem lost_signature_race_is_final:
  assumes "\<not> already_signed (in_signer i) (id_version d) (fst s)"
    "loadLatestRevision w d s = Inr (input, h)"
    "snd s (revision_path w i d (fst s) @ ''/signed.pdf'') = Some stored" "\<not> isPrefix input stored"
    "\<And>x. pw_sha w x = pw_sha w stored \<Longrightarrow> x = stored"
  shows "fst (create_one w service i t level d s) = s \<and> snd (create_one w service i t level d s) \<noteq> Inr ()"
proof -
  have put: "put_signature w (revision_path w i d (fst s)) revised certificate chain (snd s) = throw ''STORAGE_OBJECT_ALREADY_EXISTS''"
    if "isPrefix input revised" for revised certificate chain
  proof -
    have "pw_sha w stored \<noteq> pw_sha w revised" using assms(4,5) that by metis
    then show ?thesis using assms(3) by (simp add: put_signature_def putObject_def throw_def)
  qed
  show ?thesis
    using assms(1,2) put accept_signed_prefix unfolding create_one_def revision_path_def [symmetric] Let_def
    by (auto simp: throw_def split: sum.splits option.splits)
qed

lemma ex_race_runs:
  "map_sum id (\<lambda>c. (already_signed (in_signer (hd (ss_intents (fst c)))) (id_version (hd (in_documents (hd (ss_intents (fst c)))))) (fst c),
       loadLatestRevision ex_world (hd (in_documents (hd (ss_intents (fst c)))))
         (fst c, ex_store(''t/cases/c/documents/doc/versions/v1/signatures/anna/signed.pdf'' \<mapsto> [9])),
       revision_path ex_world (hd (ss_intents (fst c))) (hd (in_documents (hd (ss_intents (fst c))))) (fst c)))
     (run (ex_identify ''inv-anna'') (ex_sent, [])) =
   Inr (False, Inr ([1], ''sha''), ''t/cases/c/documents/doc/versions/v1/signatures/anna'')"
  by code_simp

theorem lost_signature_race_is_final_witness:
  "\<exists>st p. run (ex_identify ''inv-anna'') (ex_sent, []) = Inr (st, p) \<and>
     snd (ex_create (ex_store(''t/cases/c/documents/doc/versions/v1/signatures/anna/signed.pdf'' \<mapsto> [9])) st) \<noteq> Inr ()"
proof (cases "run (ex_identify ''inv-anna'') (ex_sent, [])")
  case (Inr c)
  let ?store = "ex_store(''t/cases/c/documents/doc/versions/v1/signatures/anna/signed.pdf'' \<mapsto> [9])"
  let ?i = "hd (ss_intents (fst c))" and ?d = "hd (in_documents (hd (ss_intents (fst c))))"
  have a: "\<not> already_signed (in_signer ?i) (id_version ?d) (fst (fst c, ?store))"
    "loadLatestRevision ex_world ?d (fst c, ?store) = Inr ([1], ''sha'')"
    "snd (fst c, ?store) (revision_path ex_world ?i ?d (fst (fst c, ?store)) @ ''/signed.pdf'') = Some [9]"
    using ex_race_runs unfolding Inr by simp_all
  have "\<not> isPrefix [1] [9 :: byte]" "pw_sha ex_world x = pw_sha ex_world [9] \<Longrightarrow> x = [9]" for x
    by (simp_all add: isPrefix_def ex_world_def split: if_splits)
  from lost_signature_race_is_final [OF a this] show ?thesis
    using Inr by (intro exI [of _ "fst c"] exI [of _ "snd c"]) (simp add: ex_create_def)
qed (use ex_race_runs in simp)

section \<open>Intake\<close>

lemma begin_scan_result:
  "begin_scan v st = Inr (st1, Some d) \<Longrightarrow> find (\<lambda>d. dc_version d = v) (ss_documents st) = Some d \<and>
     ss_documents st1 = map (\<lambda>d. if dc_version d = v then d\<lparr>dc_status := Doc_scanning\<rparr> else d) (ss_documents st)"
  by (auto simp: begin_scan_def find_document_def bindR_Inr_iff update_documents_Inr_iff split: option.splits if_splits)

lemma reject_no_canonicalizing:
  "d' \<in> set (ss_documents (fst (finish st (rejectDocument v st)))) \<Longrightarrow> dc_status d' = Doc_canonicalizing \<Longrightarrow>
     d' \<in> set (ss_documents st)"
  by (auto simp: finish_def rejectDocument_def bindR_Inr_iff update_documents_Inr_iff split: sum.splits if_splits)

lemma save_report_documents [simp]: "ss_documents (save_report v type pass st) = ss_documents st"
  by (simp add: save_report_def)


definition ex_intake :: intake_world where
  "ex_intake = \<lparr>iw_download = (\<lambda>k. Inr [1, 2]), iw_sha = (\<lambda>b. replicate 64 CHR ''a''), iw_clean = (\<lambda>b. Inr (b = [1, 2])),
     iw_inspect = (\<lambda>b. Inr \<lparr>ins_passed = True, ins_pages = 1\<rparr>), iw_convert = Inr, iw_compliant = (\<lambda>b. Inr True),
     iw_canonical_key = (\<lambda>v. v)\<rparr>"

definition ex_quarantined :: signing_state where
  "ex_quarantined = ex_sent\<lparr>ss_documents :=
     [(hd (ss_documents ex_sent))\<lparr>dc_status := Doc_quarantined, dc_size := 2, dc_sha := Some (replicate 64 CHR ''A'')\<rparr>]\<rparr>"

lemma ex_scan_runs:
  "map (\<lambda>d. (dc_version d, dc_status d)) (ss_documents (fst (handleDocumentScan ex_intake ''v1'' ex_quarantined))) =
     [(''v1'', Doc_canonicalizing)]"
  by code_simp


end
