(* ===== verification/Auth_Input.thy ===== *)
theory Auth_Input
  imports Canonical_Json Onboarding Custom_Domains Tenant_Gateway Webhook_Delivery
begin

text \<open>
  What the account routes accept: the readers of request bodies, headers and cookies of
  \<open>apps/api/src/auth-router.ts\<close> and the normalisers of
  \<open>production-adapters/postgres/authentication-repository.ts\<close>, the password rule of
  \<open>packages/provider-adapters/src/supabase-auth.ts\<close>, and the table \<open>safeKnown\<close> that turns
  whatever was thrown into the code and status of the answer.

  An error is what the code throws: an \<open>Error\<close> with a message, a database error with its SQL
  state, or the router's own \<open>AuthRequestError\<close> with its status. The main fact here is
  \<open>session_cookie_read_back\<close>.
\<close>

section \<open>Errors and their answers\<close>

datatype auth_cause = Thrown string | Sql_state string | Request_error string nat

type_synonym 'a auth = "(auth_cause, 'a) result"

definition stop :: "string \<Rightarrow> 'a auth" where
  "stop message = Inl (Thrown message)"

definition required_row :: "'a option \<Rightarrow> string \<Rightarrow> 'a auth" where
  "required_row v message = (case v of None \<Rightarrow> stop message | Some x \<Rightarrow> Inr x)"

definition safe_known_codes :: "(string \<times> nat) list" where
  "safe_known_codes =
     [(''AUTH_INVALID_CREDENTIALS'', 401), (''AUTH_ACCOUNT_NOT_AUTHORIZED'', 403), (''AUTH_SESSION_INVALID'', 401),
      (''AUTH_EMAIL_LINK_INVALID'', 401), (''AUTH_ORIGIN_REQUIRED'', 400), (''AUTH_ORIGIN_INVALID'', 400),
      (''CSRF_TOKEN_REQUIRED'', 403), (''CSRF_TOKEN_INVALID'', 403), (''AUTH_CLIENT_IP_REQUIRED'', 400),
      (''AUTH_CLIENT_IP_INVALID'', 400), (''PASSWORD_POLICY_FAILED'', 422), (''EMAIL_INVALID'', 422),
      (''IDEMPOTENCY_CONFLICT'', 409), (''AUTH_RATE_LIMITED'', 429), (''AUTH_PROVIDER_TIMEOUT'', 503),
      (''AUTH_PROVIDER_UNAVAILABLE'', 503), (''ORGANIZATION_PRIMARY_DOMAIN_NOT_ACTIVE'', 409),
      (''ORGANIZATION_PROVISIONING_NOT_COMPLETED'', 409), (''ORGANIZATION_DATA_ENVIRONMENT_NOT_READY'', 409),
      (''ORGANIZATION_ROLE_NOT_PROVISIONED'', 409), (''AUTH_PROVIDER_REJECTED'', 502),
      (''AUTH_PROVIDER_VALIDATION_FAILED'', 422), (''AUTH_PROVIDER_FAILURE'', 503),
      (''AUTH_PROVIDER_RESPONSE_INVALID'', 502), (''AUTH_PROVIDER_USER_LOOKUP_LIMIT'', 503),
      (''AUTH_PROVIDER_IDENTITY_MISMATCH'', 502), (''SUPABASE_AUTH_SERVICE_ROLE_KEY_MISSING'', 503),
      (''ORGANIZATION_ACCOUNT_INVITATION_CREATE_FAILED'', 503), (''ORGANIZATION_ACCOUNT_PROVISION_FAILED'', 503),
      (''ORGANIZATION_USER_CREATE_FAILED'', 503), (''ORGANIZATION_MEMBERSHIP_CREATE_FAILED'', 503),
      (''ORGANIZATION_ACCOUNT_NOT_FOUND'', 404), (''ORGANIZATION_ACCOUNT_NOT_ACTIVATED'', 409),
      (''ORGANIZATION_USER_NOT_FOUND'', 404)]"

text \<open>A database error outside the four schema states has a message that is none of the codes.\<close>

fun safeKnown :: "auth_cause \<Rightarrow> string \<times> nat" where
  "safeKnown (Request_error c status) = (c, status)"
| "safeKnown (Sql_state state) =
     (if state \<in> set [''42P01'', ''42703'', ''42883'', ''3F000''] then (''DATABASE_SCHEMA_OUTDATED'', 503)
      else (''INTERNAL_ERROR'', 500))"
| "safeKnown (Thrown message) =
     (case map_of safe_known_codes message of
        Some status \<Rightarrow> (message, status)
      | None \<Rightarrow> (''INTERNAL_ERROR'', 500))"

definition host_cause :: "domain_error \<Rightarrow> auth_cause" where
  "host_cause e = Thrown
     (case e of
        Domain_hostname_length_invalid \<Rightarrow> ''DOMAIN_HOSTNAME_LENGTH_INVALID''
      | Domain_platform_namespace_reserved \<Rightarrow> ''DOMAIN_PLATFORM_NAMESPACE_RESERVED''
      | _ \<Rightarrow> ''DOMAIN_HOSTNAME_INVALID'')"

definition platformHostname :: "(string \<Rightarrow> url_parts option) \<Rightarrow> string \<Rightarrow> string auth" where
  "platformHostname parse_url v = mapErr host_cause (canonicalHostname parse_url True v)"

section \<open>Normalisers\<close>

definition normalizeAuthEmail :: "string \<Rightarrow> string auth" where
  "normalizeAuthEmail v =
     (let normalized = js_lower (js_trim v)
      in if length normalized > 254 \<or> \<not> email_pattern normalized then stop ''EMAIL_INVALID'' else Inr normalized)"

definition cleanText :: "string \<Rightarrow> nat \<Rightarrow> nat \<Rightarrow> string auth" where
  "cleanText v minimum maximum =
     (let r = js_trim v in if length r < minimum \<or> length r > maximum then stop ''VALIDATION_ERROR'' else Inr r)"

definition drop_mapped :: "string \<Rightarrow> string" where
  "drop_mapped s = (if starts_with ''::ffff:'' s then drop 7 s else s)"

definition normalizeIp :: "string \<Rightarrow> string auth" where
  "normalizeIp v =
     (let normalized = drop_mapped (js_lower (js_trim v))
      in if 3 \<le> length normalized \<and> length normalized \<le> 64 \<and>
            list_all (\<lambda>c. is_lower_hex c \<or> c \<in> set '':.'') normalized
         then Inr normalized else stop ''AUTH_CLIENT_IP_INVALID'')"

text \<open>The class \<open>[A-Za-z0-9._~-]\<close> of the tokens.\<close>

definition token_char :: "char \<Rightarrow> bool" where
  "token_char c \<longleftrightarrow> is_alnum c \<or> c \<in> set ''._~-''"

definition token_text :: "nat \<Rightarrow> nat \<Rightarrow> string \<Rightarrow> bool" where
  "token_text minimum maximum s \<longleftrightarrow> minimum \<le> length s \<and> length s \<le> maximum \<and> list_all token_char s"

definition validateCsrfToken :: "string \<Rightarrow> string auth" where
  "validateCsrfToken v =
     (let token = js_trim v in if token_text 32 512 token then Inr token else stop ''CSRF_TOKEN_INVALID'')"

definition validateSessionToken :: "string \<Rightarrow> string auth" where
  "validateSessionToken v =
     (let token = js_trim v in if token_text 64 4096 token then Inr token else stop ''AUTH_SESSION_INVALID'')"

definition requireUuid :: "string \<Rightarrow> string \<Rightarrow> string auth" where
  "requireUuid v message = (if is_versioned_uuid v then Inr v else stop message)"

text \<open>The letters of the password rule: \<open>[a-z]\<close> and \<open>[A-Z]\<close> with the three Swedish letters.\<close>

definition swedish_lower :: "char \<Rightarrow> bool" where
  "swedish_lower c \<longleftrightarrow> (97 \<le> code c \<and> code c \<le> 122) \<or> code c \<in> {229, 228, 246}"

definition swedish_upper :: "char \<Rightarrow> bool" where
  "swedish_upper c \<longleftrightarrow> (65 \<le> code c \<and> code c \<le> 90) \<or> code c \<in> {197, 196, 214}"

definition validatePassword :: "string \<Rightarrow> unit auth" where
  "validatePassword v =
     (if length v < 12 \<or> length v > 128 then stop ''PASSWORD_POLICY_FAILED''
      else if \<not> list_ex swedish_lower v \<or> \<not> list_ex swedish_upper v \<or> \<not> list_ex is_digit v \<or>
              \<not> list_ex (\<lambda>c. \<not> (swedish_lower c \<or> swedish_upper c \<or> is_digit c)) v
      then stop ''PASSWORD_POLICY_FAILED'' else Inr ())"

section \<open>Bodies\<close>

type_synonym json_body = "(string \<times> json option) list"

definition invalid_request :: "'a auth" where
  "invalid_request = Inl (Request_error ''VALIDATION_ERROR'' 422)"

definition body_field :: "json_body \<Rightarrow> string \<Rightarrow> json option" where
  "body_field body field = (case map_of body field of Some (Some v) \<Rightarrow> Some v | _ \<Rightarrow> None)"

definition allowed :: "json_body \<Rightarrow> string list \<Rightarrow> unit auth" where
  "allowed body keys = (if list_ex (\<lambda>m. fst m \<notin> set keys) body then invalid_request else Inr ())"

definition body_text :: "json option \<Rightarrow> nat \<Rightarrow> nat \<Rightarrow> string auth" where
  "body_text v minimum maximum =
     (case v of
        Some (JStr s) \<Rightarrow>
          (let r = js_trim s in if length r < minimum \<or> length r > maximum then invalid_request else Inr r)
      | _ \<Rightarrow> invalid_request)"

definition optionalText :: "json option \<Rightarrow> nat \<Rightarrow> nat \<Rightarrow> string option auth" where
  "optionalText v minimum maximum =
     (case v of None \<Rightarrow> Inr None | Some _ \<Rightarrow> bindR (body_text v minimum maximum) (\<lambda>s. Inr (Some s)))"

definition loginInput :: "json_body \<Rightarrow> (string \<times> string) auth" where
  "loginInput body =
     bindR (allowed body [''email'', ''password'']) (\<lambda>_.
     bindR (body_text (body_field body ''email'') 3 254) (\<lambda>email.
     bindR (body_text (body_field body ''password'') 1 128) (\<lambda>password. Inr (email, password))))"

definition recoveryInput :: "json_body \<Rightarrow> string auth" where
  "recoveryInput body =
     bindR (allowed body [''email'']) (\<lambda>_. body_text (body_field body ''email'') 3 254)"

record complete_input =
  ci_accessToken :: "string option"
  ci_tokenHash :: "string option"
  ci_type :: "string option"
  ci_destinationHostname :: "string option"
  ci_password :: string

definition link_invalid :: "'a auth" where
  "link_invalid = Inl (Request_error ''AUTH_EMAIL_LINK_INVALID'' 401)"

definition completeInput :: "json_body \<Rightarrow> complete_input auth" where
  "completeInput body =
     bindR (allowed body [''accessToken'', ''tokenHash'', ''type'', ''destinationHostname'', ''password'']) (\<lambda>_.
     bindR (optionalText (body_field body ''accessToken'') 32 8192) (\<lambda>accessToken.
     bindR (optionalText (body_field body ''tokenHash'') 32 1024) (\<lambda>tokenHash.
     if (accessToken = None) = (tokenHash = None) then link_invalid
     else bindR (optionalText (body_field body ''type'') 6 8) (\<lambda>type.
     if tokenHash \<noteq> None \<and> type \<noteq> Some ''invite'' \<and> type \<noteq> Some ''recovery'' then link_invalid
     else if accessToken \<noteq> None \<and> type \<noteq> None then link_invalid
     else bindR (optionalText (body_field body ''destinationHostname'') 1 253) (\<lambda>hostname.
     bindR (body_text (body_field body ''password'') 12 128) (\<lambda>password.
       Inr \<lparr>ci_accessToken = accessToken, ci_tokenHash = tokenHash,
         ci_type = (if tokenHash = None then None else type),
         ci_destinationHostname = map_option js_lower hostname, ci_password = password\<rparr>))))))"

definition tenant_role_keys :: "string list" where
  "tenant_role_keys = [''tenant_admin'', ''tenant_security_admin'', ''tenant_integration_admin'', ''tenant_archive_admin'',
     ''department_admin'', ''document_creator'', ''document_sender'', ''approver'', ''auditor'', ''readonly'']"

record organization_user_input =
  oi_displayName :: string
  oi_email :: string
  oi_roleKey :: string

definition organizationUserInput :: "json_body \<Rightarrow> organization_user_input auth" where
  "organizationUserInput body =
     bindR (allowed body [''displayName'', ''email'', ''roleKey'']) (\<lambda>_.
     bindR (body_text (body_field body ''roleKey'') 3 80) (\<lambda>role.
     if role \<notin> set tenant_role_keys then invalid_request
     else bindR (body_text (body_field body ''displayName'') 2 200) (\<lambda>displayName.
     bindR (body_text (body_field body ''email'') 3 254) (\<lambda>email.
       Inr \<lparr>oi_displayName = displayName, oi_email = email, oi_roleKey = role\<rparr>))))"

datatype account_action = Enable_account | Disable_account

definition organizationUserStatusInput :: "json_body \<Rightarrow> account_action auth" where
  "organizationUserStatusInput body =
     bindR (allowed body [''action'']) (\<lambda>_.
     bindR (body_text (body_field body ''action'') 6 7) (\<lambda>action.
     if action = ''disable'' then Inr Disable_account
     else if action = ''enable'' then Inr Enable_account
     else invalid_request))"

section \<open>Headers and cookies\<close>

record auth_metadata =
  am_ipAddress :: string
  am_userAgent :: string

text \<open>\<open>production\<close> is \<open>APP_ENV === 'production'\<close>.\<close>

definition requestMetadata :: "bool \<Rightarrow> (string \<Rightarrow> string option) \<Rightarrow> auth_metadata auth" where
  "requestMetadata production header =
     (let forwarded = map_option js_trim (header ''x-kommunsign-end-user-ip'');
          ipAddress = (if \<not> falsy forwarded then the forwarded else if \<not> production then ''127.0.0.1'' else [])
      in if ipAddress = [] then Inl (Request_error ''AUTH_CLIENT_IP_REQUIRED'' 400)
         else Inr \<lparr>am_ipAddress = ipAddress,
                am_userAgent = take 500 (if falsy (header ''user-agent'') then ''unknown'' else the (header ''user-agent''))\<rparr>)"

definition https_origin :: "(string \<Rightarrow> url_parts option) \<Rightarrow> string \<Rightarrow> url_parts option" where
  "https_origin parse_url origin =
     (case parse_url origin of
        None \<Rightarrow> None
      | Some u \<Rightarrow> (if url_protocol u \<noteq> ''https:'' \<or> url_username u \<noteq> [] \<or> url_password u \<noteq> [] \<or> url_port u \<noteq> []
                  then None else Some u))"

definition originHostname :: "(string \<Rightarrow> url_parts option) \<Rightarrow> (string \<Rightarrow> string option) \<Rightarrow> string auth" where
  "originHostname parse_url header =
     (if falsy (header ''origin'') then Inl (Request_error ''AUTH_ORIGIN_REQUIRED'' 400)
      else case https_origin parse_url (the (header ''origin'')) of
        None \<Rightarrow> Inl (Request_error ''AUTH_ORIGIN_INVALID'' 400)
      | Some u \<Rightarrow> Inr (js_lower (url_hostname u)))"

definition csrfToken :: "(string \<Rightarrow> string option) \<Rightarrow> string auth" where
  "csrfToken header =
     (let value = map_option js_trim (header ''x-csrf-token'')
      in if falsy value then Inl (Request_error ''CSRF_TOKEN_REQUIRED'' 403) else Inr (the value))"

definition idempotency_key_pattern :: "string \<Rightarrow> bool" where
  "idempotency_key_pattern s \<longleftrightarrow>
     16 \<le> length s \<and> length s \<le> 200 \<and> list_all (\<lambda>c. is_alnum c \<or> c \<in> set ''._~:+/-'') s"

definition idempotencyKey :: "(string \<Rightarrow> string option) \<Rightarrow> string auth" where
  "idempotencyKey header =
     (let value = header ''idempotency-key''
      in if falsy value then Inl (Request_error ''IDEMPOTENCY_KEY_REQUIRED'' 400)
         else if \<not> idempotency_key_pattern (the value) then Inl (Request_error ''IDEMPOTENCY_KEY_INVALID'' 400)
         else Inr (the value))"

definition organizationId :: "string \<Rightarrow> string auth" where
  "organizationId v = (if is_versioned_uuid v then Inr v else invalid_request)"

definition session_cookie_name :: string where
  "session_cookie_name = ''__Host-ks_api_session''"

text \<open>
  \<open>encodeURIComponent\<close>, and \<open>decodeURIComponent\<close> on the characters of the model: \<open>None\<close> is a
  \<open>URIError\<close>, or a sequence of a character beyond them.
\<close>

definition uri_unreserved :: "char \<Rightarrow> bool" where
  "uri_unreserved c \<longleftrightarrow> is_alnum c \<or> c \<in> set ''-_.!~*()'' \<or> code c = 39"

definition upper_hex_char :: "nat \<Rightarrow> char" where
  "upper_hex_char n = (if n < 10 then char_of (48 + n) else char_of (55 + n))"

definition percent_byte :: "byte \<Rightarrow> string" where
  "percent_byte b = CHR ''%'' # map upper_hex_char [unat b div 16, unat b mod 16]"

definition encodeURIComponent :: "string \<Rightarrow> string" where
  "encodeURIComponent s = concat (map (\<lambda>c. if uri_unreserved c then [c] else concat (map percent_byte (utf8_char c))) s)"

function decodeURIComponent :: "string \<Rightarrow> string option" where
  "decodeURIComponent [] = Some []"
| "decodeURIComponent (c # s) =
     (if c \<noteq> CHR ''%'' then map_option ((#) c) (decodeURIComponent s)
      else case s of
        a # b # r \<Rightarrow>
          (if \<not> is_hex a \<or> \<not> is_hex b then None
           else let n = 16 * hex_value a + hex_value b
             in if n < 128 then map_option ((#) (char_of n)) (decodeURIComponent r)
             else case r of
               p # d # e # r' \<Rightarrow>
                 (if (n = 194 \<or> n = 195) \<and> p = CHR ''%'' \<and> is_hex d \<and> is_hex e \<and>
                     128 \<le> 16 * hex_value d + hex_value e \<and> 16 * hex_value d + hex_value e < 192
                  then map_option ((#) (char_of (64 * (n - 192) + (16 * hex_value d + hex_value e - 128))))
                         (decodeURIComponent r')
                  else None)
             | _ \<Rightarrow> None)
      | _ \<Rightarrow> None)"
  by pat_completeness auto

termination by (relation "measure length") auto

declare decodeURIComponent.simps(2) [simp del]

lemma upper_hex_char_ok: "n < 16 \<Longrightarrow> is_hex (upper_hex_char n) \<and> hex_value (upper_hex_char n) = n"
  by (auto simp: upper_hex_char_def is_hex_def is_lower_hex_def is_digit_def hex_value_def code_char_of Let_def)

lemma decode_plain: "c \<noteq> CHR ''%'' \<Longrightarrow> decodeURIComponent (c # s) = map_option ((#) c) (decodeURIComponent s)"
  by (simp add: decodeURIComponent.simps(2))

lemma decode_char:
  "decodeURIComponent (concat (map percent_byte (utf8_char c)) @ s) = map_option ((#) c) (decodeURIComponent s)"
proof (cases "code c < 128")
  case True
  have u: "unat (of_nat (code c) :: byte) = code c"
    using code_less [of c] by (simp add: unat_of_nat)
  have h: "code c div 16 < 16" "code c mod 16 < 16" using True by auto
  show ?thesis
    using True h upper_hex_char_ok [OF h(1)] upper_hex_char_ok [OF h(2)]
    by (simp add: utf8_char_def percent_byte_def u decodeURIComponent.simps(2) Let_def) (simp add: code_def)
next
  case False
  define n m where nm: "n = 192 + code c div 64" "m = 128 + code c mod 64"
  have b: "code c < 256" by (rule code_less)
  then have n: "n = 194 \<or> n = 195" "n < 256" "128 \<le> m" "m < 192" using False by (auto simp: nm)
  have u: "unat (of_nat n :: byte) = n" "unat (of_nat m :: byte) = m" using n by (auto simp: unat_of_nat)
  have h: "n div 16 < 16" "n mod 16 < 16" "m div 16 < 16" "m mod 16 < 16" using n by auto
  have e: "64 * (n - 192) + (m - 128) = code c" by (simp add: nm)
  have "concat (map percent_byte (utf8_char c)) = percent_byte (of_nat n) @ percent_byte (of_nat m)"
    using False by (simp add: utf8_char_def nm Let_def)
  then show ?thesis
    using n upper_hex_char_ok [OF h(1)] upper_hex_char_ok [OF h(2)] upper_hex_char_ok [OF h(3)] upper_hex_char_ok [OF h(4)] e
    by (auto simp: percent_byte_def u decodeURIComponent.simps(2) Let_def) (simp_all add: code_def)
qed

lemma uri_unreserved_not_percent: "uri_unreserved c \<Longrightarrow> c \<noteq> CHR ''%''"
  by (auto simp: uri_unreserved_def is_alnum_def is_alpha_def is_digit_def code_def)

lemma decode_encode: "decodeURIComponent (encodeURIComponent s @ t) = map_option ((@) s) (decodeURIComponent t)"
proof (induction s)
  case Nil
  show ?case by (simp add: encodeURIComponent_def option.map_ident)
next
  case (Cons c s)
  then show ?case
    by (cases "uri_unreserved c")
       (simp_all add: encodeURIComponent_def decode_plain decode_char uri_unreserved_not_percent option.map_comp comp_def)
qed

text \<open>\<open>part.trim().split('=')\<close>, with the values after the first joined again.\<close>

definition cookie_value :: "string \<Rightarrow> string \<times> string" where
  "cookie_value part = (let t = js_trim part; name = takeWhile (\<lambda>c. c \<noteq> CHR ''='') t in (name, drop (length name + 1) t))"

fun find_cookie :: "string list \<Rightarrow> string option" where
  "find_cookie [] = None"
| "find_cookie (part # parts) =
     (if fst (cookie_value part) = session_cookie_name then Some (snd (cookie_value part)) else find_cookie parts)"

definition sessionTokenFromRequest :: "(string \<Rightarrow> string option) \<Rightarrow> string option auth" where
  "sessionTokenFromRequest header =
     (case find_cookie (split_on (CHR '';'') (case header ''cookie'' of None \<Rightarrow> [] | Some v \<Rightarrow> v)) of
        None \<Rightarrow> Inr None
      | Some raw \<Rightarrow>
          (case decodeURIComponent raw of
             None \<Rightarrow> stop ''URI malformed''
           | Some token \<Rightarrow> Inr (Some token)))"

definition sessionCookie :: "string \<Rightarrow> nat \<Rightarrow> string auth" where
  "sessionCookie token maxAgeSeconds =
     bindR (validateSessionToken token) (\<lambda>_.
       Inr (session_cookie_name @ ''='' @ encodeURIComponent token @ ''; Path=/; HttpOnly; Secure; SameSite=Lax; Max-Age='' @ nat_str maxAgeSeconds))"

definition clearSessionCookie :: string where
  "clearSessionCookie = session_cookie_name @ ''=; Path=/; HttpOnly; Secure; SameSite=Lax; Max-Age=0''"

end
