(* ===== verification/Rate_Limit.thy ===== *)
theory Rate_Limit
  imports Auth_Input Signing_Manifest
begin

text \<open>
  The throttle in front of login, password recovery and password completion:
  \<open>enforceAuthRateLimit\<close> and \<open>clearAuthRateLimit\<close> of
  \<open>production-adapters/postgres/authentication-repository.ts\<close> over the rows of
  \<open>control.auth_rate_limit_buckets\<close>. The upsert locks its row, so attempts on one bucket happen one
  after the other; each carries its own \<open>now()\<close> of the database and \<open>Date.now()\<close> of the server, in
  milliseconds.

  One bucket is a small machine: \<open>attempt_row\<close> is its step, \<open>attempts\<close> runs it. A window admits at
  most the maximum (\<open>window_admits\<close>), a refusal lasts until the time stored with it, and whoever
  waits out the window after the last attempt is admitted again.
\<close>

section \<open>The table\<close>

datatype auth_action = Login_action | Password_recovery | Password_complete

record bucket_row =
  bk_window :: int
  bk_attempts :: nat
  bk_blocked :: "int option"

type_synonym buckets = "auth_action \<times> string \<Rightarrow> bucket_row option"

definition fifteen_minutes :: int where
  "fifteen_minutes = 15 * 60 * 1000"

definition fresh_bucket :: "int \<Rightarrow> bucket_row" where
  "fresh_bucket now = \<lparr>bk_window = now, bk_attempts = 1, bk_blocked = None\<rparr>"

text \<open>The \<open>do update\<close> of the upsert: every right-hand side reads the old row.\<close>

definition attempt_row :: "nat \<Rightarrow> int \<Rightarrow> bucket_row option \<Rightarrow> bucket_row" where
  "attempt_row maximum now old =
     (case old of
        None \<Rightarrow> fresh_bucket now
      | Some b \<Rightarrow>
          \<lparr>bk_window = (if bk_window b < now - fifteen_minutes then now else bk_window b),
           bk_attempts = (if bk_window b < now - fifteen_minutes then 1 else bk_attempts b + 1),
           bk_blocked =
             (if \<exists>u. bk_blocked b = Some u \<and> now < u then bk_blocked b
              else if now - fifteen_minutes \<le> bk_window b \<and> maximum < bk_attempts b + 1
              then Some (now + fifteen_minutes)
              else None)\<rparr>)"

text \<open>The decision on the returned row, by the clock of the server.\<close>

definition refused_row :: "nat \<Rightarrow> int \<Rightarrow> bucket_row \<Rightarrow> bool" where
  "refused_row maximum clock b \<longleftrightarrow>
     (case bk_blocked b of None \<Rightarrow> False | Some u \<Rightarrow> clock < u) \<or> maximum < bk_attempts b"

section \<open>The operations\<close>

fun action_text :: "auth_action \<Rightarrow> string" where
  "action_text Login_action = ''login''"
| "action_text Password_recovery = ''password_recovery''"
| "action_text Password_complete = ''password_complete''"

definition newline :: string where
  "newline = [char_of (10 :: nat)]"

definition bucket_text :: "auth_action \<Rightarrow> string \<Rightarrow> string option \<Rightarrow> string \<Rightarrow> string" where
  "bucket_text action address email agent =
     action_text action @ newline @ address @ newline @ (case email of None \<Rightarrow> [] | Some e \<Rightarrow> e) @ newline @ agent"

definition bucketHash ::
  "(byte list \<Rightarrow> byte list) \<Rightarrow> auth_action \<Rightarrow> auth_metadata \<Rightarrow> string option \<Rightarrow> string auth" where
  "bucketHash sha256 action metadata email =
     bindR (normalizeIp (am_ipAddress metadata)) (\<lambda>ipAddress.
     bindR (cleanText (if am_userAgent metadata = [] then ''unknown'' else am_userAgent metadata) 1 500) (\<lambda>userAgent.
       Inr (sha256Hex sha256 (TextInput (bucket_text action ipAddress email (take 120 userAgent))))))"

text \<open>The row is written also when the attempt is then refused.\<close>

definition enforceAuthRateLimit ::
  "(byte list \<Rightarrow> byte list) \<Rightarrow> auth_action \<Rightarrow> auth_metadata \<Rightarrow> string option \<Rightarrow> nat \<Rightarrow> int \<Rightarrow> int \<Rightarrow> buckets
     \<Rightarrow> buckets \<times> string auth" where
  "enforceAuthRateLimit sha256 action metadata email maximumAttempts now clock t =
     (case bucketHash sha256 action metadata email of
        Inl e \<Rightarrow> (t, Inl e)
      | Inr bucket \<Rightarrow>
          (let row = attempt_row maximumAttempts now (t (action, bucket))
           in (t((action, bucket) \<mapsto> row),
               if refused_row maximumAttempts clock row then stop ''AUTH_RATE_LIMITED'' else Inr bucket)))"

definition clearAuthRateLimit :: "auth_action \<Rightarrow> string \<Rightarrow> buckets \<Rightarrow> buckets" where
  "clearAuthRateLimit action bucket t = t((action, bucket) := None)"

section \<open>A run of attempts on one bucket\<close>

text \<open>The attempts \<open>(now, clock)\<close> on one bucket that no success cleared, with their verdicts.\<close>

fun attempts :: "nat \<Rightarrow> bucket_row option \<Rightarrow> (int \<times> int) list \<Rightarrow> bool list" where
  "attempts maximum b [] = []"
| "attempts maximum b ((now, clock) # ts) =
     (let row = attempt_row maximum now b
      in (\<not> refused_row maximum clock row) # attempts maximum (Some row) ts)"

fun after_attempts :: "nat \<Rightarrow> bucket_row option \<Rightarrow> (int \<times> int) list \<Rightarrow> bucket_row option" where
  "after_attempts maximum b [] = b"
| "after_attempts maximum b ((now, clock) # ts) = after_attempts maximum (Some (attempt_row maximum now b)) ts"

definition admitted :: "bool list \<Rightarrow> nat" where
  "admitted vs = length (filter id vs)"

lemma admitted_simps [simp]:
  "admitted [] = 0" "admitted (v # vs) = (if v then 1 else 0) + admitted vs"
  by (simp_all add: admitted_def)

lemma attempt_row_None [simp]: "attempt_row m now None = fresh_bucket now"
  by (simp add: attempt_row_def)

lemma fresh_bucket_sel [simp]:
  "bk_window (fresh_bucket now) = now" "bk_attempts (fresh_bucket now) = 1" "bk_blocked (fresh_bucket now) = None"
  by (simp_all add: fresh_bucket_def)

text \<open>While the window is current, the count goes up with every attempt.\<close>

lemma attempt_row_current:
  assumes "now - fifteen_minutes \<le> bk_window b"
  shows "bk_window (attempt_row m now (Some b)) = bk_window b"
    "bk_attempts (attempt_row m now (Some b)) = bk_attempts b + 1"
  using assms by (simp_all add: attempt_row_def)

lemma current_window_admits:
  assumes "\<forall>(now, clock) \<in> set ts. now - fifteen_minutes \<le> bk_window b"
  shows "admitted (attempts m (Some b) ts) \<le> m - bk_attempts b"
  using assms
proof (induction ts arbitrary: b)
  case (Cons t ts)
  obtain now clock where t: "t = (now, clock)" by force
  let ?b = "attempt_row m now (Some b)"
  have w: "bk_window ?b = bk_window b" "bk_attempts ?b = bk_attempts b + 1"
    using Cons.prems t attempt_row_current [of now b m] by simp_all
  have "admitted (attempts m (Some ?b) ts) \<le> m - bk_attempts ?b"
    using Cons.prems by (intro Cons.IH) (auto simp: w)
  moreover have "refused_row m clock ?b" if "m \<le> bk_attempts b"
    using that by (simp add: refused_row_def w)
  ultimately show ?case by (cases "m \<le> bk_attempts b") (auto simp: t w Let_def)
qed simp

text \<open>Fifteen minutes of attempts lie in at most two windows.\<close>

lemma span_admits:
  assumes "sorted (map fst ts)" and "\<forall>(now, clock) \<in> set ts. start \<le> now \<and> now \<le> start + fifteen_minutes"
    and "1 \<le> m"
  shows "admitted (attempts m b ts) \<le> (case b of None \<Rightarrow> m | Some r \<Rightarrow> (m - bk_attempts r) + m)"
  using assms
proof (induction ts arbitrary: b)
  case (Cons t ts)
  obtain now clock where t: "t = (now, clock)" by force
  have fresh: "admitted (attempts m (Some r) ts) \<le> m - 1" if "bk_window r = now" "bk_attempts r = 1" for r
  proof -
    have "\<forall>(now', clock) \<in> set ts. now' - fifteen_minutes \<le> bk_window r"
      using Cons.prems(2) by (auto simp: that t)
    from current_window_admits [OF this] show ?thesis by (simp add: that)
  qed
  have one: "admitted (attempts m (Some r) (t # ts)) \<le> m" if r: "bk_window r < now - fifteen_minutes" for r
  proof -
    let ?r = "attempt_row m now (Some r)"
    have "bk_window ?r = now" "bk_attempts ?r = 1" using r by (simp_all add: attempt_row_def)
    from fresh [OF this] show ?thesis using Cons.prems(3) by (auto simp: t Let_def)
  qed
  show ?case
  proof (cases b)
    case None
    then show ?thesis using fresh [of "fresh_bucket now"] Cons.prems(3) by (auto simp: t Let_def)
  next
    case (Some r)
    show ?thesis
    proof (cases "bk_window r < now - fifteen_minutes")
      case True
      then show ?thesis using one [of r] Some by simp
    next
      case False
      let ?r = "attempt_row m now (Some r)"
      have w: "bk_attempts ?r = bk_attempts r + 1" using False by (intro attempt_row_current) simp
      have "admitted (attempts m (Some ?r) ts) \<le> (m - bk_attempts ?r) + m"
        using Cons.IH [of "Some ?r"] Cons.prems by auto
      moreover have "refused_row m clock ?r" if "m \<le> bk_attempts r"
        using that by (simp add: refused_row_def w)
      ultimately show ?thesis by (cases "m \<le> bk_attempts r") (auto simp: t w Some Let_def)
    qed
  qed
qed (simp split: option.splits)

text \<open>A refusal with equal clocks leaves a time before which every attempt is refused.\<close>

lemma refused_blocks:
  assumes "refused_row m now (attempt_row m now b)" and "1 \<le> m"
  shows "\<exists>u > now. bk_blocked (attempt_row m now b) = Some u"
  using assms by (auto simp: attempt_row_def refused_row_def fifteen_minutes_def split: option.splits if_splits)

lemma blocked_stays:
  assumes "bk_blocked b = Some u" "now < u"
  shows "bk_blocked (attempt_row m now (Some b)) = Some u" "refused_row m now (attempt_row m now (Some b))"
  using assms by (simp_all add: attempt_row_def refused_row_def)

lemma waited_admits:
  assumes "bk_window b < now - fifteen_minutes" "\<forall>u. bk_blocked b = Some u \<longrightarrow> u \<le> now" "1 \<le> m"
  shows "\<not> refused_row m now (attempt_row m now (Some b))"
  using assms by (auto simp: attempt_row_def refused_row_def)

text \<open>The stored times never run ahead of the last attempt by more than the fifteen minutes.\<close>

definition bucket_times :: "int \<Rightarrow> bucket_row option \<Rightarrow> bool" where
  "bucket_times now b \<longleftrightarrow> (case b of None \<Rightarrow> True
     | Some r \<Rightarrow> bk_window r \<le> now \<and> (\<forall>u. bk_blocked r = Some u \<longrightarrow> u \<le> now + fifteen_minutes))"

lemma bucket_times_step:
  assumes "bucket_times t b" "t \<le> now"
  shows "bucket_times now (Some (attempt_row m now b))"
  using assms by (auto simp: bucket_times_def attempt_row_def fresh_bucket_def fifteen_minutes_def split: option.splits if_splits)

lemma bucket_times_mono: "bucket_times t b \<Longrightarrow> t \<le> now \<Longrightarrow> bucket_times now b"
  by (auto simp: bucket_times_def split: option.splits)

lemma bucket_times_attempts:
  assumes "bucket_times t b" "sorted (t # map fst ts)"
  shows "bucket_times (last (t # map fst ts)) (after_attempts m b ts)"
  using assms
proof (induction ts arbitrary: t b)
  case (Cons a ts)
  obtain now clock where a: "a = (now, clock)" by force
  have "bucket_times now (Some (attempt_row m now b))"
    using Cons.prems by (intro bucket_times_step) (auto simp: a)
  from Cons.IH [OF this] Cons.prems show ?case by (simp add: a)
qed simp

section \<open>Runs of the operation\<close>

fun enforce_run ::
  "(byte list \<Rightarrow> byte list) \<Rightarrow> auth_action \<Rightarrow> string option \<Rightarrow> nat \<Rightarrow> (auth_metadata \<times> int \<times> int) list \<Rightarrow> buckets
     \<Rightarrow> buckets \<times> bool list" where
  "enforce_run sha256 action email maximum [] t = (t, [])"
| "enforce_run sha256 action email maximum ((metadata, now, clock) # rest) t =
     (let step = enforceAuthRateLimit sha256 action metadata email maximum now clock t;
          run = enforce_run sha256 action email maximum rest (fst step)
      in (fst run, is_ok (snd step) # snd run))"

lemma is_ok_simps [simp]: "is_ok (Inr x)" "\<not> is_ok (Inl e)" "\<not> is_ok (stop m)"
  by (simp_all add: is_ok_def stop_def)

lemma enforce_run_attempts:
  assumes "\<forall>x \<in> set xs. bucketHash sha256 action (fst x) email = Inr bucket"
  shows "snd (enforce_run sha256 action email m xs t) = attempts m (t (action, bucket)) (map snd xs) \<and>
    fst (enforce_run sha256 action email m xs t) (action, bucket) = after_attempts m (t (action, bucket)) (map snd xs)"
  using assms
proof (induction xs arbitrary: t)
  case (Cons x xs)
  obtain metadata now clock where x: "x = (metadata, now, clock)" by (cases x)
  show ?case using Cons by (auto simp: x enforceAuthRateLimit_def Let_def)
qed simp

lemma enforce_run_fresh:
  assumes "distinct (map (\<lambda>x. bucketHash sha256 action (fst x) email) xs)"
    and "\<forall>x \<in> set xs. \<exists>bucket. bucketHash sha256 action (fst x) email = Inr bucket \<and> t (action, bucket) = None"
    and "1 \<le> m"
  shows "snd (enforce_run sha256 action email m xs t) = replicate (length xs) True"
  using assms
proof (induction xs arbitrary: t)
  case (Cons x xs)
  obtain metadata now clock where x: "x = (metadata, now, clock)" by (cases x)
  obtain bucket where b: "bucketHash sha256 action metadata email = Inr bucket" "t (action, bucket) = None"
    using Cons.prems(2) x by auto
  let ?t = "t((action, bucket) \<mapsto> fresh_bucket now)"
  have "\<exists>bk. bucketHash sha256 action (fst y) email = Inr bk \<and> ?t (action, bk) = None" if y: "y \<in> set xs" for y
  proof -
    obtain bk where bk: "bucketHash sha256 action (fst y) email = Inr bk" "t (action, bk) = None"
      using Cons.prems(2) y by auto
    have "bucketHash sha256 action (fst y) email \<noteq> Inr bucket"
      using Cons.prems(1) y b(1) by (auto simp: x image_iff)
    with bk show ?thesis by auto
  qed
  then have "snd (enforce_run sha256 action email m xs ?t) = replicate (length xs) True"
    using Cons.prems(1, 3) by (intro Cons.IH) auto
  then show ?case
    using Cons.prems(3) by (simp add: x enforceAuthRateLimit_def b refused_row_def Let_def)
qed simp

section \<open>Properties\<close>

text \<open>C25. The throttle bounds: whatever the clocks of the servers say, the attempts of one bucket within
  fifteen minutes of database time are admitted at most as often as the maximum when the bucket is new,
  and otherwise at most by what the stored window has left and the maximum again.\<close>

theorem auth_attempts_bounded:
  assumes "\<forall>x \<in> set xs. bucketHash sha256 action (fst x) email = Inr bucket"
    and "sorted (map (fst \<circ> snd) xs)"
    and "\<forall>x \<in> set xs. start \<le> fst (snd x) \<and> fst (snd x) \<le> start + fifteen_minutes"
    and "1 \<le> maximum"
  shows "length (filter id (snd (enforce_run sha256 action email maximum xs t))) \<le>
    (case t (action, bucket) of None \<Rightarrow> maximum | Some r \<Rightarrow> (maximum - bk_attempts r) + maximum)"
proof -
  have "admitted (attempts maximum (t (action, bucket)) (map snd xs)) \<le>
      (case t (action, bucket) of None \<Rightarrow> maximum | Some r \<Rightarrow> (maximum - bk_attempts r) + maximum)"
    using assms(2, 3, 4) by (intro span_admits [where start = start]) auto
  then show ?thesis by (simp add: enforce_run_attempts [OF assms(1)] admitted_def)
qed

lemma sample_bucket:
  "bucketHash id Login_action \<lparr>am_ipAddress = ''::FFFF:10.0.0.1'', am_userAgent = ''browser''\<rparr> (Some ''a@b.se'')
     = Inr (sha256Hex id (TextInput (bucket_text Login_action ''10.0.0.1'' (Some ''a@b.se'') ''browser'')))"
  by code_simp

lemma auth_attempts_bounded_witness:
  "length (filter id (snd (enforce_run id Login_action (Some ''a@b.se'') 2
     (map (Pair \<lparr>am_ipAddress = ''::FFFF:10.0.0.1'', am_userAgent = ''browser''\<rparr>) [(0, 0), (1000, 1000), (2000, 2000), (900000, 900000)])
     (\<lambda>_. None)))) \<le> 2"
  by (rule order_trans, rule auth_attempts_bounded [where start = 0]) (simp_all add: sample_bucket fifteen_minutes_def)

text \<open>The throttle lets go: from a new bucket, after any run of attempts, refused or not, the attempt
  that comes more than fifteen minutes after the last one is admitted, whatever the server's clock.\<close>

theorem auth_throttle_releases:
  assumes "\<forall>x \<in> set xs. bucketHash sha256 action (fst x) email = Inr bucket"
    and "bucketHash sha256 action metadata email = Inr bucket"
    and "sorted (map (fst \<circ> snd) xs)" and "xs \<noteq> []" and "fst (snd (last xs)) + fifteen_minutes < now"
    and "t (action, bucket) = None" and "1 \<le> maximum"
  shows "snd (enforceAuthRateLimit sha256 action metadata email maximum now clock
    (fst (enforce_run sha256 action email maximum xs t))) = Inr bucket"
proof -
  let ?b = "after_attempts maximum None (map snd xs)"
  have s: "sorted (fst (snd (hd xs)) # map fst (map snd xs))"
    using assms(3, 4) by (cases xs) auto
  have "bucket_times (last (fst (snd (hd xs)) # map fst (map snd xs))) ?b"
    using s by (intro bucket_times_attempts) (simp_all add: bucket_times_def)
  moreover have "last (fst (snd (hd xs)) # map fst (map snd xs)) = fst (snd (last xs))"
    using assms(4) by (simp add: last_map)
  ultimately have "bucket_times (fst (snd (last xs))) ?b" by simp
  then have "\<not> refused_row maximum clock (attempt_row maximum now ?b)"
    using assms(5, 7) by (auto simp: bucket_times_def attempt_row_def refused_row_def split: option.splits)
  then show ?thesis
    using enforce_run_attempts [OF assms(1), of maximum t] assms(2, 6) by (simp add: enforceAuthRateLimit_def Let_def)
qed

lemma auth_throttle_releases_witness:
  "snd (enforceAuthRateLimit id Login_action \<lparr>am_ipAddress = ''::FFFF:10.0.0.1'', am_userAgent = ''browser''\<rparr> (Some ''a@b.se'') 2 2000000 0
     (fst (enforce_run id Login_action (Some ''a@b.se'') 2
       (map (Pair \<lparr>am_ipAddress = ''::FFFF:10.0.0.1'', am_userAgent = ''browser''\<rparr>) [(0, 0), (1000, 1000), (2000, 2000), (900000, 900000)])
       (\<lambda>_. None)))) =
   Inr (sha256Hex id (TextInput (bucket_text Login_action ''10.0.0.1'' (Some ''a@b.se'') ''browser'')))"
  by (rule auth_throttle_releases) (simp_all add: sample_bucket fifteen_minutes_def)

text \<open>C39. The throttle counts per user agent: as long as the texts have different digests, one client that
  sends another user agent with each attempt is never refused, with one address, for one account.\<close>

theorem rotating_user_agent_unthrottled:
  assumes "inj_on (\<lambda>agent. sha256 (text_encode (bucket_text Login_action address (Some email) agent)))
      (set (map (take 120 \<circ> js_trim \<circ> fst) agents))"
    and "normalizeIp ip = Inr address"
    and "distinct (map (take 120 \<circ> js_trim \<circ> fst) agents)"
    and "\<forall>x \<in> set agents. js_trim (fst x) \<noteq> [] \<and> length (js_trim (fst x)) \<le> 500"
    and "1 \<le> maximum"
  shows "snd (enforce_run sha256 Login_action (Some email) maximum
      (map (\<lambda>x. (\<lparr>am_ipAddress = ip, am_userAgent = fst x\<rparr>, snd x)) agents) (\<lambda>_. None))
    = replicate (length agents) True"
proof -
  let ?hash = "\<lambda>agent. sha256Hex sha256 (TextInput (bucket_text Login_action address (Some email) (take 120 (js_trim agent))))"
  let ?m = "\<lambda>agent. \<lparr>am_ipAddress = ip, am_userAgent = agent\<rparr>"
  have h: "bucketHash sha256 Login_action (?m (fst x)) (Some email) = Inr (?hash (fst x))" if "x \<in> set agents" for x
    using assms(2, 4) that by (auto simp: bucketHash_def cleanText_def Let_def Suc_le_eq)
  have i: "?hash (fst x) = ?hash (fst y) \<longleftrightarrow> take 120 (js_trim (fst x)) = take 120 (js_trim (fst y))"
    if "x \<in> set agents" "y \<in> set agents" for x y
    using assms(1) that by (auto simp: sha256Hex_def input_bytes_def inj_on_def)
  have "distinct (map (\<lambda>x. bucketHash sha256 Login_action (?m (fst x)) (Some email)) agents)"
    using assms(3) unfolding distinct_map inj_on_def by (simp add: h i)
  then show ?thesis
    using h assms(5) by (subst enforce_run_fresh) (auto simp: comp_def)
qed

definition sample_agents :: "(string \<times> int \<times> int) list" where
  "sample_agents = [(''a'', 0, 0), (''b'', 1, 1), (''c'', 2, 2), (''d'', 3, 3)]"

lemma rotating_user_agent_unthrottled_witness:
  "snd (enforce_run id Login_action (Some ''a@b.se'') 2
      (map (\<lambda>x. (\<lparr>am_ipAddress = ''10.0.0.1'', am_userAgent = fst x\<rparr>, snd x)) sample_agents) (\<lambda>_. None))
    = replicate (length sample_agents) True"
proof (rule rotating_user_agent_unthrottled)
  show "inj_on (\<lambda>agent. id (text_encode (bucket_text Login_action ''10.0.0.1'' (Some ''a@b.se'') agent)))
      (set (map (take 120 \<circ> js_trim \<circ> fst) sample_agents))"
    by (rule inj_onI) (auto simp: bucket_text_def dest!: text_encode_inj)
  show "normalizeIp ''10.0.0.1'' = Inr ''10.0.0.1''" by code_simp
  show "distinct (map (take 120 \<circ> js_trim \<circ> fst) sample_agents)" by code_simp
  show "\<forall>x \<in> set sample_agents. js_trim (fst x) \<noteq> [] \<and> length (js_trim (fst x)) \<le> 500" by code_simp
qed simp

end
