(* ===== verification/Auth_Broker.thy ===== *)
theory Auth_Broker
  imports Auth_Input Crypto_Encoding
begin

text \<open>
  The authentication broker (\<open>packages/auth-broker/src/index.ts\<close>): authorisation codes that
  carry a login from the broker to the host it is meant for, the host-only session cookie and the
  check of return addresses; and the SQL store of the codes
  (\<open>createAuthorizationCodeStore\<close> of \<open>production-adapters/postgres/application-session-repository.ts\<close>).

  The broker sees a store through two operations. The locale \<open>code_store\<close> states their contract: a
  usable code is marked used and a record of it returned, anything else leaves the store alone. It
  is interpreted on the SQL store and on the store of the test \<open>domain challenge and auth exchange are
  single-use and host-bound\<close> in \<open>tests/run.mjs\<close>. The two differ in the record they return: the test's store returns the row as it was,
  the SQL statement's \<open>returning\<close> the row as it is now, with \<open>used_at\<close> set.

  Times are in milliseconds; HMAC-SHA-256, random bytes and the URL parser are parameters.
\<close>

section \<open>Records\<close>

record code_record =
  cr_codeHash :: string
  cr_tenantId :: string
  cr_destinationHostname :: string
  cr_subjectId :: string
  cr_authMethod :: string
  cr_createdAt :: int
  cr_expiresAt :: int
  cr_usedAt :: "int option"
  cr_revokedAt :: "int option"

type_synonym hmac = "byte list \<Rightarrow> byte list \<Rightarrow> byte list"

definition keyed_hash :: "hmac \<Rightarrow> string \<Rightarrow> string \<Rightarrow> string" where
  "keyed_hash hmac key payload = hmacSha256Hex hmac (TextInput key) (TextInput payload)"

definition code_payload :: "string \<Rightarrow> string \<Rightarrow> string \<Rightarrow> string \<Rightarrow> string" where
  "code_payload tenantId hostname subjectId random = tenantId @ '':'' @ hostname @ '':'' @ subjectId @ '':'' @ random"

text \<open>The pattern \<open>/^[0-9a-f]{64}\.[0-9a-f]{64}$/\<close>.\<close>

definition code_pattern :: "string \<Rightarrow> bool" where
  "code_pattern s \<longleftrightarrow> length s = 129 \<and> list_all is_lower_hex (take 64 s) \<and> s ! 64 = CHR ''.'' \<and>
     list_all is_lower_hex (drop 65 s)"

section \<open>Issuing and exchanging\<close>

definition issueAuthorizationCode ::
  "(string \<Rightarrow> url_parts option) \<Rightarrow> hmac \<Rightarrow> (nat \<Rightarrow> byte list) \<Rightarrow> (code_record \<Rightarrow> 's \<Rightarrow> 's auth) \<Rightarrow> string
     \<Rightarrow> string \<times> string \<times> string \<times> string \<Rightarrow> int \<Rightarrow> int option \<Rightarrow> 's \<Rightarrow> ('s \<times> string \<times> int) auth" where
  "issueAuthorizationCode parse_url hmac random create signingKey target now validity s =
     (case target of (tenantId, hostname, subjectId, authMethod) \<Rightarrow>
       let validitySeconds = (case validity of None \<Rightarrow> 60 | Some v \<Rightarrow> v)
       in if validitySeconds < 15 \<or> validitySeconds > 120 then stop ''AUTH_CODE_VALIDITY_INVALID''
          else bindR (platformHostname parse_url hostname) (\<lambda>destinationHostname.
               bindR (mapErr (\<lambda>_. Thrown ''Tokens require at least 256 bits'') (randomToken random (NInt 32))) (\<lambda>rnd.
               let signature = keyed_hash hmac signingKey (code_payload tenantId destinationHostname subjectId rnd);
                   issued = rnd @ ''.'' @ signature;
                   expiresAt = now + validitySeconds * 1000
               in bindR (create \<lparr>cr_codeHash = keyed_hash hmac signingKey issued, cr_tenantId = tenantId,
                      cr_destinationHostname = destinationHostname, cr_subjectId = subjectId,
                      cr_authMethod = authMethod, cr_createdAt = now, cr_expiresAt = expiresAt,
                      cr_usedAt = None, cr_revokedAt = None\<rparr> s) (\<lambda>s'. Inr (s', issued, expiresAt)))))"

text \<open>The checks after \<open>consume\<close>: the code is spent whatever they say.\<close>

definition check_record ::
  "(string \<Rightarrow> url_parts option) \<Rightarrow> hmac \<Rightarrow> string \<Rightarrow> string \<Rightarrow> string \<Rightarrow> int \<Rightarrow> code_record \<Rightarrow> code_record auth" where
  "check_record parse_url hmac signingKey given destinationHostname now r =
     (if cr_revokedAt r \<noteq> None \<or> cr_usedAt r \<noteq> None then stop ''AUTH_CODE_INVALID_OR_USED''
      else if cr_expiresAt r \<le> now then stop ''AUTH_CODE_EXPIRED''
      else bindR (platformHostname parse_url destinationHostname) (\<lambda>destination.
        if cr_destinationHostname r \<noteq> destination then stop ''AUTH_CODE_DESTINATION_MISMATCH''
        else if \<not> verifyHmacSha256Hex hmac (TextInput signingKey)
               (TextInput (code_payload (cr_tenantId r) (cr_destinationHostname r) (cr_subjectId r) (take 64 given)))
               (drop 65 given)
        then stop ''AUTH_CODE_SIGNATURE_INVALID''
        else Inr r))"

definition exchangeAuthorizationCode ::
  "(string \<Rightarrow> url_parts option) \<Rightarrow> hmac \<Rightarrow> (string \<Rightarrow> int \<Rightarrow> 's \<Rightarrow> 's \<times> code_record option) \<Rightarrow> string \<Rightarrow> string
     \<Rightarrow> string \<Rightarrow> int \<Rightarrow> 's \<Rightarrow> 's \<times> code_record auth" where
  "exchangeAuthorizationCode parse_url hmac consume signingKey given destinationHostname now s =
     (if \<not> code_pattern given then (s, stop ''AUTH_CODE_INVALID'')
      else case consume (keyed_hash hmac signingKey given) now s of
        (s', None) \<Rightarrow> (s', stop ''AUTH_CODE_INVALID_OR_USED'')
      | (s', Some r) \<Rightarrow> (s', check_record parse_url hmac signingKey given destinationHostname now r))"

section \<open>The stores\<close>

type_synonym code_table = "string \<Rightarrow> code_record option"

definition code_methods :: "string list" where
  "code_methods = [''oidc'', ''saml'', ''magic_link'', ''session'']"

text \<open>The insert under the table's primary key and checks.\<close>

definition sql_create :: "(string \<Rightarrow> url_parts option) \<Rightarrow> code_record \<Rightarrow> code_table \<Rightarrow> code_table auth" where
  "sql_create parse_url r t =
     bindR (platformHostname parse_url (cr_destinationHostname r)) (\<lambda>hostname.
       if cr_authMethod r \<notin> set code_methods \<or> cr_expiresAt r \<le> cr_createdAt r \<or>
          (cr_usedAt r \<noteq> None \<and> cr_revokedAt r \<noteq> None) then Inl (Sql_state ''23514'')
       else if t (cr_codeHash r) \<noteq> None then Inl (Sql_state ''23505'')
       else Inr (t(cr_codeHash r \<mapsto> r\<lparr>cr_destinationHostname := hostname\<rparr>)))"

definition usable :: "int \<Rightarrow> code_record \<Rightarrow> bool" where
  "usable now r \<longleftrightarrow> cr_usedAt r = None \<and> cr_revokedAt r = None \<and> now < cr_expiresAt r"

definition mark_used :: "int \<Rightarrow> code_record \<Rightarrow> code_record" where
  "mark_used now r = r\<lparr>cr_usedAt := Some now\<rparr>"

definition sql_consume :: "string \<Rightarrow> int \<Rightarrow> code_table \<Rightarrow> code_table \<times> code_record option" where
  "sql_consume h now t =
     (case t h of
        None \<Rightarrow> (t, None)
      | Some r \<Rightarrow> if usable now r then (t(h \<mapsto> mark_used now r), Some (mark_used now r)) else (t, None))"

text \<open>The test's store, a \<open>Map\<close>: no key check on creation, no expiry, and the record as it was.\<close>

definition test_create :: "code_record \<Rightarrow> code_table \<Rightarrow> code_table auth" where
  "test_create r t = Inr (t(cr_codeHash r \<mapsto> r))"

definition test_consume :: "string \<Rightarrow> int \<Rightarrow> code_table \<Rightarrow> code_table \<times> code_record option" where
  "test_consume h now t =
     (case t h of
        None \<Rightarrow> (t, None)
      | Some r \<Rightarrow> if cr_usedAt r \<noteq> None then (t, None) else (t(h \<mapsto> mark_used now r), Some r))"

section \<open>The contract of a store\<close>

locale code_store =
  fixes consume :: "string \<Rightarrow> int \<Rightarrow> 's \<Rightarrow> 's \<times> code_record option"
    and row :: "'s \<Rightarrow> string \<Rightarrow> code_record option"
    and open_row :: "int \<Rightarrow> code_record \<Rightarrow> bool"
    and shown :: "int \<Rightarrow> code_record \<Rightarrow> code_record"
  assumes consume_open: "row s h = Some r \<Longrightarrow> open_row now r \<Longrightarrow>
      snd (consume h now s) = Some (shown now r) \<and> row (fst (consume h now s)) = (row s)(h \<mapsto> mark_used now r)"
    and consume_closed: "row s h = None \<or> (\<exists>r. row s h = Some r \<and> \<not> open_row now r) \<Longrightarrow> consume h now s = (s, None)"
    and used_closed: "\<not> open_row now (mark_used earlier r)"
begin

lemma consume_cases:
  obtains (got) r where "row s h = Some r" "open_row now r" "snd (consume h now s) = Some (shown now r)"
      "row (fst (consume h now s)) = (row s)(h \<mapsto> mark_used now r)"
  | (refused) "consume h now s = (s, None)"
proof (cases "row s h")
  case None
  then show thesis using refused consume_closed [of s h now] by simp
next
  case (Some r)
  then show thesis
    using refused got [of r] consume_open [of s h r now] consume_closed [of s h now] by (cases "open_row now r") auto
qed

definition spent :: "'s \<Rightarrow> string \<Rightarrow> bool" where
  "spent s h \<longleftrightarrow> (\<exists>r earlier. row s h = Some (mark_used earlier r))"

lemma consume_spends: "snd (consume h now s) = Some r \<Longrightarrow> spent (fst (consume h now s)) h"
  by (cases rule: consume_cases [of s h now]) (auto simp: spent_def)

lemma spent_refused: "spent s h \<Longrightarrow> consume h now s = (s, None)"
  using used_closed consume_closed [of s h now] by (auto simp: spent_def)

lemma spent_stays: "spent s h \<Longrightarrow> spent (fst (consume h' now s)) h"
  by (cases rule: consume_cases [of s h' now]) (auto simp: spent_def)

lemma spent_exchange:
  "spent s (keyed_hash hmac key given) \<Longrightarrow>
    \<not> is_ok (snd (exchangeAuthorizationCode parse_url hmac consume key given host now s))"
  by (simp add: exchangeAuthorizationCode_def spent_refused stop_def is_ok_def)

text \<open>One code gives at most one record, whatever is exchanged in between.\<close>

lemma exchanged_once:
  assumes "snd (exchangeAuthorizationCode parse_url hmac consume key given host now s) = Inr r"
  shows "\<not> is_ok (snd (exchangeAuthorizationCode parse_url hmac consume key given host' now'
      (foldl (\<lambda>t (h, time). fst (consume h time t)) (fst (exchangeAuthorizationCode parse_url hmac consume key given host now s)) between)))"
proof -
  let ?h = "keyed_hash hmac key given"
  let ?run = "foldl (\<lambda>t (h, time). fst (consume h time t))"
  have "spent (fst (exchangeAuthorizationCode parse_url hmac consume key given host now s)) ?h"
    using assms consume_spends [of ?h now s]
    by (auto simp: exchangeAuthorizationCode_def stop_def split: if_splits prod.splits option.splits)
  then have "spent (?run (fst (exchangeAuthorizationCode parse_url hmac consume key given host now s)) between) ?h"
    by (induction between rule: rev_induct) (auto intro: spent_stays split: prod.splits)
  then show ?thesis by (rule spent_exchange)
qed

text \<open>What an exchange of a stored, open code gives.\<close>

lemma exchange_open:
  assumes "code_pattern given" "row s (keyed_hash hmac key given) = Some r" "open_row now r"
  shows "snd (exchangeAuthorizationCode parse_url hmac consume key given host now s) =
    check_record parse_url hmac key given host now (shown now r)"
  using consume_open [OF assms(2, 3)] assms(1) by (auto simp: exchangeAuthorizationCode_def split: prod.splits)

end

interpretation sql: code_store sql_consume "\<lambda>t. t" usable mark_used
  by unfold_locales (auto simp: sql_consume_def usable_def mark_used_def)

interpretation test_double: code_store test_consume "\<lambda>t. t" "\<lambda>now r. cr_usedAt r = None" "\<lambda>now r. r"
  by unfold_locales (auto simp: test_consume_def mark_used_def)

section \<open>Cookies and return addresses\<close>

datatype session_boundary = Tenant_boundary | Platform_boundary | Applicant_boundary | Signer_boundary

fun session_cookie_names :: "session_boundary \<Rightarrow> string" where
  "session_cookie_names Tenant_boundary = ''__Host-ks_tenant_session''"
| "session_cookie_names Platform_boundary = ''__Host-ks_platform_session''"
| "session_cookie_names Applicant_boundary = ''__Host-ks_applicant_session''"
| "session_cookie_names Signer_boundary = ''__Host-ks_signer_session''"

definition buildHostOnlySessionCookie :: "session_boundary \<Rightarrow> string \<Rightarrow> bool \<Rightarrow> jsnum \<Rightarrow> string auth" where
  "buildHostOnlySessionCookie boundary token secure maxAgeSeconds =
     (if \<not> token_text 32 4096 token then stop ''SESSION_TOKEN_INVALID''
      else if \<not> is_integer_num maxAgeSeconds \<or> num_less maxAgeSeconds 60 \<or> num_greater maxAgeSeconds 86400
      then stop ''SESSION_MAX_AGE_INVALID''
      else Inr (session_cookie_names boundary @ ''='' @ encodeURIComponent token @ ''; Path=/; HttpOnly; SameSite=Lax; Max-Age='' @
             int_str (num_int maxAgeSeconds) @ (if secure then ''; Secure'' else [])))"

definition assertAllowedReturnUrl ::
  "(string \<Rightarrow> url_parts option) \<Rightarrow> string \<Rightarrow> string set \<Rightarrow> url_parts auth" where
  "assertAllowedReturnUrl parse_url returnUrl allowedHostnames =
     (case parse_url returnUrl of
        None \<Rightarrow> stop ''Invalid URL''
      | Some parsed \<Rightarrow>
          if url_protocol parsed \<noteq> ''https:'' \<or> url_username parsed \<noteq> [] \<or> url_password parsed \<noteq> [] \<or> url_port parsed \<noteq> []
          then stop ''AUTH_RETURN_URL_INVALID''
          else bindR (platformHostname parse_url (url_hostname parsed)) (\<lambda>hostname.
            if hostname \<notin> allowedHostnames then stop ''AUTH_RETURN_URL_NOT_ALLOWED'' else Inr parsed))"

text \<open>The check of a return address and the gateway's check of a credential origin accept the same.\<close>

lemma return_url_iff:
  "is_ok (assertAllowedReturnUrl parse_url u hosts) \<longleftrightarrow> isAllowedCredentialOrigin parse_url u hosts"
  by (auto simp: assertAllowedReturnUrl_def isAllowedCredentialOrigin_def platformHostname_def stop_def is_ok_def
      split: option.splits sum.splits)

section \<open>Properties\<close>

lemma keyed_hash_hex: "list_all is_lower_hex (keyed_hash hmac key payload)"
  by (simp add: keyed_hash_def hmacSha256Hex_def toHex_digits)

lemma trim_keyed_hash [simp]: "js_trim (keyed_hash hmac key payload) = keyed_hash hmac key payload"
  using keyed_hash_hex [of hmac key payload]
  by (intro js_trim_no_ws) (auto simp: list_all_iff is_lower_hex_def is_digit_def js_ws_def Let_def)

lemma hex_signature:
  assumes "\<And>k m. length (hmac k m) = 32"
  shows "verifyHmacSha256Hex hmac (TextInput key) (TextInput payload) (keyed_hash hmac key payload)"
proof -
  let ?sig = "keyed_hash hmac key payload"
  have len: "length ?sig = 64" by (simp add: keyed_hash_def hmacSha256Hex_def assms)
  have "hd ?sig \<noteq> CHR ''s''"
    using keyed_hash_hex [of hmac key payload] len by (cases ?sig) (auto simp: is_lower_hex_def is_digit_def code_def)
  then have "\<not> starts_with ''sha256='' ?sig" using len by (cases ?sig) (auto simp: starts_with_def)
  then have "normalizeSignature ?sig = ?sig" by (simp add: normalizeSignature_def Let_def)
  moreover have "fromHex ?sig = Inr (hmac (text_encode key) (text_encode payload))"
    unfolding keyed_hash_def hmacSha256Hex_def input_bytes_def using assms [of "text_encode key" "text_encode payload"]
    by (auto intro!: fromHex_toHex)
  ultimately show ?thesis
    using verifyHmac_iff [where hmac = hmac and provided = ?sig] len assms by (simp add: input_bytes_def)
qed

lemma code_pattern_issued:
  assumes "list_all is_lower_hex a" "length a = 64" "list_all is_lower_hex b" "length b = 64"
  shows "code_pattern (a @ ''.'' @ b)" "take 64 (a @ ''.'' @ b) = a" "drop 65 (a @ ''.'' @ b) = b"
  using assms by (simp_all add: code_pattern_def nth_append)

text \<open>C19. A code that the broker has issued, taken to the right host before it expires, passes every check
  on the record as it is stored; and yet the exchange over the SQL store refuses it as used and spends
  it, because the statement returns the row with the \<open>used_at\<close> it has just written.\<close>

theorem issued_code_refused_by_sql:
  assumes "\<And>n. length (random n) = n" and "\<And>k m. length (hmac k m) = 32"
    and "platformHostname parse_url canonical = Inr canonical" and "platformHostname parse_url host = Inr canonical"
    and "issueAuthorizationCode parse_url hmac random (sql_create parse_url) key (tenant, hostname, subject, method) now validity t
           = Inr (t', given, expires)"
    and "platformHostname parse_url hostname = Inr canonical" and "now' < expires"
  shows "\<exists>r. t' (keyed_hash hmac key given) = Some r \<and> check_record parse_url hmac key given host now' r = Inr r \<and>
    exchangeAuthorizationCode parse_url hmac sql_consume key given host now' t' =
      (t'(keyed_hash hmac key given \<mapsto> mark_used now' r), Inl (Thrown ''AUTH_CODE_INVALID_OR_USED''))"
proof -
  let ?rnd = "toHex (random 32)"
  let ?sig = "keyed_hash hmac key (code_payload tenant canonical subject ?rnd)"
  let ?r = "\<lparr>cr_codeHash = keyed_hash hmac key given, cr_tenantId = tenant, cr_destinationHostname = canonical,
    cr_subjectId = subject, cr_authMethod = method, cr_createdAt = now, cr_expiresAt = expires,
    cr_usedAt = None, cr_revokedAt = None\<rparr>"
  have issued: "given = ?rnd @ ''.'' @ ?sig" "t' (keyed_hash hmac key given) = Some ?r"
    using assms(3, 5, 6)
    by (auto simp: issueAuthorizationCode_def randomToken_def sql_create_def Let_def stop_def split: if_splits)
  have "list_all is_lower_hex ?sig" "length ?sig = 64"
    by (simp_all add: keyed_hash_def hmacSha256Hex_def toHex_digits assms(2))
  then have parts: "code_pattern given" "take 64 given = ?rnd" "drop 65 given = ?sig"
    using code_pattern_issued [of ?rnd ?sig] assms(1) toHex_digits unfolding issued(1) by simp_all
  have "check_record parse_url hmac key given host now' ?r = Inr ?r"
    using hex_signature [OF assms(2)] assms(4, 7) by (simp add: check_record_def parts)
  moreover have "usable now' ?r" using assms(7) by (simp add: usable_def)
  ultimately show ?thesis
    using issued(2) parts(1)
    by (auto simp: exchangeAuthorizationCode_def sql_consume_def check_record_def mark_used_def stop_def)
qed

definition sample_hmac :: hmac where
  "sample_hmac k m = take 32 (k @ m @ replicate 32 0)"

lemma issued_code_refused_by_sql_witness:
  "\<exists>t' given. (\<exists>expires. issueAuthorizationCode sample_parse_url sample_hmac (\<lambda>n. replicate n 7) (sql_create sample_parse_url) ''key''
       (''tenant'', ''sign.kommun.se'', ''subject'', ''oidc'') 0 None (\<lambda>_. None) = Inr (t', given, expires)) \<and>
     snd (exchangeAuthorizationCode sample_parse_url sample_hmac sql_consume ''key'' given ''sign.kommun.se'' 1000 t')
       = Inl (Thrown ''AUTH_CODE_INVALID_OR_USED'')"
proof -
  have host: "platformHostname sample_parse_url ''sign.kommun.se'' = Inr ''sign.kommun.se''" by code_simp
  have len: "length (sample_hmac k m) = 32" for k m by (simp add: sample_hmac_def)
  let ?issue = "issueAuthorizationCode sample_parse_url sample_hmac (\<lambda>n. replicate n 7) (sql_create sample_parse_url) ''key''
       (''tenant'', ''sign.kommun.se'', ''subject'', ''oidc'') 0 None (\<lambda>_. None)"
  obtain t' given where issue: "?issue = Inr (t', given, 60000)"
    by (simp add: issueAuthorizationCode_def host randomToken_def sql_create_def code_methods_def Let_def stop_def)
  show ?thesis
    using issued_code_refused_by_sql [OF _ len host host issue host, of 1000] issue by fastforce
qed

end
