(* ===== verification/Host_Sessions.thy ===== *)
theory Host_Sessions
  imports Auth_Input Auth_Broker Js_Number
begin

text \<open>
  The sessions of the browser applications, rows of \<open>control.host_bound_sessions\<close>, and the
  authentication of a request by such a session or by the signature of the gateway:
  \<open>createSession\<close>, \<open>session\<close>, \<open>logout\<close> and the revocation in \<open>setOrganizationUserStatus\<close>
  (\<open>production-adapters/postgres/authentication-repository.ts\<close>), the repository of
  \<open>application-session-repository.ts\<close>, and \<open>GatewayRequestAuthenticator\<close> of \<open>request-auth.ts\<close>.

  The table maps the hexadecimal digest of a token to its row. \<open>now\<close> is the database's \<open>now()\<close>, \<open>clock\<close>
  the server's \<open>Date.now()\<close>. A statement whose columns the table does not have fails with SQL state
  42703 before it touches a row; the columns are those of \<open>migrations/control/0009\<close> and \<open>0011\<close>.
  Foreign keys are not modelled.
\<close>

section \<open>The table\<close>

record session_row =
  hs_tenant :: "string option"
  hs_boundary :: session_boundary
  hs_hostname :: string
  hs_subject :: string
  hs_method :: string
  hs_csrf :: "string option"
  hs_created :: int
  hs_expires :: int
  hs_seen :: "int option"
  hs_revoked :: "int option"
  hs_version :: int

type_synonym session_table = "string \<Rightarrow> session_row option"

definition session_columns :: "string list" where
  "session_columns = [''token_hash'', ''tenant_id'', ''boundary'', ''hostname'', ''subject_id'', ''authentication_method'',
     ''created_at'', ''expires_at'', ''last_seen_at'', ''revoked_at'', ''csrf_token_hash'', ''session_version'']"

definition with_columns :: "string list \<Rightarrow> 'a auth \<Rightarrow> 'a auth" where
  "with_columns cs r = (if list_all (\<lambda>c. c \<in> set session_columns) cs then r else Inl (Sql_state ''42703''))"

text \<open>\<open>hostname = lower(rtrim(hostname,'.'))\<close> and the other checks of the table.\<close>

definition session_checks :: "session_row \<Rightarrow> bool" where
  "session_checks r \<longleftrightarrow>
     hs_created r < hs_expires r \<and>
     hs_hostname r = js_lower (rev (dropWhile (\<lambda>c. c = CHR ''.'') (rev (hs_hostname r)))) \<and>
     (hs_boundary r = Tenant_boundary \<longrightarrow> hs_tenant r \<noteq> None) \<and>
     (hs_revoked r \<noteq> None \<or> hs_method r \<noteq> ''session'' \<or> hs_csrf r \<noteq> None) \<and> 0 < hs_version r"

definition insert_session :: "string \<Rightarrow> session_row \<Rightarrow> session_table \<Rightarrow> session_table auth" where
  "insert_session h r t =
     (if \<not> session_checks r then Inl (Sql_state ''23514'')
      else if t h \<noteq> None then Inl (Sql_state ''23505'')
      else Inr (t(h \<mapsto> r)))"

definition live :: "int \<Rightarrow> session_row \<Rightarrow> bool" where
  "live now r \<longleftrightarrow> hs_revoked r = None \<and> now < hs_expires r"

text \<open>An update of the row of one token, when it satisfies the \<open>where\<close> clause.\<close>

definition update_session ::
  "string \<Rightarrow> (session_row \<Rightarrow> bool) \<Rightarrow> (session_row \<Rightarrow> session_row) \<Rightarrow> session_table \<Rightarrow> session_table \<times> session_row option" where
  "update_session h wh f t =
     (case t h of
        Some r \<Rightarrow> if wh r then (t(h \<mapsto> f r), Some (f r)) else (t, None)
      | None \<Rightarrow> (t, None))"

definition coalesce :: "'a option \<Rightarrow> 'a \<Rightarrow> 'a" where
  "coalesce x d = (case x of None \<Rightarrow> d | Some y \<Rightarrow> y)"

definition revoke_row :: "int \<Rightarrow> session_row \<Rightarrow> session_row" where
  "revoke_row now r = r\<lparr>hs_revoked := Some (coalesce (hs_revoked r) now)\<rparr>"

section \<open>The account repository\<close>

record destination =
  ds_boundary :: session_boundary
  ds_hostname :: string
  ds_tenant :: "string option"

record session_view =
  sv_sessionToken :: string
  sv_csrfToken :: string
  sv_subject :: string
  sv_destination :: destination
  sv_expires :: int
  sv_displayName :: string

definition token_hash :: "(byte list \<Rightarrow> byte list) \<Rightarrow> string \<Rightarrow> string" where
  "token_hash sha256 token = sha256Hex sha256 (TextInput token)"

definition fresh_token :: "(nat \<Rightarrow> byte list) \<Rightarrow> nat \<Rightarrow> string auth" where
  "fresh_token random n = mapErr (\<lambda>_. Thrown ''Tokens require at least 256 bits'') (randomToken random (NInt (int n)))"

definition createSession ::
  "(byte list \<Rightarrow> byte list) \<Rightarrow> (nat \<Rightarrow> byte list) \<Rightarrow> int \<Rightarrow> int \<Rightarrow> int \<Rightarrow> string \<Rightarrow> destination \<Rightarrow> string \<Rightarrow> session_table
     \<Rightarrow> (session_table \<times> session_view) auth" where
  "createSession sha256 random lifetimeSeconds now clock subjectId d displayName t =
     bindR (fresh_token random 48) (\<lambda>sessionToken.
     bindR (fresh_token random 32) (\<lambda>csrfToken.
     let expiresAt = clock + lifetimeSeconds * 1000
     in bindR (insert_session (token_hash sha256 sessionToken)
          \<lparr>hs_tenant = ds_tenant d, hs_boundary = ds_boundary d, hs_hostname = ds_hostname d, hs_subject = subjectId,
           hs_method = ''session'', hs_csrf = Some (token_hash sha256 csrfToken), hs_created = now, hs_expires = expiresAt,
           hs_seen = None, hs_revoked = None, hs_version = 1\<rparr> t) (\<lambda>t'.
        Inr (t', \<lparr>sv_sessionToken = sessionToken, sv_csrfToken = csrfToken, sv_subject = subjectId,
                  sv_destination = d, sv_expires = expiresAt, sv_displayName = displayName\<rparr>))))"

definition row_destination :: "session_row \<Rightarrow> destination" where
  "row_destination r = \<lparr>ds_boundary = hs_boundary r, ds_hostname = hs_hostname r, ds_tenant = hs_tenant r\<rparr>"

text \<open>
  The anti-forgery token is replaced in a transaction of its own, before \<open>assertSubjectAccess\<close> (the
  parameter \<open>access\<close>) is asked.
\<close>

definition session ::
  "(string \<Rightarrow> url_parts option) \<Rightarrow> (byte list \<Rightarrow> byte list) \<Rightarrow> (nat \<Rightarrow> byte list) \<Rightarrow> (string \<Rightarrow> destination \<Rightarrow> string auth)
     \<Rightarrow> int \<Rightarrow> string \<Rightarrow> string \<Rightarrow> session_table \<Rightarrow> session_table \<times> session_view auth" where
  "session parse_url sha256 random access now sessionToken origin t =
     (case bindR (validateSessionToken sessionToken) (\<lambda>token.
             bindR (platformHostname parse_url origin) (\<lambda>hostname.
             bindR (fresh_token random 32) (\<lambda>csrf. Inr (token, hostname, csrf)))) of
        Inl e \<Rightarrow> (t, Inl e)
      | Inr (token, hostname, csrf) \<Rightarrow>
          (case update_session (token_hash sha256 token) (\<lambda>r. hs_hostname r = hostname \<and> live now r)
                  (\<lambda>r. r\<lparr>hs_seen := Some now, hs_csrf := Some (token_hash sha256 csrf), hs_version := hs_version r + 1\<rparr>) t of
             (t', None) \<Rightarrow> (t', stop ''AUTH_SESSION_INVALID'')
           | (t', Some r) \<Rightarrow>
               (t', bindR (access (hs_subject r) (row_destination r)) (\<lambda>displayName.
                  Inr \<lparr>sv_sessionToken = sessionToken, sv_csrfToken = csrf, sv_subject = hs_subject r,
                       sv_destination = row_destination r, sv_expires = hs_expires r, sv_displayName = displayName\<rparr>))))"

definition logout ::
  "(string \<Rightarrow> url_parts option) \<Rightarrow> (byte list \<Rightarrow> byte list) \<Rightarrow> int \<Rightarrow> string \<Rightarrow> string \<Rightarrow> string \<Rightarrow> session_table
     \<Rightarrow> session_table \<times> unit auth" where
  "logout parse_url sha256 now sessionToken origin csrf t =
     (case bindR (validateSessionToken sessionToken) (\<lambda>token.
             bindR (platformHostname parse_url origin) (\<lambda>hostname.
             bindR (validateCsrfToken csrf) (\<lambda>csrfText.
             with_columns [''token_hash'', ''hostname'', ''csrf_token_hash'', ''revoked_at'', ''expires_at'', ''id'']
               (Inr (update_session (token_hash sha256 token)
                  (\<lambda>r. hs_hostname r = hostname \<and> hs_csrf r = Some (token_hash sha256 csrfText) \<and> live now r)
                  (revoke_row now) t))))) of
        Inl e \<Rightarrow> (t, Inl e)
      | Inr (t', None) \<Rightarrow> (t', stop ''CSRF_TOKEN_INVALID'')
      | Inr (t', Some _) \<Rightarrow> (t', Inr ()))"

text \<open>The update of a disabled account: every open session of the subject at the tenant.\<close>

definition revoke_subject :: "int \<Rightarrow> string \<Rightarrow> string \<Rightarrow> session_table \<Rightarrow> session_table" where
  "revoke_subject now tenantId subjectId t = (\<lambda>h. map_option (\<lambda>r.
     if hs_tenant r = Some tenantId \<and> hs_subject r = subjectId \<and> hs_revoked r = None then revoke_row now r else r) (t h))"

section \<open>The application session repository\<close>

record session_record =
  sr_tenant :: "string option"
  sr_boundary :: session_boundary
  sr_hostname :: string
  sr_subject :: string
  sr_method :: string
  sr_expires :: int

definition createRecord ::
  "(string \<Rightarrow> url_parts option) \<Rightarrow> (byte list \<Rightarrow> byte list) \<Rightarrow> (nat \<Rightarrow> byte list) \<Rightarrow> int \<Rightarrow> session_record \<Rightarrow> session_table
     \<Rightarrow> (session_table \<times> string) auth" where
  "createRecord parse_url sha256 random now r t =
     bindR (platformHostname parse_url (sr_hostname r)) (\<lambda>hostname.
     bindR (fresh_token random 32) (\<lambda>token.
     bindR (insert_session (token_hash sha256 token)
          \<lparr>hs_tenant = sr_tenant r, hs_boundary = sr_boundary r, hs_hostname = hostname, hs_subject = sr_subject r,
           hs_method = sr_method r, hs_csrf = None, hs_created = now, hs_expires = sr_expires r,
           hs_seen = None, hs_revoked = None, hs_version = 1\<rparr> t) (\<lambda>t'. Inr (t', token))))"

definition resolveRecord ::
  "(string \<Rightarrow> url_parts option) \<Rightarrow> (byte list \<Rightarrow> byte list) \<Rightarrow> int \<Rightarrow> string \<Rightarrow> string \<Rightarrow> session_boundary \<Rightarrow> session_table
     \<Rightarrow> session_table \<times> session_record option auth" where
  "resolveRecord parse_url sha256 now token host boundary t =
     (case platformHostname parse_url host of
        Inl e \<Rightarrow> (t, Inl e)
      | Inr hostname \<Rightarrow>
          (case update_session (token_hash sha256 token)
                  (\<lambda>r. hs_hostname r = hostname \<and> hs_boundary r = boundary \<and> live now r) (\<lambda>r. r\<lparr>hs_seen := Some now\<rparr>) t of
             (t', row) \<Rightarrow> (t', Inr (map_option (\<lambda>r. \<lparr>sr_tenant = hs_tenant r, sr_boundary = hs_boundary r,
                sr_hostname = hs_hostname r, sr_subject = hs_subject r, sr_method = hs_method r, sr_expires = hs_expires r\<rparr>) row))))"

definition revokeToken :: "(byte list \<Rightarrow> byte list) \<Rightarrow> int \<Rightarrow> string \<Rightarrow> session_table \<Rightarrow> session_table" where
  "revokeToken sha256 now token t = fst (update_session (token_hash sha256 token) (\<lambda>_. True) (revoke_row now) t)"

section \<open>Request authentication by a session\<close>

record api_request =
  ar_method :: string
  ar_header :: "string \<Rightarrow> string option"
  ar_url :: string

text \<open>\<open>toUpperCase\<close> of a request method, which is an ASCII token.\<close>

definition method_upper :: "string \<Rightarrow> string" where
  "method_upper s = map (\<lambda>c. if 97 \<le> code c \<and> code c \<le> 122 then char_of (code c - 32) else c) s"

definition mutating :: "api_request \<Rightarrow> bool" where
  "mutating rq \<longleftrightarrow> method_upper (ar_method rq) \<in> set [''POST'', ''PATCH'', ''PUT'', ''DELETE'']"

record browser_identity =
  bi_subject :: string
  bi_request :: string
  bi_tenant :: "string option"
  bi_boundary :: session_boundary

definition origin_host :: "(string \<Rightarrow> url_parts option) \<Rightarrow> api_request \<Rightarrow> string auth" where
  "origin_host parse_url rq =
     (if falsy (ar_header rq ''origin'') then stop ''AUTH_ORIGIN_REQUIRED''
      else case https_origin parse_url (the (ar_header rq ''origin'')) of
        None \<Rightarrow> stop ''AUTH_ORIGIN_INVALID''
      | Some u \<Rightarrow> mapErr (\<lambda>_. Thrown ''AUTH_ORIGIN_INVALID'') (platformHostname parse_url (url_hostname u)))"

definition trimmed_header :: "api_request \<Rightarrow> string \<Rightarrow> string" where
  "trimmed_header rq name = (case ar_header rq name of None \<Rightarrow> [] | Some v \<Rightarrow> js_trim v)"

definition request_row :: "(byte list \<Rightarrow> byte list) \<Rightarrow> session_boundary \<Rightarrow> string \<Rightarrow> api_request \<Rightarrow> int \<Rightarrow> session_row \<Rightarrow> bool" where
  "request_row sha256 boundary hostname rq now r \<longleftrightarrow>
     hs_boundary r = boundary \<and> hs_hostname r = hostname \<and> live now r \<and>
     (mutating rq \<longrightarrow> trimmed_header rq ''x-csrf-token'' \<noteq> [] \<and>
        hs_csrf r = Some (token_hash sha256 (trimmed_header rq ''x-csrf-token'')))"

text \<open>
  \<open>last_seen_at\<close> is written at most once a minute; \<open>uuid\<close> is the outcome of \<open>crypto.randomUUID()\<close>.
  The first component of the answer is the table after the statement.
\<close>

definition browserSession ::
  "(string \<Rightarrow> url_parts option) \<Rightarrow> (byte list \<Rightarrow> byte list) \<Rightarrow> string \<Rightarrow> int \<Rightarrow> api_request \<Rightarrow> session_boundary \<Rightarrow> session_table
     \<Rightarrow> session_table \<times> browser_identity option auth" where
  "browserSession parse_url sha256 uuid now rq boundary t =
     (case sessionTokenFromRequest (ar_header rq) of
        Inl e \<Rightarrow> (t, Inl e)
      | Inr None \<Rightarrow> (t, Inr None)
      | Inr (Some token) \<Rightarrow>
          if token = [] then (t, Inr None)
          else case origin_host parse_url rq of
            Inl e \<Rightarrow> (t, Inl e)
          | Inr hostname \<Rightarrow>
              (case t (token_hash sha256 token) of
                 Some r \<Rightarrow>
                   if request_row sha256 boundary hostname rq now r
                   then (t(token_hash sha256 token \<mapsto>
                            (if (case hs_seen r of None \<Rightarrow> True | Some s \<Rightarrow> s < now - 60000) then r\<lparr>hs_seen := Some now\<rparr> else r)),
                         Inr (Some \<lparr>bi_subject = hs_subject r,
                           bi_request = (if trimmed_header rq ''x-request-id'' = [] then uuid else trimmed_header rq ''x-request-id''),
                           bi_tenant = hs_tenant r, bi_boundary = hs_boundary r\<rparr>))
                   else (t, stop (if mutating rq \<and> trimmed_header rq ''x-csrf-token'' = [] then ''CSRF_TOKEN_REQUIRED'' else ''AUTH_SESSION_INVALID''))
               | None \<Rightarrow>
                   (t, stop (if mutating rq \<and> trimmed_header rq ''x-csrf-token'' = [] then ''CSRF_TOKEN_REQUIRED'' else ''AUTH_SESSION_INVALID''))))"

section \<open>Histories\<close>

text \<open>
  What never changes in a row, and what revocation fixes: every operation keeps a row of the table
  in this relation to what becomes of it.
\<close>

definition same_session :: "session_row \<Rightarrow> session_row \<Rightarrow> bool" where
  "same_session r r' \<longleftrightarrow>
     hs_tenant r' = hs_tenant r \<and> hs_boundary r' = hs_boundary r \<and> hs_hostname r' = hs_hostname r \<and>
     hs_subject r' = hs_subject r \<and> hs_expires r' = hs_expires r \<and>
     (hs_revoked r \<noteq> None \<longrightarrow> hs_revoked r' = hs_revoked r)"

definition sessions_kept :: "session_table \<Rightarrow> session_table \<Rightarrow> bool" where
  "sessions_kept t t' \<longleftrightarrow> (\<forall>h r. t h = Some r \<longrightarrow> (\<exists>r'. t' h = Some r' \<and> same_session r r'))"

lemma same_session_refl [simp]: "same_session r r"
  by (simp add: same_session_def)

lemma same_session_trans: "same_session r s \<Longrightarrow> same_session s u \<Longrightarrow> same_session r u"
  by (auto simp: same_session_def)

lemma sessions_kept_refl [simp]: "sessions_kept t t"
  by (simp add: sessions_kept_def)

lemma sessions_kept_trans: "sessions_kept t u \<Longrightarrow> sessions_kept u v \<Longrightarrow> sessions_kept t v"
  unfolding sessions_kept_def using same_session_trans by blast

text \<open>An operation with any outcome keeps the sessions of the table it leaves behind.\<close>

locale session_operation =
  fixes result :: "session_table \<Rightarrow> session_table"
  assumes kept: "sessions_kept t (result t)"
begin

lemma revoked_stays: "t h = Some r \<Longrightarrow> hs_revoked r \<noteq> None \<Longrightarrow> \<exists>r'. result t h = Some r' \<and> hs_revoked r' = hs_revoked r"
  using kept [of t] unfolding sessions_kept_def same_session_def by blast

end

definition table_after :: "session_table \<Rightarrow> (session_table \<times> 'a) auth \<Rightarrow> session_table" where
  "table_after t r = (case r of Inl _ \<Rightarrow> t | Inr (t', _) \<Rightarrow> t')"

lemma kept_insert: "insert_session h r t = Inr t' \<Longrightarrow> sessions_kept t t'"
  by (auto simp: insert_session_def sessions_kept_def split: if_splits)

lemma kept_update: "(\<And>r. same_session r (f r)) \<Longrightarrow> sessions_kept t (fst (update_session h wh f t))"
  by (auto simp: update_session_def sessions_kept_def split: option.splits)

lemma fst_case_row:
  "fst (case u of (t', None) \<Rightarrow> (t', a t') | (t', Some r) \<Rightarrow> (t', b t' r)) = fst u"
  by (cases u; cases "snd u") auto

lemma same_revoke [simp]: "same_session r (revoke_row now r)"
  by (auto simp: same_session_def revoke_row_def coalesce_def)

interpretation create_op: session_operation
  "\<lambda>t. table_after t (createSession sha256 random lifetime now clock subject d name t)"
proof unfold_locales
  fix t
  show "sessions_kept t (table_after t (createSession sha256 random lifetime now clock subject d name t))"
    by (cases "createSession sha256 random lifetime now clock subject d name t")
       (auto simp: table_after_def createSession_def bindR_Inr_iff Let_def dest: kept_insert)
qed

interpretation record_op: session_operation
  "\<lambda>t. table_after t (createRecord parse_url sha256 random now r t)"
proof unfold_locales
  fix t
  show "sessions_kept t (table_after t (createRecord parse_url sha256 random now r t))"
    by (cases "createRecord parse_url sha256 random now r t")
       (auto simp: table_after_def createRecord_def bindR_Inr_iff dest: kept_insert)
qed

interpretation session_op: session_operation
  "\<lambda>t. fst (session parse_url sha256 random access now token origin t)"
proof unfold_locales
  fix t
  have "sessions_kept t (fst (update_session h wh (\<lambda>r. r\<lparr>hs_seen := s, hs_csrf := c, hs_version := v r\<rparr>) t))" for h wh s c v
    by (rule kept_update) (simp add: same_session_def)
  then show "sessions_kept t (fst (session parse_url sha256 random access now token origin t))"
    by (auto simp: session_def fst_case_row split: sum.splits)
qed

interpretation logout_op: session_operation
  "\<lambda>t. fst (logout parse_url sha256 now token origin csrf t)"
  by unfold_locales (auto simp: logout_def with_columns_def session_columns_def bindR_def split: sum.splits)

interpretation resolve_op: session_operation
  "\<lambda>t. fst (resolveRecord parse_url sha256 now token host boundary t)"
proof unfold_locales
  fix t
  have "sessions_kept t (fst (update_session h wh (\<lambda>r. r\<lparr>hs_seen := s\<rparr>) t))" for h wh s
    by (rule kept_update) (simp add: same_session_def)
  then show "sessions_kept t (fst (resolveRecord parse_url sha256 now token host boundary t))"
    by (simp add: resolveRecord_def split_beta split: sum.splits)
qed

interpretation revoke_op: session_operation "revokeToken sha256 now token"
  by unfold_locales (simp add: revokeToken_def kept_update)

interpretation disable_op: session_operation "revoke_subject now tenant subject"
  by unfold_locales (auto simp: sessions_kept_def revoke_subject_def)

interpretation browser_op: session_operation
  "\<lambda>t. fst (browserSession parse_url sha256 uuid now rq boundary t)"
  by unfold_locales (auto simp: browserSession_def sessions_kept_def same_session_def split: sum.splits option.splits)

inductive session_step :: "session_table \<Rightarrow> session_table \<Rightarrow> bool" where
  step_create: "session_step t (table_after t (createSession sha256 random lifetime now clock subject d name t))"
| step_record: "session_step t (table_after t (createRecord parse_url sha256 random now r t))"
| step_session: "session_step t (fst (session parse_url sha256 random access now token origin t))"
| step_logout: "session_step t (fst (logout parse_url sha256 now token origin csrf t))"
| step_resolve: "session_step t (fst (resolveRecord parse_url sha256 now token host boundary t))"
| step_revoke: "session_step t (revokeToken sha256 now token t)"
| step_disable: "session_step t (revoke_subject now tenant subject t)"
| step_browser: "session_step t (fst (browserSession parse_url sha256 uuid now rq boundary t))"

lemma session_step_kept: "session_step t t' \<Longrightarrow> sessions_kept t t'"
  by (cases rule: session_step.cases, assumption)
     (use create_op.kept record_op.kept session_op.kept logout_op.kept resolve_op.kept revoke_op.kept
        disable_op.kept browser_op.kept in simp_all)

lemma session_history_kept: "session_step\<^sup>*\<^sup>* t t' \<Longrightarrow> sessions_kept t t'"
  by (induction rule: rtranclp_induct) (auto intro: sessions_kept_trans session_step_kept)

section \<open>Properties\<close>

lemma browser_session_row:
  assumes "snd (browserSession parse_url sha256 uuid now rq boundary t) = Inr (Some i)"
    and "sessionTokenFromRequest (ar_header rq) = Inr (Some token)"
  obtains r hostname where "t (token_hash sha256 token) = Some r" "origin_host parse_url rq = Inr hostname"
    "request_row sha256 boundary hostname rq now r" "bi_subject i = hs_subject r" "bi_tenant i = hs_tenant r"
    "bi_boundary i = hs_boundary r"
  using assms by (auto simp: browserSession_def stop_def split: if_splits sum.splits option.splits)

lemma created_row:
  assumes "createSession sha256 random lifetime now clock subject d name t = Inr (t', view)"
  obtains r where "t' (token_hash sha256 (sv_sessionToken view)) = Some r" "hs_tenant r = ds_tenant d"
    "hs_boundary r = ds_boundary d" "hs_hostname r = ds_hostname d" "hs_subject r = subject" "hs_expires r = sv_expires view"
    "sv_expires view = clock + lifetime * 1000" "hs_revoked r = None"
  using assms by (auto simp: createSession_def bindR_Inr_iff insert_session_def Let_def split: if_splits)

text \<open>C5. A session is bound for life: after any history of the table, a request that carries the cookie of
  a session is admitted only from the host the session was created for, at its boundary and before its
  end, and then as the subject and the tenant it was created for.\<close>

theorem session_stays_bound:
  assumes "createSession sha256 random lifetime now clock subject d name t = Inr (t1, view)"
    and "session_step\<^sup>*\<^sup>* t1 t2"
    and "sessionTokenFromRequest (ar_header rq) = Inr (Some (sv_sessionToken view))"
    and "snd (browserSession parse_url sha256 uuid now' rq boundary t2) = Inr (Some i)"
  shows "origin_host parse_url rq = Inr (ds_hostname d) \<and> boundary = ds_boundary d \<and>
    bi_subject i = subject \<and> bi_tenant i = ds_tenant d \<and> now' < clock + lifetime * 1000"
proof -
  obtain r where r: "t1 (token_hash sha256 (sv_sessionToken view)) = Some r" "hs_tenant r = ds_tenant d"
    "hs_boundary r = ds_boundary d" "hs_hostname r = ds_hostname d" "hs_subject r = subject" "hs_expires r = sv_expires view"
    "sv_expires view = clock + lifetime * 1000"
    using created_row [OF assms(1)] by metis
  obtain r' where r': "t2 (token_hash sha256 (sv_sessionToken view)) = Some r'" "same_session r r'"
    using session_history_kept [OF assms(2)] r(1) unfolding sessions_kept_def by blast
  show ?thesis
    by (rule browser_session_row [OF assms(4, 3)])
       (use r r' in \<open>auto simp: request_row_def same_session_def live_def\<close>)
qed

definition sample_destination :: destination where
  "sample_destination = \<lparr>ds_boundary = Tenant_boundary, ds_hostname = ''sign.kommun.se'', ds_tenant = Some ''tenant''\<rparr>"

definition sample_session :: "(session_table \<times> session_view) auth" where
  "sample_session = createSession (take 4) (\<lambda>n. replicate n 7) 3600 0 0 ''subject'' sample_destination ''Name'' (\<lambda>_. None)"

definition session_request :: "string \<Rightarrow> string \<Rightarrow> api_request" where
  "session_request token csrf = \<lparr>ar_method = ''post'',
     ar_header = map_of [(''cookie'', ''a=b; __Host-ks_api_session='' @ encodeURIComponent token @ ''; c=d''),
       (''origin'', ''https://sign.kommun.se''), (''x-csrf-token'', csrf), (''x-request-id'', ''request-1'')],
     ar_url = ''https://api.kommunsign.se/v1/cases''\<rparr>"

lemma sample_session_accepted:
  "(case sample_session of
      Inr (t, v) \<Rightarrow>
        sessionTokenFromRequest (ar_header (session_request (sv_sessionToken v) (sv_csrfToken v))) = Inr (Some (sv_sessionToken v)) \<and>
        snd (browserSession sample_parse_url (take 4) ''uuid'' 1000 (session_request (sv_sessionToken v) (sv_csrfToken v)) Tenant_boundary t)
          = Inr (Some \<lparr>bi_subject = ''subject'', bi_request = ''request-1'', bi_tenant = Some ''tenant'', bi_boundary = Tenant_boundary\<rparr>)
    | Inl _ \<Rightarrow> False)"
  by code_simp

lemma session_stays_bound_witness:
  "\<exists>t v i. sample_session = Inr (t, v) \<and>
     snd (browserSession sample_parse_url (take 4) ''uuid'' 1000 (session_request (sv_sessionToken v) (sv_csrfToken v)) Tenant_boundary t) = Inr (Some i) \<and>
     origin_host sample_parse_url (session_request (sv_sessionToken v) (sv_csrfToken v)) = Inr ''sign.kommun.se'' \<and> bi_subject i = ''subject''"
proof -
  obtain t v where s: "sample_session = Inr (t, v)"
    using sample_session_accepted by (auto split: sum.splits)
  note a = sample_session_accepted [unfolded s, simplified]
  from session_stays_bound [OF s [unfolded sample_session_def] rtranclp.rtrancl_refl a [THEN conjunct1] a [THEN conjunct2]] a s
  show ?thesis by (intro exI conjI) (auto simp: sample_destination_def)
qed

lemma ended_session:
  assumes "t h = Some r" and "hs_tenant r = Some tenant" and "hs_subject r = subject"
    and "session_step\<^sup>*\<^sup>* (revoke_subject now tenant subject t) t'"
  obtains r' where "t' h = Some r'" "\<not> live now' r'"
proof -
  obtain s where s: "revoke_subject now tenant subject t h = Some s" "hs_revoked s \<noteq> None"
    using assms(1-3) by (cases "hs_revoked r") (auto simp: revoke_subject_def revoke_row_def)
  then obtain r' where "t' h = Some r'" "same_session s r'"
    using session_history_kept [OF assms(4)] unfolding sessions_kept_def by blast
  with s(2) that show thesis by (auto simp: same_session_def live_def)
qed

text \<open>C6. Disabling an account ends its sessions for good: no session that the subject had at the tenant is
  accepted again, by a request, by a renewal or by the session repository, whatever happens later.\<close>

theorem disabled_sessions_stay_ended:
  assumes "t (token_hash sha256 token) = Some r" and "hs_tenant r = Some tenant" and "hs_subject r = subject"
    and "session_step\<^sup>*\<^sup>* (revoke_subject now tenant subject t) t'"
  shows "(sessionTokenFromRequest (ar_header rq) = Inr (Some token) \<longrightarrow>
      (\<forall>i. snd (browserSession parse_url sha256 uuid now' rq boundary t') \<noteq> Inr (Some i))) \<and>
    (validateSessionToken cookie = Inr token \<longrightarrow> \<not> is_ok (snd (session parse_url sha256 random access now' cookie origin t'))) \<and>
    (\<forall>x. snd (resolveRecord parse_url sha256 now' token host boundary t') \<noteq> Inr (Some x))"
proof -
  obtain r' where r': "t' (token_hash sha256 token) = Some r'" "\<not> live now' r'"
    using ended_session [OF assms] by metis
  have "snd (browserSession parse_url sha256 uuid now' rq boundary t') \<noteq> Inr (Some i)"
    if "sessionTokenFromRequest (ar_header rq) = Inr (Some token)" for i
    using browser_session_row [of parse_url sha256 uuid now' rq boundary t' i token] that r'
    by (auto simp: request_row_def)
  moreover have "\<not> is_ok (snd (session parse_url sha256 random access now' cookie origin t'))"
    if "validateSessionToken cookie = Inr token"
    using that r' by (auto simp: session_def update_session_def is_ok_def stop_def bindR_def split: sum.splits)
  moreover have "snd (resolveRecord parse_url sha256 now' token host boundary t') \<noteq> Inr (Some x)" for x
    using r' by (auto simp: resolveRecord_def update_session_def split: sum.splits)
  ultimately show ?thesis by blast
qed

lemma disabled_sessions_stay_ended_witness:
  "\<exists>t v. sample_session = Inr (t, v) \<and>
     (\<forall>i. snd (browserSession sample_parse_url (take 4) ''uuid'' 1000 (session_request (sv_sessionToken v) (sv_csrfToken v)) Tenant_boundary
        (revoke_subject 500 ''tenant'' ''subject'' t)) \<noteq> Inr (Some i))"
proof -
  obtain t v where s: "sample_session = Inr (t, v)"
    using sample_session_accepted by (auto split: sum.splits)
  note a = sample_session_accepted [unfolded s, simplified]
  obtain r where r: "t (token_hash (take 4) (sv_sessionToken v)) = Some r" "hs_tenant r = Some ''tenant''" "hs_subject r = ''subject''"
    using created_row [OF s [unfolded sample_session_def]] by (auto simp: sample_destination_def)
  show ?thesis
    using disabled_sessions_stay_ended [where t = t and t' = "revoke_subject 500 ''tenant'' ''subject'' t" and now = 500,
        OF r rtranclp.rtrancl_refl, THEN conjunct1, rule_format, OF a [THEN conjunct1]] s by blast
qed

text \<open>C13. Nobody can log out: for a well-formed token, host and anti-forgery token, whatever the table
  holds, the statement asks for a column \<open>id\<close> that the table does not have; the database refuses it, no
  session is revoked, and the answer is that the schema is outdated.\<close>

theorem logout_revokes_nothing:
  assumes "validateSessionToken cookie = Inr token" and "platformHostname parse_url origin = Inr hostname"
    and "validateCsrfToken csrf = Inr csrfText"
  shows "logout parse_url sha256 now cookie origin csrf t = (t, Inl (Sql_state ''42703'')) \<and>
    safeKnown (Sql_state ''42703'') = (''DATABASE_SCHEMA_OUTDATED'', 503)"
  using assms by (simp add: logout_def with_columns_def session_columns_def)

lemma logout_revokes_nothing_witness:
  "\<exists>t v. sample_session = Inr (t, v) \<and>
     logout sample_parse_url (take 4) 1000 (sv_sessionToken v) ''sign.kommun.se'' (sv_csrfToken v) t = (t, Inl (Sql_state ''42703''))"
proof -
  obtain t v where s: "sample_session = Inr (t, v)"
    using sample_session_accepted by (auto split: sum.splits)
  have "(case sample_session of Inr (t, v) \<Rightarrow> validateSessionToken (sv_sessionToken v) = Inr (sv_sessionToken v) \<and>
      validateCsrfToken (sv_csrfToken v) = Inr (sv_csrfToken v) | Inl _ \<Rightarrow> False)"
    by code_simp
  then have v: "validateSessionToken (sv_sessionToken v) = Inr (sv_sessionToken v)" "validateCsrfToken (sv_csrfToken v) = Inr (sv_csrfToken v)"
    by (simp_all add: s)
  have "platformHostname sample_parse_url ''sign.kommun.se'' = Inr ''sign.kommun.se''" by code_simp
  from logout_revokes_nothing [OF v(1) this v(2)] s show ?thesis by blast
qed

end
