(* ===== verification/Request_Auth.thy ===== *)
theory Request_Auth
  imports Host_Sessions Tenant_Gateway
begin

text \<open>
  Who a request acts for: \<open>GatewayRequestAuthenticator\<close> of
  \<open>production-adapters/postgres/request-auth.ts\<close>. A request with a session cookie is authenticated by its
  session (\<open>Host_Sessions\<close>), any other by the signature of the gateway over its audience, method, path, host and
  identity headers; a tenant request without a session takes its tenant from the host resolver
  (\<open>Tenant_Gateway\<close>). The platform roles found with the context are remembered per request.

  The main facts: a signature stands for one message, the tenant is that of the signed host as long as the proxy
  is trusted and otherwise not bound to it, and the memo of the roles never exceeds its ceiling.
\<close>

section \<open>The gateway's signature\<close>

definition gateway_methods :: "string list" where
  "gateway_methods = [''oidc'', ''saml'', ''oauth2_client_credentials'', ''mtls'', ''session'', ''magic_link'', ''worker'', ''trusted_service'']"

definition requiredHeader :: "api_request \<Rightarrow> string \<Rightarrow> string auth" where
  "requiredHeader rq name =
     (let v = trimmed_header rq name in if v = [] then stop (''GATEWAY_HEADER_MISSING:'' @ name) else Inr v)"

fun audience_text :: "session_boundary \<Rightarrow> string" where
  "audience_text Tenant_boundary = ''tenant''"
| "audience_text Platform_boundary = ''platform''"
| "audience_text Applicant_boundary = ''applicant''"
| "audience_text Signer_boundary = ''signer''"

definition signed_host :: "api_request \<Rightarrow> url_parts \<Rightarrow> string" where
  "signed_host rq url = js_lower
     (case ar_header rq ''x-forwarded-host'' of
        Some v \<Rightarrow> js_trim (takeWhile (\<lambda>c. c \<noteq> CHR '','') v)
      | None \<Rightarrow> (case ar_header rq ''host'' of Some v \<Rightarrow> v | None \<Rightarrow> url_host url))"

definition newline_char :: char where
  "newline_char = char_of (10 :: nat)"

fun join_lines :: "string list \<Rightarrow> string" where
  "join_lines [] = []"
| "join_lines [x] = x"
| "join_lines (x # xs) = x @ newline_char # join_lines xs"

record gateway_identity =
  gi_subject :: string
  gi_request :: string
  gi_method :: string

definition signed_parts :: "session_boundary \<Rightarrow> api_request \<Rightarrow> url_parts \<Rightarrow> string list" where
  "signed_parts audience rq url =
     [audience_text audience, method_upper (ar_method rq), url_pathname url, signed_host rq url,
      trimmed_header rq ''x-kommunsign-subject-id'', trimmed_header rq ''x-request-id'',
      trimmed_header rq ''x-kommunsign-auth-method'', trimmed_header rq ''x-kommunsign-gateway-timestamp'']"

text \<open>\<open>now\<close> in milliseconds, \<open>skew\<close> in seconds.\<close>

definition verifyGatewayIdentity ::
  "(string \<Rightarrow> url_parts option) \<Rightarrow> hmac \<Rightarrow> string \<Rightarrow> int \<Rightarrow> int \<Rightarrow> api_request \<Rightarrow> session_boundary \<Rightarrow> gateway_identity auth" where
  "verifyGatewayIdentity parse_url hmac key skew now rq audience =
     bindR (requiredHeader rq ''x-kommunsign-subject-id'') (\<lambda>subjectId.
     bindR (requiredHeader rq ''x-request-id'') (\<lambda>requestId.
     bindR (requiredHeader rq ''x-kommunsign-gateway-timestamp'') (\<lambda>timestamp.
     bindR (requiredHeader rq ''x-kommunsign-gateway-signature'') (\<lambda>signature.
     bindR (requiredHeader rq ''x-kommunsign-auth-method'') (\<lambda>authMethod.
     if authMethod \<notin> set gateway_methods then stop ''GATEWAY_AUTH_METHOD_INVALID''
     else if \<not> is_uuid_text subjectId \<or> \<not> is_uuid_text requestId then stop ''GATEWAY_IDENTITY_FORMAT_INVALID''
     else if \<not> is_integer_num (js_number timestamp) then stop ''GATEWAY_TIMESTAMP_INVALID''
     else if skew < \<bar>now div 1000 - num_int (js_number timestamp)\<bar> then stop ''GATEWAY_SIGNATURE_EXPIRED''
     else case parse_url (ar_url rq) of
         None \<Rightarrow> stop ''Invalid URL''
       | Some url \<Rightarrow>
           if verifyHmacSha256Hex hmac (TextInput key) (TextInput (join_lines (signed_parts audience rq url))) signature
           then Inr \<lparr>gi_subject = subjectId, gi_request = requestId, gi_method = authMethod\<rparr>
           else stop ''GATEWAY_SIGNATURE_INVALID'')))))"

section \<open>The tenant of a request\<close>

definition resolver_request :: "api_request \<Rightarrow> http_request" where
  "resolver_request rq = \<lparr>rq_header = ar_header rq, rq_url = ar_url rq\<rparr>"

fun resolution_cause :: "resolution_error \<Rightarrow> auth_cause" where
  "resolution_cause Tenant_domain_not_found = Thrown ''TENANT_DOMAIN_NOT_FOUND''"
| "resolution_cause Misdirected_request = Thrown ''MISDIRECTED_REQUEST''"
| "resolution_cause Unverified_forwarded_host = Thrown ''UNVERIFIED_FORWARDED_HOST''"
| "resolution_cause Host_header_invalid = Thrown ''HOST_HEADER_INVALID''"

record auth_world =
  aw_parse_url :: "string \<Rightarrow> url_parts option"
  aw_sha256 :: "byte list \<Rightarrow> byte list"
  aw_hmac :: hmac
  aw_key :: string
  aw_skew :: int
  aw_uuid :: string
  aw_options :: resolver_options
  aw_domains :: "string \<Rightarrow> resolved_domain option"

text \<open>\<open>clock\<close> is the server's time, at which the resolver reads and writes its cache too.\<close>

definition resolveTenantContext ::
  "auth_world \<Rightarrow> int \<Rightarrow> int \<Rightarrow> api_request \<Rightarrow> session_table \<times> resolver_state
     \<Rightarrow> (session_table \<times> resolver_state) \<times> tenant_context auth" where
  "resolveTenantContext w now clock rq st =
     (case browserSession (aw_parse_url w) (aw_sha256 w) (aw_uuid w) now rq Tenant_boundary (fst st) of
        (t, Inl e) \<Rightarrow> ((t, snd st), Inl e)
      | (t, Inr (Some b)) \<Rightarrow>
          ((t, snd st),
           if falsy (bi_tenant b) then stop ''AUTH_TENANT_CONTEXT_MISSING''
           else Inr \<lparr>tc_tenantId = the (bi_tenant b), tc_source = Membership, tc_subjectId = bi_subject b,
                     tc_requestId = bi_request b, tc_authMethod = ''session''\<rparr>)
      | (t, Inr None) \<Rightarrow>
          (case verifyGatewayIdentity (aw_parse_url w) (aw_hmac w) (aw_key w) (aw_skew w) clock rq Tenant_boundary of
             Inl e \<Rightarrow> ((t, snd st), Inl e)
           | Inr i \<Rightarrow>
               (case resolve (aw_parse_url w) (aw_domains w) (aw_options w) clock clock (resolver_request rq)
                       (Some (gi_request i)) (snd st) of
                  (rs, Inl e) \<Rightarrow> ((t, rs), Inl (resolution_cause e))
                | (rs, Inr domain) \<Rightarrow>
                    ((t, rs), Inr (createTenantContextFromDomain domain (gi_subject i) (gi_request i) (gi_method i))))))"

section \<open>The platform context and its roles\<close>

definition platform_role_keys :: "string list" where
  "platform_role_keys = [''platform_super_admin'', ''platform_security_admin'', ''platform_operations'',
     ''platform_support'', ''platform_auditor'', ''onboarding_manager'', ''onboarding_case_worker'',
     ''commercial_reviewer'', ''legal_reviewer'', ''security_reviewer'', ''technical_reviewer'',
     ''provisioning_operator'', ''activation_approver'']"

definition filterPlatformRoles :: "string list \<Rightarrow> string list" where
  "filterPlatformRoles keys = filter (\<lambda>k. k \<in> set platform_role_keys) keys"

text \<open>A subject of \<open>control.platform_subjects\<close>: whether it is active, and its unrevoked roles.\<close>

type_synonym platform_directory = "string \<Rightarrow> (bool \<times> string list) option"

type_synonym role_memo = "((string \<times> string) \<times> string list) list"

definition maximum_memoised :: nat where
  "maximum_memoised = 512"

text \<open>\<open>Map.set\<close>: an existing key keeps its place. A key joins its identifiers with NULs, which no header value has.\<close>

fun memo_set :: "'k \<Rightarrow> 'v \<Rightarrow> ('k \<times> 'v) list \<Rightarrow> ('k \<times> 'v) list" where
  "memo_set k v [] = [(k, v)]"
| "memo_set k v ((k', v') # m) = (if k' = k then (k, v) # m else (k', v') # memo_set k v m)"

text \<open>\<open>set\<close> and the eviction of the oldest entry, which both memos share.\<close>

definition memo_put :: "'k \<Rightarrow> 'v \<Rightarrow> ('k \<times> 'v) list \<Rightarrow> ('k \<times> 'v) list" where
  "memo_put k v m = (let m' = memo_set k v m in if length m' > maximum_memoised then tl m' else m')"

definition rememberPlatformRoles :: "string \<Rightarrow> string \<Rightarrow> string list \<Rightarrow> role_memo \<Rightarrow> role_memo" where
  "rememberPlatformRoles requestId subjectId roles m = memo_put (requestId, subjectId) roles m"

definition resolvePlatformContext ::
  "auth_world \<Rightarrow> platform_directory \<Rightarrow> int \<Rightarrow> int \<Rightarrow> api_request \<Rightarrow> session_table \<times> role_memo
     \<Rightarrow> (session_table \<times> role_memo) \<times> (string \<times> string) auth" where
  "resolvePlatformContext w directory now clock rq st =
     (case browserSession (aw_parse_url w) (aw_sha256 w) (aw_uuid w) now rq Platform_boundary (fst st) of
        (t, Inl e) \<Rightarrow> ((t, snd st), Inl e)
      | (t, Inr browser) \<Rightarrow>
          (case (case browser of
                   Some b \<Rightarrow> Inr (bi_subject b, bi_request b)
                 | None \<Rightarrow> bindR (verifyGatewayIdentity (aw_parse_url w) (aw_hmac w) (aw_key w) (aw_skew w) clock rq Platform_boundary)
                     (\<lambda>i. Inr (gi_subject i, gi_request i))) of
             Inl e \<Rightarrow> ((t, snd st), Inl e)
           | Inr (subjectId, requestId) \<Rightarrow>
               (case directory subjectId of
                  Some (True, keys) \<Rightarrow>
                    ((t, rememberPlatformRoles requestId subjectId (filterPlatformRoles keys) (snd st)), Inr (subjectId, requestId))
                | _ \<Rightarrow> ((t, snd st), stop ''PLATFORM_SUBJECT_NOT_PROVISIONED''))))"

definition platformRoles :: "platform_directory \<Rightarrow> role_memo \<Rightarrow> string \<times> string \<Rightarrow> string list" where
  "platformRoles directory m ctx =
     (case map_of m (snd ctx, fst ctx) of
        Some roles \<Rightarrow> roles
      | None \<Rightarrow> filterPlatformRoles (case directory (fst ctx) of Some (_, keys) \<Rightarrow> keys | None \<Rightarrow> []))"

section \<open>The roles of a tenant request\<close>

text \<open>
  \<open>createRoleMemo\<close> of \<open>postgres/index.ts\<close>: one entry per request identifier, tenant and subject. The entry is set
  before the lookup ends, and taken out again when it fails. \<open>load\<close> is \<open>rolesForSubject\<close>.
\<close>

type_synonym tenant_memo = "((string \<times> string \<times> string) \<times> string list) list"

definition memo_key :: "tenant_context \<Rightarrow> string \<times> string \<times> string" where
  "memo_key ctx = (tc_requestId ctx, tc_tenantId ctx, tc_subjectId ctx)"

definition rolesForRequest ::
  "(tenant_context \<Rightarrow> string list auth) \<Rightarrow> tenant_context \<Rightarrow> tenant_memo \<Rightarrow> tenant_memo \<times> string list auth" where
  "rolesForRequest load ctx m =
     (case map_of m (memo_key ctx) of
        Some roles \<Rightarrow> (m, Inr roles)
      | None \<Rightarrow>
          (case load ctx of
             Inr roles \<Rightarrow> (memo_put (memo_key ctx) roles m, Inr roles)
           | Inl e \<Rightarrow> (filter (\<lambda>x. fst x \<noteq> memo_key ctx) (memo_put (memo_key ctx) [] m), Inl e)))"

section \<open>The memo\<close>

lemma memo_set_lookup [simp]: "map_of (memo_set k v m) = (map_of m)(k \<mapsto> v)"
  by (induction k v m rule: memo_set.induct) auto

lemma memo_set_keys: "map fst (memo_set k v m) = (if k \<in> fst ` set m then map fst m else map fst m @ [k])"
  by (induction k v m rule: memo_set.induct) auto

lemma memo_set_length: "length (memo_set k v m) = (if k \<in> fst ` set m then length m else Suc (length m))"
  using arg_cong [OF memo_set_keys, of length k v m] by (simp split: if_splits)

lemma memo_bounded: "length m \<le> maximum_memoised \<Longrightarrow> length (memo_put k v m) \<le> maximum_memoised"
  by (simp add: memo_put_def Let_def memo_set_length)

lemma memo_remembers:
  assumes "length m \<le> maximum_memoised" "distinct (map fst m)"
  shows "map_of (memo_put k v m) k = Some v \<and> distinct (map fst (memo_put k v m))"
proof -
  let ?m = "memo_set k v m"
  have d: "distinct (map fst ?m)" using assms(2) by (simp add: memo_set_keys)
  show ?thesis
  proof (cases "length ?m > maximum_memoised")
    case True
    then have new: "k \<notin> fst ` set m" and full: "length m = maximum_memoised"
      using assms(1) by (auto simp: memo_set_length split: if_splits)
    then obtain a m' where m: "m = a # m'" by (cases m) (auto simp: maximum_memoised_def)
    with new have "?m = a # memo_set k v m'" by (cases a) auto
    with True d show ?thesis by (simp add: memo_put_def)
  next
    case False
    then show ?thesis using d by (simp add: memo_put_def)
  qed
qed

text \<open>Both memos are bounded maps, in every history.\<close>

definition memo_ok :: "('k \<times> 'v) list \<Rightarrow> bool" where
  "memo_ok m \<longleftrightarrow> length m \<le> maximum_memoised \<and> distinct (map fst m)"

lemma memo_ok_put: "memo_ok m \<Longrightarrow> memo_ok (memo_put k v m)"
  using memo_bounded [of m k v] memo_remembers [of m k v] by (simp add: memo_ok_def)

lemma memo_ok_roles: "memo_ok m \<Longrightarrow> memo_ok (fst (rolesForRequest load ctx m))"
proof -
  assume m: "memo_ok m"
  have f: "memo_ok (filter P m')" if "memo_ok m'" for P and m' :: tenant_memo
    using that le_trans [OF length_filter_le [of P m']] by (auto simp: memo_ok_def distinct_map_filter)
  then show ?thesis
    by (simp add: rolesForRequest_def m memo_ok_put f split: option.splits sum.splits)
qed

section \<open>The signed message\<close>

lemma join_lines_inj:
  assumes "list_all (\<lambda>x. newline_char \<notin> set x) xs" "list_all (\<lambda>x. newline_char \<notin> set x) ys"
    and "length xs = length ys" and "join_lines xs = join_lines ys"
  shows "xs = ys"
  using assms
proof (induction xs arbitrary: ys)
  case (Cons x xs)
  then obtain y ys' where ys: "ys = y # ys'" by (cases ys) auto
  show ?case
  proof (cases xs)
    case Nil
    then show ?thesis using Cons.prems ys by auto
  next
    case (Cons x' xs')
    obtain y' ys'' where y: "ys' = y' # ys''" using Cons.prems(3) ys Cons by (cases ys') auto
    have eq: "x @ newline_char # join_lines xs = y @ newline_char # join_lines ys'"
      using Cons.prems(4) by (simp add: ys Cons y)
    have "takeWhile (\<lambda>c. c \<noteq> newline_char) (u @ newline_char # v) = u" if "newline_char \<notin> set u" for u v
      using that by (induction u) auto
    then have "x = y" using eq Cons.prems(1, 2) ys by (metis list.pred_inject(2))
    with eq Cons.IH [of ys'] Cons.prems ys show ?thesis by simp
  qed
qed simp

lemma js_ws_lower [simp]: "js_ws (lower_char c) = js_ws c"
proof -
  have "code c < 256" by (rule code_less)
  then show ?thesis by (auto simp: js_ws_def lower_char_def Let_def code_char_of)
qed

lemma js_trim_lower: "js_trim (js_lower s) = js_lower (js_trim s)"
  by (simp add: js_trim_def js_lower_def rev_map dropWhile_map comp_def)

lemma stripPort_lower: "stripPort (js_lower s) = stripPort s"
  by (simp add: stripPort_def js_trim_lower)

text \<open>With a trusted proxy, the host that the resolver reads is the signed one.\<close>

lemma resolved_host_is_signed:
  assumes "ro_trustProxy options" "parse_url (ar_url rq) = Some url" "signed_host rq url \<noteq> []"
    and "resolveRequestHostname parse_url (resolver_request rq) options = Inr h"
  shows "bindR (stripPort (signed_host rq url)) (\<lambda>v. mapErr (\<lambda>_. Host_header_invalid) (canonicalHostname parse_url True v)) = Inr h"
proof (cases "ar_header rq ''x-forwarded-host''")
  case None
  then show ?thesis
    using assms by (cases "ar_header rq ''host''")
      (auto simp: resolveRequestHostname_def resolver_request_def signed_host_def stripPort_lower Let_def bindR_Inr_iff split: if_splits)
next
  case (Some v)
  then have "v \<noteq> []" "js_trim (takeWhile (\<lambda>c. c \<noteq> CHR '','') v) \<noteq> []"
    using assms(3) by (auto simp: signed_host_def)
  then show ?thesis
    using assms Some
    by (auto simp: resolveRequestHostname_def resolver_request_def signed_host_def stripPort_lower Let_def split: if_splits)
qed

section \<open>Properties\<close>

lemma gateway_accepted:
  assumes "verifyGatewayIdentity parse_url hmac key skew now rq audience = Inr i"
  obtains url where "parse_url (ar_url rq) = Some url"
    "verifyHmacSha256Hex hmac (TextInput key) (TextInput (join_lines (signed_parts audience rq url)))
       (trimmed_header rq ''x-kommunsign-gateway-signature'')"
    "gi_subject i = trimmed_header rq ''x-kommunsign-subject-id''" "gi_request i = trimmed_header rq ''x-request-id''"
    "gi_method i = trimmed_header rq ''x-kommunsign-auth-method''"
    "\<bar>now div 1000 - num_int (js_number (trimmed_header rq ''x-kommunsign-gateway-timestamp''))\<bar> \<le> skew"
  using assms
  by (auto simp: verifyGatewayIdentity_def requiredHeader_def bindR_Inr_iff stop_def Let_def split: if_splits option.splits)

text \<open>A header value and the path of a parsed URL have no line break.\<close>

definition line_free :: "session_boundary \<Rightarrow> api_request \<Rightarrow> url_parts \<Rightarrow> bool" where
  "line_free audience rq url \<longleftrightarrow> list_all (\<lambda>x. newline_char \<notin> set x) (signed_parts audience rq url)"

text \<open>A gateway signature stands for one request: two requests that are accepted with the same signature
  agree in audience, method, path, host, subject, request identifier, login method and time stamp, as
  long as the HMAC of the key has no collision between their messages.\<close>

theorem gateway_signature_commits:
  assumes "\<And>k m. length (hmac k m) = 32"
    and "\<And>url1 url2. parse_url (ar_url rq1) = Some url1 \<Longrightarrow> parse_url (ar_url rq2) = Some url2 \<Longrightarrow>
      line_free a1 rq1 url1 \<and> line_free a2 rq2 url2 \<and>
      inj_on (\<lambda>m. hmac (text_encode key) (text_encode m)) {join_lines (signed_parts a1 rq1 url1), join_lines (signed_parts a2 rq2 url2)}"
    and "verifyGatewayIdentity parse_url hmac key skew now rq1 a1 = Inr i1"
    and "verifyGatewayIdentity parse_url hmac key skew now' rq2 a2 = Inr i2"
    and "trimmed_header rq1 ''x-kommunsign-gateway-signature'' = trimmed_header rq2 ''x-kommunsign-gateway-signature''"
    and "length (trimmed_header rq1 ''x-kommunsign-gateway-signature'') < 2 ^ 32"
  shows "\<exists>url1 url2. parse_url (ar_url rq1) = Some url1 \<and> parse_url (ar_url rq2) = Some url2 \<and>
    signed_parts a1 rq1 url1 = signed_parts a2 rq2 url2 \<and> i1 = i2"
proof -
  obtain url1 where u1: "parse_url (ar_url rq1) = Some url1"
    and v1: "verifyHmacSha256Hex hmac (TextInput key) (TextInput (join_lines (signed_parts a1 rq1 url1)))
       (trimmed_header rq1 ''x-kommunsign-gateway-signature'')"
    and i1: "gi_subject i1 = trimmed_header rq1 ''x-kommunsign-subject-id''" "gi_request i1 = trimmed_header rq1 ''x-request-id''"
      "gi_method i1 = trimmed_header rq1 ''x-kommunsign-auth-method''"
    using gateway_accepted [OF assms(3)] by metis
  obtain url2 where u2: "parse_url (ar_url rq2) = Some url2"
    and v2: "verifyHmacSha256Hex hmac (TextInput key) (TextInput (join_lines (signed_parts a2 rq2 url2)))
       (trimmed_header rq2 ''x-kommunsign-gateway-signature'')"
    and i2: "gi_subject i2 = trimmed_header rq2 ''x-kommunsign-subject-id''" "gi_request i2 = trimmed_header rq2 ''x-request-id''"
      "gi_method i2 = trimmed_header rq2 ''x-kommunsign-auth-method''"
    using gateway_accepted [OF assms(4)] by metis
  have h: "hmac (text_encode key) (text_encode (join_lines (signed_parts a1 rq1 url1))) =
      hmac (text_encode key) (text_encode (join_lines (signed_parts a2 rq2 url2)))"
    using v1 v2 assms(5, 6) by (simp add: verifyHmac_iff [OF assms(1)] input_bytes_def)
  note free = assms(2) [OF u1 u2]
  have eq: "join_lines (signed_parts a1 rq1 url1) = join_lines (signed_parts a2 rq2 url2)"
    by (rule inj_onD [OF free [THEN conjunct2, THEN conjunct2] h]) simp_all
  have "length (signed_parts a1 rq1 url1) = length (signed_parts a2 rq2 url2)" by (simp add: signed_parts_def)
  with eq have parts: "signed_parts a1 rq1 url1 = signed_parts a2 rq2 url2"
    using free join_lines_inj [of "signed_parts a1 rq1 url1" "signed_parts a2 rq2 url2"] unfolding line_free_def by blast
  then have "i1 = i2" using i1 i2 by (simp add: signed_parts_def)
  with u1 u2 parts show ?thesis by blast
qed

definition sample_uuid_text :: string where
  "sample_uuid_text = ''00000000-0000-0000-0000-000000000001''"

definition gateway_payload :: string where
  "gateway_payload = join_lines [''tenant'', ''GET'', ''/'', ''sign.kommun.se:443'', sample_uuid_text, sample_uuid_text, ''oidc'', ''1000'']"

definition gateway_request :: api_request where
  "gateway_request = \<lparr>ar_method = ''get'',
     ar_header = map_of [(''host'', ''Sign.kommun.se:443''), (''x-kommunsign-subject-id'', sample_uuid_text), (''x-request-id'', sample_uuid_text),
       (''x-kommunsign-auth-method'', ''oidc''), (''x-kommunsign-gateway-timestamp'', ''1000''),
       (''x-kommunsign-gateway-signature'', keyed_hash sample_hmac ''key'' gateway_payload)],
     ar_url = ''https://sign.kommun.se''\<rparr>"

lemma gateway_request_headers [simp]:
  "trimmed_header gateway_request ''x-kommunsign-subject-id'' = sample_uuid_text"
  "trimmed_header gateway_request ''x-request-id'' = sample_uuid_text"
  "trimmed_header gateway_request ''x-kommunsign-auth-method'' = ''oidc''"
  "trimmed_header gateway_request ''x-kommunsign-gateway-timestamp'' = ''1000''"
  "trimmed_header gateway_request ''x-kommunsign-gateway-signature'' = keyed_hash sample_hmac ''key'' gateway_payload"
proof -
  have "js_trim sample_uuid_text = sample_uuid_text" "js_trim ''oidc'' = ''oidc''" "js_trim ''1000'' = ''1000''" by code_simp+
  then show "trimmed_header gateway_request ''x-kommunsign-subject-id'' = sample_uuid_text"
    "trimmed_header gateway_request ''x-request-id'' = sample_uuid_text"
    "trimmed_header gateway_request ''x-kommunsign-auth-method'' = ''oidc''"
    "trimmed_header gateway_request ''x-kommunsign-gateway-timestamp'' = ''1000''"
    "trimmed_header gateway_request ''x-kommunsign-gateway-signature'' = keyed_hash sample_hmac ''key'' gateway_payload"
    by (simp_all add: trimmed_header_def gateway_request_def)
qed

lemma gateway_request_url:
  "\<exists>u. sample_parse_url (ar_url gateway_request) = Some u \<and> signed_host gateway_request u = ''sign.kommun.se:443'' \<and>
     join_lines (signed_parts Tenant_boundary gateway_request u) = gateway_payload \<and> line_free Tenant_boundary gateway_request u"
proof -
  have h: "js_lower ''Sign.kommun.se:443'' = ''sign.kommun.se:443''" "method_upper ''get'' = ''GET''" by code_simp+
  have "newline_char \<notin> set sample_uuid_text" by code_simp
  moreover have "newline_char \<notin> set ''sign.kommun.se:443''" "newline_char \<notin> set ''tenant''" "newline_char \<notin> set ''GET''"
    "newline_char \<notin> set ''/''" "newline_char \<notin> set ''oidc''" "newline_char \<notin> set ''1000''" by code_simp+
  ultimately show ?thesis
    by (simp add: sample_parse_url_def line_free_def signed_parts_def gateway_payload_def)
       (simp add: gateway_request_def signed_host_def h)
qed

lemma gateway_request_accepted:
  "verifyGatewayIdentity sample_parse_url sample_hmac ''key'' 60 1020000 gateway_request Tenant_boundary =
     Inr \<lparr>gi_subject = sample_uuid_text, gi_request = sample_uuid_text, gi_method = ''oidc''\<rparr>"
proof -
  obtain u where u: "sample_parse_url (ar_url gateway_request) = Some u"
    "join_lines (signed_parts Tenant_boundary gateway_request u) = gateway_payload"
    using gateway_request_url by blast
  have "verifyHmacSha256Hex sample_hmac (TextInput ''key'') (TextInput gateway_payload) (keyed_hash sample_hmac ''key'' gateway_payload)"
    by (rule hex_signature) (simp add: sample_hmac_def)
  moreover have "js_number ''1000'' = NInt 1000"
    by (subst js_number_digits) (simp_all add: is_digit_def num_of_def digit_val_def code_def max_safe_integer_def)
  moreover have "is_uuid_text sample_uuid_text" "sample_uuid_text \<noteq> []" by code_simp+
  moreover have "keyed_hash sample_hmac ''key'' gateway_payload \<noteq> []"
  proof -
    have "length (sample_hmac k m) = 32" for k m by (simp add: sample_hmac_def)
    then have "sample_hmac k m \<noteq> []" for k m by (metis list.size(3) zero_neq_numeral)
    then show ?thesis by (simp add: keyed_hash_def hmacSha256Hex_def)
  qed
  ultimately show ?thesis
    using u by (simp add: verifyGatewayIdentity_def requiredHeader_def gateway_methods_def)
qed

lemma gateway_signature_commits_witness:
  "\<exists>url1 url2. sample_parse_url (ar_url gateway_request) = Some url1 \<and> sample_parse_url (ar_url gateway_request) = Some url2 \<and>
    signed_parts Tenant_boundary gateway_request url1 = signed_parts Tenant_boundary gateway_request url2 \<and>
    verifyGatewayIdentity sample_parse_url sample_hmac ''key'' 60 1020000 gateway_request Tenant_boundary =
      verifyGatewayIdentity sample_parse_url sample_hmac ''key'' 60 1020000 gateway_request Tenant_boundary"
proof -
  have len: "length (sample_hmac k m) = 32" for k m by (simp add: sample_hmac_def)
  have short: "length (trimmed_header gateway_request ''x-kommunsign-gateway-signature'') < 2 ^ 32"
    by (simp add: keyed_hash_def hmacSha256Hex_def len)
  obtain u where u: "sample_parse_url (ar_url gateway_request) = Some u" "line_free Tenant_boundary gateway_request u"
    using gateway_request_url by blast
  have "\<exists>url1 url2. sample_parse_url (ar_url gateway_request) = Some url1 \<and> sample_parse_url (ar_url gateway_request) = Some url2 \<and>
    signed_parts Tenant_boundary gateway_request url1 = signed_parts Tenant_boundary gateway_request url2 \<and>
    \<lparr>gi_subject = sample_uuid_text, gi_request = sample_uuid_text, gi_method = ''oidc''\<rparr> =
      \<lparr>gi_subject = sample_uuid_text, gi_request = sample_uuid_text, gi_method = ''oidc''\<rparr>"
    by (rule gateway_signature_commits [OF len _ gateway_request_accepted gateway_request_accepted refl short])
       (use u in \<open>auto simp: inj_on_def\<close>)
  then show ?thesis by blast
qed


definition sample_world :: "bool \<Rightarrow> auth_world" where
  "sample_world trust = \<lparr>aw_parse_url = sample_parse_url, aw_sha256 = take 4, aw_hmac = sample_hmac, aw_key = ''key'', aw_skew = 60,
     aw_uuid = ''uuid'',
     aw_options = \<lparr>ro_trustProxy = trust, ro_provider = No_provider, ro_requireVerified = True, ro_cacheTtlMs = None\<rparr>,
     aw_domains = (\<lambda>h. Some \<lparr>rd_domainId = ''d'', rd_tenantId = ''tenant-of-'' @ h, rd_environmentId = ''e'',
        rd_environment = Production_environment, rd_dataPlaneId = ''p'', rd_hostname = h, rd_primaryHostname = h,
        rd_defaultHostname = h, rd_brandingVersion = None, rd_status = ''active''\<rparr>)\<rparr>"

definition idle_resolver :: resolver_state where
  "idle_resolver = \<lparr>rs_cache = (\<lambda>_. None), rs_events = []\<rparr>"

lemma gateway_request_context:
  "\<exists>st ctx. resolveTenantContext (sample_world True) 0 1020000 gateway_request ((\<lambda>_. None), idle_resolver) = (st, Inr ctx) \<and>
     tc_source ctx = Verified_domain \<and> tc_tenantId ctx = ''tenant-of-sign.kommun.se''"
proof -
  have "find_cookie (split_on (CHR '';'') []) = None" by code_simp
  then have c: "sessionTokenFromRequest (ar_header gateway_request) = Inr None"
    by (simp add: sessionTokenFromRequest_def gateway_request_def)
  have h: "rq_header (resolver_request gateway_request) ''host'' = Some ''Sign.kommun.se:443''"
    "rq_header (resolver_request gateway_request) ''x-forwarded-host'' = None"
    by (simp_all add: resolver_request_def gateway_request_def)
  have "stripPort ''Sign.kommun.se:443'' = Inr ''sign.kommun.se''"
    "canonicalHostname sample_parse_url True ''sign.kommun.se'' = Inr ''sign.kommun.se''" by code_simp+
  then have r: "resolveRequestHostname sample_parse_url (resolver_request gateway_request) (aw_options (sample_world True)) = Inr ''sign.kommun.se''"
    by (simp add: resolveRequestHostname_def h Let_def sample_world_def)
  show ?thesis
    using r by (simp add: resolveTenantContext_def browserSession_def c gateway_request_accepted resolve_def lookup_domain_def
        createTenantContextFromDomain_def idle_resolver_def sample_world_def)
qed


lemma other_header_kept:
  "name \<noteq> ''host'' \<Longrightarrow> trimmed_header (rq\<lparr>ar_header := (ar_header rq)(''host'' := x)\<rparr>) name = trimmed_header rq name"
  by (simp add: trimmed_header_def)

text \<open>Without a trusted proxy the signature does not bind the tenant: of a request with a forwarded host, the
  host header can be replaced by any other name, the signature verifies as before, and the resolver
  reads the new name.\<close>

theorem untrusted_proxy_frees_host:
  assumes "\<not> ro_trustProxy options" and "ar_header rq ''x-forwarded-host'' = Some f" and "v \<noteq> []"
  shows "verifyGatewayIdentity parse_url hmac key skew now (rq\<lparr>ar_header := (ar_header rq)(''host'' := Some v)\<rparr>) audience =
      verifyGatewayIdentity parse_url hmac key skew now rq audience \<and>
    resolveRequestHostname parse_url (resolver_request (rq\<lparr>ar_header := (ar_header rq)(''host'' := Some v)\<rparr>)) options =
      bindR (stripPort v) (\<lambda>h. mapErr (\<lambda>_. Host_header_invalid) (canonicalHostname parse_url True h))"
proof -
  let ?rq = "rq\<lparr>ar_header := (ar_header rq)(''host'' := Some v)\<rparr>"
  have h: "signed_host ?rq url = signed_host rq url" for url using assms(2) by (simp add: signed_host_def)
  have "signed_parts audience ?rq url = signed_parts audience rq url" for url
    unfolding signed_parts_def by (subst h, subst (1 2 3 4) other_header_kept) simp_all
  moreover have "requiredHeader ?rq name = requiredHeader rq name" if "name \<noteq> ''host''" for name
    using that by (simp add: requiredHeader_def other_header_kept)
  moreover have "ar_url ?rq = ar_url rq" by simp
  ultimately have "verifyGatewayIdentity parse_url hmac key skew now ?rq audience =
      verifyGatewayIdentity parse_url hmac key skew now rq audience"
    by (simp only: verifyGatewayIdentity_def) simp
  then show ?thesis
    using assms(1, 3) by (simp add: resolveRequestHostname_def resolver_request_def Let_def)
qed

lemma untrusted_proxy_frees_host_witness:
  "resolveRequestHostname sample_parse_url
     (resolver_request (gateway_request\<lparr>ar_header := (ar_header gateway_request)(''x-forwarded-host'' := Some ''sign.kommun.se:443'', ''host'' := Some ''other.se'')\<rparr>))
     (aw_options (sample_world False)) = Inr ''other.se''"
proof -
  let ?rq = "gateway_request\<lparr>ar_header := (ar_header gateway_request)(''x-forwarded-host'' := Some ''sign.kommun.se:443'')\<rparr>"
  have "\<not> ro_trustProxy (aw_options (sample_world False))" "ar_header ?rq ''x-forwarded-host'' = Some ''sign.kommun.se:443''"
    by (simp_all add: sample_world_def)
  note free = untrusted_proxy_frees_host [OF this, of "''other.se''" sample_parse_url sample_hmac "''key''" 60 1020000 Tenant_boundary]
  have "stripPort ''other.se'' = Inr ''other.se''" "canonicalHostname sample_parse_url True ''other.se'' = Inr ''other.se''" by code_simp+
  with free show ?thesis by simp
qed

text \<open>C14. The roles of a tenant request are remembered under an identifier that the client chooses: when a
  session has been granted roles once, its next request with the same \<open>x-request-id\<close> header is
  given the same roles without a lookup, whatever the database says by then.\<close>

theorem same_request_id_keeps_roles:
  assumes "memo_ok m"
    and "resolveTenantContext w now clock rq st = (st1, Inr ctx)" and "rolesForRequest load ctx m = (m1, Inr roles)"
    and "resolveTenantContext w' now' clock' rq' st2 = (st3, Inr ctx')"
    and "tc_source ctx = Membership" and "tc_source ctx' = Membership"
    and "tc_tenantId ctx' = tc_tenantId ctx" and "tc_subjectId ctx' = tc_subjectId ctx"
    and "trimmed_header rq ''x-request-id'' \<noteq> []" and "trimmed_header rq' ''x-request-id'' = trimmed_header rq ''x-request-id''"
  shows "rolesForRequest load' ctx' m1 = (m1, Inr roles)"
proof -
  have key: "tc_requestId c = trimmed_header q ''x-request-id''"
    if "resolveTenantContext v n k q s = (s', Inr c)" "tc_source c = Membership" "trimmed_header q ''x-request-id'' \<noteq> []"
    for v n k q s s' and c :: tenant_context
    using that
    by (auto simp: resolveTenantContext_def browserSession_def createTenantContextFromDomain_def stop_def
        split: prod.splits sum.splits option.splits if_splits)
  have "memo_key ctx' = memo_key ctx"
    using key [OF assms(2, 5, 9)] key [OF assms(4, 6)] assms(7-10) by (simp add: memo_key_def)
  moreover have "map_of m1 (memo_key ctx) = Some roles"
    using assms(1, 3) memo_remembers [of m "memo_key ctx" roles]
    by (auto simp: rolesForRequest_def memo_ok_def split: option.splits sum.splits)
  ultimately show ?thesis by (simp add: rolesForRequest_def)
qed

lemma same_request_id_keeps_roles_witness:
  "\<exists>st ctx m1. snd (resolveTenantContext (sample_world True) 1000 1000 (fst st) (snd st)) = Inr ctx \<and>
     rolesForRequest (\<lambda>_. Inr [''tenant_admin'']) ctx [] = (m1, Inr [''tenant_admin'']) \<and>
     rolesForRequest (\<lambda>_. Inr []) ctx m1 = (m1, Inr [''tenant_admin''])"
proof -
  obtain t v where s: "sample_session = Inr (t, v)"
    using sample_session_accepted by (auto split: sum.splits)
  let ?rq = "session_request (sv_sessionToken v) (sv_csrfToken v)"
  have b: "snd (browserSession sample_parse_url (take 4) ''uuid'' 1000 ?rq Tenant_boundary t)
      = Inr (Some \<lparr>bi_subject = ''subject'', bi_request = ''request-1'', bi_tenant = Some ''tenant'', bi_boundary = Tenant_boundary\<rparr>)"
    using sample_session_accepted [unfolded s, simplified] by blast
  then obtain st1 ctx where ctx: "resolveTenantContext (sample_world True) 1000 1000 ?rq (t, idle_resolver) = (st1, Inr ctx)"
    and source: "tc_source ctx = Membership"
    by (cases "browserSession sample_parse_url (take 4) ''uuid'' 1000 ?rq Tenant_boundary t")
       (auto simp: resolveTenantContext_def sample_world_def)
  have "js_trim ''request-1'' = ''request-1''" by code_simp
  then have id: "trimmed_header ?rq ''x-request-id'' \<noteq> []" by (simp add: trimmed_header_def session_request_def)
  have "memo_ok []" by (simp add: memo_ok_def)
  moreover have load: "rolesForRequest (\<lambda>_. Inr [''tenant_admin'']) ctx [] = ([(memo_key ctx, [''tenant_admin''])], Inr [''tenant_admin''])"
    by (simp add: rolesForRequest_def memo_put_def maximum_memoised_def)
  ultimately have "rolesForRequest (\<lambda>_. Inr []) ctx [(memo_key ctx, [''tenant_admin''])] = ([(memo_key ctx, [''tenant_admin''])], Inr [''tenant_admin''])"
    by (rule same_request_id_keeps_roles [OF _ ctx _ ctx source source refl refl id refl])
  with load ctx show ?thesis
    by (intro exI [of _ "(?rq, (t, idle_resolver))"] exI [of _ ctx] exI [of _ "[(memo_key ctx, [''tenant_admin''])]"]) simp
qed

end
