(* ===== verification/Control_Audit.thy ===== *)
theory Control_Audit
  imports Auth_Input Crypto_Encoding Signing_Manifest
begin

text \<open>
  The audit trail of the control plane: \<open>appendControlAudit\<close>, which exists three times
  (\<open>production-adapters/postgres/authentication-repository.ts\<close>, \<open>onboarding-repository.ts\<close> and
  \<open>apps/workers/src/platform-handlers.ts\<close>; the first hashes canonical JSON, the others \<open>JSON.stringify\<close>),
  over the rows of \<open>control.control_audit_events\<close>.

  An advisory lock makes the appenders take turns, so the trail is the list of its events in the order in
  which they were appended. The time of an event is the default of its column, \<open>now()\<close>: the start of its
  transaction, not the moment of the append. The head is the event that is greatest by time and identifier.

  The main facts: events whose transactions start in the order of their appends form a chain
  (\<open>ordered_log_chained\<close>), a chain commits to its whole content, and an append of a transaction that started
  before the head makes the next event continue the same head a second time.
\<close>

section \<open>JSON text\<close>

text \<open>\<open>JSON.stringify\<close>: members in the order of the object, those without a value left out.\<close>

function json_stringify :: "json \<Rightarrow> string" where
  "json_stringify JNull = ''null''"
| "json_stringify (JBool b) = (if b then ''true'' else ''false'')"
| "json_stringify (JNum n) = (case number_text n of Inr t \<Rightarrow> t | Inl _ \<Rightarrow> ''null'')"
| "json_stringify (JStr s) = json_string s"
| "json_stringify (JArr xs) = CHR ''['' # join_comma (map json_stringify xs) @ '']''"
| "json_stringify (JObj kvs) = CHR ''{'' # join_comma (concat (map (\<lambda>kv. case snd kv of
       None \<Rightarrow> [] | Some v \<Rightarrow> [json_string (fst kv) @ CHR '':'' # json_stringify v]) kvs)) @ ''}''"
  by pat_completeness auto
termination
proof (relation "measure size")
  fix xs :: "json list" and x
  assume "x \<in> set xs"
  then have "size x < Suc (size_list size xs)" by (induction xs) auto
  then show "(x, JArr xs) \<in> measure size" by simp
next
  fix kvs :: "(string \<times> json option) list" and x v
  assume "x \<in> set kvs" and "snd x = Some v"
  then have "(fst x, Some v) \<in> set kvs" by (metis prod.collapse)
  from json_member_size [OF this] show "(v, JObj kvs) \<in> measure size" by simp
qed simp

section \<open>The trail\<close>

record control_event =
  ce_id :: string
  ce_tenant :: "string option"
  ce_actor :: "string option"
  ce_type :: string
  ce_payload :: json
  ce_at :: int
  ce_previous :: string
  ce_hash :: string

type_synonym control_log = "control_event list"

definition no_hash :: string where
  "no_hash = replicate 64 (CHR ''0'')"

text \<open>\<open>order by occurred_at desc, id desc limit 1\<close>; an identifier is its lower-case text.\<close>

definition event_before :: "control_event \<Rightarrow> control_event \<Rightarrow> bool" where
  "event_before a b \<longleftrightarrow> ce_at a < ce_at b \<or> (ce_at a = ce_at b \<and> ce_id a < ce_id b)"

definition later_event :: "control_event option \<Rightarrow> control_event \<Rightarrow> control_event option" where
  "later_event h e = (case h of None \<Rightarrow> Some e | Some g \<Rightarrow> if event_before g e then Some e else Some g)"

definition log_head :: "control_log \<Rightarrow> control_event option" where
  "log_head trail = foldl later_event None trail"

definition previousHash :: "control_log \<Rightarrow> string" where
  "previousHash trail = (case log_head trail of None \<Rightarrow> no_hash | Some h \<Rightarrow> ce_hash h)"

definition audit_material :: "string option \<Rightarrow> string option \<Rightarrow> string \<Rightarrow> json \<Rightarrow> string \<Rightarrow> json" where
  "audit_material tenantId actorId eventType payload previous =
     JObj [(''tenantId'', Some (nullable tenantId)), (''actorId'', Some (nullable actorId)), (''eventType'', Some (JStr eventType)),
       (''payload'', Some payload), (''previousHash'', Some (JStr previous))]"

record audit_entry =
  ae_id :: string
  ae_tenant :: "string option"
  ae_actor :: "string option"
  ae_type :: string
  ae_payload :: json
  ae_at :: int

definition append_event ::
  "(json \<Rightarrow> string auth) \<Rightarrow> (byte list \<Rightarrow> byte list) \<Rightarrow> audit_entry \<Rightarrow> control_log \<Rightarrow> control_log auth" where
  "append_event serialise sha256 a trail =
     (let previous = previousHash trail
      in bindR (serialise (audit_material (ae_tenant a) (ae_actor a) (ae_type a) (ae_payload a) previous)) (\<lambda>material.
         let h = sha256Hex sha256 (TextInput material)
         in if list_ex (\<lambda>e. ce_hash e = h) trail then Inl (Sql_state ''23505'')
            else Inr (trail @ [\<lparr>ce_id = ae_id a, ce_tenant = ae_tenant a, ce_actor = ae_actor a, ce_type = ae_type a,
                   ce_payload = ae_payload a, ce_at = ae_at a, ce_previous = previous, ce_hash = h\<rparr>])))"

text \<open>The three copies.\<close>

definition canonical_text :: "json \<Rightarrow> string auth" where
  "canonical_text v = mapErr (\<lambda>_. Thrown ''Canonical JSON does not support the value'') (canonicalJson v)"

definition appendControlAudit :: "(byte list \<Rightarrow> byte list) \<Rightarrow> audit_entry \<Rightarrow> control_log \<Rightarrow> control_log auth" where
  "appendControlAudit = append_event canonical_text"

definition appendOnboardingAudit :: "(byte list \<Rightarrow> byte list) \<Rightarrow> audit_entry \<Rightarrow> control_log \<Rightarrow> control_log auth" where
  "appendOnboardingAudit = append_event (\<lambda>v. Inr (json_stringify v))"

definition appendWorkerAudit :: "(byte list \<Rightarrow> byte list) \<Rightarrow> string \<Rightarrow> int \<Rightarrow> string \<Rightarrow> json \<Rightarrow> control_log \<Rightarrow> control_log auth" where
  "appendWorkerAudit sha256 uuid now eventType payload =
     append_event (\<lambda>v. Inr (json_stringify v)) sha256
       \<lparr>ae_id = uuid, ae_tenant = None, ae_actor = None, ae_type = eventType, ae_payload = payload, ae_at = now\<rparr>"

section \<open>Chains\<close>

fun chained_from :: "string \<Rightarrow> control_log \<Rightarrow> bool" where
  "chained_from h [] = True"
| "chained_from h (e # es) = (ce_previous e = h \<and> chained_from (ce_hash e) es)"

definition chained :: "control_log \<Rightarrow> bool" where
  "chained = chained_from no_hash"

definition last_hash :: "string \<Rightarrow> control_log \<Rightarrow> string" where
  "last_hash h trail = (if trail = [] then h else ce_hash (last trail))"

lemma chained_snoc: "chained_from h (trail @ [e]) \<longleftrightarrow> chained_from h trail \<and> ce_previous e = last_hash h trail"
  by (induction trail arbitrary: h) (auto simp: last_hash_def)

lemma log_head_snoc [simp]: "log_head (trail @ [e]) = later_event (log_head trail) e"
  by (simp add: log_head_def)

lemma log_head_Nil [simp]: "log_head [] = None"
  by (simp add: log_head_def)

lemma log_head_mem: "log_head trail = Some h \<Longrightarrow> h \<in> set trail"
  by (induction trail arbitrary: h rule: rev_induct) (auto simp: later_event_def split: option.splits if_splits)

lemma append_event_Inr:
  assumes "append_event serialise sha256 a trail = Inr trail'"
  obtains material where
    "serialise (audit_material (ae_tenant a) (ae_actor a) (ae_type a) (ae_payload a) (previousHash trail)) = Inr material"
    "trail' = trail @ [\<lparr>ce_id = ae_id a, ce_tenant = ae_tenant a, ce_actor = ae_actor a, ce_type = ae_type a,
       ce_payload = ae_payload a, ce_at = ae_at a, ce_previous = previousHash trail,
       ce_hash = sha256Hex sha256 (TextInput material)\<rparr>]"
    "\<forall>e \<in> set trail. ce_hash e \<noteq> sha256Hex sha256 (TextInput material)"
  using assms by (auto simp: append_event_def Let_def bindR_Inr_iff list_ex_iff split: if_splits)

section \<open>Histories\<close>

text \<open>
  A history of appends by any of the three writers. \<open>prompt\<close> says of an append that its transaction started
  after every event of the log.
\<close>

definition prompt :: "audit_entry \<Rightarrow> control_log \<Rightarrow> bool" where
  "prompt a trail \<longleftrightarrow> (\<forall>e \<in> set trail. ce_at e < ae_at a)"

definition text_writers :: "(json \<Rightarrow> string auth) set" where
  "text_writers = {canonical_text, \<lambda>v. Inr (json_stringify v)}"

inductive audit_history :: "(byte list \<Rightarrow> byte list) \<Rightarrow> control_log \<Rightarrow> bool" for sha256 where
  empty_log: "audit_history sha256 []"
| appended: "audit_history sha256 trail \<Longrightarrow> serialise \<in> text_writers \<Longrightarrow>
    append_event serialise sha256 a trail = Inr trail' \<Longrightarrow> audit_history sha256 trail'"

inductive ordered_history :: "(byte list \<Rightarrow> byte list) \<Rightarrow> control_log \<Rightarrow> bool" for sha256 where
  empty_ordered: "ordered_history sha256 []"
| appended_prompt: "ordered_history sha256 trail \<Longrightarrow> serialise \<in> text_writers \<Longrightarrow> prompt a trail \<Longrightarrow>
    append_event serialise sha256 a trail = Inr trail' \<Longrightarrow> ordered_history sha256 trail'"

lemma ordered_head:
  assumes "ordered_history sha256 trail"
  shows "chained trail \<and> log_head trail = (if trail = [] then None else Some (last trail))"
  using assms
proof (induction rule: ordered_history.induct)
  case empty_ordered
  then show ?case by (simp add: chained_def)
next
  case (appended_prompt trail serialise a trail')
  obtain e where e: "trail' = trail @ [e]" "ce_previous e = previousHash trail" "ce_at e = ae_at a"
    using append_event_Inr [OF appended_prompt.hyps(4)] by (metis control_event.select_convs(6, 7))
  have "previousHash trail = last_hash no_hash trail"
    using appended_prompt.IH by (simp add: previousHash_def last_hash_def)
  then have "chained trail'" using appended_prompt.IH e by (simp add: chained_def chained_snoc)
  moreover have "log_head trail' = Some e"
  proof (cases "log_head trail")
    case (Some h)
    then have "event_before h e" using log_head_mem [OF Some] appended_prompt.hyps(3) e(3) by (auto simp: prompt_def event_before_def)
    then show ?thesis using Some e(1) by (simp add: later_event_def)
  qed (simp add: e(1) later_event_def)
  ultimately show ?case using e(1) by simp
qed

section \<open>What a chain commits to\<close>

definition event_material :: "control_event \<Rightarrow> json" where
  "event_material e = audit_material (ce_tenant e) (ce_actor e) (ce_type e) (ce_payload e) (ce_previous e)"

definition verified_log :: "(byte list \<Rightarrow> byte list) \<Rightarrow> control_log \<Rightarrow> bool" where
  "verified_log sha256 trail \<longleftrightarrow> chained trail \<and>
     list_all (\<lambda>e. canonical_text (event_material e) \<in> Inr ` {m. ce_hash e = sha256Hex sha256 (TextInput m)} \<and>
       wf_json (ce_payload e)) trail"

definition same_event :: "control_event \<Rightarrow> control_event \<Rightarrow> bool" where
  "same_event a b \<longleftrightarrow> ce_tenant a = ce_tenant b \<and> ce_actor a = ce_actor b \<and> ce_type a = ce_type b \<and>
     norm_json (ce_payload a) = norm_json (ce_payload b) \<and> ce_previous a = ce_previous b"

definition log_texts :: "control_log \<Rightarrow> string set" where
  "log_texts trail = {m. \<exists>e \<in> set trail. canonical_text (event_material e) = Inr m}"

lemma wf_material: "wf_json (audit_material t a y p h) \<longleftrightarrow> wf_json p"
  by (cases t; cases a) (simp_all add: audit_material_def nullable_def)

lemma material_fields:
  assumes "norm_json (audit_material t a y p h) = norm_json (audit_material t' a' y' p' h')"
  shows "t = t' \<and> a = a' \<and> y = y' \<and> norm_json p = norm_json p' \<and> h = h'"
proof -
  let ?kvs = "\<lambda>t a y p h. [(''tenantId'', Some (nullable t)), (''actorId'', Some (nullable a)), (''eventType'', Some (JStr y)),
       (''payload'', Some p), (''previousHash'', Some (JStr h))]"
  note m = norm_obj_member [OF assms [unfolded audit_material_def]]
  have "\<exists>w. (''tenantId'', Some w) \<in> set (?kvs t' a' y' p' h') \<and> norm_json w = norm_json (nullable t)" by (rule m) simp
  moreover have "\<exists>w. (''actorId'', Some w) \<in> set (?kvs t' a' y' p' h') \<and> norm_json w = norm_json (nullable a)" by (rule m) simp
  moreover have "\<exists>w. (''eventType'', Some w) \<in> set (?kvs t' a' y' p' h') \<and> norm_json w = norm_json (JStr y)" by (rule m) simp
  moreover have "\<exists>w. (''payload'', Some w) \<in> set (?kvs t' a' y' p' h') \<and> norm_json w = norm_json p" by (rule m) simp
  moreover have "\<exists>w. (''previousHash'', Some w) \<in> set (?kvs t' a' y' p' h') \<and> norm_json w = norm_json (JStr h)" by (rule m) simp
  ultimately show ?thesis by auto
qed

lemma same_hash_same_event:
  assumes "canonical_text (event_material a) = Inr m" "canonical_text (event_material b) = Inr n"
    and "wf_json (ce_payload a)" "wf_json (ce_payload b)" and "sha256 (text_encode m) = sha256 (text_encode n)"
    and "inj_on (\<lambda>m. sha256 (text_encode m)) A" "m \<in> A" "n \<in> A"
  shows "same_event a b"
proof -
  have "m = n" using assms(5-8) by (auto dest: inj_onD)
  then have "encode (event_material a) = Inr m" "encode (event_material b) = Inr m"
    using assms(1, 2) by (simp_all add: canonical_text_def canonicalJson_def)
  then have "norm_json (event_material a) = norm_json (event_material b)"
    using encode_same_iff [of "event_material a" "event_material b" m] assms(3, 4) by (simp add: event_material_def wf_material)
  then show ?thesis unfolding event_material_def same_event_def by (rule material_fields)
qed

lemma verified_snoc:
  "verified_log sha256 (trail @ [e]) \<Longrightarrow> verified_log sha256 trail \<and> ce_previous e = last_hash no_hash trail"
  by (simp add: verified_log_def chained_def chained_snoc)

section \<open>A sample trail\<close>

definition sample_entry :: "string \<Rightarrow> int \<Rightarrow> audit_entry" where
  "sample_entry y time = \<lparr>ae_id = y, ae_tenant = None, ae_actor = None, ae_type = y, ae_payload = JObj [], ae_at = time\<rparr>"

definition sample_digest_bytes :: "byte list \<Rightarrow> byte list" where
  "sample_digest_bytes bs = [of_nat (length bs)]"

lemma sample_fork:
  "(case appendOnboardingAudit sample_digest_bytes (sample_entry ''a'' 2) [] of
      Inr t \<Rightarrow> (case log_head t of Some h \<Rightarrow> ce_at h = 2 | None \<Rightarrow> False) \<and>
        (case appendOnboardingAudit sample_digest_bytes (sample_entry ''bb'' 1) t of
           Inr t1 \<Rightarrow> is_ok (appendOnboardingAudit sample_digest_bytes (sample_entry ''ccc'' 3) t1) | Inl _ \<Rightarrow> False)
    | Inl _ \<Rightarrow> False)"
  by code_simp

lemma sample_single:
  "appendOnboardingAudit sample_digest_bytes (sample_entry ''a'' 2) [] =
     Inr [\<lparr>ce_id = ''a'', ce_tenant = None, ce_actor = None, ce_type = ''a'', ce_payload = JObj [], ce_at = 2,
        ce_previous = no_hash, ce_hash = sha256Hex sample_digest_bytes (TextInput (json_stringify
          (audit_material None None ''a'' (JObj []) no_hash)))\<rparr>]"
  by (simp add: appendOnboardingAudit_def append_event_def Let_def previousHash_def sample_entry_def)

text \<open>One event in canonical JSON, and the log that holds it.\<close>

lemma sample_canonical:
  obtains m e where "canonical_text (event_material e) = Inr m" "ce_previous e = no_hash" "ce_payload e = JObj []"
    "ce_hash e = sha256Hex sample_digest_bytes (TextInput m)"
proof -
  let ?v = "audit_material None None ''a'' (JObj []) no_hash"
  have "serialisable ?v" by (simp add: audit_material_def nullable_def)
  then obtain m where m: "encode ?v = Inr m" using encode_total by blast
  let ?e = "\<lparr>ce_id = ''a'', ce_tenant = None, ce_actor = None, ce_type = ''a'', ce_payload = JObj [], ce_at = 2,
        ce_previous = no_hash, ce_hash = sha256Hex sample_digest_bytes (TextInput m)\<rparr>"
  have "canonical_text (event_material ?e) = Inr m"
    using m by (simp add: canonical_text_def canonicalJson_def event_material_def)
  then show thesis by (rule that [of ?e]) simp_all
qed

section \<open>Properties\<close>

text \<open>C31. While the transactions that append start in the order in which they take the lock, the log of the
  control plane is one chain from the empty hash, whichever of the three writers appends.\<close>

theorem ordered_log_chained:
  assumes "ordered_history sha256 trail"
  shows "chained trail"
  using ordered_head [OF assms] ..

theorem ordered_log_chained_witness:
  "\<exists>trail. ordered_history sample_digest_bytes trail \<and> length trail = 1 \<and> chained trail"
proof -
  have "ordered_history sample_digest_bytes [\<lparr>ce_id = ''a'', ce_tenant = None, ce_actor = None, ce_type = ''a'', ce_payload = JObj [],
      ce_at = 2, ce_previous = no_hash, ce_hash = sha256Hex sample_digest_bytes (TextInput (json_stringify
          (audit_material None None ''a'' (JObj []) no_hash)))\<rparr>]" (is "ordered_history _ ?t")
    by (rule ordered_history.appended_prompt [OF ordered_history.empty_ordered _ _ sample_single [unfolded appendOnboardingAudit_def]])
      (simp_all add: text_writers_def prompt_def)
  from this ordered_log_chained [OF this] show ?thesis by (intro exI [of _ ?t]) simp
qed



text \<open>C17. The lock does not keep the chain from forking: when a transaction appends that started before the head
  did, its event continues the head, and so does the next event, whoever writes it; the log is a chain
  no more.\<close>

theorem audit_chain_forks:
  assumes "log_head trail = Some h" and "ae_at a < ce_at h"
    and "append_event serialise sha256 a trail = Inr t1" and "append_event serialise' sha256 b t1 = Inr t2"
  shows "ce_previous (last t1) = ce_hash h \<and> ce_previous (last t2) = ce_hash h \<and> \<not> chained t2"
proof -
  obtain e where e: "t1 = trail @ [e]" "ce_previous e = previousHash trail" "ce_at e = ae_at a" "\<forall>x \<in> set trail. ce_hash x \<noteq> ce_hash e"
    using append_event_Inr [OF assms(3)] by (metis control_event.select_convs(6, 7, 8))
  have p: "previousHash trail = ce_hash h" using assms(1) by (simp add: previousHash_def)
  have "\<not> event_before h e" using assms(2) e(3) by (simp add: event_before_def)
  then have "previousHash t1 = ce_hash h" using assms(1) by (simp add: previousHash_def e(1) later_event_def)
  then obtain f where f: "t2 = t1 @ [f]" "ce_previous f = ce_hash h"
    using append_event_Inr [OF assms(4)] by (metis control_event.select_convs(7))
  have "ce_hash h \<noteq> ce_hash e" using e(4) log_head_mem [OF assms(1)] by blast
  then have "\<not> chained t2"
    unfolding chained_def f(1) chained_snoc by (simp add: e(1) f(2) last_hash_def)
  then show ?thesis using e f p by simp
qed

theorem audit_chain_forks_witness:
  "\<exists>(h :: control_event) t1 t2. h \<in> set t1 \<and> ce_previous (last t1) = ce_hash h \<and> ce_previous (last t2) = ce_hash h \<and> \<not> chained t2"
proof -
  obtain t h where t: "log_head t = Some h" "ce_at h = 2"
      "is_ok (case appendOnboardingAudit sample_digest_bytes (sample_entry ''bb'' 1) t of
         Inr t1 \<Rightarrow> appendOnboardingAudit sample_digest_bytes (sample_entry ''ccc'' 3) t1 | Inl x \<Rightarrow> Inl x)"
    using sample_fork by (auto split: sum.splits option.splits)
  then obtain t1 t2 where a: "appendOnboardingAudit sample_digest_bytes (sample_entry ''bb'' 1) t = Inr t1"
      "appendOnboardingAudit sample_digest_bytes (sample_entry ''ccc'' 3) t1 = Inr t2"
    by (auto simp: is_ok_def split: sum.splits)
  obtain e where "t1 = t @ [e]" using append_event_Inr [OF a(1) [unfolded appendOnboardingAudit_def]] by metis
  then have "h \<in> set t1" using log_head_mem [OF t(1)] by simp
  moreover have "ae_at (sample_entry ''bb'' 1) < ce_at h" using t(2) by (simp add: sample_entry_def)
  ultimately show ?thesis using audit_chain_forks [OF t(1) _ a [unfolded appendOnboardingAudit_def]] by blast
qed

text \<open>A column of type \<open>jsonb\<close> does not keep the order of members. The text that two of the writers hash depends
  on it, so that it cannot be computed again from the stored row; canonical JSON does not depend on it.\<close>

lemma stored_payload_loses_order:
  "\<exists>p q. norm_json p = norm_json q \<and> canonical_text p = canonical_text q \<and> json_stringify p \<noteq> json_stringify q"
proof -
  let ?p = "JObj [(''a'', Some JNull), (''b'', Some (JBool True))]"
  let ?q = "JObj [(''b'', Some (JBool True)), (''a'', Some JNull)]"
  have "norm_json ?p = norm_json ?q" by code_simp
  moreover have "canonical_text ?p = canonical_text ?q" by code_simp
  moreover have "json_stringify ?p \<noteq> json_stringify ?q" by code_simp
  ultimately show ?thesis by blast
qed

end
