(* ===== verification/Spec2Isabelle.thy ===== *)
theory Spec2Isabelle
  imports Js_Date Canonical_Json Crypto_Encoding Signing_Manifest Personal_Number Federation Scim Retention Gallring
    Pades_Gate Key_Rotation Privacy Protected_Identity Job_Queue Authorization Tenant_Gateway Fgs Webhook_Delivery Signing_Properties
    Rate_Limit Request_Auth Control_Audit
begin

text \<open>
  Kommunsign is a platform on which Swedish municipalities have documents signed. This
  development models the packages that carry its decisions (\<open>packages/*/src\<close>, TypeScript), the
  job queue that its workers run on (\<open>apps/workers/src\<close>), and the signing flow: the repositories,
  worker handlers and database triggers (\<open>apps/api/src\<close>, \<open>apps/workers/src\<close>, \<open>migrations/data\<close>) through
  which a case is drawn up, sent, signed and closed.

  \<^bold>\<open>How the parts interact.\<close> A request reaches a tenant through its host (\<open>Tenant_Gateway\<close>), whose
  host names, slugs and proofs of control are \<open>Custom_Domains\<close>; an organisation becomes a tenant
  through \<open>Onboarding\<close>. A caller is admitted by a federated assertion (\<open>Federation\<close>), is provisioned
  by \<open>Scim\<close>, obtains roles through \<open>Role_Mapping\<close> and permissions through \<open>Authorization\<close>. The documents
  of a case are bound by the manifest of \<open>Signing_Manifest\<close>, whose bytes are \<open>Canonical_Json\<close> and
  whose digests and tokens are \<open>Crypto_Encoding\<close>; a signer is identified by \<open>Personal_Number\<close>, and a
  signature is admitted by \<open>Pades_Gate\<close>. The outcome leaves as the package of \<open>Evidence_Zip\<close>, or, for an
  archive, as the package of \<open>Archive\<close> with the METS descriptor of \<open>Fgs\<close>. What is
  kept is disposed of by \<open>Retention\<close> and \<open>Gallring\<close>, disclosed by \<open>Privacy\<close>, shielded by
  \<open>Protected_Identity\<close> and encrypted under the ring of \<open>Key_Rotation\<close>. Work between requests is a row
  of the queue of \<open>Jobs\<close> and \<open>Job_Queue\<close>; one kind of job delivers events to subscribers
  (\<open>Webhook_Delivery\<close>, on the signatures and guards of \<open>Webhooks\<close>).

  Every request of the tenant and platform portals is authenticated by \<open>Request_Auth\<close>, from a session of
  \<open>Host_Sessions\<close> or from the signed identity of a gateway; attempts to log in are counted by
  \<open>Rate_Limit\<close>, a login moves from the portal to the tenant's host by a code of \<open>Auth_Broker\<close>, and what
  changes is written to the trail of \<open>Control_Audit\<close>.

  A case passes through five stages on shared tables (\<open>Signing_State\<close>): its documents are uploaded
  (\<open>Uploads\<close>), scanned and made canonical (\<open>Document_Intake\<close>); it is sent, and the first group is invited
  (\<open>Signing_Case\<close>); a signer opens a BankID session whose evidence is collected and validated
  (\<open>Bankid_Signing\<close>); a PAdES signature is created on the newest revision of each document and admitted,
  which completes the signer and invites the next group (\<open>Pades_Chain\<close>); the package of the signer or
  of the case is stored (\<open>Signing_Package\<close>). The stages meet only in the rows and in queued jobs, and
  every status change passes a trigger of the database (\<open>Signing_Tables\<close>).

  \<^bold>\<open>Theories, sources and lemmas.\<close>
  \<^item> \<open>Prelude\<close>, \<open>Js_Date\<close>, \<open>Js_Float\<close>, \<open>Js_Number\<close>, \<open>Transitions\<close>: results, JavaScript's strings, numbers
    and dates, and the contract of a status table.
  \<^item> \<open>Canonical_Json\<close>, \<open>Crypto_Encoding\<close>, \<open>Key_Rotation\<close> (\<open>packages/crypto\<close>): equal bytes mean equal
    content; HMAC comparison is exact; promotion and retirement keep every row readable, and two
    ways in which rollback and retirement do not.
  \<^item> \<open>Signing_Manifest\<close> (\<open>packages/signing-engine\<close>): which inputs are accepted, and that the bytes
    commit to every document whatever the order it was given in.
  \<^item> \<open>Personal_Number\<close> (\<open>packages/personal-number\<close>): a mistyped digit is always rejected; the binding of
    an identity to a signer.
  \<^item> \<open>Federation\<close>, \<open>Scim\<close>, \<open>Role_Mapping\<close>, \<open>Authorization\<close> (packages of the same names): exact admission
    conditions, single use of an assertion, uniqueness and idempotence of provisioning, roles that
    come from the mapping and nowhere else.
  \<^item> \<open>Onboarding\<close>, \<open>Custom_Domains\<close>, \<open>Tenant_Gateway\<close>: every history of an application or a domain
    passes the gates of its table; a host resolves to its own tenant whatever the cache holds.
  \<^item> \<open>Retention\<close>, \<open>Gallring\<close> (\<open>packages/retention\<close>), \<open>Privacy\<close> (\<open>packages/privacy\<close>),
    \<open>Protected_Identity\<close>, \<open>Pades_Gate\<close>: disposal only when lawful, life cycles as step relations with
    invariants of their reachable states, disclosure antitone in the level of protection.
  \<^item> \<open>Evidence_Zip\<close> (\<open>packages/evidence\<close>): parsing inverts writing; a verified package is complete.
  \<^item> \<open>Archive\<close>, \<open>Fgs\<close> (\<open>packages/archive\<close>): which cases can be archived, a verified delivery is the
    package that was made, and attributes of the descriptor read back as they were written.
  \<^item> \<open>Webhooks\<close> (\<open>packages/webhooks\<close>), \<open>Webhook_Delivery\<close> (\<open>apps/workers/src/webhook-handlers.ts\<close>): a
    signed message is accepted inside its window only, the address guard as a set of 32-bit blocks and the
    addresses it misses; no endpoint is sent an event it has accepted, the last attempt settles every
    delivery, and what one broken secret does to that.
  \<^item> \<open>Jobs\<close>, \<open>Job_Queue\<close> (\<open>apps/workers/src/jobs.ts\<close>, \<open>postgres-production-adapter.ts\<close>,
    \<open>production-runner.ts\<close>, \<open>apps/api/src/adapters/postgres-queue.ts\<close> and the claim function of the
    migrations): leases exclude other workers, every job is settled, retry delays stay in their
    window although they are computed in rounded arithmetic.

  \<^item> \<open>Auth_Input\<close>, \<open>Auth_Broker\<close> (\<open>auth-router.ts\<close>, \<open>packages/auth-broker\<close>,
    \<open>application-session-repository.ts\<close>): readers of requests, normalisers and the table of errors; the exchange of
    an authorisation code over any store (locale \<open>code_store\<close>), and why the SQL store refuses every code.
  \<^item> \<open>Rate_Limit\<close> (\<open>authentication-repository.ts\<close>): how many attempts a bucket admits in a window, when it
    opens again, and a client that no bucket stops.
  \<^item> \<open>Host_Sessions\<close> (\<open>application-session-repository.ts\<close>, \<open>authentication-repository.ts\<close>): sessions as rows
    with every operation on them as a step relation (locale \<open>session_operation\<close>); a session stays bound to
    its host and tenant, a revoked one never returns, and a logout that revokes nothing.
  \<^item> \<open>Request_Auth\<close> (\<open>request-auth.ts\<close> and the role memo of \<open>postgres/index.ts\<close>): what a gateway
    signature commits to, with and without a trusted proxy, and how long remembered roles live.
  \<^item> \<open>Control_Audit\<close> (\<open>appendControlAudit\<close> in its three copies): a chain of audit events commits to its
    content; when the log is a chain, and when it forks.

  \<^item> \<open>Uploads\<close> (\<open>packages/uploads\<close>), \<open>Document_Intake\<close>, \<open>Signing_Case\<close>, \<open>Bankid_Signing\<close>,
    \<open>Pades_Chain\<close>, \<open>Signing_Package\<close> (\<open>data-database.ts\<close>, \<open>public-signing-repository.ts\<close>,
    \<open>production-handlers.ts\<close>, \<open>pades-handlers.ts\<close>, \<open>signing-groups.ts\<close>, \<open>s3-object-storage.ts\<close>): one
    definition per transaction, on the tables and triggers of \<open>Signing_Tables\<close> and \<open>Signing_State\<close>.
  \<^item> \<open>Signing_Updates\<close>, \<open>Signing_Evolution\<close>, \<open>Signing_Evidence\<close>: what a transaction leaves intact. The
    locale \<open>frame\<close> (with \<open>statement_frame\<close> in \<open>Signing_Limits\<close>) turns a fact about the update statements
    into one about every transaction; its interpretations are the relations the invariants need.
  \<^item> \<open>Signing_Flow\<close>: every history of a case as a step relation, with the transactions in any order and
    with any arguments. \<open>Signing_Order\<close>, \<open>Signing_Limits\<close>, \<open>Signing_Documents\<close>: invariants of its reachable
    states on turns, sessions, artifacts, documents and revisions.
  \<^item> \<open>Signing_Example\<close>, \<open>Signing_Properties\<close>: a history evaluated in the logic, from an empty case to a
    signed signer; what \<open>signed\<close> stands for, in which order signers sign, that revisions form a chain; and
    what no history does: complete a case, sign after a reminder, after a second session or with two
    documents, or reach a level above PAdES-B.

  \<^bold>\<open>State and errors.\<close> State is a record or a list of rows passed through the operations, an SQL
  statement is one atomic update, and concurrency is a sequence of steps. A thrown error is \<open>Inl\<close>,
  a value is \<open>Inr\<close>. Time, randomness and everything remote are arguments.

  \<^bold>\<open>Bounds.\<close> Numbers are integers where the code holds them to safe integers, \<open>jsnum\<close> where it
  tests them, rationals rounded by \<open>fl\<close> where it computes in fractions, and words where it works
  with bits. A string is a list of code units from 0 to 255. No recursion has fuel: every loop of
  the code is structural or has a measure.

  \<^bold>\<open>Parameters.\<close> SHA-256, HMAC, random bytes, URL parsing, collation, UTF-8 decoding, \<open>JSON.parse\<close>,
  DNS and HTTP belong to the platform and are arguments of the definitions; what a theorem needs of
  them (the length of a digest, that two digests of interest differ, that decoding undoes encoding)
  is a hypothesis with a witness.

  \<^bold>\<open>The signing flow.\<close> A state holds the rows of one case; a signer's flow of requests and jobs is the
  sequence of its transactions, so that everything may happen between two of them. What a transaction
  was given by an earlier one is an arbitrary argument, except that keys are fresh and that a session is
  recorded with a start input that was loaded. Encrypted columns stand for their plain text.

  \<^bold>\<open>Not modelled.\<close> SQL repositories beyond the queue, the signing flow, sessions and the control audit
  (accounts, invitations and passwords, provisioning, settings, metrics), HTTP routing and dependency wiring; marks that the e-mail webhook
  sets on bounced addresses, which only narrow reminders; the Freja tables, which no code writes; clients of remote services and document tools, whose
  behaviour is theirs; the Java services; browser applications, texts and metrics; messages of
  errors, except where a verification reports them.
\<close>

end
